(* ===== verification/Prelude.thy ===== *)
theory Prelude
  imports Main "HOL-Library.Word" "HOL-Library.AList" "HOL-Library.Sublist" "HOL-Library.Char_ord"
begin

text \<open>
  Shared vocabulary of the development: results as sums, hash maps as association lists,
  Rust strings as lists of UTF-8 bytes, saturating arithmetic, decimal rendering, and the lemma
  collections the component theories use.

  \<^item> A Rust \<^verbatim>\<open>Result<T, E>\<close> is a sum \<open>'e + 't\<close>: \<open>Inl\<close> is \<^verbatim>\<open>Err\<close>, \<open>Inr\<close> is \<^verbatim>\<open>Ok\<close>.
  \<^item> A \<^verbatim>\<open>HashMap<K, V>\<close> is an association list with distinct keys. Its order stands for the map's
    (unspecified) iteration order; no property of the development depends on it.
  \<^item> A Rust \<^verbatim>\<open>String\<close>/\<^verbatim>\<open>&str\<close> is the list of its UTF-8 bytes (type \<open>string\<close>), so \<open>length\<close> is
    \<^verbatim>\<open>str::len\<close>.
  \<^item> An \<^verbatim>\<open>Instant\<close> or a \<^verbatim>\<open>Duration\<close> is a number of nanoseconds.
\<close>

named_theorems hm_simps \<open>rewrite rules for hash maps modelled as association lists\<close>
named_theorems inv_intros \<open>invariant preservation rules of the components\<close>
named_theorems str_simps \<open>rewrite rules for strings as UTF-8 byte lists\<close>

section \<open>Results\<close>

abbreviation Err :: "'e \<Rightarrow> 'e + 'a" where "Err \<equiv> Inl"
abbreviation Ok :: "'a \<Rightarrow> 'e + 'a" where "Ok \<equiv> Inr"

lemma map_sum_eq_Inr [simp]: "map_sum f g x = Inr y \<longleftrightarrow> (\<exists>z. x = Inr z \<and> y = g z)"
  by (cases x) auto

lemma map_sum_eq_Inl [simp]: "map_sum f g x = Inl y \<longleftrightarrow> (\<exists>z. x = Inl z \<and> y = f z)"
  by (cases x) auto

lemma apfst_eq_Pair: "apfst f p = (a, b) \<longleftrightarrow> a = f (fst p) \<and> b = snd p"
  by (cases p) auto

type_synonym byte = "8 word"
type_synonym instant = nat
type_synonym duration = nat

text \<open>\<^verbatim>\<open>Duration::from_secs\<close> in nanoseconds.\<close>

definition from_secs :: "nat \<Rightarrow> duration" where
  "from_secs s = s * 1000000000"

definition from_millis :: "nat \<Rightarrow> duration" where
  "from_millis s = s * 1000000"

section \<open>Saturating arithmetic at 64 bits\<close>

definition u64_max :: nat where
  "u64_max = 18446744073709551615"

text \<open>\<^verbatim>\<open>u64::saturating_add\<close>; \<^verbatim>\<open>saturating_sub\<close> is subtraction on \<open>nat\<close>.\<close>

definition sat_add :: "nat \<Rightarrow> nat \<Rightarrow> nat" where
  "sat_add a b = min (a + b) u64_max"

text \<open>\<^verbatim>\<open>Duration::MAX\<close>: \<open>u64_max\<close> seconds and 999999999 nanoseconds.\<close>

definition duration_max :: duration where
  "duration_max = u64_max * 1000000000 + 999999999"

lemma sat_add_exact: "a + b \<le> u64_max \<Longrightarrow> sat_add a b = a + b"
  by (simp add: sat_add_def)

lemma sat_add_le: "sat_add a b \<le> u64_max"
  by (simp add: sat_add_def)

section \<open>Hash maps as association lists\<close>

type_synonym ('k, 'v) hashmap = "('k \<times> 'v) list"

abbreviation hm_get :: "('k, 'v) hashmap \<Rightarrow> 'k \<Rightarrow> 'v option" where
  "hm_get \<equiv> map_of"

abbreviation hm_insert :: "'k \<Rightarrow> 'v \<Rightarrow> ('k, 'v) hashmap \<Rightarrow> ('k, 'v) hashmap" where
  "hm_insert \<equiv> AList.update"

abbreviation hm_remove :: "'k \<Rightarrow> ('k, 'v) hashmap \<Rightarrow> ('k, 'v) hashmap" where
  "hm_remove \<equiv> AList.delete"

definition hm_keys :: "('k, 'v) hashmap \<Rightarrow> 'k list" where
  "hm_keys m = map fst m"

definition hm_values :: "('k, 'v) hashmap \<Rightarrow> 'v list" where
  "hm_values m = map snd m"

definition hm_contains :: "('k, 'v) hashmap \<Rightarrow> 'k \<Rightarrow> bool" where
  "hm_contains m k \<longleftrightarrow> map_of m k \<noteq> None"

lemma hm_keys_Cons [simp]: "hm_keys [] = []" "hm_keys (p # m) = fst p # hm_keys m"
  by (simp_all add: hm_keys_def)

lemma hm_values_Cons [simp]: "hm_values [] = []" "hm_values (p # m) = snd p # hm_values m"
  by (simp_all add: hm_values_def)

lemma hm_keys_append [simp]: "hm_keys (m @ m') = hm_keys m @ hm_keys m'"
  by (simp add: hm_keys_def)

lemma hm_length_keys [simp]: "length (hm_keys m) = length m"
  by (simp add: hm_keys_def)

lemma hm_keys_empty [simp]: "hm_keys m = [] \<longleftrightarrow> m = []"
  by (simp add: hm_keys_def)

lemma hm_contains_keys [hm_simps]: "hm_contains m k \<longleftrightarrow> k \<in> set (hm_keys m)"
  by (auto simp: hm_contains_def map_of_eq_None_iff hm_keys_def)

lemma hm_contains_Some: "map_of m k = Some v \<Longrightarrow> hm_contains m k"
  by (simp add: hm_contains_def)

lemma hm_get_None: "hm_get m k = None \<longleftrightarrow> k \<notin> set (hm_keys m)"
  by (simp add: map_of_eq_None_iff hm_keys_def)

lemma hm_get_key: "hm_get m k = Some v \<Longrightarrow> k \<in> set (hm_keys m)"
  using hm_get_None [of m k] by auto

lemma hm_key_get: "k \<in> set (hm_keys m) \<Longrightarrow> \<exists>v. hm_get m k = Some v"
  using hm_get_None [of m k] by auto

lemma hm_keys_insert_list:
  "hm_keys (hm_insert k v m) = (if k \<in> set (hm_keys m) then hm_keys m else hm_keys m @ [k])"
  unfolding hm_keys_def by (rule update_keys)

lemma hm_keys_insert [hm_simps]:
  "set (hm_keys (hm_insert k v m)) = insert k (set (hm_keys m))"
  by (auto simp: hm_keys_insert_list)

lemma hm_keys_insert_present [hm_simps]:
  "hm_get m k = Some v \<Longrightarrow> hm_keys (hm_insert k v' m) = hm_keys m"
  by (simp add: hm_keys_insert_list hm_get_key)

lemma hm_keys_remove [hm_simps]: "hm_keys (hm_remove k m) = removeAll k (hm_keys m)"
  unfolding hm_keys_def by (rule delete_keys)

lemma hm_get_insert [hm_simps]: "hm_get (hm_insert k v m) = (hm_get m)(k \<mapsto> v)"
  by (rule update_conv')

lemma hm_get_remove [hm_simps]: "hm_get (hm_remove k m) = (hm_get m)(k := None)"
  by (rule delete_conv')

lemma hm_distinct_insert [inv_intros]:
  "distinct (hm_keys m) \<Longrightarrow> distinct (hm_keys (hm_insert k v m))"
  by (simp add: hm_keys_insert_list)

lemma hm_distinct_remove [inv_intros]:
  "distinct (hm_keys m) \<Longrightarrow> distinct (hm_keys (hm_remove k m))"
  by (simp add: hm_keys_remove distinct_removeAll)

lemma hm_insert_fresh: "k \<notin> set (hm_keys m) \<Longrightarrow> hm_insert k v m = m @ [(k, v)]"
  by (induction m) auto

lemma hm_length_insert:
  "length (hm_insert k v m) = (if k \<in> set (hm_keys m) then length m else Suc (length m))"
  using arg_cong [OF hm_keys_insert_list [of k v m], where f = length] by auto

lemma hm_remove_fresh: "k \<notin> set (hm_keys m) \<Longrightarrow> hm_remove k m = m"
  by (induction m) (auto simp: AList.delete_eq)

lemma hm_remove_insert_fresh:
  "k \<notin> set (hm_keys m) \<Longrightarrow> hm_remove k (hm_insert k v m) = m"
  by (induction m) (auto simp: AList.delete_eq)

text \<open>\<^verbatim>\<open>HashMap::retain\<close> is \<open>filter\<close>; a lookup afterwards sees the entry iff it is kept.\<close>

lemma hm_get_filter:
  "distinct (hm_keys m) \<Longrightarrow>
     map_of (filter (\<lambda>(k, v). P k v) m) k =
       (case map_of m k of None \<Rightarrow> None | Some v \<Rightarrow> if P k v then Some v else None)"
proof (induction m)
  case Nil
  then show ?case by simp
next
  case (Cons a m)
  obtain k' v' where a: "a = (k', v')" by (cases a)
  have "k' \<notin> set (hm_keys m)" using Cons.prems a by simp
  then have "map_of m k' = None" by (simp add: hm_get_None)
  with Cons a show ?case by (auto split: option.splits)
qed

lemma hm_keys_filter_subset: "set (hm_keys (filter P m)) \<subseteq> set (hm_keys m)"
  by (auto simp: hm_keys_def)

lemma hm_distinct_filter [inv_intros]:
  "distinct (hm_keys m) \<Longrightarrow> distinct (hm_keys (filter P m))"
  unfolding hm_keys_def by (rule distinct_map_filter)

lemma hm_in_set_get:
  "distinct (hm_keys m) \<Longrightarrow> (k, v) \<in> set m \<longleftrightarrow> map_of m k = Some v"
  by (simp add: map_of_eq_Some_iff hm_keys_def)

lemma hm_in_set_key: "(k, v) \<in> set m \<Longrightarrow> k \<in> set (hm_keys m)"
  by (force simp: hm_keys_def)

lemma hm_in_values: "v \<in> set (hm_values m) \<longleftrightarrow> (\<exists>k. (k, v) \<in> set m)"
  by (force simp: hm_values_def)

lemma hm_set_insert_subset: "set (hm_insert k v m) \<subseteq> insert (k, v) (set m)"
  by (induction m) auto

lemma hm_set_remove_subset: "set (hm_remove k m) \<subseteq> set m"
  by (auto simp: AList.delete_eq)

section \<open>Strings as UTF-8 bytes\<close>

text \<open>\<^verbatim>\<open>str::strip_prefix\<close>, \<^verbatim>\<open>str::strip_suffix\<close>, \<^verbatim>\<open>str::starts_with\<close>, \<^verbatim>\<open>str::contains\<close>.\<close>

definition strip_prefix :: "string \<Rightarrow> string \<Rightarrow> string option" where
  "strip_prefix p s = (if take (length p) s = p then Some (drop (length p) s) else None)"

definition starts_with :: "string \<Rightarrow> string \<Rightarrow> bool" where
  "starts_with p s \<longleftrightarrow> take (length p) s = p"

definition strip_suffix :: "string \<Rightarrow> string \<Rightarrow> string option" where
  "strip_suffix p s =
     (if length p \<le> length s \<and> drop (length s - length p) s = p
      then Some (take (length s - length p) s) else None)"

lemma strip_prefix_Some [str_simps]: "strip_prefix p s = Some r \<longleftrightarrow> s = p @ r"
  by (auto simp: strip_prefix_def) (metis append_take_drop_id)

lemma strip_prefix_None [str_simps]: "strip_prefix p s = None \<longleftrightarrow> \<not> starts_with p s"
  by (simp add: strip_prefix_def starts_with_def)

lemma starts_with_append [str_simps]: "starts_with p (p @ r)"
  by (simp add: starts_with_def)

lemma strip_suffix_Some [str_simps]: "strip_suffix p s = Some r \<longleftrightarrow> s = r @ p"
proof
  assume "strip_suffix p s = Some r"
  then show "s = r @ p"
    by (auto simp: strip_suffix_def split: if_splits) (metis append_take_drop_id)
next
  assume "s = r @ p"
  then show "strip_suffix p s = Some r" by (simp add: strip_suffix_def)
qed

text \<open>The position of the first occurrence of a substring, \<^verbatim>\<open>str::find\<close>.\<close>

fun str_find :: "string \<Rightarrow> string \<Rightarrow> nat option" where
  "str_find p [] = (if p = [] then Some 0 else None)"
| "str_find p (c # cs) =
     (if starts_with p (c # cs) then Some 0 else map_option Suc (str_find p cs))"

definition str_contains :: "string \<Rightarrow> string \<Rightarrow> bool" where
  "str_contains p s \<longleftrightarrow> str_find p s \<noteq> None"

text \<open>\<^verbatim>\<open>str::split_once\<close>: the parts before and after the first occurrence.\<close>

definition split_once :: "string \<Rightarrow> string \<Rightarrow> (string \<times> string) option" where
  "split_once p s =
     (case str_find p s of None \<Rightarrow> None | Some i \<Rightarrow> Some (take i s, drop (i + length p) s))"

lemma str_find_Some:
  "str_find p s = Some i \<Longrightarrow> s = take i s @ p @ drop (i + length p) s \<and> i + length p \<le> length s"
proof (induction s arbitrary: i)
  case Nil
  then show ?case by (simp split: if_splits)
next
  case (Cons c cs)
  show ?case
  proof (cases "starts_with p (c # cs)")
    case True
    then have "i = 0" using Cons.prems by simp
    moreover obtain r where "c # cs = p @ r"
      using True by (metis starts_with_def append_take_drop_id)
    ultimately show ?thesis by (cases p) auto
  next
    case False
    then obtain j where "str_find p cs = Some j" "i = Suc j"
      using Cons.prems by auto
    with Cons.IH show ?thesis by auto
  qed
qed

lemma split_once_Some: "split_once p s = Some (a, b) \<Longrightarrow> s = a @ p @ b"
  using str_find_Some by (fastforce simp: split_once_def split: option.splits)

text \<open>\<^verbatim>\<open>str::trim\<close>: the UTF-8 encodings of the characters with the Unicode property
  \<^verbatim>\<open>White_Space\<close>, stripped repeatedly from both ends.\<close>

definition unicode_ws :: "string list" where
  "unicode_ws =
     [[CHR 0x20], [CHR 0x09], [CHR 0x0A], [CHR 0x0B], [CHR 0x0C], [CHR 0x0D],
      [CHR 0xC2, CHR 0x85], [CHR 0xC2, CHR 0xA0], [CHR 0xE1, CHR 0x9A, CHR 0x80],
      [CHR 0xE2, CHR 0x80, CHR 0x80], [CHR 0xE2, CHR 0x80, CHR 0x81], [CHR 0xE2, CHR 0x80, CHR 0x82],
      [CHR 0xE2, CHR 0x80, CHR 0x83], [CHR 0xE2, CHR 0x80, CHR 0x84], [CHR 0xE2, CHR 0x80, CHR 0x85],
      [CHR 0xE2, CHR 0x80, CHR 0x86], [CHR 0xE2, CHR 0x80, CHR 0x87], [CHR 0xE2, CHR 0x80, CHR 0x88],
      [CHR 0xE2, CHR 0x80, CHR 0x89], [CHR 0xE2, CHR 0x80, CHR 0x8A], [CHR 0xE2, CHR 0x80, CHR 0xA8],
      [CHR 0xE2, CHR 0x80, CHR 0xA9], [CHR 0xE2, CHR 0x80, CHR 0xAF], [CHR 0xE2, CHR 0x81, CHR 0x9F],
      [CHR 0xE3, CHR 0x80, CHR 0x80]]"

definition leading_pat :: "string list \<Rightarrow> string \<Rightarrow> string option" where
  "leading_pat ps s = find (\<lambda>p. p \<noteq> [] \<and> starts_with p s) ps"

lemma leading_pat_Some:
  "leading_pat ps s = Some p \<Longrightarrow> p \<noteq> [] \<and> s \<noteq> [] \<and> p \<in> set ps \<and> starts_with p s"
  by (auto simp: leading_pat_def starts_with_def find_Some_iff)

function strip_pats :: "string list \<Rightarrow> string \<Rightarrow> string" where
  "strip_pats ps s =
     (case leading_pat ps s of None \<Rightarrow> s | Some p \<Rightarrow> strip_pats ps (drop (length p) s))"
  by pat_completeness auto
termination
  by (relation "measure (\<lambda>(ps, s). length s)") (auto dest!: leading_pat_Some)

declare strip_pats.simps [simp del]

definition trim_start :: "string \<Rightarrow> string" where
  "trim_start s = strip_pats unicode_ws s"

definition trim_end :: "string \<Rightarrow> string" where
  "trim_end s = rev (strip_pats (map rev unicode_ws) (rev s))"

definition trim :: "string \<Rightarrow> string" where
  "trim s = trim_end (trim_start s)"

lemma strip_pats_done: "leading_pat ps (strip_pats ps s) = None"
  by (induction ps s rule: strip_pats.induct)
     (simp add: strip_pats.simps split: option.splits)

lemma strip_pats_id: "leading_pat ps s = None \<Longrightarrow> strip_pats ps s = s"
  by (simp add: strip_pats.simps)

lemma strip_pats_suffix: "suffix (strip_pats ps s) s"
proof (induction ps s rule: strip_pats.induct)
  case (1 ps s)
  show ?case
    by (cases "leading_pat ps s")
       (auto simp: strip_pats.simps [of ps s] intro: 1 suffix_order.trans suffix_drop)
qed

lemma trim_end_prefix: "prefix (trim_end s) s"
  using strip_pats_suffix [of "map rev unicode_ws" "rev s"]
  by (simp add: trim_end_def suffix_to_prefix)

lemma leading_pat_prefix: "prefix t s \<Longrightarrow> leading_pat ps s = None \<Longrightarrow> leading_pat ps t = None"
  by (auto simp: leading_pat_def starts_with_def prefix_def find_None_iff)

text \<open>Trimming removes everything there is to remove: a second \<open>trim\<close> changes nothing.\<close>

lemma trim_idem [str_simps]: "trim (trim s) = trim s"
proof -
  let ?t = "trim_end (trim_start s)"
  have "leading_pat unicode_ws ?t = None"
    using leading_pat_prefix [OF trim_end_prefix] strip_pats_done by (simp add: trim_start_def)
  then have "trim_start ?t = ?t"
    by (simp add: trim_start_def strip_pats_id)
  moreover have "trim_end ?t = ?t"
    by (simp add: trim_end_def strip_pats_id strip_pats_done)
  ultimately show ?thesis by (simp add: trim_def)
qed

text \<open>\<^verbatim>\<open>str::to_ascii_lowercase\<close> and the ASCII classes, bytewise.\<close>

definition byte_of :: "char \<Rightarrow> nat" where
  "byte_of c = of_char c"

definition ascii_lower :: "char \<Rightarrow> char" where
  "ascii_lower c = (if 65 \<le> byte_of c \<and> byte_of c \<le> 90 then char_of (byte_of c + 32) else c)"

definition to_ascii_lowercase :: "string \<Rightarrow> string" where
  "to_ascii_lowercase s = map ascii_lower s"

definition is_ascii_digit :: "char \<Rightarrow> bool" where
  "is_ascii_digit c \<longleftrightarrow> 48 \<le> byte_of c \<and> byte_of c \<le> 57"

definition is_ascii_alphanumeric :: "char \<Rightarrow> bool" where
  "is_ascii_alphanumeric c \<longleftrightarrow>
     is_ascii_digit c \<or> (65 \<le> byte_of c \<and> byte_of c \<le> 90) \<or> (97 \<le> byte_of c \<and> byte_of c \<le> 122)"

text \<open>\<^verbatim>\<open>str::as_bytes\<close>.\<close>

definition as_bytes :: "string \<Rightarrow> byte list" where
  "as_bytes s = map of_char s"

definition string_of_bytes :: "byte list \<Rightarrow> string" where
  "string_of_bytes bs = map (\<lambda>b. char_of (unat b)) bs"

lemma as_bytes_string_of_bytes [simp]: "as_bytes (string_of_bytes bs) = bs"
proof -
  have "of_char (char_of (unat b) :: char) = b" for b :: byte
  proof -
    have "unat b < 256" using unsigned_less [of b] by simp
    then have "of_nat (of_char (char_of (unat b) :: char)) = b" by (simp only: of_char_of mod_less of_nat_unat ucast_id)
    then show ?thesis by (simp only: of_nat_of_char)
  qed
  then show ?thesis by (simp add: as_bytes_def string_of_bytes_def comp_def)
qed

lemma as_bytes_Nil [simp]: "as_bytes s = [] \<longleftrightarrow> s = []"
  by (simp add: as_bytes_def)

section \<open>Decimal numbers\<close>

text \<open>\<^verbatim>\<open>format!("{n}")\<close> of an unsigned integer, and \<^verbatim>\<open>str::parse\<close> at a given width: an optional
  leading plus sign, then at least one digit, and no overflow.\<close>

definition digit_char :: "nat \<Rightarrow> char" where
  "digit_char d = char_of (48 + d)"

fun dec_of_nat :: "nat \<Rightarrow> string" where
  "dec_of_nat n = (if n < 10 then [digit_char n] else dec_of_nat (n div 10) @ [digit_char (n mod 10)])"

declare dec_of_nat.simps [simp del]

definition digit_val :: "char \<Rightarrow> nat" where
  "digit_val c = byte_of c - 48"

definition nat_of_dec :: "string \<Rightarrow> nat" where
  "nat_of_dec s = foldl (\<lambda>acc c. acc * 10 + digit_val c) 0 s"

definition parse_unsigned :: "nat \<Rightarrow> string \<Rightarrow> nat option" where
  "parse_unsigned bits s =
     (let ds = (case s of c # cs \<Rightarrow> if c = CHR ''+'' then cs else s | [] \<Rightarrow> s) in
      if ds \<noteq> [] \<and> list_all is_ascii_digit ds \<and> nat_of_dec ds < 2 ^ bits
      then Some (nat_of_dec ds) else None)"

lemma byte_of_digit_char: "d < 10 \<Longrightarrow> byte_of (digit_char d) = 48 + d"
  by (simp add: byte_of_def digit_char_def)

lemma digit_val_digit_char: "d < 10 \<Longrightarrow> digit_val (digit_char d) = d"
  by (simp add: digit_val_def byte_of_digit_char)

lemma is_ascii_digit_char: "d < 10 \<Longrightarrow> is_ascii_digit (digit_char d)"
  by (simp add: is_ascii_digit_def byte_of_digit_char)

lemma nat_of_dec_snoc: "nat_of_dec (s @ [c]) = nat_of_dec s * 10 + digit_val c"
  by (simp add: nat_of_dec_def)

lemma nat_of_dec_of_nat [simp]: "nat_of_dec (dec_of_nat n) = n"
proof (induction n rule: dec_of_nat.induct)
  case (1 n)
  show ?case
  proof (cases "n < 10")
    case True
    then show ?thesis by (simp add: dec_of_nat.simps [of n] nat_of_dec_def digit_val_digit_char)
  next
    case False
    with 1 show ?thesis
      by (simp add: dec_of_nat.simps [of n] nat_of_dec_snoc digit_val_digit_char)
  qed
qed

lemma dec_of_nat_inject [simp]: "dec_of_nat a = dec_of_nat b \<longleftrightarrow> a = b"
  by (metis nat_of_dec_of_nat)

lemma dec_of_nat_digits: "list_all is_ascii_digit (dec_of_nat n) \<and> dec_of_nat n \<noteq> []"
proof (induction n rule: dec_of_nat.induct)
  case (1 n)
  then show ?case
    by (cases "n < 10") (simp_all add: dec_of_nat.simps [of n] is_ascii_digit_char)
qed

lemma parse_unsigned_dec_of_nat: "n < 2 ^ bits \<Longrightarrow> parse_unsigned bits (dec_of_nat n) = Some n"
proof -
  assume n: "n < 2 ^ bits"
  obtain c cs where c: "dec_of_nat n = c # cs"
    using dec_of_nat_digits by (meson neq_Nil_conv)
  have "is_ascii_digit c" using dec_of_nat_digits [of n] c by simp
  then have "c \<noteq> CHR ''+''" by (auto simp: is_ascii_digit_def byte_of_def)
  with n c dec_of_nat_digits [of n] show ?thesis
    using nat_of_dec_of_nat [of n] by (simp add: parse_unsigned_def Let_def)
qed

section \<open>Words\<close>

lemma unat_Suc_no_wrap: "x + 1 \<noteq> 0 \<Longrightarrow> unat (x + 1) = Suc (unat x)"
  for x :: "'a::len word"
  by (metis add.commute unatSuc)

lemma word_Suc_no_wrap: "Suc (unat x) < 2 ^ LENGTH('a) \<Longrightarrow> x + 1 \<noteq> 0"
  for x :: "'a::len word"
  by (metis One_nat_def add.commute add_Suc less_numeral_extra(3) plus_1_eq_Suc unat_0 unat_1 unat_add_lem zero_less_Suc)

section \<open>Lists\<close>

lemma card_le_length_bounded: "set xs \<subseteq> A \<Longrightarrow> distinct xs \<Longrightarrow> finite A \<Longrightarrow> length xs \<le> card A"
  by (metis card_mono distinct_card)

lemma find_Some_in: "find P xs = Some x \<Longrightarrow> x \<in> set xs \<and> P x"
  by (auto simp: find_Some_iff)

end
