(* ===== verification/Pake.thy ===== *)
theory Pake
  imports Prelude
begin

text \<open>
  The password-authenticated key exchange library, \<^verbatim>\<open>mitb-pake/src/lib.rs\<close>.

  The \<^verbatim>\<open>opaque-ke\<close> crate is a parameter: a record of its functions over one type \<open>'o\<close> that stands for
  all of its values (messages, client and server states, the server setup) and a type \<open>'r\<close> for
  the state of the random source an operation draws from. Its documented behaviour, that
  deserialising what was serialised gives the value back and that an honest registration followed
  by a login with the same password and identifier succeeds, is the predicate \<open>opaque_correct\<close>.
  \<^verbatim>\<open>base64\<close> is a pair of functions, \<open>b64\<close>.
\<close>

section \<open>The random source\<close>

text \<open>\<open>entropy n\<close> is what \<^verbatim>\<open>getrandom\<close> delivers for a buffer of \<open>n\<close> bytes, \<open>None\<close> when it fails.\<close>

definition try_fill_bytes :: "(nat \<Rightarrow> byte list option) \<Rightarrow> nat \<Rightarrow> byte list option" where
  "try_fill_bytes entropy n = entropy n"

definition fill_bytes :: "(nat \<Rightarrow> byte list option) \<Rightarrow> nat \<Rightarrow> byte list" where
  "fill_bytes entropy n = (case try_fill_bytes entropy n of Some bs \<Rightarrow> bs | None \<Rightarrow> replicate n 0)"

definition from_le_bytes :: "byte list \<Rightarrow> 'w::len word" where
  "from_le_bytes bs = foldr (\<lambda>b acc. ucast b + push_bit 8 acc) bs 0"

definition next_u32 :: "(nat \<Rightarrow> byte list option) \<Rightarrow> 32 word" where
  "next_u32 entropy = from_le_bytes (fill_bytes entropy 4)"

definition next_u64 :: "(nat \<Rightarrow> byte list option) \<Rightarrow> 64 word" where
  "next_u64 entropy = from_le_bytes (fill_bytes entropy 8)"

section \<open>The opaque-ke crate\<close>

datatype protocol_error = InvalidLoginError | OtherProtocolError string

record ('o, 'r) opaque =
  c_login_start :: "'r \<Rightarrow> byte list \<Rightarrow> protocol_error + 'o \<times> 'o"
  c_login_ser :: "'o \<Rightarrow> byte list"
  c_login_de :: "byte list \<Rightarrow> protocol_error + 'o"
  c_login_finish :: "'r \<Rightarrow> 'o \<Rightarrow> byte list \<Rightarrow> 'o \<Rightarrow> protocol_error + 'o"
  c_reg_start :: "'r \<Rightarrow> byte list \<Rightarrow> protocol_error + 'o \<times> 'o"
  c_reg_finish :: "'r \<Rightarrow> 'o \<Rightarrow> byte list \<Rightarrow> 'o \<Rightarrow> protocol_error + 'o"
  s_setup_new :: "'r \<Rightarrow> 'o"
  s_reg_start :: "'o \<Rightarrow> 'o \<Rightarrow> byte list \<Rightarrow> protocol_error + 'o"
  s_reg_finish :: "'o \<Rightarrow> 'o"
  s_file_ser :: "'o \<Rightarrow> byte list"
  s_file_de :: "byte list \<Rightarrow> protocol_error + 'o"
  s_login_start :: "'r \<Rightarrow> 'o \<Rightarrow> 'o option \<Rightarrow> 'o \<Rightarrow> byte list \<Rightarrow> protocol_error + 'o \<times> 'o"
  s_login_finish :: "'o \<Rightarrow> 'o \<Rightarrow> protocol_error + unit"
  msg_ser :: "'o \<Rightarrow> byte list"
  reg_request_de :: "byte list \<Rightarrow> protocol_error + 'o"
  reg_response_de :: "byte list \<Rightarrow> protocol_error + 'o"
  reg_upload_de :: "byte list \<Rightarrow> protocol_error + 'o"
  cred_request_de :: "byte list \<Rightarrow> protocol_error + 'o"
  cred_response_de :: "byte list \<Rightarrow> protocol_error + 'o"
  cred_finalization_de :: "byte list \<Rightarrow> protocol_error + 'o"
  display_error :: "protocol_error \<Rightarrow> string"

definition error_string :: "('o, 'r) opaque \<Rightarrow> protocol_error \<Rightarrow> string" where
  "error_string K e = display_error K e"

fun login_error_string :: "('o, 'r) opaque \<Rightarrow> protocol_error \<Rightarrow> string" where
  "login_error_string K InvalidLoginError = ''invalid secret code''"
| "login_error_string K e = display_error K e"

section \<open>The client\<close>

record 'o client_session =
  secret_code :: "byte list"
  registration_state :: "'o option"
  login_state :: "byte list option"

definition client_session_new :: "string \<Rightarrow> string + 'o client_session" where
  "client_session_new code =
     (let code = trim code in
      if code = [] then Err ''missing secret code''
      else Ok \<lparr>secret_code = as_bytes code, registration_state = None, login_state = None\<rparr>)"

text \<open>\<^verbatim>\<open>ClientSession::start_login\<close>: the new state is kept serialised; the result is the serialised
  credential request.\<close>

definition cs_start_login ::
  "('o, 'r) opaque \<Rightarrow> 'r \<Rightarrow> 'o client_session \<Rightarrow> (string + byte list) \<times> 'o client_session" where
  "cs_start_login K r s =
     (case c_login_start K r (secret_code s) of
        Inl e \<Rightarrow> (Err (error_string K e), s)
      | Inr (message, state) \<Rightarrow>
          (Ok (msg_ser K message), s\<lparr>login_state := Some (c_login_ser K state)\<rparr>))"

definition cs_start_registration ::
  "('o, 'r) opaque \<Rightarrow> 'r \<Rightarrow> 'o client_session \<Rightarrow> (string + byte list) \<times> 'o client_session" where
  "cs_start_registration K r s =
     (case c_reg_start K r (secret_code s) of
        Inl e \<Rightarrow> (Err (error_string K e), s)
      | Inr (message, state) \<Rightarrow>
          (Ok (msg_ser K message), s\<lparr>registration_state := Some state\<rparr>))"

text \<open>\<^verbatim>\<open>ClientSession::finish_registration\<close> takes the registration state out before anything can
  fail, and starts a login for the credential request of the upload. It draws twice.\<close>

definition cs_finish_registration ::
  "('o, 'r) opaque \<Rightarrow> 'r \<Rightarrow> 'r \<Rightarrow> byte list \<Rightarrow> 'o client_session \<Rightarrow>
     (string + byte list \<times> byte list) \<times> 'o client_session" where
  "cs_finish_registration K r r' response s =
     (case registration_state s of
        None \<Rightarrow> (Err ''registration was not started'', s)
      | Some state \<Rightarrow>
          let s = s\<lparr>registration_state := None\<rparr> in
          (case reg_response_de K response of
             Inl e \<Rightarrow> (Err (error_string K e), s)
           | Inr m \<Rightarrow>
               (case c_reg_finish K r state (secret_code s) m of
                  Inl e \<Rightarrow> (Err (error_string K e), s)
                | Inr upload \<Rightarrow>
                    (case cs_start_login K r' s of
                       (Inl e, s) \<Rightarrow> (Err e, s)
                     | (Inr request, s) \<Rightarrow> (Ok (msg_ser K upload, request), s)))))"

text \<open>\<^verbatim>\<open>ClientSession::finish_login\<close> clears the login state only on success.\<close>

definition cs_finish_login ::
  "('o, 'r) opaque \<Rightarrow> 'r \<Rightarrow> byte list \<Rightarrow> 'o client_session \<Rightarrow>
     (string + byte list) \<times> 'o client_session" where
  "cs_finish_login K r response s =
     (case login_state s of
        None \<Rightarrow> (Err ''login was not started'', s)
      | Some bytes \<Rightarrow>
          (case c_login_de K bytes of
             Inl e \<Rightarrow> (Err (login_error_string K e), s)
           | Inr state \<Rightarrow>
               (case cred_response_de K response of
                  Inl e \<Rightarrow> (Err (error_string K e), s)
                | Inr m \<Rightarrow>
                    (case c_login_finish K r state (secret_code s) m of
                       Inl e \<Rightarrow> (Err (login_error_string K e), s)
                     | Inr fin \<Rightarrow> (Ok (msg_ser K fin), s\<lparr>login_state := None\<rparr>)))))"

section \<open>The server\<close>

record 'o server_pake =
  server_setup :: 'o

definition server_pake_new :: "('o, 'r) opaque \<Rightarrow> 'r \<Rightarrow> 'o server_pake" where
  "server_pake_new K r = \<lparr>server_setup = s_setup_new K r\<rparr>"

definition sp_registration_response ::
  "('o, 'r) opaque \<Rightarrow> 'o server_pake \<Rightarrow> byte list \<Rightarrow> byte list \<Rightarrow> string + byte list" where
  "sp_registration_response K p ident request =
     (case reg_request_de K request of
        Inl e \<Rightarrow> Err (error_string K e)
      | Inr m \<Rightarrow>
          (case s_reg_start K (server_setup p) m ident of
             Inl e \<Rightarrow> Err (error_string K e)
           | Inr response \<Rightarrow> Ok (msg_ser K response)))"

definition sp_finish_registration ::
  "('o, 'r) opaque \<Rightarrow> byte list \<Rightarrow> string + byte list" where
  "sp_finish_registration K upload =
     (case reg_upload_de K upload of
        Inl e \<Rightarrow> Err (error_string K e)
      | Inr m \<Rightarrow> Ok (s_file_ser K (s_reg_finish K m)))"

record 'o server_login_session =
  sls_state :: 'o

definition sp_start_login ::
  "('o, 'r) opaque \<Rightarrow> 'r \<Rightarrow> 'o server_pake \<Rightarrow> byte list \<Rightarrow> byte list \<Rightarrow> byte list \<Rightarrow>
     string + byte list \<times> 'o server_login_session" where
  "sp_start_login K r p ident file request =
     (case s_file_de K file of
        Inl e \<Rightarrow> Err (error_string K e)
      | Inr f \<Rightarrow>
          (case cred_request_de K request of
             Inl e \<Rightarrow> Err (error_string K e)
           | Inr m \<Rightarrow>
               (case s_login_start K r (server_setup p) (Some f) m ident of
                  Inl e \<Rightarrow> Err (error_string K e)
                | Inr (message, state) \<Rightarrow> Ok (msg_ser K message, \<lparr>sls_state = state\<rparr>))))"

definition sls_finish ::
  "('o, 'r) opaque \<Rightarrow> 'o server_login_session \<Rightarrow> byte list \<Rightarrow> string + unit" where
  "sls_finish K s finalization =
     (case cred_finalization_de K finalization of
        Inl e \<Rightarrow> Err (error_string K e)
      | Inr m \<Rightarrow>
          (case s_login_finish K (sls_state s) m of
             Inl e \<Rightarrow> Err (error_string K e)
           | Inr u \<Rightarrow> Ok u))"


section \<open>The documented behaviour of the crate\<close>

definition opaque_codec_laws :: "('o, 'r) opaque \<Rightarrow> bool" where
  "opaque_codec_laws K \<longleftrightarrow>
     (\<forall>r pw m st. c_login_start K r pw = Inr (m, st) \<longrightarrow>
        cred_request_de K (msg_ser K m) = Inr m \<and> c_login_de K (c_login_ser K st) = Inr st) \<and>
     (\<forall>r pw m st. c_reg_start K r pw = Inr (m, st) \<longrightarrow> reg_request_de K (msg_ser K m) = Inr m) \<and>
     (\<forall>su m i x. s_reg_start K su m i = Inr x \<longrightarrow> reg_response_de K (msg_ser K x) = Inr x) \<and>
     (\<forall>r st pw m x. c_reg_finish K r st pw m = Inr x \<longrightarrow> reg_upload_de K (msg_ser K x) = Inr x) \<and>
     (\<forall>x. s_file_de K (s_file_ser K (s_reg_finish K x)) = Inr (s_reg_finish K x)) \<and>
     (\<forall>r su f m i x st. s_login_start K r su f m i = Inr (x, st) \<longrightarrow>
        cred_response_de K (msg_ser K x) = Inr x) \<and>
     (\<forall>r st pw m x. c_login_finish K r st pw m = Inr x \<longrightarrow>
        cred_finalization_de K (msg_ser K x) = Inr x)"

text \<open>The protocol's completeness: the same password (at most 65535 bytes, the crate's limit),
  identifier and server setup on both sides of a registration and a login.\<close>

definition opaque_complete :: "('o, 'r) opaque \<Rightarrow> bool" where
  "opaque_complete K \<longleftrightarrow>
     (\<forall>r0 r1 r2 pw ident. length pw \<le> 65535 \<longrightarrow>
        (\<exists>m st x up. c_reg_start K r1 pw = Inr (m, st) \<and>
           s_reg_start K (s_setup_new K r0) m ident = Inr x \<and>
           c_reg_finish K r2 st pw x = Inr up \<and>
           (\<forall>r3 r4 r5. \<exists>m st x st' fin. c_login_start K r3 pw = Inr (m, st) \<and>
              s_login_start K r4 (s_setup_new K r0) (Some (s_reg_finish K up)) m ident = Inr (x, st') \<and>
              c_login_finish K r5 st pw x = Inr fin \<and> s_login_finish K st' fin = Inr ())))"

definition opaque_correct :: "('o, 'r) opaque \<Rightarrow> bool" where
  "opaque_correct K \<longleftrightarrow> opaque_codec_laws K \<and> opaque_complete K"

text \<open>An instance, for the witnesses: every message is the password itself.\<close>

definition echo_opaque :: "(byte list, unit) opaque" where
  "echo_opaque =
     \<lparr>c_login_start = (\<lambda>_ pw. Inr (pw, pw)), c_login_ser = id, c_login_de = Inr,
      c_login_finish = (\<lambda>_ st pw m. if m = st then Inr pw else Inl InvalidLoginError),
      c_reg_start = (\<lambda>_ pw. Inr (pw, pw)), c_reg_finish = (\<lambda>_ st pw m. Inr pw),
      s_setup_new = (\<lambda>_. []), s_reg_start = (\<lambda>_ m _. Inr m), s_reg_finish = id,
      s_file_ser = id, s_file_de = Inr,
      s_login_start = (\<lambda>_ _ f m _. Inr (the f, the f)),
      s_login_finish = (\<lambda>st m. if m = st then Inr () else Inl InvalidLoginError),
      msg_ser = id, reg_request_de = Inr, reg_response_de = Inr, reg_upload_de = Inr,
      cred_request_de = Inr, cred_response_de = Inr, cred_finalization_de = Inr,
      display_error = (\<lambda>_. ''protocol error'')\<rparr>"

lemma echo_opaque_correct: "opaque_correct echo_opaque"
  by (simp add: opaque_correct_def opaque_codec_laws_def opaque_complete_def echo_opaque_def)

section \<open>Lemmas\<close>

lemma cs_start_login_secret [simp]: "secret_code (snd (cs_start_login K r s)) = secret_code s"
  by (simp add: cs_start_login_def split: sum.splits prod.splits)

lemma cs_start_login_reg [simp]:
  "registration_state (snd (cs_start_login K r s)) = registration_state s"
  by (simp add: cs_start_login_def split: sum.splits prod.splits)

lemma cs_start_registration_frame [simp]:
  "secret_code (snd (cs_start_registration K r s)) = secret_code s"
  "login_state (snd (cs_start_registration K r s)) = login_state s"
  by (simp_all add: cs_start_registration_def split: sum.splits prod.splits)

lemma cs_finish_registration_frame [simp]:
  "secret_code (snd (cs_finish_registration K r r' x s)) = secret_code s"
  "registration_state (snd (cs_finish_registration K r r' x s)) = None"
  by (simp_all add: cs_finish_registration_def cs_start_login_def Let_def
        split: option.splits sum.splits prod.splits)

lemma cs_finish_login_err:
  "fst (cs_finish_login K r x s) = Inl e \<Longrightarrow> snd (cs_finish_login K r x s) = s"
  by (auto simp: cs_finish_login_def split: option.splits sum.splits)

lemma cs_finish_login_ok:
  "fst (cs_finish_login K r x s) = Inr f \<Longrightarrow>
     login_state s \<noteq> None \<and> snd (cs_finish_login K r x s) = s\<lparr>login_state := None\<rparr>"
  by (auto simp: cs_finish_login_def split: option.splits sum.splits)

lemma cs_finish_login_secret [simp]: "secret_code (snd (cs_finish_login K r x s)) = secret_code s"
  by (cases "fst (cs_finish_login K r x s)") (auto dest: cs_finish_login_err cs_finish_login_ok)

lemma opaque_codecD:
  assumes "opaque_correct K"
  shows "c_login_start K r pw = Inr (m, st) \<Longrightarrow> cred_request_de K (msg_ser K m) = Inr m"
    and "c_login_start K r pw = Inr (m, st) \<Longrightarrow> c_login_de K (c_login_ser K st) = Inr st"
    and "c_reg_start K r pw = Inr (m, st) \<Longrightarrow> reg_request_de K (msg_ser K m) = Inr m"
    and "s_reg_start K su m i = Inr x \<Longrightarrow> reg_response_de K (msg_ser K x) = Inr x"
    and "c_reg_finish K r st pw m = Inr x \<Longrightarrow> reg_upload_de K (msg_ser K x) = Inr x"
    and "s_file_de K (s_file_ser K (s_reg_finish K x)) = Inr (s_reg_finish K x)"
    and "s_login_start K r su f m i = Inr (x, st) \<Longrightarrow> cred_response_de K (msg_ser K x) = Inr x"
    and "c_login_finish K r st pw m = Inr x \<Longrightarrow> cred_finalization_de K (msg_ser K x) = Inr x"
  using assms by (auto simp: opaque_correct_def opaque_codec_laws_def) metis+

lemma cs_finish_login_none [simp]:
  "login_state s = None \<Longrightarrow> cs_finish_login K r x s = (Err ''login was not started'', s)"
  by (simp add: cs_finish_login_def)

lemma client_session_new_Ok:
  "client_session_new code = Ok s \<longleftrightarrow>
     trim code \<noteq> [] \<and>
     s = \<lparr>secret_code = as_bytes (trim code), registration_state = None, login_state = None\<rparr>"
  by (auto simp: client_session_new_def Let_def)

text \<open>An honest login against a password file registered with the session's own password:
  the client's part and the server's part both succeed.\<close>

definition honest_login ::
  "('o, 'r) opaque \<Rightarrow> 'o server_pake \<Rightarrow> byte list \<Rightarrow> byte list \<Rightarrow> byte list \<Rightarrow> byte list \<Rightarrow>
     'o client_session \<Rightarrow> bool" where
  "honest_login K p ident file request secret s \<longleftrightarrow>
     secret_code s = secret \<and>
     (\<forall>r r'. \<exists>response sess fin s'.
        sp_start_login K r p ident file request = Ok (response, sess) \<and>
        cs_finish_login K r' response s = (Ok fin, s') \<and> login_state s' = None \<and>
        sls_finish K sess fin = Ok ())"

text \<open>A password file under which every login with the password succeeds, whatever the randomness: what
  an honest registration leaves behind.\<close>

definition registered_file ::
  "('o, 'r) opaque \<Rightarrow> 'o server_pake \<Rightarrow> byte list \<Rightarrow> byte list \<Rightarrow> byte list \<Rightarrow> bool" where
  "registered_file K p ident pw file \<longleftrightarrow>
     (\<exists>f. s_file_de K file = Inr f \<and>
        (\<forall>r r' r''. \<exists>m st x st' fin. c_login_start K r pw = Inr (m, st) \<and>
           s_login_start K r' (server_setup p) (Some f) m ident = Inr (x, st') \<and>
           c_login_finish K r'' st pw x = Inr fin \<and> s_login_finish K st' fin = Inr ()))"

lemma registered_login:
  assumes K: "opaque_correct K" and reg: "registered_file K p ident (secret_code s) file"
  shows "\<exists>request s'. cs_start_login K r s = (Ok request, s') \<and> registration_state s' = registration_state s \<and>
    honest_login K p ident file request (secret_code s) s'"
proof -
  note D = opaque_codecD [OF K]
  obtain f where f: "s_file_de K file = Inr f" and
    log: "\<And>r r' r''. \<exists>m st x st' fin. c_login_start K r (secret_code s) = Inr (m, st) \<and>
       s_login_start K r' (server_setup p) (Some f) m ident = Inr (x, st') \<and>
       c_login_finish K r'' st (secret_code s) x = Inr fin \<and> s_login_finish K st' fin = Inr ()"
    using reg unfolding registered_file_def by blast
  obtain m st where start: "c_login_start K r (secret_code s) = Inr (m, st)" using log by blast
  let ?s = "s\<lparr>login_state := Some (c_login_ser K st)\<rparr>"
  have "honest_login K p ident file (msg_ser K m) (secret_code s) ?s"
    unfolding honest_login_def
  proof (intro conjI allI)
    fix r' r''
    obtain x st' fin where l: "s_login_start K r' (server_setup p) (Some f) m ident = Inr (x, st')"
        "c_login_finish K r'' st (secret_code s) x = Inr fin" "s_login_finish K st' fin = Inr ()"
      using log [of r r' r''] start by auto
    then show "\<exists>response sess fin s'.
        sp_start_login K r' p ident file (msg_ser K m) = Ok (response, sess) \<and>
        cs_finish_login K r'' response ?s = (Ok fin, s') \<and> login_state s' = None \<and>
        sls_finish K sess fin = Ok ()"
      by (simp add: sp_start_login_def f D(1) [OF start] cs_finish_login_def D(2) [OF start]
          D(7) [OF l(1)] sls_finish_def D(8) [OF l(2)])
  qed simp
  then show ?thesis by (simp add: cs_start_login_def start)
qed

lemma honest_registration:
  assumes K: "opaque_correct K" and len: "length (secret_code s) \<le> 65535"
  shows "\<exists>req s1 response upload request s2 file.
     cs_start_registration K r1 s = (Ok req, s1) \<and>
     sp_registration_response K (server_pake_new K r0) ident req = Ok response \<and>
     cs_finish_registration K r2 r3 response s1 = (Ok (upload, request), s2) \<and>
     sp_finish_registration K upload = Ok file \<and> registration_state s2 = None \<and>
     registered_file K (server_pake_new K r0) ident (secret_code s) file \<and>
     honest_login K (server_pake_new K r0) ident file request (secret_code s) s2"
proof -
  note D = opaque_codecD [OF K]
  obtain m st x up where reg: "c_reg_start K r1 (secret_code s) = Inr (m, st)"
      "s_reg_start K (s_setup_new K r0) m ident = Inr x"
      "c_reg_finish K r2 st (secret_code s) x = Inr up"
    and log: "\<And>r3 r4 r5. \<exists>m st x st' fin. c_login_start K r3 (secret_code s) = Inr (m, st) \<and>
        s_login_start K r4 (s_setup_new K r0) (Some (s_reg_finish K up)) m ident = Inr (x, st') \<and>
        c_login_finish K r5 st (secret_code s) x = Inr fin \<and> s_login_finish K st' fin = Inr ()"
    using K len unfolding opaque_correct_def opaque_complete_def by metis
  let ?file = "s_file_ser K (s_reg_finish K up)"
  let ?s = "s\<lparr>registration_state := None\<rparr>"
  have rf: "registered_file K (server_pake_new K r0) ident (secret_code s) ?file"
    unfolding registered_file_def using D(6) log by (auto simp: server_pake_new_def)
  then obtain request s2 where login: "cs_start_login K r3 ?s = (Ok request, s2)"
      "registration_state s2 = None"
      "honest_login K (server_pake_new K r0) ident ?file request (secret_code s) s2"
    using registered_login [OF K, of _ ident ?s] by fastforce
  have "cs_finish_registration K r2 r3 (msg_ser K x) (s\<lparr>registration_state := Some st\<rparr>) =
      (Ok (msg_ser K up, request), s2)"
    by (simp add: cs_finish_registration_def D(4) [OF reg(2)] reg(3) login)
  with rf login show ?thesis
    by (simp add: cs_start_registration_def sp_registration_response_def server_pake_new_def
        sp_finish_registration_def reg D(3) [OF reg(1)] D(5) [OF reg(3)])
qed

text \<open>C28. A registration carried through by an honest client and server, followed by the login the
  client starts while finishing it, authenticates: every call of the protocol succeeds, whatever
  the randomness, and the session is left without a pending login or registration. The client
  may have tried a plain login before.\<close>

theorem registration_then_login_round_trip:
  assumes K: "opaque_correct K"
    and new: "client_session_new code = Ok s"
    and len: "length (secret_code s) \<le> 65535"
  shows "\<exists>req s1 response upload request s2 file.
     cs_start_registration K r1 (snd (cs_start_login K r s)) = (Ok req, s1) \<and>
     sp_registration_response K (server_pake_new K r0) ident req = Ok response \<and>
     cs_finish_registration K r2 r3 response s1 = (Ok (upload, request), s2) \<and>
     sp_finish_registration K upload = Ok file \<and>
     registration_state s2 = None \<and>
     honest_login K (server_pake_new K r0) ident file request (secret_code s) s2"
  using honest_registration [OF K, of "snd (cs_start_login K r s)" r1 r0 ident r2 r3] len by auto

theorem registration_then_login_round_trip_witness:
  "\<exists>req s1 response upload request s2 file.
     cs_start_registration echo_opaque ()
       (snd (cs_start_login echo_opaque () \<lparr>secret_code = as_bytes ''my-shared-code'',
          registration_state = None, login_state = None\<rparr>)) = (Ok req, s1) \<and>
     sp_registration_response echo_opaque (server_pake_new echo_opaque ()) (as_bytes ''room-handle'') req
       = Ok response \<and>
     cs_finish_registration echo_opaque () () response s1 = (Ok (upload, request), s2) \<and>
     sp_finish_registration echo_opaque upload = Ok file \<and>
     registration_state s2 = None \<and>
     honest_login echo_opaque (server_pake_new echo_opaque ()) (as_bytes ''room-handle'') file request
       (as_bytes ''my-shared-code'') s2"
proof -
  have t: "trim ''my-shared-code'' = ''my-shared-code''" by code_simp
  have n: "client_session_new ''my-shared-code'' = Ok \<lparr>secret_code = as_bytes ''my-shared-code'',
      registration_state = None :: byte list option, login_state = None\<rparr>"
    by (simp add: client_session_new_Ok t)
  show ?thesis
    using registration_then_login_round_trip [OF echo_opaque_correct n] by (simp add: as_bytes_def)
qed

end
