(* ===== verification/Pake_Bridge.thy ===== *)
theory Pake_Bridge
  imports Pake
begin

text \<open>
  The WebAssembly bridge of \<^verbatim>\<open>mitb-pake/src/lib.rs\<close> (module \<^verbatim>\<open>wasm_bridge\<close>): a table of client
  sessions under 32-bit handles, driven by JSON requests. \<^verbatim>\<open>serde_json\<close> and \<^verbatim>\<open>base64\<close> are
  parameters. The lock on the table is modelled by the flag the poisoning of a mutex sets.
\<close>

datatype request =
    Create string
  | Destroy "32 word"
  | StartLogin "32 word"
  | StartRegistration "32 word"
  | FinishRegistration "32 word" string
  | FinishLogin "32 word" string

record response =
  rsp_ok :: bool
  rsp_error :: "string option"
  rsp_handle :: "32 word option"
  rsp_credential_request :: "string option"
  rsp_registration_request :: "string option"
  rsp_registration_upload :: "string option"
  rsp_credential_finalization :: "string option"

record 'o bridge =
  sessions :: "(32 word, 'o client_session) hashmap"
  next_handle :: "32 word"
  last_result_len :: "32 word"
  lock_poisoned :: bool

definition bridge_init :: "'o bridge" where
  "bridge_init = \<lparr>sessions = [], next_handle = 1, last_result_len = 0, lock_poisoned = False\<rparr>"

definition response_default :: response where
  "response_default =
     \<lparr>rsp_ok = False, rsp_error = None, rsp_handle = None, rsp_credential_request = None,
      rsp_registration_request = None, rsp_registration_upload = None,
      rsp_credential_finalization = None\<rparr>"

definition ok_response :: response where
  "ok_response = response_default\<lparr>rsp_ok := True\<rparr>"

definition error_response :: "string \<Rightarrow> response" where
  "error_response e = response_default\<lparr>rsp_error := Some e\<rparr>"

text \<open>\<^verbatim>\<open>base64\<close>'s URL-safe alphabet without padding.\<close>

record b64 =
  encode :: "byte list \<Rightarrow> string"
  decode :: "string \<Rightarrow> string + byte list"

definition b64_roundtrip :: "b64 \<Rightarrow> bool" where
  "b64_roundtrip B \<longleftrightarrow> (\<forall>bs. decode B (encode B bs) = Ok bs)"

text \<open>The session behind a handle, under the lock, and the table after \<open>f\<close> has changed it in
  place: the common part of the four requests that work on a session.\<close>

definition with_session ::
  "32 word \<Rightarrow> ('o client_session \<Rightarrow> (string + 'a) \<times> 'o client_session) \<Rightarrow> 'o bridge \<Rightarrow>
     (string + 'a) \<times> 'o bridge" where
  "with_session h f b =
     (if lock_poisoned b then (Err ''failed to lock sessions'', b)
      else case hm_get (sessions b) h of
             None \<Rightarrow> (Err ''unknown session handle'', b)
           | Some s \<Rightarrow> (let (res, s') = f s in (res, b\<lparr>sessions := hm_insert h s' (sessions b)\<rparr>)))"

fun process_request ::
  "('o, 'r) opaque \<Rightarrow> b64 \<Rightarrow> 'r \<Rightarrow> 'r \<Rightarrow> request \<Rightarrow> 'o bridge \<Rightarrow> (string + response) \<times> 'o bridge" where
  "process_request K B r r' (Create code) b =
     (case client_session_new code of
        Inl e \<Rightarrow> (Err e, b)
      | Inr session \<Rightarrow>
          let handle = next_handle b; b = b\<lparr>next_handle := next_handle b + 1\<rparr> in
          if lock_poisoned b then (Err ''failed to lock sessions'', b)
          else (Ok (response_default\<lparr>rsp_ok := True, rsp_handle := Some handle\<rparr>),
                b\<lparr>sessions := hm_insert handle session (sessions b)\<rparr>))"
| "process_request K B r r' (Destroy handle) b =
     (if lock_poisoned b then (Err ''failed to lock sessions'', b)
      else (Ok ok_response, b\<lparr>sessions := hm_remove handle (sessions b)\<rparr>))"
| "process_request K B r r' (StartLogin handle) b =
     apfst (map_sum id (\<lambda>q. response_default\<lparr>rsp_ok := True,
              rsp_credential_request := Some (encode B q)\<rparr>))
       (with_session handle (cs_start_login K r) b)"
| "process_request K B r r' (StartRegistration handle) b =
     apfst (map_sum id (\<lambda>q. response_default\<lparr>rsp_ok := True,
              rsp_registration_request := Some (encode B q)\<rparr>))
       (with_session handle (cs_start_registration K r) b)"
| "process_request K B r r' (FinishRegistration handle text) b =
     (case decode B text of
        Inl e \<Rightarrow> (Err e, b)
      | Inr response \<Rightarrow>
          apfst (map_sum id (\<lambda>(u, q). response_default\<lparr>rsp_ok := True,
                   rsp_registration_upload := Some (encode B u),
                   rsp_credential_request := Some (encode B q)\<rparr>))
            (with_session handle (cs_finish_registration K r r' response) b))"
| "process_request K B r r' (FinishLogin handle text) b =
     (case decode B text of
        Inl e \<Rightarrow> (Err e, b)
      | Inr response \<Rightarrow>
          apfst (map_sum id (\<lambda>f. response_default\<lparr>rsp_ok := True,
                   rsp_credential_finalization := Some (encode B f)\<rparr>))
            (with_session handle (cs_finish_login K r response) b))"

text \<open>\<^verbatim>\<open>mitb_pake_process_json\<close>: whatever happens there is a response, and its serialised length is
  recorded for \<^verbatim>\<open>mitb_pake_last_result_len\<close>.\<close>

definition serialize_response :: "(response \<Rightarrow> byte list) \<Rightarrow> response \<Rightarrow> 'o bridge \<Rightarrow> byte list \<times> 'o bridge" where
  "serialize_response ser rsp b =
     (let bytes = ser rsp in (bytes, b\<lparr>last_result_len := of_nat (length bytes)\<rparr>))"

definition mitb_pake_last_result_len :: "'o bridge \<Rightarrow> 32 word" where
  "mitb_pake_last_result_len b = last_result_len b"

definition process_json ::
  "('o, 'r) opaque \<Rightarrow> b64 \<Rightarrow> (byte list \<Rightarrow> string + request) \<Rightarrow> (response \<Rightarrow> byte list) \<Rightarrow> 'r \<Rightarrow> 'r \<Rightarrow>
     byte list \<Rightarrow> 'o bridge \<Rightarrow> byte list \<times> 'o bridge" where
  "process_json K B parse ser r r' bytes b =
     (case parse bytes of
        Inl e \<Rightarrow> serialize_response ser (error_response e) b
      | Inr req \<Rightarrow>
          (case process_request K B r r' req b of
             (Inl e, b) \<Rightarrow> serialize_response ser (error_response e) b
           | (Inr rsp, b) \<Rightarrow> serialize_response ser rsp b))"

section \<open>Handles\<close>

fun request_handle :: "request \<Rightarrow> 32 word option" where
  "request_handle (Create c) = None"
| "request_handle (Destroy h) = Some h"
| "request_handle (StartLogin h) = Some h"
| "request_handle (StartRegistration h) = Some h"
| "request_handle (FinishRegistration h t) = Some h"
| "request_handle (FinishLogin h t) = Some h"

text \<open>Every live handle is below the counter: what holds until the counter wraps around.\<close>

definition bridge_inv :: "'o bridge \<Rightarrow> bool" where
  "bridge_inv b \<longleftrightarrow>
     distinct (hm_keys (sessions b)) \<and> 0 < unat (next_handle b) \<and>
     (\<forall>h \<in> set (hm_keys (sessions b)). 0 < unat h \<and> unat h < unat (next_handle b))"

lemma bridge_inv_init: "bridge_inv bridge_init"
  by (simp add: bridge_inv_def bridge_init_def)

lemma with_session_keys [simp]:
  "hm_keys (sessions (snd (with_session h f b))) = hm_keys (sessions b)"
  by (auto simp: with_session_def Let_def hm_simps split: option.splits prod.splits)

lemma with_session_next [simp]: "next_handle (snd (with_session h f b)) = next_handle b"
  by (simp add: with_session_def Let_def split: option.splits prod.splits)

lemma with_session_other:
  "h' \<noteq> h \<Longrightarrow> hm_get (sessions (snd (with_session h f b))) h' = hm_get (sessions b) h'"
  by (simp add: with_session_def Let_def hm_simps split: option.splits prod.splits)

lemma with_session_unknown:
  "hm_get (sessions b) h = None \<Longrightarrow> \<exists>e. with_session h f b = (Err e, b)"
  by (simp add: with_session_def)

lemma process_request_inv [inv_intros]:
  assumes "bridge_inv b" and "next_handle b + 1 \<noteq> 0"
  shows "bridge_inv (snd (process_request K B r r' req b))"
proof (cases req)
  case (Create code)
  have fresh: "next_handle b \<notin> set (hm_keys (sessions b))"
    using assms by (auto simp: bridge_inv_def)
  have keys: "hm_keys (hm_insert (next_handle b) s (sessions b)) = hm_keys (sessions b) @ [next_handle b]"
    for s using fresh by (simp only: hm_keys_insert_list if_False)
  show ?thesis
    using assms Create fresh
    by (auto simp: bridge_inv_def Let_def unat_Suc_no_wrap less_Suc_eq keys split: sum.splits)
qed (use assms in \<open>auto simp: bridge_inv_def hm_keys_remove distinct_removeAll split: sum.splits\<close>)


lemma process_request_created:
  assumes "process_request K B r r' req b = (Ok rsp, b')" and "rsp_handle rsp = Some h"
  shows "h = next_handle b \<and> next_handle b' = next_handle b + 1"
  using assms
  by (cases req)
     (auto simp: response_default_def ok_response_def with_session_def Let_def
       split: sum.splits if_splits option.splits prod.splits)

lemma process_request_next_cases:
  "next_handle (snd (process_request K B r r' req b)) \<in> {next_handle b, next_handle b + 1}"
  by (cases req) (auto simp: Let_def split: sum.splits)

fun bridge_run ::
  "('o, 'r) opaque \<Rightarrow> b64 \<Rightarrow> ('r \<times> 'r \<times> request) list \<Rightarrow> 'o bridge \<Rightarrow> (string + response) list \<times> 'o bridge" where
  "bridge_run K B [] b = ([], b)"
| "bridge_run K B ((r, r', q) # qs) b =
     (let (x, b) = process_request K B r r' q b; (xs, b) = bridge_run K B qs b in (x # xs, b))"

fun created_handle :: "string + response \<Rightarrow> 32 word option" where
  "created_handle (Inl e) = None"
| "created_handle (Inr rsp) = rsp_handle rsp"

definition created_handles :: "(string + response) list \<Rightarrow> 32 word list" where
  "created_handles xs = List.map_filter created_handle xs"

lemma created_handles_simps [simp]:
  "created_handles [] = []"
  "created_handles (x # xs) =
     (case created_handle x of None \<Rightarrow> created_handles xs | Some h \<Rightarrow> h # created_handles xs)"
  by (simp_all add: created_handles_def map_filter_simps split: option.splits)

lemma bridge_run_created:
  assumes "unat (next_handle b) + length qs < 2 ^ 32"
  shows "distinct (created_handles (fst (bridge_run K B qs b))) \<and>
    (\<forall>h \<in> set (created_handles (fst (bridge_run K B qs b))). unat (next_handle b) \<le> unat h)"
  using assms
proof (induction qs arbitrary: b)
  case (Cons q qs)
  obtain r r' req where q: "q = (r, r', req)" by (cases q)
  obtain x b' where x: "process_request K B r r' req b = (x, b')" by fastforce
  have nz: "next_handle b + 1 \<noteq> 0"
    using Cons.prems by (intro word_Suc_no_wrap) simp
  have next': "next_handle b' = next_handle b \<or> next_handle b' = next_handle b + 1"
    using process_request_next_cases [of K B r r' req b] x by auto
  then have le: "unat (next_handle b) \<le> unat (next_handle b')"
    and "unat (next_handle b') + length qs < 2 ^ 32"
    using Cons.prems by (auto simp: unat_Suc_no_wrap [OF nz])
  note IH = Cons.IH [OF this(2)]
  show ?case
  proof (cases "created_handle x")
    case None
    with IH le show ?thesis by (fastforce simp: q x split: prod.splits)
  next
    case (Some h)
    then obtain rsp where "x = Ok rsp" "rsp_handle rsp = Some h" by (cases x) auto
    with x have h: "h = next_handle b \<and> next_handle b' = next_handle b + 1"
      using process_request_created [of K B r r' req b rsp b' h] by simp
    with IH Some le show ?thesis
      by (fastforce simp: q x unat_Suc_no_wrap [OF nz] Suc_le_eq split: prod.splits)
  qed
qed simp

section \<open>Properties\<close>

text \<open>C11. The bridge never hands out a handle twice while fewer than \<open>2^32 - 1\<close> requests have been
  made: over any sequence of requests from the initial table, the handles of the successful
  \<^verbatim>\<open>create\<close> requests are pairwise distinct and none is 0.\<close>

theorem bridge_handles_distinct:
  assumes "length qs < 2 ^ 32 - 1"
  shows "distinct (created_handles (fst (bridge_run K B qs bridge_init))) \<and>
    0 \<notin> set (created_handles (fst (bridge_run K B qs bridge_init)))"
proof -
  have "unat (next_handle (bridge_init :: 'a bridge)) + length qs < 2 ^ 32"
    using assms by (simp add: bridge_init_def)
  then show ?thesis
    using bridge_run_created [of bridge_init qs K B] by (force simp: bridge_init_def)
qed

definition echo_b64 :: b64 where
  "echo_b64 = \<lparr>encode = string_of_bytes, decode = (\<lambda>s. Inr (as_bytes s))\<rparr>"

lemma echo_b64_roundtrip: "b64_roundtrip echo_b64"
  by (simp add: b64_roundtrip_def echo_b64_def)

theorem bridge_handles_distinct_witness:
  "let xs = fst (bridge_run echo_opaque echo_b64 [((), (), Create ''a''), ((), (), StartLogin 1),
       ((), (), Create ''b'')] bridge_init)
   in created_handles xs = [1, 2] \<and> distinct (created_handles xs)"
proof -
  let ?qs = "[((), (), Create ''a''), ((), (), StartLogin 1), ((), (), Create ''b'')]"
  have "created_handles (fst (bridge_run echo_opaque echo_b64 ?qs bridge_init)) = [1, 2]"
    by code_simp
  moreover have "distinct (created_handles (fst (bridge_run echo_opaque echo_b64 ?qs bridge_init)))"
    using bridge_handles_distinct [of ?qs echo_opaque echo_b64] by simp
  ultimately show ?thesis by (simp only: Let_def simp_thms)
qed



text \<open>Every request is answered: a request that fails, or does not parse, gets a response that is
  not ok and carries the error, a request that succeeds one that is ok and carries none; and the
  length reported for it is that of the bytes returned.\<close>

theorem bridge_always_answers:
  "\<exists>rsp. process_json K B parse ser r r' bytes b =
      (ser rsp, (snd (case parse bytes of Inl e \<Rightarrow> (Err e, b) | Inr req \<Rightarrow> process_request K B r r' req b))
         \<lparr>last_result_len := of_nat (length (ser rsp))\<rparr>) \<and>
    (rsp_ok rsp = (rsp_error rsp = None))"
proof (cases "parse bytes")
  case (Inl e)
  then show ?thesis
    by (auto simp: process_json_def serialize_response_def Let_def error_response_def response_default_def)
next
  case (Inr req)
  obtain x b' where x: "process_request K B r r' req b = (x, b')" by fastforce
  have ok: "rsp_ok rsp \<and> rsp_error rsp = None" if "x = Ok rsp" for rsp
    using x that
    by (cases req) (auto simp: response_default_def ok_response_def Let_def apfst_def map_prod_def
        split: sum.splits if_splits prod.splits)
  show ?thesis
  proof (cases x)
    case Inl
    with Inr x show ?thesis
      by (auto simp: process_json_def serialize_response_def Let_def error_response_def response_default_def)
  next
    case (Inr rsp)
    with ok x \<open>parse bytes = Inr req\<close> show ?thesis
      by (auto simp: process_json_def serialize_response_def Let_def)
  qed
qed

end
