(* ===== verification/Server_State.thy ===== *)
theory Server_State
  imports Pake_Bridge
begin

text \<open>
  The signalling server's shared state, \<^verbatim>\<open>mitb-server/src/lib.rs\<close> and \<^verbatim>\<open>app_state.rs\<close>: rooms with
  their agents and zookeepers, client identifiers, the two sliding-window rate limiters and the
  expiry of empty rooms. Every operation of \<^verbatim>\<open>AppState\<close> holds the lock on the state from its first
  to its last access, so it is one atomic function of the state; \<^verbatim>\<open>Instant::now()\<close> is its argument
  \<open>now\<close>. A JSON value is a type variable \<open>'v\<close>. A client handle is a pair of addresses: the outbound
  channel and the penalty flag are shared with the client's own task (theory \<open>Server_Runtime\<close>).
\<close>

section \<open>Types\<close>

datatype client_role = Agent | Zookeeper

fun as_prefix :: "client_role \<Rightarrow> string" where
  "as_prefix Agent = ''agent''"
| "as_prefix Zookeeper = ''zookeeper''"

datatype 'v client_message =
    PakeInit client_role (init_room_handle: string) (init_credential_request: string)
      (init_client_alias: "string option")
  | PakeRegistrationRequest string
  | PakeRegistrationUpload string string
  | PakeCredentialFinalization string string
  | SignalPeer string 'v
  | Ping

record pake_credential_candidate =
  pcc_candidate_id :: string
  pcc_credential_response :: string

datatype 'v server_message =
    PakeRegistrationRequired
  | PakeRegistrationResponse string
  | PakeCredentialCandidates "pake_credential_candidate list"
  | Connected string client_role "string list" "string list"
  | PeerJoined client_role string
  | PeerLeft client_role string
  | Signal string 'v
  | ErrorMessage string
  | Pong

record client_handle =
  tx :: nat
  penalized :: nat

record room_state =
  password_file :: "byte list"
  agents :: "(string, client_handle) hashmap"
  zookeepers :: "(string, client_handle) hashmap"
  last_active_at :: instant
  signal_events :: "instant list"

datatype ip_addr = V4 "32 word" | V6 "128 word"

record state_inner =
  next_client_id :: "64 word"
  rooms :: "(string, room_state) hashmap"
  auth_events_by_ip :: "(ip_addr, instant list) hashmap"

definition state_inner_default :: state_inner where
  "state_inner_default = \<lparr>next_client_id = 0, rooms = [], auth_events_by_ip = []\<rparr>"

record security_config =
  allow_agent_room_creation :: bool
  max_rooms :: nat
  room_ttl :: duration
  auth_rate_limit :: nat
  auth_rate_window :: duration
  room_signal_rate_limit :: nat
  room_signal_rate_window :: duration

record 'v register_outcome =
  ro_client_id :: string
  ro_initial_messages :: "'v server_message list"
  ro_broadcasts :: "(client_handle \<times> 'v server_message) list"

record 'o pending_login =
  pl_candidate_id :: string
  pl_room_handle :: string
  pl_credential_response :: "byte list"
  pl_login_session :: "'o server_login_session"

record created_room =
  cr_room_handle :: string
  cr_password_file :: "byte list"

section \<open>Configuration\<close>

text \<open>\<open>env\<close> is \<^verbatim>\<open>std::env::var(..).ok()\<close>.\<close>

definition parse_env_bool :: "(string \<Rightarrow> string option) \<Rightarrow> string \<Rightarrow> bool \<Rightarrow> bool" where
  "parse_env_bool env name dflt =
     (case env name of
        None \<Rightarrow> dflt
      | Some value \<Rightarrow>
          let v = to_ascii_lowercase (trim value) in
          if v \<in> {''1'', ''true'', ''yes'', ''on''} then True
          else if v \<in> {''0'', ''false'', ''no'', ''off''} then False
          else dflt)"

definition parse_env_u64 :: "(string \<Rightarrow> string option) \<Rightarrow> string \<Rightarrow> nat \<Rightarrow> nat" where
  "parse_env_u64 env name dflt =
     (case Option.bind (env name) (\<lambda>value. parse_unsigned 64 (trim value)) of
        None \<Rightarrow> dflt | Some n \<Rightarrow> n)"

text \<open>\<^verbatim>\<open>usize\<close> on a 64-bit target.\<close>

definition parse_env_usize :: "(string \<Rightarrow> string option) \<Rightarrow> string \<Rightarrow> nat \<Rightarrow> nat" where
  "parse_env_usize env name dflt =
     (case Option.bind (env name) (\<lambda>value. parse_unsigned 64 (trim value)) of
        None \<Rightarrow> dflt | Some n \<Rightarrow> n)"

definition security_config_from_env :: "(string \<Rightarrow> string option) \<Rightarrow> security_config" where
  "security_config_from_env env =
     \<lparr>allow_agent_room_creation = parse_env_bool env ''MITB_ALLOW_AGENT_ROOM_CREATION'' False,
      max_rooms = max (parse_env_usize env ''MITB_MAX_ROOMS'' 512) 1,
      room_ttl = from_secs (parse_env_u64 env ''MITB_ROOM_TTL_SECS'' 3600),
      auth_rate_limit = max (parse_env_usize env ''MITB_AUTH_RATE_LIMIT'' 30) 1,
      auth_rate_window = from_secs (parse_env_u64 env ''MITB_AUTH_RATE_WINDOW_SECS'' 60),
      room_signal_rate_limit = max (parse_env_usize env ''MITB_ROOM_SIGNAL_RATE_LIMIT'' 300) 1,
      room_signal_rate_window = from_secs (parse_env_u64 env ''MITB_ROOM_SIGNAL_RATE_WINDOW_SECS'' 10)\<rparr>"

section \<open>Pruning\<close>

text \<open>\<^verbatim>\<open>now.saturating_duration_since(ts)\<close> is \<open>now - ts\<close> on \<open>nat\<close>.\<close>

fun prune_event_window :: "instant list \<Rightarrow> duration \<Rightarrow> instant \<Rightarrow> instant list" where
  "prune_event_window [] window now = []"
| "prune_event_window (ts # events) window now =
     (if now - ts < window then ts # events else prune_event_window events window now)"

definition room_live :: "security_config \<Rightarrow> instant \<Rightarrow> room_state \<Rightarrow> bool" where
  "room_live cfg now room \<longleftrightarrow>
     (if agents room \<noteq> [] \<or> zookeepers room \<noteq> [] then True
      else now - last_active_at room < room_ttl cfg)"

definition prune_expired_rooms :: "security_config \<Rightarrow> instant \<Rightarrow> state_inner \<Rightarrow> state_inner" where
  "prune_expired_rooms cfg now st =
     st\<lparr>rooms := filter (\<lambda>(h, room). room_live cfg now room) (rooms st),
        auth_events_by_ip :=
          filter (\<lambda>(ip, events). events \<noteq> [])
            (map (\<lambda>(ip, events). (ip, prune_event_window events (auth_rate_window cfg) now))
               (auth_events_by_ip st))\<rparr>"

section \<open>Clients\<close>

definition client_id_for :: "client_role \<Rightarrow> 64 word \<Rightarrow> string" where
  "client_id_for role n = as_prefix role @ ''-'' @ dec_of_nat (unat n)"

text \<open>The loop that looks for a free identifier; \<open>None\<close> would be a loop that never ends. The counter
  wraps around at 64 bits, as it does in a release build.\<close>

partial_function (option) fresh_client_id ::
  "client_role \<Rightarrow> string list \<Rightarrow> 64 word \<Rightarrow> (string \<times> 64 word) option" where
  "fresh_client_id role occupied n =
     (let n = n + 1; candidate = client_id_for role n in
      if candidate \<notin> set occupied then Some (candidate, n) else fresh_client_id role occupied n)"

declare fresh_client_id.simps [code]

definition occupied_ids :: "room_state \<Rightarrow> string list" where
  "occupied_ids room = hm_keys (agents room) @ hm_keys (zookeepers room)"

definition choose_client_id ::
  "client_role \<Rightarrow> string option \<Rightarrow> string list \<Rightarrow> 64 word \<Rightarrow> (string \<times> 64 word) option" where
  "choose_client_id role preferred occupied n =
     (case preferred of
        Some c \<Rightarrow> if c \<noteq> [] \<and> c \<notin> set occupied then Some (c, n) else fresh_client_id role occupied n
      | None \<Rightarrow> fresh_client_id role occupied n)"

definition announce :: "'v server_message \<Rightarrow> (string, client_handle) hashmap \<Rightarrow>
    (client_handle \<times> 'v server_message) list" where
  "announce m peers = map (\<lambda>c. (c, m)) (hm_values peers)"

fun insert_client :: "client_role \<Rightarrow> string \<Rightarrow> client_handle \<Rightarrow> room_state \<Rightarrow> room_state" where
  "insert_client Agent c h room = room\<lparr>agents := hm_insert c h (agents room)\<rparr>"
| "insert_client Zookeeper c h room = room\<lparr>zookeepers := hm_insert c h (zookeepers room)\<rparr>"

fun role_clients :: "client_role \<Rightarrow> room_state \<Rightarrow> (string, client_handle) hashmap" where
  "role_clients Agent room = agents room"
| "role_clients Zookeeper room = zookeepers room"

fun opposite :: "client_role \<Rightarrow> client_role" where
  "opposite Agent = Zookeeper"
| "opposite Zookeeper = Agent"

text \<open>\<^verbatim>\<open>AppState::register\<close>. \<open>None\<close> means that the identifier loop does not return.\<close>

definition register ::
  "security_config \<Rightarrow> instant \<Rightarrow> string \<Rightarrow> client_role \<Rightarrow> string option \<Rightarrow> client_handle \<Rightarrow> state_inner \<Rightarrow>
     ((string + 'v register_outcome) \<times> state_inner) option" where
  "register cfg now handle role preferred client st =
     (let st = prune_expired_rooms cfg now st in
      case hm_get (rooms st) handle of
        None \<Rightarrow> Some (Err ''channel not found'', st)
      | Some room \<Rightarrow>
          (case choose_client_id role preferred (occupied_ids room) (next_client_id st) of
             None \<Rightarrow> None
           | Some (c, n) \<Rightarrow>
               let st = st\<lparr>next_client_id := n\<rparr>;
                   room = room\<lparr>last_active_at := now\<rparr>;
                   initial = [Connected c role (hm_keys (agents room)) (hm_keys (zookeepers room))];
                   room = insert_client role c client room;
                   broadcasts = announce (PeerJoined role c) (role_clients (opposite role) room)
               in Some (Ok \<lparr>ro_client_id = c, ro_initial_messages = initial, ro_broadcasts = broadcasts\<rparr>,
                        st\<lparr>rooms := hm_insert handle room (rooms st)\<rparr>)))"

fun remove_client :: "client_role \<Rightarrow> string \<Rightarrow> room_state \<Rightarrow> room_state" where
  "remove_client Agent c room = room\<lparr>agents := hm_remove c (agents room)\<rparr>"
| "remove_client Zookeeper c room = room\<lparr>zookeepers := hm_remove c (zookeepers room)\<rparr>"

definition unregister ::
  "security_config \<Rightarrow> instant \<Rightarrow> string \<Rightarrow> client_role \<Rightarrow> string \<Rightarrow> state_inner \<Rightarrow>
     (client_handle \<times> 'v server_message) list \<times> state_inner" where
  "unregister cfg now handle role c st =
     (let st = prune_expired_rooms cfg now st;
          (broadcasts, st) =
            (case hm_get (rooms st) handle of
               None \<Rightarrow> ([], st)
             | Some room \<Rightarrow>
                 if hm_contains (role_clients role room) c then
                   let room = (remove_client role c room)\<lparr>last_active_at := now\<rparr> in
                   (announce (PeerLeft role c) (role_clients (opposite role) room),
                    st\<lparr>rooms := hm_insert handle room (rooms st)\<rparr>)
                 else ([], st))
      in (broadcasts, prune_expired_rooms cfg now st))"

section \<open>Rooms\<close>

text \<open>\<^verbatim>\<open>candidate_login_for_room\<close>: the lock is released once the password file is read, so the rest
  depends on nothing but that file. \<open>token\<close> is the result of \<^verbatim>\<open>random_token()\<close>.\<close>

definition random_token :: "b64 \<Rightarrow> string + byte list \<Rightarrow> string + string" where
  "random_token B entropy = map_sum id (encode B) entropy"

definition candidate_login_for_room ::
  "('o, 'r) opaque \<Rightarrow> b64 \<Rightarrow> 'o server_pake \<Rightarrow> security_config \<Rightarrow> instant \<Rightarrow> 'r \<Rightarrow> string + byte list \<Rightarrow>
     string \<Rightarrow> byte list \<Rightarrow> state_inner \<Rightarrow> (string + 'o pending_login option) \<times> state_inner" where
  "candidate_login_for_room K B pake cfg now r entropy handle request st =
     (let st = prune_expired_rooms cfg now st in
      case hm_get (rooms st) handle of
        None \<Rightarrow> (Ok None, st)
      | Some room \<Rightarrow>
          (case sp_start_login K r pake (as_bytes handle) (password_file room) request of
             Inl e \<Rightarrow> (Err e, st)
           | Inr (response, session) \<Rightarrow>
               (case random_token B entropy of
                  Inl e \<Rightarrow> (Err e, st)
                | Inr token \<Rightarrow>
                    (Ok (Some \<lparr>pl_candidate_id = token, pl_room_handle = handle,
                       pl_credential_response = response, pl_login_session = session\<rparr>), st))))"

definition new_room :: "byte list \<Rightarrow> instant \<Rightarrow> room_state" where
  "new_room file now =
     \<lparr>password_file = file, agents = [], zookeepers = [], last_active_at = now, signal_events = []\<rparr>"

definition store_room ::
  "security_config \<Rightarrow> instant \<Rightarrow> string \<Rightarrow> byte list \<Rightarrow> state_inner \<Rightarrow> (string + unit) \<times> state_inner" where
  "store_room cfg now handle file st =
     (let st = prune_expired_rooms cfg now st in
      if length (rooms st) \<ge> max_rooms cfg then (Err ''room quota exceeded'', st)
      else if hm_contains (rooms st) handle then (Err ''generated duplicate room handle'', st)
      else (Ok (), st\<lparr>rooms := hm_insert handle (new_room file now) (rooms st)\<rparr>))"

definition ensure_room_capacity ::
  "security_config \<Rightarrow> instant \<Rightarrow> state_inner \<Rightarrow> (string + unit) \<times> state_inner" where
  "ensure_room_capacity cfg now st =
     (let st = prune_expired_rooms cfg now st in
      if length (rooms st) \<ge> max_rooms cfg then (Err ''room quota exceeded'', st) else (Ok (), st))"

section \<open>Rate limits and signalling\<close>

text \<open>The limiter both operations inline: prune, refuse at the limit, record the event.\<close>

definition window_admit ::
  "nat \<Rightarrow> duration \<Rightarrow> instant \<Rightarrow> instant list \<Rightarrow> bool \<times> instant list" where
  "window_admit limit window now events =
     (let events = prune_event_window events window now in
      if length events \<ge> limit then (False, events) else (True, events @ [now]))"

definition events_of_ip :: "ip_addr \<Rightarrow> state_inner \<Rightarrow> instant list" where
  "events_of_ip ip st = (case hm_get (auth_events_by_ip st) ip of None \<Rightarrow> [] | Some e \<Rightarrow> e)"

definition check_auth_rate_limit ::
  "security_config \<Rightarrow> instant \<Rightarrow> ip_addr \<Rightarrow> state_inner \<Rightarrow> (string + unit) \<times> state_inner" where
  "check_auth_rate_limit cfg now ip st =
     (let st = prune_expired_rooms cfg now st;
          (ok, events) = window_admit (auth_rate_limit cfg) (auth_rate_window cfg) now (events_of_ip ip st);
          st = st\<lparr>auth_events_by_ip := hm_insert ip events (auth_events_by_ip st)\<rparr>
      in (if ok then Ok () else Err ''too many authentication attempts from this IP'', st))"

definition role_of :: "room_state \<Rightarrow> string \<Rightarrow> client_role option" where
  "role_of room c =
     (if hm_contains (agents room) c then Some Agent
      else if hm_contains (zookeepers room) c then Some Zookeeper else None)"

definition find_client :: "room_state \<Rightarrow> string \<Rightarrow> client_handle option" where
  "find_client room c =
     (case hm_get (agents room) c of Some h \<Rightarrow> Some h | None \<Rightarrow> hm_get (zookeepers room) c)"

definition route_signal ::
  "room_state \<Rightarrow> string \<Rightarrow> string \<Rightarrow> 'v \<Rightarrow> string + client_handle \<times> 'v server_message" where
  "route_signal room sender peer payload =
     (case role_of room sender of
        None \<Rightarrow> Err (''sender `'' @ sender @ ''` is not connected'')
      | Some sr \<Rightarrow>
          (case role_of room peer of
             None \<Rightarrow> Err (''peer `'' @ peer @ ''` is not connected'')
           | Some pr \<Rightarrow>
               if sr = Agent \<and> pr = Agent then Err ''agent-to-agent signaling is not supported''
               else (case find_client room peer of
                       None \<Rightarrow> Err (''peer `'' @ peer @ ''` is not connected'')
                     | Some h \<Rightarrow> Ok (h, Signal sender payload))))"

definition forward_signal ::
  "security_config \<Rightarrow> instant \<Rightarrow> string \<Rightarrow> string \<Rightarrow> string \<Rightarrow> 'v \<Rightarrow> state_inner \<Rightarrow>
     (string + client_handle \<times> 'v server_message) \<times> state_inner" where
  "forward_signal cfg now handle sender peer payload st =
     (let st = prune_expired_rooms cfg now st in
      case hm_get (rooms st) handle of
        None \<Rightarrow> (Err ''channel not found'', st)
      | Some room \<Rightarrow>
          let (ok, events) = window_admit (room_signal_rate_limit cfg) (room_signal_rate_window cfg)
                               now (signal_events room);
              room = room\<lparr>signal_events := events\<rparr>
          in if \<not> ok
             then (Err ''room signaling rate limit exceeded'',
                   st\<lparr>rooms := hm_insert handle room (rooms st)\<rparr>)
             else let room = room\<lparr>last_active_at := now\<rparr>
                  in (route_signal room sender peer payload,
                      st\<lparr>rooms := hm_insert handle room (rooms st)\<rparr>))"

end
