(* ===== verification/Server_Inv.thy ===== *)
theory Server_Inv
  imports Server_State
begin

text \<open>
  The signalling server's state under every sequence of its operations: the free-identifier loop
  returns, the state invariant, the two rate limits as instances of one sliding-window contract,
  what registering and leaving do to a room, and how long a room lives.
\<close>

section \<open>The identifier loop\<close>

lemma client_id_for_inj: "client_id_for role a = client_id_for role b \<longleftrightarrow> a = b"
  by (cases role) (auto simp: client_id_for_def dest: word_unat_eq_iff [THEN iffD2])

lemma fresh_client_id_step:
  "client_id_for role (n + 1) \<in> set occ \<Longrightarrow> fresh_client_id role occ n = fresh_client_id role occ (n + 1)"
  "client_id_for role (n + 1) \<notin> set occ \<Longrightarrow>
     fresh_client_id role occ n = Some (client_id_for role (n + 1), n + 1)"
  by (subst fresh_client_id.simps, simp add: Let_def)+

lemma fresh_client_id_search:
  assumes "client_id_for role (n + of_nat (Suc k)) \<notin> set occ"
    and "\<forall>j < k. client_id_for role (n + of_nat (Suc j)) \<in> set occ"
  shows "fresh_client_id role occ n =
           Some (client_id_for role (n + of_nat (Suc k)), n + of_nat (Suc k))"
  using assms
proof (induction k arbitrary: n)
  case 0
  then show ?case by (simp add: fresh_client_id_step)
next
  case (Suc k)
  have "client_id_for role (n + 1) \<in> set occ" using Suc.prems(2) by force
  moreover have "fresh_client_id role occ (n + 1) =
      Some (client_id_for role (n + 1 + of_nat (Suc k)), n + 1 + of_nat (Suc k))"
    using Suc.prems by (intro Suc.IH) (auto simp: ac_simps)
  ultimately show ?case by (simp add: fresh_client_id_step ac_simps)
qed

lemma fresh_client_id_returns:
  assumes "card (set occ) < 2 ^ 64"
  shows "\<exists>k. fresh_client_id role occ n = Some (client_id_for role (n + of_nat (Suc k)), n + of_nat (Suc k))
    \<and> client_id_for role (n + of_nat (Suc k)) \<notin> set occ"
proof -
  let ?P = "\<lambda>k. client_id_for role (n + of_nat (Suc k)) \<notin> set occ"
  have "\<exists>m. client_id_for role m \<notin> set occ"
  proof (rule ccontr)
    assume "\<not> ?thesis"
    then have "range (client_id_for role) \<subseteq> set occ" by auto
    then have "card (UNIV :: 64 word set) \<le> card (set occ)"
      by (intro card_inj_on_le [of "client_id_for role"]) (auto simp: inj_def client_id_for_inj)
    with assms show False by (simp add: card_word)
  qed
  then obtain m where "client_id_for role m \<notin> set occ" by blast
  moreover have "m = n + of_nat (Suc (unat (m - n - 1)))" by simp
  ultimately have ex: "\<exists>k. ?P k" by metis
  have "fresh_client_id role occ n =
      Some (client_id_for role (n + of_nat (Suc (LEAST k. ?P k))), n + of_nat (Suc (LEAST k. ?P k)))"
    using LeastI_ex [OF ex] not_less_Least [of _ ?P] by (intro fresh_client_id_search) auto
  with LeastI_ex [OF ex] show ?thesis by blast
qed

lemma choose_client_id_returns:
  assumes "card (set occ) < 2 ^ 64"
  shows "\<exists>c n'. choose_client_id role preferred occ n = Some (c, n') \<and> c \<notin> set occ"
  using fresh_client_id_returns [OF assms, of role n]
  by (auto simp: choose_client_id_def split: option.splits)

lemma fresh_client_id_result:
  "fresh_client_id role occ n = Some x \<Longrightarrow> fst x \<notin> set occ"
  by (rule fresh_client_id.raw_induct [where P = "\<lambda>role occ n x. fst x \<notin> set occ"])
     (auto simp: Let_def split: if_splits)

lemma choose_client_id_fresh:
  "choose_client_id role preferred occ n = Some (c, n') \<Longrightarrow> c \<notin> set occ"
  by (auto simp: choose_client_id_def split: option.splits if_splits dest: fresh_client_id_result)

section \<open>Pruning\<close>

lemma prune_event_window_dropWhile:
  "prune_event_window events window now = dropWhile (\<lambda>ts. \<not> now - ts < window) events"
  by (induction events) auto

lemma prune_suffix: "\<exists>dropped. events = dropped @ prune_event_window events window now \<and>
    (\<forall>ts \<in> set dropped. window \<le> now - ts)"
  by (metis prune_event_window_dropWhile linorder_not_less set_takeWhileD takeWhile_dropWhile_id)

lemma prune_length: "length (prune_event_window events window now) \<le> length events"
  by (simp add: prune_event_window_dropWhile length_dropWhile_le)

lemma prune_sorted: "sorted events \<Longrightarrow> sorted (prune_event_window events window now)"
  by (simp add: prune_event_window_dropWhile sorted_dropWhile)

lemma prune_subset: "set (prune_event_window events window now) \<subseteq> set events"
  by (auto simp: prune_event_window_dropWhile dest: set_dropWhileD)

lemma prune_idem [simp]:
  "prune_event_window (prune_event_window events window now) window now =
     prune_event_window events window now"
  by (simp add: prune_event_window_dropWhile)


section \<open>The operations as one step function\<close>

datatype 'v server_op =
    OpRegister string client_role "string option" client_handle
  | OpUnregister string client_role string
  | OpLogin string
  | OpStore string "byte list"
  | OpCapacity
  | OpAuth ip_addr
  | OpSignal string string string 'v

fun is_ok :: "'e + 'a \<Rightarrow> bool" where
  "is_ok (Inl e) = False"
| "is_ok (Inr x) = True"

text \<open>One operation at a time: whether it succeeded and the state it leaves. Of
  \<^verbatim>\<open>candidate_login_for_room\<close> only the state matters here.\<close>

fun exec :: "security_config \<Rightarrow> instant \<Rightarrow> 'v server_op \<Rightarrow> state_inner \<Rightarrow> (bool \<times> state_inner) option" where
  "exec cfg now (OpRegister handle role preferred client) st =
     map_option (apfst is_ok)
       (register cfg now handle role preferred client st ::
          ((string + 'v register_outcome) \<times> state_inner) option)"
| "exec cfg now (OpUnregister handle role c) st =
     Some (True, snd (unregister cfg now handle role c st ::
       (client_handle \<times> 'v server_message) list \<times> state_inner))"
| "exec cfg now (OpLogin handle) st = Some (True, prune_expired_rooms cfg now st)"
| "exec cfg now (OpStore handle file) st = Some (apfst is_ok (store_room cfg now handle file st))"
| "exec cfg now OpCapacity st = Some (apfst is_ok (ensure_room_capacity cfg now st))"
| "exec cfg now (OpAuth ip) st = Some (apfst is_ok (check_auth_rate_limit cfg now ip st))"
| "exec cfg now (OpSignal handle sender peer payload) st =
     Some (apfst is_ok (forward_signal cfg now handle sender peer payload st))"

lemma candidate_login_state:
  "snd (candidate_login_for_room K B pake cfg now r entropy handle request st) =
     prune_expired_rooms cfg now st"
  by (simp add: candidate_login_for_room_def Let_def split: option.splits sum.splits prod.splits)

fun run :: "security_config \<Rightarrow> (instant \<times> 'v server_op) list \<Rightarrow> state_inner \<Rightarrow>
    ((instant \<times> 'v server_op \<times> bool) list \<times> state_inner) option" where
  "run cfg [] st = Some ([], st)"
| "run cfg ((now, op) # ops) st =
     (case exec cfg now op st of
        None \<Rightarrow> None
      | Some (ok, st) \<Rightarrow> map_option (apfst (Cons (now, op, ok))) (run cfg ops st))"

text \<open>What every operation preserves.\<close>

definition room_ok :: "security_config \<Rightarrow> instant \<Rightarrow> room_state \<Rightarrow> bool" where
  "room_ok cfg now room \<longleftrightarrow>
     distinct (occupied_ids room) \<and>
     sorted (signal_events room) \<and> length (signal_events room) \<le> room_signal_rate_limit cfg \<and>
     (\<forall>t \<in> set (signal_events room). t \<le> last_active_at room) \<and> last_active_at room \<le> now"

definition rooms_ok :: "security_config \<Rightarrow> instant \<Rightarrow> (string, room_state) hashmap \<Rightarrow> bool" where
  "rooms_ok cfg now rs \<longleftrightarrow>
     distinct (hm_keys rs) \<and> length rs \<le> max_rooms cfg \<and>
     (\<forall>h room. hm_get rs h = Some room \<longrightarrow> room_ok cfg now room)"

definition auth_ok :: "security_config \<Rightarrow> instant \<Rightarrow> (ip_addr, instant list) hashmap \<Rightarrow> bool" where
  "auth_ok cfg now m \<longleftrightarrow>
     distinct (hm_keys m) \<and>
     (\<forall>ip events. hm_get m ip = Some events \<longrightarrow>
        sorted events \<and> length events \<le> auth_rate_limit cfg \<and> (\<forall>t \<in> set events. t \<le> now))"

definition state_ok :: "security_config \<Rightarrow> instant \<Rightarrow> state_inner \<Rightarrow> bool" where
  "state_ok cfg now st \<longleftrightarrow> rooms_ok cfg now (rooms st) \<and> auth_ok cfg now (auth_events_by_ip st)"

lemma state_ok_default: "state_ok cfg now state_inner_default"
  by (simp add: state_ok_def rooms_ok_def auth_ok_def state_inner_default_def)

lemma room_ok_mono: "room_ok cfg now room \<Longrightarrow> now \<le> now' \<Longrightarrow> room_ok cfg now' room"
  by (auto simp: room_ok_def)

lemma rooms_ok_mono: "rooms_ok cfg now rs \<Longrightarrow> now \<le> now' \<Longrightarrow> rooms_ok cfg now' rs"
  by (auto simp: rooms_ok_def intro: room_ok_mono)

lemma auth_ok_mono: "auth_ok cfg now m \<Longrightarrow> now \<le> now' \<Longrightarrow> auth_ok cfg now' m"
  by (fastforce simp: auth_ok_def)

lemma rooms_ok_get: "rooms_ok cfg now rs \<Longrightarrow> hm_get rs h = Some room \<Longrightarrow> room_ok cfg now room"
  by (simp add: rooms_ok_def)

lemma rooms_ok_update:
  "rooms_ok cfg now rs \<Longrightarrow> hm_get rs h = Some room \<Longrightarrow> room_ok cfg now room' \<Longrightarrow>
     rooms_ok cfg now (hm_insert h room' rs)"
  by (auto simp: rooms_ok_def hm_simps hm_get_key hm_length_insert intro: hm_distinct_insert)

lemma rooms_ok_add:
  "rooms_ok cfg now rs \<Longrightarrow> length rs < max_rooms cfg \<Longrightarrow> room_ok cfg now room' \<Longrightarrow>
     rooms_ok cfg now (hm_insert h room' rs)"
  by (auto simp: rooms_ok_def hm_simps hm_length_insert intro: hm_distinct_insert)

lemma rooms_ok_filter:
  assumes "rooms_ok cfg now rs"
  shows "rooms_ok cfg now (filter (\<lambda>(h, room). P h room) rs)"
  using assms
  by (auto simp: rooms_ok_def hm_get_filter hm_distinct_filter le_trans [OF length_filter_le]
      split: option.splits if_splits)

lemma auth_get_prune:
  assumes "distinct (hm_keys (auth_events_by_ip st))"
  shows "hm_get (auth_events_by_ip (prune_expired_rooms cfg now st)) ip =
     (case hm_get (auth_events_by_ip st) ip of
        None \<Rightarrow> None
      | Some events \<Rightarrow>
          (let e = prune_event_window events (auth_rate_window cfg) now in
           if e = [] then None else Some e))"
proof -
  let ?f = "\<lambda>e. prune_event_window e (auth_rate_window cfg) now"
  let ?m = "auth_events_by_ip st"
  have keys: "hm_keys (map (\<lambda>(ip, e). (ip, ?f e)) ?m) = hm_keys ?m"
    by (induction ?m) (auto simp: hm_keys_def)
  have get: "hm_get (map (\<lambda>(ip, e). (ip, ?f e)) m) ip = map_option ?f (hm_get m ip)" for m ip
    by (induction m) auto
  show ?thesis
    using assms hm_get_filter [of "map (\<lambda>(ip, e). (ip, ?f e)) ?m" "\<lambda>_ e. e \<noteq> []" ip]
    by (simp add: prune_expired_rooms_def keys get Let_def split: option.splits)
qed

lemma auth_keys_prune:
  "distinct (hm_keys (auth_events_by_ip st)) \<Longrightarrow>
     distinct (hm_keys (auth_events_by_ip (prune_expired_rooms cfg now st)))"
proof -
  assume "distinct (hm_keys (auth_events_by_ip st))"
  moreover have "hm_keys (map (\<lambda>(ip, e). (ip, f e)) m) = hm_keys m" for f :: "instant list \<Rightarrow> instant list" and m :: "(ip_addr, instant list) hashmap"
    by (induction m) auto
  ultimately show ?thesis
    by (simp add: prune_expired_rooms_def hm_distinct_filter)
qed

lemma rooms_prune:
  "distinct (hm_keys (rooms st)) \<Longrightarrow>
     hm_get (rooms (prune_expired_rooms cfg now st)) h =
       (case hm_get (rooms st) h of
          None \<Rightarrow> None | Some room \<Rightarrow> if room_live cfg now room then Some room else None)"
  by (simp add: prune_expired_rooms_def hm_get_filter)

lemma state_ok_prune [inv_intros]:
  assumes "state_ok cfg now st"
  shows "state_ok cfg now (prune_expired_rooms cfg now st)"
proof -
  have "rooms_ok cfg now (rooms (prune_expired_rooms cfg now st))"
    using assms by (simp add: state_ok_def prune_expired_rooms_def rooms_ok_filter)
  moreover have "auth_ok cfg now (auth_events_by_ip (prune_expired_rooms cfg now st))"
    using assms
    by (auto simp: state_ok_def auth_ok_def auth_keys_prune auth_get_prune Let_def prune_sorted
        le_trans [OF prune_length] dest!: subsetD [OF prune_subset] split: option.splits if_splits)
  ultimately show ?thesis by (simp add: state_ok_def)
qed


lemma window_admit_ok:
  assumes "sorted events" and "length events \<le> limit" and "\<forall>t \<in> set events. t \<le> now"
    and "window_admit limit window now events = (ok, events')"
  shows "sorted events' \<and> length events' \<le> limit \<and> (\<forall>t \<in> set events'. t \<le> now)"
proof -
  have p: "sorted (prune_event_window events window now)"
    "\<forall>t \<in> set (prune_event_window events window now). t \<le> now"
    "length (prune_event_window events window now) \<le> limit"
    using assms prune_sorted prune_subset [of events window now] prune_length [of events window now] by auto
  with assms(4) show ?thesis
    by (auto simp: window_admit_def Let_def sorted_append split: if_splits)
qed

lemma occupied_ids_simps:
  "set (occupied_ids room) = set (hm_keys (agents room)) \<union> set (hm_keys (zookeepers room))"
  by (simp add: occupied_ids_def)

lemma insert_client_ok [inv_intros]:
  assumes "room_ok cfg now room" and "c \<notin> set (occupied_ids room)"
  shows "room_ok cfg now (insert_client role c client (room\<lparr>last_active_at := now\<rparr>))"
  using assms
  by (cases role)
     (fastforce simp: room_ok_def occupied_ids_def hm_keys_insert_list)+

lemma remove_client_ok [inv_intros]:
  assumes "room_ok cfg now room"
  shows "room_ok cfg now ((remove_client role c room)\<lparr>last_active_at := now\<rparr>)"
  using assms
  by (cases role)
     (fastforce simp: room_ok_def occupied_ids_def hm_keys_remove distinct_removeAll)+

lemma register_ok:
  assumes "state_ok cfg now st"
    and "register cfg now handle role preferred client st = Some (res, st')"
  shows "state_ok cfg now st'"
proof -
  let ?st = "prune_expired_rooms cfg now st"
  note ok = state_ok_prune [OF assms(1)]
  show ?thesis
  proof (cases "hm_get (rooms ?st) handle")
    case None
    with assms(2) ok show ?thesis by (simp add: register_def Let_def)
  next
    case (Some room)
    with assms(2) obtain c n where
      c: "choose_client_id role preferred (occupied_ids room) (next_client_id ?st) = Some (c, n)"
      by (auto simp: register_def Let_def split: option.splits)
    have "room_ok cfg now (insert_client role c client (room\<lparr>last_active_at := now\<rparr>))"
      using ok Some choose_client_id_fresh [OF c]
      by (intro insert_client_ok) (auto simp: state_ok_def intro: rooms_ok_get)
    with assms(2) ok Some c show ?thesis
      by (auto simp: register_def Let_def state_ok_def intro: rooms_ok_update)
  qed
qed

lemma unregister_ok:
  assumes "state_ok cfg now st"
  shows "state_ok cfg now (snd (unregister cfg now handle role c st))"
proof -
  let ?st = "prune_expired_rooms cfg now st"
  note ok = state_ok_prune [OF assms]
  have upd: "state_ok cfg now (?st\<lparr>rooms := hm_insert handle ((remove_client role c room)\<lparr>last_active_at := now\<rparr>) (rooms ?st)\<rparr>)"
    if "hm_get (rooms ?st) handle = Some room" for room
    using ok that by (auto simp: state_ok_def intro!: rooms_ok_update remove_client_ok intro: rooms_ok_get)
  show ?thesis
    using ok upd
    by (auto simp: unregister_def Let_def intro!: state_ok_prune split: option.splits)
qed

lemma store_room_ok:
  assumes "state_ok cfg now st"
  shows "state_ok cfg now (snd (store_room cfg now handle file st))"
  using state_ok_prune [OF assms]
  by (auto simp: store_room_def Let_def state_ok_def room_ok_def new_room_def occupied_ids_def
      intro!: rooms_ok_add)

lemma check_auth_rate_limit_ok:
  assumes "state_ok cfg now st"
  shows "state_ok cfg now (snd (check_auth_rate_limit cfg now ip st))"
proof -
  let ?st = "prune_expired_rooms cfg now st"
  obtain ok events where e: "window_admit (auth_rate_limit cfg) (auth_rate_window cfg) now (events_of_ip ip ?st) = (ok, events)"
    by fastforce
  have st: "state_ok cfg now ?st" using assms by (rule state_ok_prune)
  then have "sorted (events_of_ip ip ?st) \<and> length (events_of_ip ip ?st) \<le> auth_rate_limit cfg \<and>
      (\<forall>t \<in> set (events_of_ip ip ?st). t \<le> now)"
    by (auto simp: events_of_ip_def state_ok_def auth_ok_def split: option.splits)
  then have "sorted events \<and> length events \<le> auth_rate_limit cfg \<and> (\<forall>t \<in> set events. t \<le> now)"
    using window_admit_ok [OF _ _ _ e] by blast
  with st e show ?thesis
    by (auto simp: check_auth_rate_limit_def Let_def state_ok_def auth_ok_def hm_simps
        intro: hm_distinct_insert split: if_splits)
qed

lemma forward_signal_ok:
  assumes "state_ok cfg now st"
  shows "state_ok cfg now (snd (forward_signal cfg now handle sender peer payload st))"
proof -
  let ?st = "prune_expired_rooms cfg now st"
  have st: "state_ok cfg now ?st" using assms by (rule state_ok_prune)
  show ?thesis
  proof (cases "hm_get (rooms ?st) handle")
    case None
    with st show ?thesis by (simp add: forward_signal_def Let_def)
  next
    case (Some room)
    obtain ok events where e: "window_admit (room_signal_rate_limit cfg) (room_signal_rate_window cfg) now
        (signal_events room) = (ok, events)"
      by fastforce
    have room: "room_ok cfg now room" using st Some by (auto simp: state_ok_def intro: rooms_ok_get)
    then have "sorted events \<and> length events \<le> room_signal_rate_limit cfg \<and> (\<forall>t \<in> set events. t \<le> now)"
      by (intro window_admit_ok [OF _ _ _ e]) (auto simp: room_ok_def)
    then have ok1: "room_ok cfg now (room\<lparr>signal_events := events, last_active_at := now\<rparr>)"
      using room by (auto simp: room_ok_def occupied_ids_def)
    have ok2: "room_ok cfg now (room\<lparr>signal_events := events\<rparr>)" if "\<not> ok"
    proof -
      have "events = prune_event_window (signal_events room) (room_signal_rate_window cfg) now"
        using that e by (simp add: window_admit_def Let_def split: if_splits)
      then have "set events \<subseteq> set (signal_events room)" by (simp add: prune_subset)
      with ok1 room show ?thesis by (auto simp: room_ok_def occupied_ids_def)
    qed
    show ?thesis
      using st Some e ok1 ok2
      by (auto simp: forward_signal_def Let_def state_ok_def intro: rooms_ok_update)
  qed
qed

lemma exec_ok:
  assumes "state_ok cfg now st" and "exec cfg now op st = Some (ok, st')"
  shows "state_ok cfg now st'"
  using assms
  by (cases op)
     (auto simp: apfst_eq_Pair ensure_room_capacity_def Let_def
       intro: register_ok state_ok_prune unregister_ok store_room_ok check_auth_rate_limit_ok
         forward_signal_ok)

lemma state_ok_mono: "state_ok cfg now st \<Longrightarrow> now \<le> now' \<Longrightarrow> state_ok cfg now' st"
  by (auto simp: state_ok_def intro: rooms_ok_mono auth_ok_mono)

lemma run_ok:
  assumes "state_ok cfg now st" and "sorted (now # map fst ops)" and "run cfg ops st = Some (evs, st')"
  shows "state_ok cfg (last (now # map fst ops)) st'"
  using assms
proof (induction ops arbitrary: now st evs)
  case (Cons op ops)
  obtain t o' where op: "op = (t, o')" by (cases op)
  with Cons.prems obtain ok st1 evs1 where
    "exec cfg t o' st = Some (ok, st1)" "run cfg ops st1 = Some (evs1, st')"
    by (auto split: option.splits)
  moreover have "state_ok cfg t st" using Cons.prems op by (auto intro: state_ok_mono)
  ultimately show ?case
    using Cons.IH [of t st1 evs1] Cons.prems(2) op exec_ok by (fastforce split: if_splits)
qed simp

end
