(* ===== verification/Rate_Limit.thy ===== *)
theory Rate_Limit
  imports Server_Inv
begin

text \<open>
  The sliding-window rate limiters of \<^verbatim>\<open>mitb-server/src/app_state.rs\<close> behind one contract: the locale
  \<open>sliding_window\<close> says what an admitted attempt and any other step may do to a log of events, and
  proves that no window of time ever holds more admissions than the limit. It is interpreted on
  the authentication log of an address and on the signalling log of a room, in both cases under
  every operation of the server.
\<close>

text \<open>The admissions \<open>H\<close> of a sequence of steps at non-decreasing times, from an empty log.\<close>

inductive admissions ::
  "(instant \<Rightarrow> 's \<Rightarrow> bool \<Rightarrow> 's \<Rightarrow> bool) \<Rightarrow> ('s \<Rightarrow> instant list) \<Rightarrow> instant \<Rightarrow> instant list \<Rightarrow> 's \<Rightarrow> bool"
  for step log where
  start: "log s = [] \<Longrightarrow> admissions step log t [] s"
| admit: "admissions step log t H s \<Longrightarrow> t \<le> t' \<Longrightarrow> step t' s True s' \<Longrightarrow> admissions step log t' (H @ [t']) s'"
| pass: "admissions step log t H s \<Longrightarrow> t \<le> t' \<Longrightarrow> step t' s False s' \<Longrightarrow> admissions step log t' H s'"

lemma window_count:
  fixes H :: "instant list"
  assumes "sorted H" and gap: "\<And>i. i + limit < length H \<Longrightarrow> window \<le> H ! (i + limit) - H ! i"
    and "0 < window"
  shows "length (filter (\<lambda>t. a \<le> t \<and> t < a + window) H) \<le> limit"
proof (rule ccontr)
  let ?D = "dropWhile (\<lambda>t. t < a) H"
  let ?F = "takeWhile (\<lambda>t. t < a + window) ?D"
  let ?k = "length (takeWhile (\<lambda>t. t < a) H)"
  have ge: "filter (\<lambda>t. a \<le> t) xs = dropWhile (\<lambda>t. t < a) xs" if "sorted xs" for xs
    using that
  proof (induction xs)
    case (Cons x xs)
    show ?case
    proof (cases "a \<le> x")
      case True
      then have "\<forall>y \<in> set (x # xs). a \<le> y" using Cons.prems by auto
      then show ?thesis using True by (simp add: filter_id_conv)
    qed (use Cons in simp)
  qed simp
  have lt: "filter (\<lambda>t. t < b) xs = takeWhile (\<lambda>t. t < b) xs" if "sorted xs" for b :: nat and xs
    using that
  proof (induction xs)
    case (Cons x xs)
    show ?case
    proof (cases "x < b")
      case False
      then have "\<forall>y \<in> set (x # xs). \<not> y < b" using Cons.prems by auto
      then show ?thesis using False by (simp add: filter_empty_conv)
    qed (use Cons in simp)
  qed simp
  have "filter (\<lambda>t. a \<le> t \<and> t < a + window) H = filter (\<lambda>t. t < a + window) (filter (\<lambda>t. a \<le> t) H)"
    by (simp add: conj_commute)
  also have "\<dots> = ?F"
    using lt [of ?D "a + window"] sorted_dropWhile [OF assms(1)] ge [OF assms(1)] by simp
  finally have F: "filter (\<lambda>t. a \<le> t \<and> t < a + window) H = ?F" .
  assume "\<not> ?thesis"
  then have len: "limit < length ?F" using F by simp
  have nth: "?F ! i = H ! (?k + i)" if "i < length ?F" for i
    using that by (simp add: add.commute takeWhile_nth dropWhile_nth length_takeWhile_le [THEN le_trans]
        order_less_le_trans [OF _ length_takeWhile_le])
  have "?F \<noteq> []" using len by fastforce
  then have "H ! (?k + limit) \<in> set ?F" "H ! ?k \<in> set ?F"
    using nth [OF len] nth [of 0] len nth_mem [of limit ?F] nth_mem [of 0 ?F] by auto
  then have "a \<le> H ! ?k" "H ! (?k + limit) < a + window"
    using F [symmetric] by auto
  moreover have "?k + limit < length H"
  proof -
    have "length ?F \<le> length ?D" by (rule length_takeWhile_le)
    then have "?k + length ?F \<le> ?k + length ?D" by simp
    also have "?k + length ?D = length H"
      by (metis length_append takeWhile_dropWhile_id)
    finally show ?thesis using len by simp
  qed
  then have "window \<le> H ! (?k + limit) - H ! ?k" by (rule gap)
  ultimately show False using assms(3) by simp
qed

locale sliding_window =
  fixes limit :: nat and window :: duration
    and log :: "'s \<Rightarrow> instant list"
    and step :: "instant \<Rightarrow> 's \<Rightarrow> bool \<Rightarrow> 's \<Rightarrow> bool"
  assumes admitted: "step now s True s' \<Longrightarrow>
      length (prune_event_window (log s) window now) < limit \<and>
      log s' = prune_event_window (log s) window now @ [now]"
    and passed: "step now s False s' \<Longrightarrow>
      log s' = log s \<or> log s' = prune_event_window (log s) window now"
begin

lemma admissions_spaced:
  assumes "admissions step log t H s"
  shows "sorted H \<and> (\<forall>e \<in> set H. e \<le> t) \<and>
    (\<exists>D. H = D @ log s \<and> (\<forall>d \<in> set D. window \<le> t - d)) \<and>
    (\<forall>i. i + limit < length H \<longrightarrow> window \<le> H ! (i + limit) - H ! i)"
  using assms
proof induction
  case (admit t H s t' s')
  let ?p = "prune_event_window (log s) window t'"
  obtain D where D: "H = D @ log s" "\<forall>d \<in> set D. window \<le> t - d" using admit.IH by blast
  obtain E where E: "log s = E @ ?p" "\<forall>d \<in> set E. window \<le> t' - d" using prune_suffix by metis
  have log': "log s' = ?p @ [t']" "length ?p < limit" using admitted [OF admit.hyps(3)] by auto
  have old: "\<forall>d \<in> set (D @ E). window \<le> t' - d"
    using D(2) E(2) admit.hyps(2) by (auto intro: le_trans [OF _ diff_le_mono])
  have H: "H = (D @ E) @ ?p" using D E by simp
  have "window \<le> (H @ [t']) ! (i + limit) - (H @ [t']) ! i" if "i + limit < length (H @ [t'])" for i
  proof (cases "i + limit < length H")
    case True
    with admit.IH show ?thesis by (simp add: nth_append)
  next
    case False
    with that have i: "i + limit = length H" by simp
    then have "i < length (D @ E)" using log'(2) arg_cong [OF H, of length] by simp
    then have "H ! i \<in> set (D @ E)" by (metis H nth_append nth_mem)
    with old i log'(2) show ?thesis by (auto simp: nth_append)
  qed
  moreover have "H @ [t'] = (D @ E) @ log s'" using H log' by simp
  moreover have "sorted (H @ [t'])" "\<forall>e \<in> set (H @ [t']). e \<le> t'"
    using admit.IH admit.hyps(2) by (auto simp: sorted_append intro: le_trans)
  ultimately show ?case using old by blast
next
  case (pass t H s t' s')
  obtain D where D: "H = D @ log s" "\<forall>d \<in> set D. window \<le> t - d" using pass.IH by blast
  obtain E where E: "log s = E @ prune_event_window (log s) window t'" "\<forall>d \<in> set E. window \<le> t' - d"
    using prune_suffix by metis
  have "\<exists>E. log s = E @ log s' \<and> (\<forall>d \<in> set E. window \<le> t' - d)"
    using passed [OF pass.hyps(3)] E by fastforce
  then obtain E' where E': "log s = E' @ log s'" "\<forall>d \<in> set E'. window \<le> t' - d" by blast
  have "H = (D @ E') @ log s'" using D E' by simp
  moreover have "\<forall>d \<in> set (D @ E'). window \<le> t' - d"
    using D(2) E'(2) pass.hyps(2) by (auto intro: le_trans [OF _ diff_le_mono])
  moreover have "\<forall>e \<in> set H. e \<le> t'" using pass.IH pass.hyps(2) by (auto intro: le_trans)
  ultimately show ?case using pass.IH by blast
qed simp

lemma at_most_limit:
  assumes "admissions step log t H s" and "0 < window"
  shows "length (filter (\<lambda>e. a \<le> e \<and> e < a + window) H) \<le> limit"
  using admissions_spaced [OF assms(1)] assms(2) by (intro window_count) auto

end

section \<open>The two limiters of the server\<close>

text \<open>A step of the server as seen by the authentication log of one address: any operation, which
  is an admission when it is a successful attempt from that address.\<close>

definition auth_step ::
  "'v itself \<Rightarrow> security_config \<Rightarrow> ip_addr \<Rightarrow> instant \<Rightarrow> state_inner \<Rightarrow> bool \<Rightarrow> state_inner \<Rightarrow> bool" where
  "auth_step v cfg ip now st admitted st' \<longleftrightarrow>
     distinct (hm_keys (auth_events_by_ip st)) \<and>
     (\<exists>(op :: 'v server_op) ok. exec cfg now op st = Some (ok, st') \<and> admitted = (ok \<and> op = OpAuth ip))"

lemma events_of_ip_prune:
  assumes "distinct (hm_keys (auth_events_by_ip st))"
  shows "events_of_ip ip (prune_expired_rooms cfg now st) =
    prune_event_window (events_of_ip ip st) (auth_rate_window cfg) now"
  using assms by (auto simp: events_of_ip_def auth_get_prune Let_def split: option.splits)

lemma events_of_ip_rooms [simp]: "events_of_ip ip (st\<lparr>rooms := r\<rparr>) = events_of_ip ip st"
  by (simp add: events_of_ip_def)

lemma events_of_ip_next [simp]: "events_of_ip ip (st\<lparr>next_client_id := r\<rparr>) = events_of_ip ip st"
  by (simp add: events_of_ip_def)

lemma events_of_ip_insert [simp]:
  "events_of_ip ip (st\<lparr>auth_events_by_ip := hm_insert ip' e (auth_events_by_ip st)\<rparr>) =
     (if ip = ip' then e else events_of_ip ip st)"
  by (simp add: events_of_ip_def hm_simps)

lemma auth_check_prune:
  "distinct (hm_keys (auth_events_by_ip st)) \<Longrightarrow>
     distinct (hm_keys (auth_events_by_ip (prune_expired_rooms cfg now st)))"
  by (rule auth_keys_prune)

text \<open>What each operation does to the log of an address.\<close>

lemma exec_auth_log:
  fixes op :: "'v server_op"
  assumes d: "distinct (hm_keys (auth_events_by_ip st))" and e: "exec cfg now op st = Some (ok, st')"
  shows "events_of_ip ip st' =
    (let p = prune_event_window (events_of_ip ip st) (auth_rate_window cfg) now in
     if op = OpAuth ip \<and> ok then p @ [now] else p) \<and>
    (op = OpAuth ip \<and> ok \<longrightarrow>
       length (prune_event_window (events_of_ip ip st) (auth_rate_window cfg) now) < auth_rate_limit cfg)"
proof (cases op)
  case (OpRegister h r p c)
  have "events_of_ip ip st' = events_of_ip ip (prune_expired_rooms cfg now st)"
    using e OpRegister by (auto simp: register_def Let_def split: option.splits)
  with OpRegister d show ?thesis by (simp add: events_of_ip_prune)
next
  case (OpUnregister h r c)
  note pp = events_of_ip_prune [OF auth_check_prune [OF d]]
  have "events_of_ip ip st' = prune_event_window (events_of_ip ip st) (auth_rate_window cfg) now"
    using e OpUnregister d
    by (auto simp: unregister_def Let_def events_of_ip_prune auth_keys_prune split: option.splits)
  with OpUnregister show ?thesis by simp
next
  case (OpSignal h s p v)
  have "events_of_ip ip st' = events_of_ip ip (prune_expired_rooms cfg now st)"
    using e OpSignal by (auto simp: forward_signal_def Let_def apfst_eq_Pair split: option.splits prod.splits)
  with OpSignal d show ?thesis by (simp add: events_of_ip_prune)
next
  case (OpAuth ip')
  with d e show ?thesis
    by (cases "ip = ip'")
       (auto simp: check_auth_rate_limit_def Let_def window_admit_def events_of_ip_prune apfst_eq_Pair
         split: prod.splits if_splits)
qed (use d e in \<open>auto simp: apfst_eq_Pair store_room_def ensure_room_capacity_def Let_def events_of_ip_prune\<close>)

interpretation auth_window:
  sliding_window "auth_rate_limit cfg" "auth_rate_window cfg" "events_of_ip ip" "auth_step v cfg ip"
  for v :: "'v itself" and cfg ip
proof unfold_locales
  fix now st st'
  assume "auth_step v cfg ip now st True st'"
  then obtain op :: "'v server_op" where "distinct (hm_keys (auth_events_by_ip st))"
      "exec cfg now op st = Some (True, st')" "op = OpAuth ip"
    by (auto simp: auth_step_def)
  from exec_auth_log [OF this(1,2), of ip] this(3)
  show "length (prune_event_window (events_of_ip ip st) (auth_rate_window cfg) now) < auth_rate_limit cfg \<and>
      events_of_ip ip st' = prune_event_window (events_of_ip ip st) (auth_rate_window cfg) now @ [now]"
    by (simp add: Let_def)
next
  fix now st st'
  assume "auth_step v cfg ip now st False st'"
  then obtain op :: "'v server_op" and ok where "distinct (hm_keys (auth_events_by_ip st))"
      "exec cfg now op st = Some (ok, st')" "\<not> (op = OpAuth ip \<and> ok)"
    by (auto simp: auth_step_def)
  from exec_auth_log [OF this(1,2), of ip] this(3)
  show "events_of_ip ip st' = events_of_ip ip st \<or>
      events_of_ip ip st' = prune_event_window (events_of_ip ip st) (auth_rate_window cfg) now"
    by (auto simp: Let_def)
qed

fun auth_admissions :: "ip_addr \<Rightarrow> (instant \<times> 'v server_op \<times> bool) list \<Rightarrow> instant list" where
  "auth_admissions ip [] = []"
| "auth_admissions ip ((now, op, ok) # evs) =
     (case op of
        OpAuth ip' \<Rightarrow> if ip' = ip \<and> ok then now # auth_admissions ip evs else auth_admissions ip evs
      | _ \<Rightarrow> auth_admissions ip evs)"

lemma auth_admissions_Cons:
  "auth_admissions ip ((now, op, ok) # evs) =
     (if ok \<and> op = OpAuth ip then [now] else []) @ auth_admissions ip evs"
  by (cases op) auto

lemma run_auth_admissions:
  fixes ops :: "(instant \<times> 'v server_op) list"
  assumes "admissions (auth_step TYPE('v) cfg ip) (events_of_ip ip) t H st"
    and "state_ok cfg t st" and "sorted (t # map fst ops)" and "run cfg ops st = Some (evs, st')"
  shows "\<exists>t'. admissions (auth_step TYPE('v) cfg ip) (events_of_ip ip) t' (H @ auth_admissions ip evs) st'"
  using assms
proof (induction ops arbitrary: t H st evs)
  case (Cons x ops)
  obtain now op where x: "x = (now, op)" by (cases x)
  with Cons.prems obtain ok st1 evs1 where e: "exec cfg now op st = Some (ok, st1)"
    and r: "run cfg ops st1 = Some (evs1, st')" and evs: "evs = (now, op, ok) # evs1"
    by (auto split: option.splits)
  have t: "t \<le> now" "sorted (now # map fst ops)" using Cons.prems(3) x by auto
  have ok1: "state_ok cfg now st1" using e Cons.prems(2) t(1) exec_ok state_ok_mono by blast
  let ?a = "ok \<and> op = OpAuth ip"
  have step: "auth_step TYPE('v) cfg ip now st ?a st1"
    using e Cons.prems(2) by (auto simp: auth_step_def state_ok_def auth_ok_def)
  have "admissions (auth_step TYPE('v) cfg ip) (events_of_ip ip) now
      (H @ (if ?a then [now] else [])) st1"
  proof (cases ?a)
    case True
    then show ?thesis using admissions.admit [OF Cons.prems(1) t(1)] step by simp
  next
    case False
    have "auth_step TYPE('v) cfg ip now st False st1" using step by (simp only: False)
    from admissions.pass [OF Cons.prems(1) t(1) this] show ?thesis by (simp only: False if_False append_Nil2)
  qed
  from Cons.IH [OF this ok1 t(2) r] show ?case
    by (simp only: evs auth_admissions_Cons append_assoc)
qed auto

text \<open>C19. Whatever the clients of a server do, and in whatever order, no half-open window of
  \<^verbatim>\<open>auth_rate_window\<close> ever contains more than \<^verbatim>\<open>auth_rate_limit\<close> admitted authentication attempts
  from one IP address.\<close>

theorem auth_rate_limited:
  fixes ops :: "(instant \<times> 'v server_op) list"
  assumes "sorted (map fst ops)" and "0 < auth_rate_window cfg"
    and "run cfg ops state_inner_default = Some (evs, st)"
  shows "length (filter (\<lambda>t. a \<le> t \<and> t < a + auth_rate_window cfg) (auth_admissions ip evs))
    \<le> auth_rate_limit cfg"
proof -
  have "admissions (auth_step TYPE('v) cfg ip) (events_of_ip ip) 0 [] state_inner_default"
    by (rule admissions.start) (simp add: events_of_ip_def state_inner_default_def)
  then obtain t' where "admissions (auth_step TYPE('v) cfg ip) (events_of_ip ip) t' (auth_admissions ip evs) st"
    using run_auth_admissions [OF _ state_ok_default _ assms(3), of ip 0 "[]"] assms(1) by auto
  then show ?thesis using assms(2) by (rule auth_window.at_most_limit)
qed


definition small_config :: security_config where
  "small_config = \<lparr>allow_agent_room_creation = True, max_rooms = 4, room_ttl = 100,
     auth_rate_limit = 1, auth_rate_window = 10, room_signal_rate_limit = 1,
     room_signal_rate_window = 5\<rparr>"

theorem auth_rate_limited_witness:
  "\<exists>evs st. run small_config ([(0, OpAuth (V4 7)), (3, OpAuth (V4 7)), (4, OpStore ''room'' [1]),
       (12, OpAuth (V4 7))] :: (instant \<times> unit server_op) list) state_inner_default = Some (evs, st) \<and>
     auth_admissions (V4 7) evs = [0, 12] \<and>
     length (filter (\<lambda>t. 3 \<le> t \<and> t < 3 + auth_rate_window small_config) (auth_admissions (V4 7) evs)) \<le> 1"
proof -
  let ?ops = "[(0, OpAuth (V4 7)), (3, OpAuth (V4 7)), (4, OpStore ''room'' [1]), (12, OpAuth (V4 7))]
    :: (instant \<times> unit server_op) list"
  have r: "map_option (auth_admissions (V4 7) \<circ> fst) (run small_config ?ops state_inner_default) = Some [0, 12]"
    by code_simp
  then obtain evs st where e: "run small_config ?ops state_inner_default = Some (evs, st)" by force
  have "auth_admissions (V4 7) evs = [0, 12]" using r e by simp
  moreover have "length (filter (\<lambda>t. 3 \<le> t \<and> t < 3 + auth_rate_window small_config)
      (auth_admissions (V4 7) evs)) \<le> 1"
    using auth_rate_limited [OF _ _ e, of 3 "V4 7"] by (simp add: small_config_def)
  ultimately show ?thesis using e by blast
qed


section \<open>The signalling limit of a room\<close>

definition signal_log :: "string \<Rightarrow> state_inner \<Rightarrow> instant list" where
  "signal_log h st = (case hm_get (rooms st) h of None \<Rightarrow> [] | Some room \<Rightarrow> signal_events room)"

definition signal_recorded ::
  "security_config \<Rightarrow> string \<Rightarrow> instant \<Rightarrow> state_inner \<Rightarrow> 'v server_op \<Rightarrow> bool" where
  "signal_recorded cfg h now st op \<longleftrightarrow>
     (\<exists>s p x. op = OpSignal h s p x) \<and>
     fst (window_admit (room_signal_rate_limit cfg) (room_signal_rate_window cfg) now (signal_log h st))"

text \<open>A step of the server as seen by the log of a room that stays: any operation but the creation
  of that room, after which the room is still there.\<close>

definition signal_step ::
  "'v itself \<Rightarrow> security_config \<Rightarrow> string \<Rightarrow> instant \<Rightarrow> state_inner \<Rightarrow> bool \<Rightarrow> state_inner \<Rightarrow> bool" where
  "signal_step v cfg h now st admitted st' \<longleftrightarrow>
     distinct (hm_keys (rooms st)) \<and> hm_get (rooms st') h \<noteq> None \<and>
     (\<exists>(op :: 'v server_op) ok. exec cfg now op st = Some (ok, st') \<and> (\<forall>file. op \<noteq> OpStore h file) \<and>
        admitted = signal_recorded cfg h now st op)"

lemma rooms_keys_prune:
  "distinct (hm_keys (rooms st)) \<Longrightarrow> distinct (hm_keys (rooms (prune_expired_rooms cfg now st)))"
  by (simp add: prune_expired_rooms_def hm_distinct_filter)

lemma rooms_prune_Some:
  "distinct (hm_keys (rooms st)) \<Longrightarrow> hm_get (rooms (prune_expired_rooms cfg now st)) h = Some room \<Longrightarrow>
     hm_get (rooms st) h = Some room \<and> room_live cfg now room"
  by (auto simp: rooms_prune split: option.splits if_splits)

lemma insert_client_fields [simp]:
  "signal_events (insert_client role c client room) = signal_events room"
  "password_file (insert_client role c client room) = password_file room"
  by (cases role; simp)+

lemma remove_client_fields [simp]:
  "signal_events (remove_client role c room) = signal_events room"
  "password_file (remove_client role c room) = password_file room"
  by (cases role; simp)+

lemma exec_signal_log:
  fixes op :: "'v server_op"
  assumes d: "distinct (hm_keys (rooms st))" and e: "exec cfg now op st = Some (ok, st')"
    and r': "hm_get (rooms st') h = Some r'" and ns: "\<forall>file. op \<noteq> OpStore h file"
  shows "signal_log h st' =
    (if signal_recorded cfg h now st op
     then prune_event_window (signal_log h st) (room_signal_rate_window cfg) now @ [now]
     else if \<exists>s p x. op = OpSignal h s p x
     then prune_event_window (signal_log h st) (room_signal_rate_window cfg) now
     else signal_log h st)"
proof -
  let ?p = "prune_expired_rooms cfg now st"
  note P = rooms_prune_Some [OF d] and PP = rooms_prune_Some [OF rooms_keys_prune [OF d]]
  show ?thesis
  proof (cases op)
    case (OpRegister h' r p c)
    then show ?thesis
      using e r' by (auto simp: register_def Let_def signal_recorded_def signal_log_def hm_simps
          split: option.splits if_splits dest!: P)
  next
    case (OpUnregister h' r c)
    let ?u = "\<lambda>room. ?p\<lparr>rooms := hm_insert h' ((remove_client r c room)\<lparr>last_active_at := now\<rparr>) (rooms ?p)\<rparr>"
    have D: "distinct (hm_keys (rooms (?u room)))" for room
      using rooms_keys_prune [OF d] by (simp add: hm_distinct_insert)
    show ?thesis
      using e r' OpUnregister
      by (auto simp: unregister_def Let_def signal_recorded_def signal_log_def hm_simps
          split: option.splits if_splits dest!: rooms_prune_Some [OF D] PP P)
  next
    case (OpSignal h' s p x)
    then show ?thesis
      using e r'
      by (auto simp: forward_signal_def Let_def signal_recorded_def signal_log_def apfst_eq_Pair hm_simps
          window_admit_def split: option.splits if_splits prod.splits dest: P)
  next
    case (OpStore h' f)
    then have "h' \<noteq> h" using ns by simp
    then show ?thesis
      using e r' OpStore
      by (auto simp: store_room_def Let_def signal_recorded_def signal_log_def apfst_eq_Pair hm_simps
          split: option.splits if_splits dest!: P)
  qed (use e r' in \<open>auto simp: signal_recorded_def signal_log_def apfst_eq_Pair ensure_room_capacity_def
      check_auth_rate_limit_def Let_def split: option.splits if_splits prod.splits dest!: P\<close>)
qed


lemma signal_recorded_bound:
  "signal_recorded cfg h now st op \<Longrightarrow>
     length (prune_event_window (signal_log h st) (room_signal_rate_window cfg) now) < room_signal_rate_limit cfg"
  by (auto simp: signal_recorded_def window_admit_def Let_def split: if_splits)

interpretation signal_window:
  sliding_window "room_signal_rate_limit cfg" "room_signal_rate_window cfg" "signal_log h" "signal_step v cfg h"
  for v :: "'v itself" and cfg h
proof unfold_locales
  fix now st st'
  assume "signal_step v cfg h now st True st'"
  then obtain op :: "'v server_op" and ok r' where *: "distinct (hm_keys (rooms st))"
      "exec cfg now op st = Some (ok, st')" "hm_get (rooms st') h = Some r'"
      "\<forall>file. op \<noteq> OpStore h file" "signal_recorded cfg h now st op"
    by (auto simp: signal_step_def)
  from exec_signal_log [OF *(1-4)] *(5) signal_recorded_bound [OF *(5)]
  show "length (prune_event_window (signal_log h st) (room_signal_rate_window cfg) now) < room_signal_rate_limit cfg \<and>
      signal_log h st' = prune_event_window (signal_log h st) (room_signal_rate_window cfg) now @ [now]"
    by simp
next
  fix now st st'
  assume "signal_step v cfg h now st False st'"
  then obtain op :: "'v server_op" and ok r' where *: "distinct (hm_keys (rooms st))"
      "exec cfg now op st = Some (ok, st')" "hm_get (rooms st') h = Some r'"
      "\<forall>file. op \<noteq> OpStore h file" "\<not> signal_recorded cfg h now st op"
    by (auto simp: signal_step_def)
  from exec_signal_log [OF *(1-4)] *(5)
  show "signal_log h st' = signal_log h st \<or>
      signal_log h st' = prune_event_window (signal_log h st) (room_signal_rate_window cfg) now"
    by (auto split: if_splits)
qed

text \<open>The times at which signals of a room were delivered to a peer.\<close>

fun delivered_signals :: "string \<Rightarrow> (instant \<times> 'v server_op \<times> bool) list \<Rightarrow> instant list" where
  "delivered_signals h [] = []"
| "delivered_signals h ((now, op, ok) # evs) =
     (case op of
        OpSignal h' s p x \<Rightarrow> if h' = h \<and> ok then now # delivered_signals h evs else delivered_signals h evs
      | _ \<Rightarrow> delivered_signals h evs)"

lemma delivered_signals_Cons:
  "delivered_signals h ((now, op, ok) # evs) =
     (if ok \<and> (\<exists>s p x. op = OpSignal h s p x) then [now] else []) @ delivered_signals h evs"
  by (cases op) auto

lemma exec_room_gone:
  assumes d: "distinct (hm_keys (rooms st))" and "exec cfg now op st = Some (ok, st')"
    and "hm_get (rooms st) h = None" and "\<forall>file. op \<noteq> OpStore h file"
  shows "hm_get (rooms st') h = None \<and> \<not> (ok \<and> (\<exists>s p x. op = OpSignal h s p x))"
proof -
  have g: "hm_get (rooms (prune_expired_rooms cfg now st)) h = None"
    using assms(1,3) by (simp add: rooms_prune)
  have D: "distinct (hm_keys (rooms (prune_expired_rooms cfg now st)))" using d by (rule rooms_keys_prune)
  show ?thesis
    using assms(2,4) g D
    by (cases op)
       (auto simp: apfst_eq_Pair register_def unregister_def store_room_def ensure_room_capacity_def
         check_auth_rate_limit_def forward_signal_def Let_def hm_simps rooms_prune hm_distinct_insert
         split: option.splits if_splits prod.splits)
qed

lemma run_room_gone:
  assumes "state_ok cfg t st" and "hm_get (rooms st) h = None" and "sorted (t # map fst ops)"
    and "\<forall>op \<in> set ops. \<forall>file. snd op \<noteq> OpStore h file" and "run cfg ops st = Some (evs, st')"
  shows "delivered_signals h evs = []"
  using assms
proof (induction ops arbitrary: t st evs)
  case (Cons x ops)
  obtain now op where x: "x = (now, op)" by (cases x)
  with Cons.prems obtain ok st1 evs1 where e: "exec cfg now op st = Some (ok, st1)"
    and r: "run cfg ops st1 = Some (evs1, st')" and evs: "evs = (now, op, ok) # evs1"
    by (auto split: option.splits)
  have "state_ok cfg now st" using Cons.prems(1,3) x by (auto intro: state_ok_mono)
  moreover from this have "distinct (hm_keys (rooms st))" by (simp add: state_ok_def rooms_ok_def)
  moreover note gone = exec_room_gone [OF this e Cons.prems(2)]
  ultimately have "delivered_signals h evs1 = []"
    using Cons.IH [of now st1 evs1] Cons.prems(3,4) x r e exec_ok by fastforce
  then show ?case using gone Cons.prems(4) x evs by (auto simp: delivered_signals_Cons simp del: delivered_signals.simps(2))
qed simp


lemma signal_delivered_recorded:
  assumes d: "distinct (hm_keys (rooms st))"
    and "exec cfg now (OpSignal h s p x) st = Some (True, st')"
  shows "signal_recorded cfg h now st (OpSignal h s p x)"
  using assms
  by (auto simp: forward_signal_def Let_def signal_recorded_def signal_log_def apfst_eq_Pair rooms_prune
      split: option.splits if_splits prod.splits)

lemma run_signal_admissions:
  fixes ops :: "(instant \<times> 'v server_op) list"
  assumes "admissions (signal_step TYPE('v) cfg h) (signal_log h) t H st"
    and "subseq D H" and "state_ok cfg t st" and "sorted (t # map fst ops)"
    and "\<forall>op \<in> set ops. \<forall>file. snd op \<noteq> OpStore h file" and "run cfg ops st = Some (evs, st')"
  shows "\<exists>t' H' st''. admissions (signal_step TYPE('v) cfg h) (signal_log h) t' H' st'' \<and>
    subseq (D @ delivered_signals h evs) H'"
  using assms
proof (induction ops arbitrary: t H D st evs)
  case (Cons x ops)
  obtain now op where x: "x = (now, op)" by (cases x)
  with Cons.prems obtain ok st1 evs1 where e: "exec cfg now op st = Some (ok, st1)"
    and r: "run cfg ops st1 = Some (evs1, st')" and evs: "evs = (now, op, ok) # evs1"
    by (auto split: option.splits)
  have t: "t \<le> now" "sorted (now # map fst ops)" using Cons.prems(4) x by auto
  have ok1: "state_ok cfg now st1" using e Cons.prems(3) t(1) exec_ok state_ok_mono by blast
  have ns: "\<forall>file. op \<noteq> OpStore h file" "\<forall>op \<in> set ops. \<forall>file. snd op \<noteq> OpStore h file"
    using Cons.prems(5) x by auto
  have d: "distinct (hm_keys (rooms st))" using Cons.prems(3) by (simp add: state_ok_def rooms_ok_def)
  show ?case
  proof (cases "hm_get (rooms st1) h")
    case None
    then have "delivered_signals h evs1 = []" using run_room_gone [OF ok1 None t(2) ns(2) r] by simp
    moreover have "\<not> (ok \<and> (\<exists>s p x. op = OpSignal h s p x))"
      using e None by (auto simp: forward_signal_def Let_def apfst_eq_Pair hm_simps
          split: option.splits prod.splits if_splits)
    ultimately have "delivered_signals h evs = []"
      by (simp only: evs delivered_signals_Cons if_False append_Nil)
    with Cons.prems(1,2) show ?thesis by fastforce
  next
    case (Some r')
    let ?a = "signal_recorded cfg h now st op" and ?b = "ok \<and> (\<exists>s p x. op = OpSignal h s p x)"
    have step: "signal_step TYPE('v) cfg h now st ?a st1"
      unfolding signal_step_def using e d Some ns(1) by blast
    have "admissions (signal_step TYPE('v) cfg h) (signal_log h) now (H @ (if ?a then [now] else [])) st1"
      using admissions.admit [OF Cons.prems(1) t(1), of st1] admissions.pass [OF Cons.prems(1) t(1), of st1] step
      by (cases ?a) auto
    moreover have "?a" if b: "?b"
    proof -
      from b obtain s p x where "op = OpSignal h s p x" "ok" by blast
      with e show ?thesis using signal_delivered_recorded [OF d, of cfg now h s p x st1] by simp
    qed
    then have "subseq (D @ (if ?b then [now] else [])) (H @ (if ?a then [now] else []))"
      using Cons.prems(2) by (intro list_emb_append_mono) auto
    ultimately show ?thesis
      using Cons.IH [OF _ _ ok1 t(2) ns(2) r] by (fastforce simp: evs delivered_signals_Cons simp del: delivered_signals.simps(2))
  qed
qed auto

text \<open>A room's signalling is rate limited: from the moment the room exists, whatever its clients and
  all others do, no half-open window of \<^verbatim>\<open>room_signal_rate_window\<close> contains more than
  \<^verbatim>\<open>room_signal_rate_limit\<close> signals forwarded in the room.\<close>

theorem room_signals_rate_limited:
  fixes ops :: "(instant \<times> 'v server_op) list"
  assumes "state_ok cfg t st" and "hm_get (rooms st) h = Some (new_room f t)"
    and "sorted (t # map fst ops)" and "\<forall>op \<in> set ops. \<forall>f. snd op \<noteq> OpStore h f"
    and "0 < room_signal_rate_window cfg" and "run cfg ops st = Some (evs, st')"
  shows "length (filter (\<lambda>e. a \<le> e \<and> e < a + room_signal_rate_window cfg) (delivered_signals h evs))
    \<le> room_signal_rate_limit cfg"
proof -
  let ?P = "\<lambda>e. a \<le> e \<and> e < a + room_signal_rate_window cfg"
  have "admissions (signal_step TYPE('v) cfg h) (signal_log h) t [] st"
    using assms(2) by (intro admissions.start) (simp add: signal_log_def new_room_def)
  then obtain t' H st'' where H: "admissions (signal_step TYPE('v) cfg h) (signal_log h) t' H st''"
    and sub: "subseq (delivered_signals h evs) H"
    using run_signal_admissions [OF _ _ assms(1,3,4,6), of "[]" "[]"] by auto
  have "length (filter ?P (delivered_signals h evs)) \<le> length (filter ?P H)"
    by (rule list_emb_length [OF subseq_filter [OF sub]])
  also have "\<dots> \<le> room_signal_rate_limit cfg"
    using signal_window.at_most_limit [OF H assms(5)] by simp
  finally show ?thesis .
qed

definition demo_client :: "nat \<Rightarrow> client_handle" where
  "demo_client i = \<lparr>tx = i, penalized = i\<rparr>"

definition demo_state :: state_inner where
  "demo_state = \<lparr>next_client_id = 0, rooms = [(''r'', new_room [1] 5)], auth_events_by_ip = []\<rparr>"

theorem room_signals_rate_limited_witness:
  "\<exists>evs st. run small_config
      [(6, OpRegister ''r'' Agent (Some ''a'') (demo_client 1)),
       (6, OpRegister ''r'' Zookeeper None (demo_client 2)),
       (7, OpSignal ''r'' ''zookeeper-1'' ''a'' ()), (8, OpSignal ''r'' ''a'' ''zookeeper-1'' ()),
       (20, OpSignal ''r'' ''a'' ''zookeeper-1'' ())] demo_state = Some (evs, st) \<and>
     delivered_signals ''r'' evs = [7, 20] \<and>
     length (filter (\<lambda>e. 4 \<le> e \<and> e < 4 + room_signal_rate_window small_config) (delivered_signals ''r'' evs)) \<le> 1"
proof -
  let ?ops = "[(6, OpRegister ''r'' Agent (Some ''a'') (demo_client 1)),
       (6, OpRegister ''r'' Zookeeper None (demo_client 2)),
       (7, OpSignal ''r'' ''zookeeper-1'' ''a'' ()), (8, OpSignal ''r'' ''a'' ''zookeeper-1'' ()),
       (20, OpSignal ''r'' ''a'' ''zookeeper-1'' ())]"
  have r: "map_option (delivered_signals ''r'' \<circ> fst) (run small_config ?ops demo_state) = Some [7, 20]"
    by code_simp
  then obtain evs st where e: "run small_config ?ops demo_state = Some (evs, st)" by force
  have ok: "state_ok small_config 5 demo_state"
    by (simp add: state_ok_def rooms_ok_def auth_ok_def room_ok_def demo_state_def new_room_def small_config_def occupied_ids_def)
  have "length (filter (\<lambda>e. 4 \<le> e \<and> e < 4 + room_signal_rate_window small_config) (delivered_signals ''r'' evs))
      \<le> room_signal_rate_limit small_config"
    by (rule room_signals_rate_limited [OF ok _ _ _ _ e, of "''r''" "[1]"])
       (simp_all add: demo_state_def small_config_def)
  moreover have "delivered_signals ''r'' evs = [7, 20]" using r e by simp
  ultimately show ?thesis using e by (simp add: small_config_def)
qed

end
