(* ===== verification/Server_Rooms.thy ===== *)
theory Server_Rooms
  imports Rate_Limit
begin

text \<open>
  What the operations of \<^verbatim>\<open>mitb-server/src/app_state.rs\<close> do to a room and to its clients: joining and
  leaving, routing a signal, and the lifetime of a room.
\<close>

section \<open>The invariant\<close>

text \<open>C1. At every moment of every run of the server: room handles are unique and at most
  \<^verbatim>\<open>max_rooms\<close>; in a room no two clients share an identifier, whatever their roles; the signalling
  and authentication logs are in order, not in the future and never longer than their limits.\<close>

theorem server_invariant:
  assumes "sorted (map fst ops)" and "run cfg ops state_inner_default = Some (evs, st)"
  shows "state_ok cfg (last (0 # map fst ops)) st"
  using run_ok [OF state_ok_default _ assms(2), of 0] assms(1) by simp

theorem server_invariant_witness:
  "\<exists>evs st. run small_config ([(1, OpStore ''r'' [1]), (2, OpStore ''r'' [2]),
      (3, OpRegister ''r'' Agent None (demo_client 1)), (4, OpRegister ''r'' Agent (Some ''x'') (demo_client 2)),
      (5, OpUnregister ''r'' Agent ''agent-1'')] :: (instant \<times> unit server_op) list) state_inner_default
      = Some (evs, st) \<and> map (snd \<circ> snd) evs = [True, False, True, True, True] \<and> state_ok small_config 5 st"
proof -
  let ?ops = "[(1, OpStore ''r'' [1]), (2, OpStore ''r'' [2]),
      (3, OpRegister ''r'' Agent None (demo_client 1)), (4, OpRegister ''r'' Agent (Some ''x'') (demo_client 2)),
      (5, OpUnregister ''r'' Agent ''agent-1'')] :: (instant \<times> unit server_op) list"
  have r: "map_option (map (snd \<circ> snd) \<circ> fst) (run small_config ?ops state_inner_default)
      = Some [True, False, True, True, True]"
    by code_simp
  then obtain evs st where e: "run small_config ?ops state_inner_default = Some (evs, st)" by force
  from server_invariant [OF _ e] r e show ?thesis by auto
qed

section \<open>Joining and leaving\<close>

lemma prune_get_room:
  "state_ok cfg t st \<Longrightarrow> hm_get (rooms st) h = Some room \<Longrightarrow> room_live cfg now room \<Longrightarrow>
     hm_get (rooms (prune_expired_rooms cfg now st)) h = Some room"
  by (simp add: state_ok_def rooms_ok_def rooms_prune)

lemma next_client_id_prune [simp]:
  "next_client_id (prune_expired_rooms cfg now st) = next_client_id st"
  by (simp add: prune_expired_rooms_def)

lemma opposite_clients_insert [simp]:
  "role_clients (opposite role) (insert_client role c client room) = role_clients (opposite role) room"
  by (cases role) simp_all

lemma own_clients_insert [simp]:
  "role_clients role (insert_client role c client room) = hm_insert c client (role_clients role room)"
  by (cases role) simp_all

lemma opposite_clients_remove [simp]:
  "role_clients (opposite role) (remove_client role c room) = role_clients (opposite role) room"
  by (cases role) simp_all

lemma own_clients_remove [simp]:
  "role_clients role (remove_client role c room) = hm_remove c (role_clients role room)"
  by (cases role) simp_all

lemma role_clients_opposite_update [simp]:
  "role_clients role (insert_client (opposite role) c client room) = role_clients role room"
  "role_clients role (remove_client (opposite role) c room) = role_clients role room"
  by (cases role; simp)+

lemma role_clients_active [simp]:
  "role_clients role (room\<lparr>last_active_at := t\<rparr>) = role_clients role room"
  by (cases role) simp_all

lemma set_occupied_ids:
  "set (occupied_ids room) = set (hm_keys (role_clients role room)) \<union> set (hm_keys (role_clients (opposite role) room))"
  by (cases role) (auto simp: occupied_ids_def)

text \<open>C26. Registering in a live room always succeeds while fewer than \<open>2^64\<close> identifiers are taken:
  the identifier loop ends. The client gets the alias it asked for when that is free and not empty,
  and otherwise an identifier nobody in the room has; it is told who was there before; exactly the
  clients of the other role are told of it; nothing else in the room changes but the time of its
  last activity.\<close>

theorem register_joins_room:
  fixes preferred :: "string option"
  assumes "state_ok cfg t st" and "hm_get (rooms st) h = Some room" and "room_live cfg now room"
    and "length (occupied_ids room) < 2 ^ 64"
  shows "\<exists>c n st'. register cfg now h role preferred client st =
      Some (Ok \<lparr>ro_client_id = c,
                 ro_initial_messages = [Connected c role (hm_keys (agents room)) (hm_keys (zookeepers room))],
                 ro_broadcasts = map (\<lambda>peer. (peer, PeerJoined role c)) (hm_values (role_clients (opposite role) room))\<rparr>,
            st') \<and>
    c \<notin> set (occupied_ids room) \<and>
    (\<forall>p. preferred = Some p \<and> p \<noteq> [] \<and> p \<notin> set (occupied_ids room) \<longrightarrow> c = p) \<and>
    hm_get (rooms st') h = Some (insert_client role c client (room\<lparr>last_active_at := now\<rparr>)) \<and>
    (\<forall>h'. h' \<noteq> h \<longrightarrow> hm_get (rooms st') h' = hm_get (rooms (prune_expired_rooms cfg now st)) h')"
proof -
  have "card (set (occupied_ids room)) < 2 ^ 64"
    using assms(4) card_length le_less_trans by blast
  then obtain c n where c: "choose_client_id role preferred (occupied_ids room) (next_client_id st) = Some (c, n)"
      "c \<notin> set (occupied_ids room)"
    using choose_client_id_returns by blast
  moreover have "c = p" if "preferred = Some p" "p \<noteq> []" "p \<notin> set (occupied_ids room)" for p
    using c(1) that by (simp add: choose_client_id_def)
  ultimately show ?thesis
    using prune_get_room [OF assms(1-3)]
    by (simp add: register_def Let_def announce_def hm_simps)
qed

theorem register_joins_room_witness:
  "\<exists>c n st'. register small_config 6 ''r'' Agent (Some ''alice'') (demo_client 1) demo_state =
      Some (Ok \<lparr>ro_client_id = c, ro_initial_messages = [Connected c Agent [] []], ro_broadcasts = []\<rparr>, st') \<and>
    hm_get (rooms st') ''r'' = Some (insert_client Agent c (demo_client 1) ((new_room [1] 5)\<lparr>last_active_at := 6\<rparr>))"
proof -
  have "state_ok small_config 5 demo_state"
    by (simp add: state_ok_def rooms_ok_def auth_ok_def room_ok_def demo_state_def new_room_def small_config_def occupied_ids_def)
  moreover have "hm_get (rooms demo_state) ''r'' = Some (new_room [1] 5)" by (simp add: demo_state_def)
  moreover have "room_live small_config 6 (new_room [1] 5)"
    by (simp add: room_live_def new_room_def small_config_def)
  ultimately show ?thesis
    using register_joins_room [of small_config 5 demo_state "''r''" "new_room [1] 5" 6 Agent "Some ''alice''" "demo_client 1"]
    by (auto simp: occupied_ids_def new_room_def)
qed

text \<open>Leaving undoes joining: when a client registers in a live room and then unregisters, the room
  has the clients it had before, and the clients of the other role, the ones that were told it
  joined, are told that it left. If nobody is left and the room's time to live is zero, the room is
  gone.\<close>

theorem unregister_undoes_register:
  fixes msgs :: "(client_handle \<times> 'v server_message) list"
  assumes "state_ok cfg t st" and "hm_get (rooms st) h = Some room"
    and "register cfg now h role preferred client st = Some (Ok out, st1)" and "t \<le> now" and "now \<le> now'"
    and "unregister cfg now' h role (ro_client_id out) st1 = (msgs, st2)"
  shows "msgs = map (\<lambda>(peer, m). (peer, PeerLeft role (ro_client_id out))) (ro_broadcasts out) \<and>
    (case hm_get (rooms st2) h of
       Some room' \<Rightarrow> agents room' = agents room \<and> zookeepers room' = zookeepers room \<and>
         password_file room' = password_file room \<and> signal_events room' = signal_events room
     | None \<Rightarrow> agents room = [] \<and> zookeepers room = [] \<and> room_ttl cfg = 0)"
proof -
  let ?p = "prune_expired_rooms cfg now st"
  let ?c = "ro_client_id out"
  let ?room1 = "insert_client role ?c client (room\<lparr>last_active_at := now\<rparr>)"
  let ?room2 = "(remove_client role ?c ?room1)\<lparr>last_active_at := now'\<rparr>"
  have d: "distinct (hm_keys (rooms st))" using assms(1) by (simp add: state_ok_def rooms_ok_def)
  have room: "hm_get (rooms ?p) h = Some room"
    using assms(2,3) d by (auto simp: register_def Let_def rooms_prune split: option.splits if_splits)
  obtain n where c: "choose_client_id role preferred (occupied_ids room) (next_client_id ?p) = Some (?c, n)"
    and st1: "rooms st1 = hm_insert h ?room1 (rooms ?p)"
    and bc: "ro_broadcasts out = announce (PeerJoined role ?c) (role_clients (opposite role) room)"
    using assms(3) room by (auto simp: register_def Let_def split: option.splits)
  have fresh: "?c \<notin> set (hm_keys (role_clients role room))"
    using choose_client_id_fresh [OF c] by (simp add: set_occupied_ids [of room role])
  have ok1: "state_ok cfg now st1"
    using register_ok [OF state_ok_mono [OF assms(1,4)] assms(3)] .
  let ?p1 = "prune_expired_rooms cfg now' st1"
  have "room_live cfg now' ?room1"
    by (cases role) (auto simp: room_live_def hm_insert_fresh dest: arg_cong [of "hm_insert _ _ _" "[]" length] simp: hm_length_insert split: if_splits)
  then have room1: "hm_get (rooms ?p1) h = Some ?room1"
    using prune_get_room [OF ok1] st1 by (simp add: hm_simps)
  have same: "agents ?room2 = agents room" "zookeepers ?room2 = zookeepers room"
    using fresh by (cases role; simp add: hm_remove_insert_fresh)+
  have has: "hm_contains (role_clients role ?room1) ?c" by (simp add: hm_contains_def hm_simps)
  let ?st = "?p1\<lparr>rooms := hm_insert h ?room2 (rooms ?p1)\<rparr>"
  have D: "distinct (hm_keys (rooms ?st))"
    using ok1 by (simp add: state_ok_def rooms_ok_def hm_distinct_insert rooms_keys_prune)
  have un: "msgs = announce (PeerLeft role ?c) (role_clients (opposite role) room)"
      "st2 = prune_expired_rooms cfg now' ?st"
    using assms(6) room1 has by (auto simp: unregister_def Let_def)
  have "hm_get (rooms st2) h = (if room_live cfg now' ?room2 then Some ?room2 else None)"
    unfolding un(2) using rooms_prune [OF D] by (simp add: hm_simps)
  moreover have "room_live cfg now' ?room2 \<longleftrightarrow> agents room \<noteq> [] \<or> zookeepers room \<noteq> [] \<or> 0 < room_ttl cfg"
    using same by (auto simp: room_live_def)
  ultimately show ?thesis
    using un(1) bc same by (auto simp: announce_def)
qed


theorem unregister_undoes_register_witness:
  "\<exists>(out :: unit register_outcome) st1 (msgs :: (client_handle \<times> unit server_message) list) st2.
     register small_config 6 ''r'' Agent None (demo_client 1) demo_state = Some (Ok out, st1) \<and>
     unregister small_config 9 ''r'' Agent (ro_client_id out) st1 = (msgs, st2) \<and>
     msgs = map (\<lambda>(peer, m). (peer, PeerLeft Agent (ro_client_id out))) (ro_broadcasts out) \<and>
     (case hm_get (rooms st2) ''r'' of
        Some room' \<Rightarrow> agents room' = [] \<and> zookeepers room' = [] | None \<Rightarrow> False)"
proof -
  have ok: "state_ok small_config 5 demo_state"
    by (simp add: state_ok_def rooms_ok_def auth_ok_def room_ok_def demo_state_def new_room_def small_config_def occupied_ids_def)
  have room: "hm_get (rooms demo_state) ''r'' = Some (new_room [1] 5)" by (simp add: demo_state_def)
  have live: "room_live small_config 6 (new_room [1] 5)"
    by (simp add: room_live_def new_room_def small_config_def)
  obtain out :: "unit register_outcome" and st1 where r: "register small_config 6 ''r'' Agent None (demo_client 1) demo_state = Some (Ok out, st1)"
    using register_joins_room [OF ok room live, of Agent None "demo_client 1"]
    by (auto simp: occupied_ids_def new_room_def)
  obtain msgs :: "(client_handle \<times> unit server_message) list" and st2
    where u: "unregister small_config 9 ''r'' Agent (ro_client_id out) st1 = (msgs, st2)"
    by fastforce
  have "msgs = map (\<lambda>(peer, m). (peer, PeerLeft Agent (ro_client_id out))) (ro_broadcasts out) \<and>
     (case hm_get (rooms st2) ''r'' of
        Some room' \<Rightarrow> agents room' = [] \<and> zookeepers room' = [] | None \<Rightarrow> False)"
    using unregister_undoes_register [OF ok room r _ _ u]
    by (simp add: small_config_def new_room_def split: option.splits)
  with r u show ?thesis by blast
qed

section \<open>Routing\<close>

lemma find_client_occupied:
  "c \<in> set (occupied_ids room) \<Longrightarrow> \<exists>handle. find_client room c = Some handle"
  using hm_key_get [of c "agents room"] hm_key_get [of c "zookeepers room"]
  by (auto simp: find_client_def occupied_ids_def split: option.splits)

lemma role_of_alt:
  "role_of room c = (if hm_contains (agents room) c then Some Agent
     else if c \<in> set (occupied_ids room) then Some Zookeeper else None)"
  by (auto simp: role_of_def occupied_ids_def hm_contains_keys)

lemma route_signal_ok_iff:
  "(\<exists>m. route_signal room sender peer payload = Ok m) \<longleftrightarrow>
     sender \<in> set (occupied_ids room) \<and> peer \<in> set (occupied_ids room) \<and>
     \<not> (hm_contains (agents room) sender \<and> hm_contains (agents room) peer)"
  using find_client_occupied [of peer room]
  by (auto simp: route_signal_def role_of_alt occupied_ids_def hm_contains_keys split: option.splits if_splits)

lemma route_signal_ok:
  "route_signal room sender peer payload = Ok (handle, m) \<Longrightarrow>
     m = Signal sender payload \<and> find_client room peer = Some handle"
  by (auto simp: route_signal_def split: option.splits if_splits)

text \<open>The outcome of \<open>forward_signal\<close> in terms of the room before.\<close>

lemma forward_signal_cases:
  assumes "distinct (hm_keys (rooms st))"
  shows "forward_signal cfg now h sender peer payload st =
    (let p = prune_expired_rooms cfg now st in
     case hm_get (rooms p) h of
       None \<Rightarrow> (Err ''channel not found'', p)
     | Some room \<Rightarrow>
         let w = prune_event_window (signal_events room) (room_signal_rate_window cfg) now in
         if length w < room_signal_rate_limit cfg
         then (route_signal room sender peer payload,
               p\<lparr>rooms := hm_insert h (room\<lparr>signal_events := w @ [now], last_active_at := now\<rparr>) (rooms p)\<rparr>)
         else (Err ''room signaling rate limit exceeded'',
               p\<lparr>rooms := hm_insert h (room\<lparr>signal_events := w\<rparr>) (rooms p)\<rparr>))"
  by (simp add: forward_signal_def Let_def window_admit_def route_signal_def role_of_def find_client_def
      split: option.splits)

text \<open>A signal is forwarded exactly when the room is live and below its rate limit, sender and peer are
  both connected to it, and they are not both agents.\<close>

theorem forward_signal_delivers_iff:
  assumes "state_ok cfg t st"
  shows "(\<exists>m st'. forward_signal cfg now h sender peer payload st = (Ok m, st')) =
    (\<exists>room. hm_get (rooms st) h = Some room \<and> room_live cfg now room \<and>
       length (prune_event_window (signal_events room) (room_signal_rate_window cfg) now)
         < room_signal_rate_limit cfg \<and>
       sender \<in> set (occupied_ids room) \<and> peer \<in> set (occupied_ids room) \<and>
       \<not> (hm_contains (agents room) sender \<and> hm_contains (agents room) peer))"
proof -
  have d: "distinct (hm_keys (rooms st))" using assms by (simp add: state_ok_def rooms_ok_def)
  show ?thesis
    unfolding forward_signal_cases [OF d] route_signal_ok_iff [where payload = payload, symmetric]
    using d by (auto simp: Let_def rooms_prune split: option.splits if_splits)
qed

theorem forward_signal_delivers_iff_witness:
  "(\<exists>m st'. forward_signal small_config 6 ''r'' ''z'' ''a'' () demo_state = (Ok m, st')) = False"
proof -
  have ok: "state_ok small_config 5 demo_state"
    by (simp add: state_ok_def rooms_ok_def auth_ok_def room_ok_def demo_state_def new_room_def small_config_def occupied_ids_def)
  show ?thesis
    unfolding forward_signal_delivers_iff [OF ok]
    by (auto simp: demo_state_def new_room_def occupied_ids_def split: if_splits)
qed

text \<open>A forwarded signal goes to the handle under which its peer is connected in that room, with the
  sender's identifier and the payload untouched; agents reach zookeepers only. It changes nothing
  of the state but what expired and the room's log and time of last activity.\<close>

theorem forward_signal_target:
  assumes "state_ok cfg t st"
    and "forward_signal cfg now h sender peer payload st = (Ok (handle, m), st')"
  shows "m = Signal sender payload \<and>
    (\<exists>room events. hm_get (rooms st) h = Some room \<and>
       (if hm_contains (agents room) sender then hm_get (zookeepers room) peer = Some handle
        else hm_get (agents room) peer = Some handle \<or> hm_get (zookeepers room) peer = Some handle) \<and>
       st' = (prune_expired_rooms cfg now st)
         \<lparr>rooms := hm_insert h (room\<lparr>signal_events := events @ [now], last_active_at := now\<rparr>)
            (rooms (prune_expired_rooms cfg now st))\<rparr>)"
proof -
  have d: "distinct (hm_keys (rooms st))" using assms(1) by (simp add: state_ok_def rooms_ok_def)
  let ?p = "prune_expired_rooms cfg now st"
  obtain room where room: "hm_get (rooms ?p) h = Some room"
    and r: "route_signal room sender peer payload = Ok (handle, m)"
    and st': "\<exists>events. st' = ?p\<lparr>rooms := hm_insert h (room\<lparr>signal_events := events @ [now], last_active_at := now\<rparr>) (rooms ?p)\<rparr>"
    using assms(2) unfolding forward_signal_cases [OF d]
    by (auto simp: Let_def split: option.splits if_splits)
  have "\<not> (hm_contains (agents room) sender \<and> hm_contains (agents room) peer)"
    using route_signal_ok_iff [THEN iffD1, OF exI, OF r] by simp
  then have "if hm_contains (agents room) sender then hm_get (zookeepers room) peer = Some handle
        else hm_get (agents room) peer = Some handle \<or> hm_get (zookeepers room) peer = Some handle"
    using route_signal_ok [OF r]
    by (cases "hm_get (agents room) peer") (simp_all add: find_client_def hm_contains_def)
  moreover obtain events where
    "st' = ?p\<lparr>rooms := hm_insert h (room\<lparr>signal_events := events @ [now], last_active_at := now\<rparr>) (rooms ?p)\<rparr>"
    using st' by blast
  moreover have "hm_get (rooms st) h = Some room" using rooms_prune_Some [OF d room] by simp
  moreover have "m = Signal sender payload" using route_signal_ok [OF r] by simp
  ultimately show ?thesis by (intro conjI exI)
qed

definition demo_pair_state :: state_inner where
  "demo_pair_state = \<lparr>next_client_id = 1,
     rooms = [(''r'', (new_room [1] 5)\<lparr>agents := [(''a'', demo_client 1)], zookeepers := [(''z'', demo_client 2)]\<rparr>)],
     auth_events_by_ip = []\<rparr>"

lemma demo_pair_state_ok: "state_ok small_config 5 demo_pair_state"
  by (simp add: state_ok_def rooms_ok_def auth_ok_def room_ok_def demo_pair_state_def new_room_def small_config_def occupied_ids_def)

theorem forward_signal_target_witness:
  "\<exists>st'. forward_signal small_config 6 ''r'' ''a'' ''z'' (3 :: nat) demo_pair_state
       = (Ok (demo_client 2, Signal ''a'' 3), st') \<and>
     hm_get (zookeepers (the (hm_get (rooms demo_pair_state) ''r''))) ''z'' = Some (demo_client 2)"
proof -
  have "fst (forward_signal small_config 6 ''r'' ''a'' ''z'' (3 :: nat) demo_pair_state)
      = Ok (demo_client 2, Signal ''a'' 3)"
    by code_simp
  then obtain st' where f: "forward_signal small_config 6 ''r'' ''a'' ''z'' (3 :: nat) demo_pair_state
      = (Ok (demo_client 2, Signal ''a'' 3), st')"
    by (metis prod.collapse)
  from forward_signal_target [OF demo_pair_state_ok f] obtain room where
    room: "hm_get (rooms demo_pair_state) ''r'' = Some room"
    and "if hm_contains (agents room) ''a'' then hm_get (zookeepers room) ''z'' = Some (demo_client 2)
         else hm_get (agents room) ''z'' = Some (demo_client 2) \<or> hm_get (zookeepers room) ''z'' = Some (demo_client 2)"
    by - (elim conjE exE, rule that, assumption+)
  moreover have "hm_contains (agents room) ''a''"
    using room by (auto simp: demo_pair_state_def hm_contains_def)
  ultimately have "hm_get (zookeepers room) ''z'' = Some (demo_client 2)" by simp
  with f room show ?thesis by simp
qed


section \<open>The lifetime of a room\<close>

definition connected :: "state_inner \<Rightarrow> string \<Rightarrow> client_role \<Rightarrow> string \<Rightarrow> byte list \<Rightarrow> bool" where
  "connected st h role c file \<longleftrightarrow>
     (\<exists>room. hm_get (rooms st) h = Some room \<and> c \<in> set (hm_keys (role_clients role room)) \<and>
        password_file room = file)"

lemma room_live_client: "c \<in> set (hm_keys (role_clients role room)) \<Longrightarrow> room_live cfg now room"
  by (cases role) (auto simp: room_live_def)

lemma connected_prune:
  "distinct (hm_keys (rooms st)) \<Longrightarrow> connected st h role c file \<Longrightarrow>
     connected (prune_expired_rooms cfg now st) h role c file"
  using room_live_client by (fastforce simp: connected_def rooms_prune)

lemma connected_insert:
  assumes "connected st h role c file" and "hm_get (rooms st) h' = Some room"
    and "set (hm_keys (role_clients role room)) - {c'} \<subseteq> set (hm_keys (role_clients role room'))"
    and "h' = h \<Longrightarrow> c' \<noteq> c" and "password_file room' = password_file room"
  shows "connected (st\<lparr>rooms := hm_insert h' room' (rooms st)\<rparr>) h role c file"
  using assms by (cases "h' = h") (auto simp: connected_def hm_simps)

lemma other_role: "r \<noteq> role \<Longrightarrow> r = opposite role"
  by (cases r; cases role) auto

lemma exec_connected:
  fixes op :: "'v server_op"
  assumes d: "distinct (hm_keys (rooms st))" and c: "connected st h role c file"
    and e: "exec cfg now op st = Some (ok, st')" and nu: "op \<noteq> OpUnregister h role c"
  shows "connected st' h role c file"
proof -
  let ?p = "prune_expired_rooms cfg now st"
  have p: "connected ?p h role c file" using d c by (rule connected_prune)
  have frame: "connected (s\<lparr>auth_events_by_ip := x\<rparr>) h role c file = connected s h role c file"
    "connected (s\<lparr>next_client_id := y\<rparr>) h role c file = connected s h role c file" for s x y
    by (simp_all add: connected_def)
  show ?thesis
  proof (cases op)
    case (OpRegister h' r pr cl)
    show ?thesis
    proof (cases "hm_get (rooms ?p) h'")
      case None
      with e OpRegister p show ?thesis by (auto simp: register_def Let_def)
    next
      case (Some room)
      have up: "connected (?p\<lparr>rooms := hm_insert h' (insert_client r c' cl (room\<lparr>last_active_at := now\<rparr>)) (rooms ?p)\<rparr>)
          h role c file" for c'
        using other_role [of r role] c
        by (intro connected_insert [OF p Some, of "c @ ''x''"]) (cases "r = role", auto simp: hm_keys_insert)
      have "connected (?p\<lparr>next_client_id := n, rooms := hm_insert h' (insert_client r c' cl (room\<lparr>last_active_at := now\<rparr>)) (rooms ?p)\<rparr>)
          h role c file" for c' n
        using up [of c'] by (simp add: connected_def)
      with e OpRegister Some show ?thesis
        by (auto simp: register_def Let_def split: option.splits)
    qed
  next
    case (OpUnregister h' r c')
    have up: "connected (?p\<lparr>rooms := hm_insert h' ((remove_client r c' room)\<lparr>last_active_at := now\<rparr>) (rooms ?p)\<rparr>)
        h role c file" if "hm_get (rooms ?p) h' = Some room" for room
    proof (cases "r = role")
      case True
      then show ?thesis using nu OpUnregister
        by (intro connected_insert [OF p that, of c']) (auto simp: hm_keys_remove)
    next
      case False
      then show ?thesis using other_role [of r role]
        by (intro connected_insert [OF p that, of "c @ ''x''"]) (cases role, auto)
    qed
    have D: "distinct (hm_keys (rooms ?p))" using d by (rule rooms_keys_prune)
    have upp: "connected (prune_expired_rooms cfg now
        (?p\<lparr>rooms := hm_insert h' ((remove_client r c' room)\<lparr>last_active_at := now\<rparr>) (rooms ?p)\<rparr>)) h role c file"
      if "hm_get (rooms ?p) h' = Some room" for room
      using D by (intro connected_prune up that) (simp add: hm_distinct_insert)
    from e OpUnregister connected_prune [OF D p] upp show ?thesis
      by (auto simp: unregister_def Let_def split: option.splits)
  next
    case (OpSignal h' s q x)
    have up: "connected (?p\<lparr>rooms := hm_insert h' (room\<lparr>signal_events := ev, last_active_at := t\<rparr>) (rooms ?p)\<rparr>)
        h role c file" if "hm_get (rooms ?p) h' = Some room" for room ev t
      by (intro connected_insert [OF p that, of "c @ ''x''"]) (cases role, auto)
    have up': "connected (?p\<lparr>rooms := hm_insert h' (room\<lparr>signal_events := ev\<rparr>) (rooms ?p)\<rparr>)
        h role c file" if "hm_get (rooms ?p) h' = Some room" for room ev
      by (intro connected_insert [OF p that, of "c @ ''x''"]) (cases role, auto)
    from e OpSignal p show ?thesis
      by (auto simp: forward_signal_cases [OF d] Let_def apfst_eq_Pair up up' split: option.splits if_splits)
  next
    case (OpStore h' f)
    have "connected (?p\<lparr>rooms := hm_insert h' (new_room f now) (rooms ?p)\<rparr>) h role c file"
      if "\<not> hm_contains (rooms ?p) h'"
      using p that by (auto simp: connected_def hm_get_insert hm_contains_def)
    with e OpStore p show ?thesis
      by (auto simp: store_room_def Let_def apfst_eq_Pair)
  qed (use e p in \<open>auto simp: apfst_eq_Pair ensure_room_capacity_def check_auth_rate_limit_def Let_def frame
         split: prod.splits if_splits\<close>)
qed

lemma run_connected:
  fixes ops :: "(instant \<times> 'v server_op) list"
  assumes "state_ok cfg t st" and "sorted (t # map fst ops)" and "connected st h role c file"
    and "\<forall>op \<in> set ops. snd op \<noteq> OpUnregister h role c" and "run cfg ops st = Some (evs, st')"
  shows "connected st' h role c file"
  using assms
proof (induction ops arbitrary: t st evs)
  case (Cons x ops)
  obtain now op where x: "x = (now, op)" by (cases x)
  with Cons.prems obtain ok st1 evs1 where e: "exec cfg now op st = Some (ok, st1)"
    and r: "run cfg ops st1 = Some (evs1, st')"
    by (auto split: option.splits)
  have "state_ok cfg now st" using Cons.prems(1,2) x by (auto intro: state_ok_mono)
  moreover from this have "distinct (hm_keys (rooms st))" by (simp add: state_ok_def rooms_ok_def)
  then have "connected st1 h role c file"
    using exec_connected [OF _ Cons.prems(3) e] Cons.prems(4) x by simp
  ultimately show ?case
    using Cons.IH [of now st1 evs1] Cons.prems(2,4) x r e exec_ok by fastforce
qed simp

text \<open>C2. A room with a connected client is never taken away: as long as that client is not
  unregistered, no operation of anybody, at any time, expires the room, replaces it, changes its
  password file or drops the client from it.\<close>

theorem occupied_room_survives:
  fixes ops :: "(instant \<times> 'v server_op) list"
  assumes "state_ok cfg t st" and "sorted (t # map fst ops)"
    and "hm_get (rooms st) h = Some room" and "hm_contains (role_clients role room) c"
    and "\<forall>op \<in> set ops. snd op \<noteq> OpUnregister h role c" and "run cfg ops st = Some (evs, st')"
  shows "\<exists>room'. hm_get (rooms st') h = Some room' \<and> hm_contains (role_clients role room') c \<and>
    password_file room' = password_file room"
proof -
  have "connected st h role c (password_file room)"
    using assms(3,4) by (simp add: connected_def hm_contains_keys)
  from run_connected [OF assms(1,2) this assms(5,6)] show ?thesis
    by (simp add: connected_def hm_contains_keys)
qed

theorem occupied_room_survives_witness:
  "\<exists>evs st' room'. run small_config [(1000, OpStore ''r'' [9]), (2000, OpUnregister ''r'' Zookeeper ''z''),
      (3000, OpSignal ''r'' ''a'' ''z'' ())] demo_pair_state = Some (evs, st') \<and>
    hm_get (rooms st') ''r'' = Some room' \<and> hm_contains (agents room') ''a'' \<and> password_file room' = [1]"
proof -
  let ?ops = "[(1000, OpStore ''r'' [9]), (2000, OpUnregister ''r'' Zookeeper ''z''),
      (3000, OpSignal ''r'' ''a'' ''z'' ())]"
  have "run small_config ?ops demo_pair_state \<noteq> None" by code_simp
  then obtain evs st' where r: "run small_config ?ops demo_pair_state = Some (evs, st')" by fastforce
  let ?room = "(new_room [1] 5)\<lparr>agents := [(''a'', demo_client 1)], zookeepers := [(''z'', demo_client 2)]\<rparr>"
  have "\<exists>room'. hm_get (rooms st') ''r'' = Some room' \<and> hm_contains (role_clients Agent room') ''a'' \<and>
      password_file room' = password_file ?room"
    by (rule occupied_room_survives [OF demo_pair_state_ok _ _ _ _ r])
       (simp_all add: demo_pair_state_def hm_contains_def)
  with r show ?thesis by (auto simp: new_room_def)
qed

text \<open>C27. A room without clients lives on for less than \<^verbatim>\<open>room_ttl\<close> after its last activity, and then the
  next operation of anybody takes it away: registering in it, looking up its password file and
  signalling in it all behave as if it had never existed.\<close>

theorem idle_room_expires:
  assumes "state_ok cfg t st" and "hm_get (rooms st) h = Some room"
    and "agents room = []" and "zookeepers room = []" and "last_active_at room + room_ttl cfg \<le> now"
  shows "hm_get (rooms (prune_expired_rooms cfg now st)) h = None \<and>
    register cfg now h role preferred client st =
      Some (Err ''channel not found'', prune_expired_rooms cfg now st) \<and>
    candidate_login_for_room K B pake cfg now r entropy h request st =
      (Ok None, prune_expired_rooms cfg now st) \<and>
    forward_signal cfg now h sender peer payload st =
      (Err ''channel not found'', prune_expired_rooms cfg now st)"
proof -
  have "\<not> room_live cfg now room" using assms(3-5) by (auto simp: room_live_def)
  then have "hm_get (rooms (prune_expired_rooms cfg now st)) h = None"
    using assms(1,2) by (simp add: rooms_prune state_ok_def rooms_ok_def)
  then show ?thesis
    by (simp add: register_def candidate_login_for_room_def forward_signal_def Let_def)
qed

theorem idle_room_expires_witness:
  "hm_get (rooms (prune_expired_rooms small_config 105 demo_state)) ''r'' = None \<and>
   register small_config 105 ''r'' Agent None (demo_client 1) demo_state =
     Some (Err ''channel not found'', prune_expired_rooms small_config 105 demo_state)"
proof -
  have ok: "state_ok small_config 5 demo_state"
    by (simp add: state_ok_def rooms_ok_def auth_ok_def room_ok_def demo_state_def new_room_def small_config_def occupied_ids_def)
  have room: "hm_get (rooms demo_state) ''r'' = Some (new_room [1] 5)" by (simp add: demo_state_def)
  have t: "agents (new_room [1] 5) = []" "zookeepers (new_room [1] 5) = []"
      "last_active_at (new_room [1] 5) + room_ttl small_config \<le> 105"
    by (simp_all add: new_room_def small_config_def)
  show ?thesis
    by (rule conjI [OF idle_room_expires [OF ok room t, THEN conjunct1]
          idle_room_expires [OF ok room t, THEN conjunct2, THEN conjunct1]])
qed

end
