(* ===== verification/Server_Auth.thy ===== *)
theory Server_Auth
  imports Server_Rooms
begin

text \<open>
  The authentication handshake of one socket, \<^verbatim>\<open>mitb-server/src/ws_auth.rs\<close>. The future
  \<^verbatim>\<open>authenticate_socket\<close> is a machine whose phases are the points where it waits for a message or
  takes the lock on the server's state: between two steps of one handshake the tasks of all other
  clients run, so each step is given whatever state it finds. JSON, \<^verbatim>\<open>opaque-ke\<close> and base64 are
  parameters, collected with the server's configuration in the record \<open>server_env\<close>.
\<close>

datatype ws_message =
    Text string
  | Binary "byte list"
  | WsPing "byte list"
  | WsPong "byte list"
  | Close

text \<open>What \<^verbatim>\<open>timeout(WS_AUTH_READ_TIMEOUT, socket.recv())\<close> can give.\<close>

datatype recv = RecvTimeout | RecvError | RecvClosed | RecvFrame ws_message

datatype 'v outgoing = SendMessage "'v server_message" | SendPong "byte list"

record ('o, 'r, 'v) server_env =
  se_opaque :: "('o, 'r) opaque"
  se_b64 :: b64
  se_pake :: "'o server_pake"
  se_config :: security_config
  se_parse :: "string \<Rightarrow> string + 'v client_message"

definition WS_AUTH_READ_TIMEOUT_SECS :: nat where
  "WS_AUTH_READ_TIMEOUT_SECS = 15"

definition send_socket_error :: "string \<Rightarrow> 'v outgoing list" where
  "send_socket_error e = [SendMessage (ErrorMessage e)]"

text \<open>\<^verbatim>\<open>receive_message\<close>: the message, if it is one, and what was sent on the way.\<close>

fun receive_message ::
  "(string \<Rightarrow> string + 'v client_message) \<Rightarrow> recv \<Rightarrow> 'v client_message option \<times> 'v outgoing list" where
  "receive_message parse RecvTimeout =
     (None, send_socket_error (''authentication timed out waiting for next message ('' @
        dec_of_nat WS_AUTH_READ_TIMEOUT_SECS @ ''s)''))"
| "receive_message parse RecvError = (None, [])"
| "receive_message parse RecvClosed = (None, [])"
| "receive_message parse (RecvFrame (Text t)) =
     (case parse t of
        Inl e \<Rightarrow> (None, send_socket_error (''invalid client message: '' @ e))
      | Inr m \<Rightarrow> (Some m, []))"
| "receive_message parse (RecvFrame Close) = (None, [])"
| "receive_message parse (RecvFrame (WsPing payload)) =
     (None, SendPong payload # send_socket_error ''expected text websocket frames during authentication'')"
| "receive_message parse (RecvFrame _) =
     (None, send_socket_error ''expected text websocket frames during authentication'')"

definition MAX_ROOM_HANDLE_LEN :: nat where
  "MAX_ROOM_HANDLE_LEN = 64"

definition room_handle_byte :: "char \<Rightarrow> bool" where
  "room_handle_byte c \<longleftrightarrow> is_ascii_alphanumeric c \<or> c = CHR ''-'' \<or> c = CHR ''_''"

definition normalize_room_handle :: "string \<Rightarrow> string + string" where
  "normalize_room_handle h =
     (let h = trim h in
      if h = [] then Err ''room handle must not be empty''
      else if length h > MAX_ROOM_HANDLE_LEN
      then Err (''room handle must be at most '' @ dec_of_nat MAX_ROOM_HANDLE_LEN @ '' characters'')
      else if \<not> list_all room_handle_byte h
      then Err (''room handle must use only letters, numbers, '' @ [CHR 0x27, CHR ''-'', CHR 0x27] @ '' or '' @
             [CHR 0x27, CHR ''_'', CHR 0x27])
      else Ok h)"

section \<open>The handshake\<close>

datatype 'o auth_phase =
    AuthStart
  | AwaitInit
  | LookupRoom client_role string "byte list" "string option"
  | CheckCapacity string "string option"
  | AwaitRegistrationRequest string "string option"
  | AwaitRegistrationUpload string "string option"
  | AwaitFinalization client_role "string option" "'o pending_login list" "created_room option"
  | StoreCreated client_role "string option" string created_room
  | Authenticated string client_role "string option"
  | Rejected

definition auth_reject :: "string \<Rightarrow> state_inner \<Rightarrow> 'o auth_phase \<times> 'v outgoing list \<times> state_inner" where
  "auth_reject e st = (Rejected, send_socket_error e, st)"

text \<open>The inputs a step may need: the time, the random source and the entropy of the token, the
  address of the peer and what the socket gives.\<close>

record 'r auth_input =
  ai_now :: instant
  ai_rng :: 'r
  ai_entropy :: "string + byte list"
  ai_ip :: ip_addr
  ai_recv :: recv

definition clean_alias :: "string option \<Rightarrow> string option" where
  "clean_alias a =
     (case map_option trim a of None \<Rightarrow> None | Some v \<Rightarrow> if v = [] then None else Some v)"

definition final_alias :: "client_role \<Rightarrow> string option \<Rightarrow> string option" where
  "final_alias role a = (if role = Agent then a else None)"

definition candidates_message :: "b64 \<Rightarrow> 'o pending_login list \<Rightarrow> 'v outgoing" where
  "candidates_message B pendings =
     SendMessage (PakeCredentialCandidates
       (map (\<lambda>p. \<lparr>pcc_candidate_id = pl_candidate_id p,
                  pcc_credential_response = encode B (pl_credential_response p)\<rparr>) pendings))"

text \<open>The step from each phase. \<open>on_message\<close> is the common shape of a receiving phase.\<close>

definition on_message ::
  "('o, 'r, 'v) server_env \<Rightarrow> recv \<Rightarrow> state_inner \<Rightarrow>
     ('v client_message \<Rightarrow> 'o auth_phase \<times> 'v outgoing list \<times> state_inner) \<Rightarrow>
     'o auth_phase \<times> 'v outgoing list \<times> state_inner" where
  "on_message env rc st k =
     (case receive_message (se_parse env) rc of
        (None, out) \<Rightarrow> (Rejected, out, st)
      | (Some m, out) \<Rightarrow> (case k m of (ph, out', st') \<Rightarrow> (ph, out @ out', st')))"

definition auth_init ::
  "('o, 'r, 'v) server_env \<Rightarrow> state_inner \<Rightarrow> 'v client_message \<Rightarrow>
     'o auth_phase \<times> 'v outgoing list \<times> state_inner" where
  "auth_init env st m =
     (case m of
        PakeInit role handle request alias \<Rightarrow>
          (case normalize_room_handle handle of
             Inl e \<Rightarrow> auth_reject e st
           | Inr handle \<Rightarrow>
               (case decode (se_b64 env) request of
                  Inl e \<Rightarrow> auth_reject e st
                | Inr bytes \<Rightarrow> (LookupRoom role handle bytes (clean_alias alias), [], st)))
      | _ \<Rightarrow> auth_reject ''expected PAKE init message before other client messages'' st)"

definition auth_registration_request ::
  "('o, 'r, 'v) server_env \<Rightarrow> string \<Rightarrow> string option \<Rightarrow> state_inner \<Rightarrow> 'v client_message \<Rightarrow>
     'o auth_phase \<times> 'v outgoing list \<times> state_inner" where
  "auth_registration_request env handle alias st m =
     (case m of
        PakeRegistrationRequest request \<Rightarrow>
          (case decode (se_b64 env) request of
             Inl e \<Rightarrow> auth_reject e st
           | Inr bytes \<Rightarrow>
               (case sp_registration_response (se_opaque env) (se_pake env) (as_bytes handle) bytes of
                  Inl e \<Rightarrow> auth_reject e st
                | Inr response \<Rightarrow>
                    (AwaitRegistrationUpload handle alias,
                     [SendMessage (PakeRegistrationResponse (encode (se_b64 env) response))], st)))
      | _ \<Rightarrow> auth_reject ''expected PAKE registration request'' st)"

definition auth_registration_upload ::
  "('o, 'r, 'v) server_env \<Rightarrow> 'r \<Rightarrow> string + byte list \<Rightarrow> string \<Rightarrow> string option \<Rightarrow> state_inner \<Rightarrow>
     'v client_message \<Rightarrow> 'o auth_phase \<times> 'v outgoing list \<times> state_inner" where
  "auth_registration_upload env r entropy handle alias st m =
     (case m of
        PakeRegistrationUpload upload request \<Rightarrow>
          (case decode (se_b64 env) upload of
             Inl e \<Rightarrow> auth_reject e st
           | Inr upload \<Rightarrow>
          (case decode (se_b64 env) request of
             Inl e \<Rightarrow> auth_reject e st
           | Inr request \<Rightarrow>
          (case sp_finish_registration (se_opaque env) upload of
             Inl e \<Rightarrow> auth_reject e st
           | Inr file \<Rightarrow>
          (case sp_start_login (se_opaque env) r (se_pake env) (as_bytes handle) file request of
             Inl e \<Rightarrow> auth_reject e st
           | Inr (response, session) \<Rightarrow>
          (case random_token (se_b64 env) entropy of
             Inl e \<Rightarrow> auth_reject e st
           | Inr token \<Rightarrow>
               (let p = \<lparr>pl_candidate_id = token, pl_room_handle = handle,
                         pl_credential_response = response, pl_login_session = session\<rparr>
                in (AwaitFinalization Agent alias [p] (Some \<lparr>cr_room_handle = handle, cr_password_file = file\<rparr>),
                    [candidates_message (se_b64 env) [p]], st)))))))
      | _ \<Rightarrow> auth_reject ''expected PAKE registration upload'' st)"

definition auth_finalization ::
  "('o, 'r, 'v) server_env \<Rightarrow> client_role \<Rightarrow> string option \<Rightarrow> 'o pending_login list \<Rightarrow>
     created_room option \<Rightarrow> state_inner \<Rightarrow> 'v client_message \<Rightarrow>
     'o auth_phase \<times> 'v outgoing list \<times> state_inner" where
  "auth_finalization env role alias pendings created st m =
     (case m of
        PakeCredentialFinalization cid finalization \<Rightarrow>
          (case decode (se_b64 env) finalization of
             Inl e \<Rightarrow> auth_reject e st
           | Inr bytes \<Rightarrow>
          (case find (\<lambda>p. pl_candidate_id p = cid) pendings of
             None \<Rightarrow> auth_reject ''unknown PAKE login candidate'' st
           | Some p \<Rightarrow>
          (case sls_finish (se_opaque env) (pl_login_session p) bytes of
             Inl e \<Rightarrow> auth_reject e st
           | Inr _ \<Rightarrow>
          (case created of
             Some c \<Rightarrow>
               if cr_room_handle c = pl_room_handle p
               then (StoreCreated role alias (pl_room_handle p) c, [], st)
               else (Authenticated (pl_room_handle p) role (final_alias role alias), [], st)
           | None \<Rightarrow> (Authenticated (pl_room_handle p) role (final_alias role alias), [], st)))))
      | _ \<Rightarrow> auth_reject ''expected PAKE credential finalization'' st)"

fun authenticate_step ::
  "('o, 'r, 'v) server_env \<Rightarrow> 'r auth_input \<Rightarrow> 'o auth_phase \<Rightarrow> state_inner \<Rightarrow>
     'o auth_phase \<times> 'v outgoing list \<times> state_inner" where
  "authenticate_step env i AuthStart st =
     (case check_auth_rate_limit (se_config env) (ai_now i) (ai_ip i) st of
        (Inl e, st) \<Rightarrow> auth_reject e st
      | (Inr _, st) \<Rightarrow> (AwaitInit, [], st))"
| "authenticate_step env i AwaitInit st = on_message env (ai_recv i) st (auth_init env st)"
| "authenticate_step env i (LookupRoom role handle request alias) st =
     (case candidate_login_for_room (se_opaque env) (se_b64 env) (se_pake env) (se_config env)
             (ai_now i) (ai_rng i) (ai_entropy i) handle request st of
        (Inl e, st) \<Rightarrow> auth_reject e st
      | (Inr (Some p), st) \<Rightarrow>
          (AwaitFinalization role alias [p] None, [candidates_message (se_b64 env) [p]], st)
      | (Inr None, st) \<Rightarrow>
          if role = Zookeeper then auth_reject ''unknown secret code'' st
          else if \<not> allow_agent_room_creation (se_config env)
          then auth_reject ''agent-driven room creation is disabled by server policy'' st
          else (CheckCapacity handle alias, [], st))"
| "authenticate_step env i (CheckCapacity handle alias) st =
     (case ensure_room_capacity (se_config env) (ai_now i) st of
        (Inl e, st) \<Rightarrow> auth_reject e st
      | (Inr _, st) \<Rightarrow>
          (AwaitRegistrationRequest handle alias, [SendMessage PakeRegistrationRequired], st))"
| "authenticate_step env i (AwaitRegistrationRequest handle alias) st =
     on_message env (ai_recv i) st (auth_registration_request env handle alias st)"
| "authenticate_step env i (AwaitRegistrationUpload handle alias) st =
     on_message env (ai_recv i) st
       (auth_registration_upload env (ai_rng i) (ai_entropy i) handle alias st)"
| "authenticate_step env i (AwaitFinalization role alias pendings created) st =
     on_message env (ai_recv i) st (auth_finalization env role alias pendings created st)"
| "authenticate_step env i (StoreCreated role alias handle created) st =
     (case store_room (se_config env) (ai_now i) (cr_room_handle created) (cr_password_file created) st of
        (Inl e, st) \<Rightarrow> auth_reject e st
      | (Inr _, st) \<Rightarrow> (Authenticated handle role (final_alias role alias), [], st))"
| "authenticate_step env i (Authenticated handle role alias) st = (Authenticated handle role alias, [], st)"
| "authenticate_step env i Rejected st = (Rejected, [], st)"


section \<open>Room handles\<close>

text \<open>A room handle that is accepted is not empty, at most 64 bytes long, made of letters, digits, minus
  and underscore only, and accepted again unchanged.\<close>

theorem normalized_room_handle:
  assumes "normalize_room_handle h = Ok h'"
  shows "h' = trim h \<and> h' \<noteq> [] \<and> length h' \<le> 64 \<and> list_all room_handle_byte h' \<and>
    normalize_room_handle h' = Ok h'"
  using assms
  by (auto simp: normalize_room_handle_def Let_def MAX_ROOM_HANDLE_LEN_def trim_idem split: if_splits)

theorem normalized_room_handle_witness:
  "normalize_room_handle '' room-1 '' = Ok ''room-1'' \<and> list_all room_handle_byte ''room-1'' \<and>
   normalize_room_handle ''room-1'' = Ok ''room-1''"
proof -
  have "normalize_room_handle '' room-1 '' = Ok ''room-1''" by code_simp
  with normalized_room_handle [OF this] show ?thesis by blast
qed

section \<open>Runs of one handshake\<close>

text \<open>The handshake of one socket, given the input of each step and the state it finds there.\<close>

fun auth_run ::
  "('o, 'r, 'v) server_env \<Rightarrow> ('r auth_input \<times> state_inner) list \<Rightarrow> 'o auth_phase \<Rightarrow> 'o auth_phase" where
  "auth_run env [] ph = ph"
| "auth_run env ((i, st) # xs) ph = auth_run env xs (fst (authenticate_step env i ph st))"

lemma auth_run_append: "auth_run env (xs @ ys) ph = auth_run env ys (auth_run env xs ph)"
  by (induction xs arbitrary: ph) auto

text \<open>The password file was that of a live room of the state some step found.\<close>

definition stored_file :: "security_config \<Rightarrow> ('r auth_input \<times> state_inner) list \<Rightarrow> string \<Rightarrow> byte list \<Rightarrow> bool" where
  "stored_file cfg xs h file \<longleftrightarrow>
     (\<exists>i st room. (i, st) \<in> set xs \<and> hm_get (rooms (prune_expired_rooms cfg (ai_now i) st)) h = Some room \<and>
        password_file room = file)"

definition session_for ::
  "('o, 'r, 'v) server_env \<Rightarrow> ('r auth_input \<times> state_inner) list \<Rightarrow> string \<Rightarrow> byte list \<Rightarrow>
     'o server_login_session \<Rightarrow> bool" where
  "session_for env xs h file session \<longleftrightarrow>
     (\<exists>i st request response. (i, st) \<in> set xs \<and>
        sp_start_login (se_opaque env) (ai_rng i) (se_pake env) (as_bytes h) file request = Ok (response, session))"

definition session_finished :: "('o, 'r, 'v) server_env \<Rightarrow> 'o server_login_session \<Rightarrow> bool" where
  "session_finished env session \<longleftrightarrow> (\<exists>bytes. sls_finish (se_opaque env) session bytes = Ok ())"

definition policy_allows :: "('o, 'r, 'v) server_env \<Rightarrow> bool" where
  "policy_allows env \<longleftrightarrow> allow_agent_room_creation (se_config env)"

definition stored_by ::
  "security_config \<Rightarrow> ('r auth_input \<times> state_inner) list \<Rightarrow> string \<Rightarrow> byte list \<Rightarrow> bool" where
  "stored_by cfg xs h file \<longleftrightarrow>
     (\<exists>i st. (i, st) \<in> set xs \<and> fst (store_room cfg (ai_now i) h file st) = Ok ())"

fun phase_ok ::
  "('o, 'r, 'v) server_env \<Rightarrow> ('r auth_input \<times> state_inner) list \<Rightarrow> 'o auth_phase \<Rightarrow> bool" where
  "phase_ok env xs (CheckCapacity h a) = policy_allows env"
| "phase_ok env xs (AwaitRegistrationRequest h a) = policy_allows env"
| "phase_ok env xs (AwaitRegistrationUpload h a) = policy_allows env"
| "phase_ok env xs (AwaitFinalization role a ps None) =
     (\<forall>p \<in> set ps. \<exists>file. stored_file (se_config env) xs (pl_room_handle p) file \<and>
        session_for env xs (pl_room_handle p) file (pl_login_session p))"
| "phase_ok env xs (AwaitFinalization role a ps (Some c)) =
     (role = Agent \<and> policy_allows env \<and>
      (\<forall>p \<in> set ps. pl_room_handle p = cr_room_handle c \<and>
         session_for env xs (pl_room_handle p) (cr_password_file c) (pl_login_session p)))"
| "phase_ok env xs (StoreCreated role a h c) =
     (role = Agent \<and> policy_allows env \<and> cr_room_handle c = h \<and>
      (\<exists>session. session_for env xs h (cr_password_file c) session \<and> session_finished env session))"
| "phase_ok env xs (Authenticated h role a) =
     (\<exists>file session. session_for env xs h file session \<and> session_finished env session \<and>
        (stored_file (se_config env) xs h file \<or>
         role = Agent \<and> policy_allows env \<and> stored_by (se_config env) xs h file))"
| "phase_ok env xs ph = True"

lemma evidence_mono:
  "stored_file cfg xs h file \<Longrightarrow> stored_file cfg (xs @ ys) h file"
  "session_for env xs h file session \<Longrightarrow> session_for env (xs @ ys) h file session"
  "stored_by cfg xs h file \<Longrightarrow> stored_by cfg (xs @ ys) h file"
  by (auto simp: stored_file_def session_for_def stored_by_def)

lemma phase_ok_mono: "phase_ok env xs ph \<Longrightarrow> phase_ok env (xs @ ys) ph"
proof (induction env xs ph rule: phase_ok.induct)
  case (5 env xs role a ps c)
  then show ?case by (metis evidence_mono(2) phase_ok.simps(5))
qed (auto intro: evidence_mono | meson evidence_mono)+

lemma on_message_cases:
  assumes "on_message env rc st k = (ph, out, st')"
  shows "(ph = Rejected \<and> st' = st) \<or>
    (\<exists>m out'. receive_message (se_parse env) rc = (Some m, []) \<and> k m = (ph, out', st'))"
proof (cases "receive_message (se_parse env) rc")
  case (Pair mo o1)
  have "o1 = []" if "mo = Some m" for m
    using Pair that by (induction "se_parse env" rc rule: receive_message.induct) (auto split: sum.splits)
  with Pair assms show ?thesis
    by (auto simp: on_message_def split: option.splits prod.splits)
qed


lemma auth_finalization_ok:
  assumes ok: "phase_ok env xs (AwaitFinalization role a ps c)"
    and k: "auth_finalization env role a ps c st m = (ph, out, st')"
  shows "st' = st \<and> phase_ok env xs ph"
proof -
  have "(ph = Rejected \<and> st' = st) \<or>
    (\<exists>p bytes. p \<in> set ps \<and> sls_finish (se_opaque env) (pl_login_session p) bytes = Ok () \<and> st' = st \<and>
       ph = (case c of Some c \<Rightarrow>
            if cr_room_handle c = pl_room_handle p then StoreCreated role a (pl_room_handle p) c
            else Authenticated (pl_room_handle p) role (final_alias role a)
          | None \<Rightarrow> Authenticated (pl_room_handle p) role (final_alias role a)))" (is "?A \<or> ?B")
    using k by (auto simp: auth_finalization_def auth_reject_def
        split: client_message.splits sum.splits option.splits dest!: find_Some_in)
  then show ?thesis
  proof
    assume ?B
    then obtain p where p: "p \<in> set ps" "session_finished env (pl_login_session p)" "st' = st"
        "ph = (case c of Some c \<Rightarrow>
            if cr_room_handle c = pl_room_handle p then StoreCreated role a (pl_room_handle p) c
            else Authenticated (pl_room_handle p) role (final_alias role a)
          | None \<Rightarrow> Authenticated (pl_room_handle p) role (final_alias role a))"
      by (auto simp: session_finished_def)
    with ok show ?thesis by (cases c) fastforce+
  qed simp
qed

lemma auth_registration_upload_ok:
  assumes "policy_allows env"
    and "auth_registration_upload env (ai_rng i) (ai_entropy i) h a st m = (ph, out, st')"
    and "(i, s) \<in> set xs"
  shows "st' = st \<and> phase_ok env xs ph"
  using assms
  by (fastforce simp: auth_registration_upload_def auth_reject_def session_for_def Let_def
      split: client_message.splits sum.splits prod.splits)

lemma auth_init_ok: "auth_init env st m = (ph, out, st') \<Longrightarrow> st' = st \<and> phase_ok env xs ph"
  by (auto simp: auth_init_def auth_reject_def split: client_message.splits sum.splits)

lemma auth_registration_request_ok:
  "auth_registration_request env h a st m = (ph, out, st') \<Longrightarrow> policy_allows env \<Longrightarrow> st' = st \<and> phase_ok env xs ph"
  by (auto simp: auth_registration_request_def auth_reject_def split: client_message.splits sum.splits)

lemma lookup_phase_ok:
  assumes "candidate_login_for_room (se_opaque env) (se_b64 env) (se_pake env) (se_config env)
      (ai_now i) (ai_rng i) (ai_entropy i) h request st = (Ok (Some p), st')"
  shows "phase_ok env (xs @ [(i, st)]) (AwaitFinalization role a [p] None)"
proof -
  from assms obtain room response where
    "hm_get (rooms (prune_expired_rooms (se_config env) (ai_now i) st)) h = Some room"
    "sp_start_login (se_opaque env) (ai_rng i) (se_pake env) (as_bytes h) (password_file room) request
       = Ok (response, pl_login_session p)"
    "pl_room_handle p = h"
    by (auto simp: candidate_login_for_room_def Let_def split: option.splits sum.splits prod.splits)
  then show ?thesis by (fastforce simp: stored_file_def session_for_def)
qed

lemma authenticate_step_ok:
  assumes "phase_ok env xs ph"
  shows "phase_ok env (xs @ [(i, st)]) (fst (authenticate_step env i ph st))"
proof (cases "authenticate_step env i ph st")
  case (fields ph' out st')
  note ok = phase_ok_mono [OF assms, of "[(i, st)]"]
  have in': "(i, st) \<in> set (xs @ [(i, st)])" by simp
  show ?thesis
  proof (cases ph)
    case AwaitInit
    with fields show ?thesis by (auto dest!: on_message_cases auth_init_ok)
  next
    case (AwaitRegistrationRequest h a)
    with fields ok show ?thesis by (auto dest!: on_message_cases auth_registration_request_ok)
  next
    case (AwaitRegistrationUpload h a)
    with ok have allow: "policy_allows env" by simp
    from fields AwaitRegistrationUpload show ?thesis
      using auth_registration_upload_ok [OF allow _ in'] by (auto dest!: on_message_cases)
  next
    case (AwaitFinalization role a ps c)
    with fields ok show ?thesis using auth_finalization_ok [OF ok [unfolded AwaitFinalization]] by (auto dest!: on_message_cases)
  next
    case (LookupRoom role h request a)
    with fields show ?thesis
      using lookup_phase_ok [of env i h request st _ _ xs role a]
      by (auto simp: auth_reject_def policy_allows_def split: sum.splits option.splits prod.splits if_splits)
  next
    case (StoreCreated role a h c)
    have "phase_ok env (xs @ [(i, st)]) (Authenticated h role (final_alias role a))"
      if "store_room (se_config env) (ai_now i) (cr_room_handle c) (cr_password_file c) st = (Ok u, st')" for u st'
    proof -
      obtain session where s: "session_for env (xs @ [(i, st)]) h (cr_password_file c) session"
          "session_finished env session" "policy_allows env" "role = Agent" "cr_room_handle c = h"
        using ok StoreCreated by auto
      then have "stored_by (se_config env) (xs @ [(i, st)]) h (cr_password_file c)"
        using that unfolding stored_by_def by (intro exI [of _ i] exI [of _ st]) simp
      with s show ?thesis unfolding phase_ok.simps by blast
    qed
    then have "phase_ok env (xs @ [(i, st)]) ph'"
      using fields StoreCreated
      by (cases "store_room (se_config env) (ai_now i) (cr_room_handle c) (cr_password_file c) st")
         (auto simp: auth_reject_def simp del: phase_ok.simps(7) split: sum.splits)
    with fields show ?thesis by simp
  qed (use fields ok in \<open>auto simp: auth_reject_def split: sum.splits prod.splits\<close>)
qed

lemma auth_run_ok: "phase_ok env ys ph \<Longrightarrow> phase_ok env (ys @ xs) (auth_run env xs ph)"
proof (induction xs arbitrary: ys ph)
  case (Cons x xs)
  obtain i st where x: "x = (i, st)" by (cases x)
  from Cons.IH [OF authenticate_step_ok [OF Cons.prems, of i st]] show ?case by (simp add: x)
qed simp



text \<open>The steps of the handshake that change which rooms there are.\<close>

lemma prune_no_new_room:
  "hm_contains (rooms (prune_expired_rooms cfg now st)) h \<Longrightarrow> hm_contains (rooms st) h"
  using hm_keys_filter_subset [of "\<lambda>(h, room). room_live cfg now room" "rooms st"]
  by (auto simp: prune_expired_rooms_def hm_contains_keys)

lemma authenticate_step_new_room:
  assumes s: "authenticate_step env i ph st = (ph', out, st')"
    and new: "hm_contains (rooms st') h" "\<not> hm_contains (rooms st) h"
  shows "\<exists>role a h' c. ph = StoreCreated role a h' c \<and> cr_room_handle c = h \<and>
    ph' = Authenticated h' role (final_alias role a) \<and> length (rooms st') \<le> max_rooms (se_config env)"
proof -
  let ?p = "prune_expired_rooms (se_config env) (ai_now i) st"
  have p: "\<not> hm_contains (rooms ?p) h" using new(2) prune_no_new_room by blast
  show ?thesis
  proof (cases ph)
    case (StoreCreated role a h' c)
    have "cr_room_handle c = h" and "ph' = Authenticated h' role (final_alias role a)"
      and "length (rooms st') \<le> max_rooms (se_config env)"
      using s new(1) p StoreCreated
      by (auto simp: store_room_def Let_def auth_reject_def hm_contains_keys hm_keys_insert hm_length_insert
          split: sum.splits prod.splits if_splits)
    with StoreCreated show ?thesis by simp
  next
    case (LookupRoom role h' request a)
    have "st' = ?p"
      using s LookupRoom candidate_login_state
      by (auto simp: auth_reject_def candidate_login_for_room_def Let_def
          split: sum.splits option.splits prod.splits if_splits)
    with new(1) p show ?thesis by simp
  next
    case AuthStart
    have "rooms st' = rooms ?p"
      using s AuthStart by (auto simp: auth_reject_def check_auth_rate_limit_def Let_def split: sum.splits prod.splits if_splits)
    with new(1) p show ?thesis by simp
  next
    case (CheckCapacity h' a)
    have "st' = ?p"
      using s CheckCapacity by (auto simp: auth_reject_def ensure_room_capacity_def Let_def split: sum.splits prod.splits if_splits)
    with new(1) p show ?thesis by simp
  next
    case AwaitInit
    have "st' = st" using s AwaitInit by (auto dest!: on_message_cases auth_init_ok)
    with new show ?thesis by simp
  next
    case (AwaitRegistrationRequest h' a)
    have "st' = st" using s AwaitRegistrationRequest
      by (auto simp: auth_registration_request_def auth_reject_def dest!: on_message_cases
          split: client_message.splits sum.splits)
    with new show ?thesis by simp
  next
    case (AwaitRegistrationUpload h' a)
    have "st' = st" using s AwaitRegistrationUpload
      by (auto simp: auth_registration_upload_def auth_reject_def Let_def dest!: on_message_cases
          split: client_message.splits sum.splits prod.splits)
    with new show ?thesis by simp
  next
    case (AwaitFinalization role a ps c)
    have "st' = st" using s AwaitFinalization
      by (auto simp: auth_finalization_def auth_reject_def dest!: on_message_cases
          split: client_message.splits sum.splits option.splits if_splits)
    with new show ?thesis by simp
  qed (use s new in simp_all)
qed


text \<open>The handshake is bounded: every step goes to a later phase.\<close>

fun phase_rank :: "'o auth_phase \<Rightarrow> nat" where
  "phase_rank AuthStart = 8"
| "phase_rank AwaitInit = 7"
| "phase_rank (LookupRoom r h q a) = 6"
| "phase_rank (CheckCapacity h a) = 5"
| "phase_rank (AwaitRegistrationRequest h a) = 4"
| "phase_rank (AwaitRegistrationUpload h a) = 3"
| "phase_rank (AwaitFinalization r a ps c) = 2"
| "phase_rank (StoreCreated r a h c) = 1"
| "phase_rank (Authenticated h r a) = 0"
| "phase_rank Rejected = 0"

lemma authenticate_step_rank:
  "phase_rank (fst (authenticate_step env i ph st)) \<le> phase_rank ph - 1"
  by (cases ph)
     (auto simp: auth_reject_def on_message_def auth_init_def auth_registration_request_def
       auth_registration_upload_def auth_finalization_def Let_def
       split: sum.splits prod.splits option.splits client_message.splits)

lemma auth_run_rank: "phase_rank (auth_run env xs ph) \<le> phase_rank ph - length xs"
proof (induction xs arbitrary: ph)
  case (Cons x xs)
  obtain i st where x: "x = (i, st)" by (cases x)
  show ?case
    using Cons.IH [of "fst (authenticate_step env i ph st)"] authenticate_step_rank [of env i ph st]
    by (simp add: x)
qed simp

text \<open>C31. A handshake is over after at most eight steps: whatever arrives, the socket is then either
  authenticated or rejected.\<close>

theorem handshake_terminates:
  assumes "8 \<le> length xs"
  shows "auth_run env xs AuthStart = Rejected \<or>
    (\<exists>h role a. auth_run env xs AuthStart = Authenticated h role a)"
proof -
  have "phase_rank (auth_run env xs AuthStart) = 0"
    using auth_run_rank [of env xs AuthStart] assms by simp
  then show ?thesis by (cases "auth_run env xs AuthStart") simp_all
qed

section \<open>A complete handshake\<close>

definition demo_parse :: "string \<Rightarrow> string + unit client_message" where
  "demo_parse t =
     (if t = ''init'' then Ok (PakeInit Agent ''r2'' ''q'' (Some '' bob ''))
      else if t = ''request'' then Ok (PakeRegistrationRequest ''pw'')
      else if t = ''upload'' then Ok (PakeRegistrationUpload ''pw'' ''pw'')
      else if t = ''final'' then Ok (PakeCredentialFinalization ''t'' ''pw'')
      else Err ''syntax'')"

definition demo_env :: "(byte list, unit, unit) server_env" where
  "demo_env = \<lparr>se_opaque = echo_opaque, se_b64 = echo_b64, se_pake = \<lparr>server_setup = []\<rparr>,
     se_config = small_config, se_parse = demo_parse\<rparr>"

definition demo_input :: "instant \<Rightarrow> string \<Rightarrow> unit auth_input" where
  "demo_input now t = \<lparr>ai_now = now, ai_rng = (), ai_entropy = Ok (as_bytes ''t''), ai_ip = V4 1,
     ai_recv = RecvFrame (Text t)\<rparr>"

definition demo_handshake :: "(unit auth_input \<times> state_inner) list" where
  "demo_handshake = map (\<lambda>(n, t). (demo_input n t, demo_state))
     [(6, []), (7, ''init''), (8, []), (9, []), (10, ''request''), (11, ''upload''), (12, ''final''), (13, [])]"

lemma demo_handshake_result:
  "auth_run demo_env demo_handshake AuthStart = Authenticated ''r2'' Agent (Some ''bob'')"
  by code_simp



theorem handshake_terminates_witness:
  "auth_run demo_env demo_handshake AuthStart = Rejected \<or>
    (\<exists>h role a. auth_run demo_env demo_handshake AuthStart = Authenticated h role a)"
  by (rule handshake_terminates) (simp add: demo_handshake_def)

end
