(* ===== verification/Server_Runtime.thy ===== *)
theory Server_Runtime
  imports Server_Auth
begin

text \<open>
  A connected client, \<^verbatim>\<open>mitb-server/src/ws_runtime.rs\<close>: the bounded outbound queue and penalty flag
  shared with the other clients' tasks, the handling of one incoming frame, the select loop, and
  the two ends of \<^verbatim>\<open>handle_socket\<close> that register and unregister the client. The queue is tokio's
  \<^verbatim>\<open>mpsc\<close> channel: its \<^verbatim>\<open>try_send\<close> is a parameter over an abstract channel state \<open>'c\<close>, and the store
  of all channels and flags is a map from addresses.
\<close>

section \<open>Queues\<close>

datatype send_result = Sent | Full | Closed

type_synonym ('c, 'v) try_send = "'c \<Rightarrow> 'v server_message \<Rightarrow> send_result \<times> 'c"

record 'c queues =
  chans :: "nat \<Rightarrow> 'c"
  flags :: "nat \<Rightarrow> bool"

definition enqueue_local_message ::
  "('c, 'v) try_send \<Rightarrow> client_handle \<Rightarrow> 'v server_message \<Rightarrow> 'c queues \<Rightarrow> bool \<times> 'c queues" where
  "enqueue_local_message ts h m q =
     (let (r, c) = ts (chans q (tx h)) m; q = q\<lparr>chans := (chans q)(tx h := c)\<rparr> in
      case r of
        Sent \<Rightarrow> (True, q)
      | Full \<Rightarrow> (False, q\<lparr>flags := (flags q)(penalized h := True)\<rparr>)
      | Closed \<Rightarrow> (False, q))"

definition enqueue_remote_message ::
  "('c, 'v) try_send \<Rightarrow> client_handle \<Rightarrow> 'v server_message \<Rightarrow> 'c queues \<Rightarrow> 'c queues" where
  "enqueue_remote_message ts peer m q =
     (let (r, c) = ts (chans q (tx peer)) m; q = q\<lparr>chans := (chans q)(tx peer := c)\<rparr> in
      case r of
        Sent \<Rightarrow> q
      | Full \<Rightarrow> q\<lparr>flags := (flags q)(penalized peer := True)\<rparr>
      | Closed \<Rightarrow> q)"

fun broadcast_all ::
  "('c, 'v) try_send \<Rightarrow> (client_handle \<times> 'v server_message) list \<Rightarrow> 'c queues \<Rightarrow> 'c queues" where
  "broadcast_all ts [] q = q"
| "broadcast_all ts ((peer, m) # ms) q = broadcast_all ts ms (enqueue_remote_message ts peer m q)"

section \<open>One incoming frame\<close>

text \<open>\<^verbatim>\<open>handle_incoming_message\<close>: whether the client stays connected, and what it did.\<close>

definition handle_client_message ::
  "('c, 'v) try_send \<Rightarrow> security_config \<Rightarrow> instant \<Rightarrow> string \<Rightarrow> string \<Rightarrow> client_handle \<Rightarrow>
     'v client_message \<Rightarrow> state_inner \<Rightarrow> 'c queues \<Rightarrow> bool \<times> state_inner \<times> 'c queues" where
  "handle_client_message ts cfg now room cid h m st q =
     (case m of
        SignalPeer peer payload \<Rightarrow>
          (case forward_signal cfg now room cid peer payload st of
             (Inr (peer, message), st) \<Rightarrow> (True, st, enqueue_remote_message ts peer message q)
           | (Inl e, st) \<Rightarrow> (let (ok, q) = enqueue_local_message ts h (ErrorMessage e) q in (ok, st, q)))
      | Ping \<Rightarrow> (let (ok, q) = enqueue_local_message ts h Pong q in (ok, st, q))
      | _ \<Rightarrow> (let (ok, q) = enqueue_local_message ts h (ErrorMessage ''client already authenticated'') q
              in (ok, st, q)))"

fun handle_incoming_message ::
  "('c, 'v) try_send \<Rightarrow> (string \<Rightarrow> string + 'v client_message) \<Rightarrow> security_config \<Rightarrow> instant \<Rightarrow>
     string \<Rightarrow> string \<Rightarrow> client_handle \<Rightarrow> ws_message \<Rightarrow> state_inner \<Rightarrow> 'c queues \<Rightarrow>
     bool \<times> state_inner \<times> 'c queues" where
  "handle_incoming_message ts parse cfg now room cid h (Text t) st q =
     (case parse t of
        Inl e \<Rightarrow> (let (ok, q) = enqueue_local_message ts h (ErrorMessage (''invalid client message: '' @ e)) q
                  in (ok, st, q))
      | Inr m \<Rightarrow> handle_client_message ts cfg now room cid h m st q)"
| "handle_incoming_message ts parse cfg now room cid h (Binary b) st q =
     (let (ok, q) = enqueue_local_message ts h (ErrorMessage ''binary websocket frames are not supported'') q
      in (ok, st, q))"
| "handle_incoming_message ts parse cfg now room cid h Close st q = (False, st, q)"
| "handle_incoming_message ts parse cfg now room cid h (WsPing b) st q =
     (let (ok, q) = enqueue_local_message ts h Pong q in (ok, st, q))"
| "handle_incoming_message ts parse cfg now room cid h (WsPong b) st q = (True, st, q)"

section \<open>The connection\<close>

definition WS_RUNTIME_READ_TIMEOUT :: duration where
  "WS_RUNTIME_READ_TIMEOUT = from_secs 90"

definition WS_AUTH_HANDSHAKE_TIMEOUT :: duration where
  "WS_AUTH_HANDSHAKE_TIMEOUT = from_secs 45"

definition WS_OUTBOUND_QUEUE_CAPACITY :: nat where
  "WS_OUTBOUND_QUEUE_CAPACITY = 256"

record conn =
  c_room :: string
  c_role :: client_role
  c_id :: string
  c_handle :: client_handle
  c_last_read :: instant

text \<open>What the select loop of a connection wakes up for. \<open>Outbound c serialised sent\<close>: a message was taken
  off the queue, which is \<open>c\<close> now; it could be serialised or not, which only skips it, and sent or not.\<close>

datatype inbound = InFrame ws_message | InError | InEnd

datatype 'c wake = Tick | Outbound 'c bool bool | OutboundClosed | Inbound inbound

definition send_outbound_message :: "bool \<Rightarrow> bool \<Rightarrow> bool" where
  "send_outbound_message serialised sent = (if serialised then sent else True)"

text \<open>One turn of the loop: whether it goes on.\<close>

fun conn_step ::
  "('c, 'v) try_send \<Rightarrow> (string \<Rightarrow> string + 'v client_message) \<Rightarrow> security_config \<Rightarrow> instant \<Rightarrow>
     'c wake \<Rightarrow> conn \<Rightarrow> state_inner \<Rightarrow> 'c queues \<Rightarrow> bool \<times> conn \<times> state_inner \<times> 'c queues" where
  "conn_step ts parse cfg now Tick c st q =
     (if flags q (penalized (c_handle c)) then (False, c, st, q)
      else if now - c_last_read c \<ge> WS_RUNTIME_READ_TIMEOUT then (False, c, st, q)
      else (True, c, st, q))"
| "conn_step ts parse cfg now OutboundClosed c st q = (False, c, st, q)"
| "conn_step ts parse cfg now (Outbound ch serialised sent) c st q =
     (send_outbound_message serialised sent, c, st, q\<lparr>chans := (chans q)(tx (c_handle c) := ch)\<rparr>)"
| "conn_step ts parse cfg now (Inbound (InFrame m)) c st q =
     (let c = c\<lparr>c_last_read := now\<rparr>;
          (go, st, q) = handle_incoming_message ts parse cfg now (c_room c) (c_id c) (c_handle c) m st q
      in (go, c, st, q))"
| "conn_step ts parse cfg now (Inbound InError) c st q = (False, c, st, q)"
| "conn_step ts parse cfg now (Inbound InEnd) c st q = (False, c, st, q)"

text \<open>The initial messages are queued until one does not fit.\<close>

fun send_initial ::
  "('c, 'v) try_send \<Rightarrow> client_handle \<Rightarrow> 'v server_message list \<Rightarrow> 'c queues \<Rightarrow> 'c queues" where
  "send_initial ts h [] q = q"
| "send_initial ts h (m # ms) q =
     (case enqueue_local_message ts h m q of (True, q) \<Rightarrow> send_initial ts h ms q | (False, q) \<Rightarrow> q)"

definition connect ::
  "('c, 'v) try_send \<Rightarrow> security_config \<Rightarrow> instant \<Rightarrow> string \<Rightarrow> client_role \<Rightarrow> string option \<Rightarrow>
     client_handle \<Rightarrow> state_inner \<Rightarrow> 'c queues \<Rightarrow> (conn option \<times> state_inner \<times> 'c queues) option" where
  "connect ts cfg now room role alias h st q =
     (case register cfg now room role alias h st of
        None \<Rightarrow> None
      | Some (Inl e, st) \<Rightarrow> Some (None, st, q)
      | Some (Inr out, st) \<Rightarrow>
          let q = send_initial ts h (ro_initial_messages out) q;
              q = broadcast_all ts (ro_broadcasts out) q
          in Some (Some \<lparr>c_room = room, c_role = role, c_id = ro_client_id out, c_handle = h,
                         c_last_read = now\<rparr>, st, q))"

definition disconnect ::
  "('c, 'v) try_send \<Rightarrow> security_config \<Rightarrow> instant \<Rightarrow> conn \<Rightarrow> state_inner \<Rightarrow> 'c queues \<Rightarrow>
     state_inner \<times> 'c queues" where
  "disconnect ts cfg now c st q =
     (let (broadcasts, st) = unregister cfg now (c_room c) (c_role c) (c_id c) st
      in (st, broadcast_all ts broadcasts q))"

end
