(* ===== verification/Server_System.thy ===== *)
theory Server_System
  imports Server_Runtime
begin

text \<open>
  The server as a whole: any number of connections, each running the loop of \<open>Server_Runtime\<close>,
  interleaved with each other and with the handshakes of sockets that are not yet connected. A
  step relation over the shared state, the queues and the connections gives the reachable states;
  the registered clients are in them exactly the connections.
\<close>

section \<open>Queues\<close>

lemma enqueue_remote_chan:
  "chans (enqueue_remote_message ts peer m q) a =
     (if a = tx peer then snd (ts (chans q a) m) else chans q a)"
  by (simp add: enqueue_remote_message_def Let_def split: prod.splits send_result.splits)

lemma enqueue_remote_flag:
  "flags (enqueue_remote_message ts peer m q) f =
     (flags q f \<or> (f = penalized peer \<and> fst (ts (chans q (tx peer)) m) = Full))"
  by (auto simp: enqueue_remote_message_def Let_def split: prod.splits send_result.splits)

definition messages_to :: "nat \<Rightarrow> (client_handle \<times> 'v server_message) list \<Rightarrow> 'v server_message list" where
  "messages_to a ms = map snd (filter (\<lambda>(peer, m). tx peer = a) ms)"

text \<open>A broadcast delivers, to every channel, exactly the messages addressed to it and in their
  order, whatever happens on the other channels: a full or closed queue of one client neither
  delays nor suppresses what the others get, and raises at most that client's own flag.\<close>

theorem broadcast_isolated:
  "chans (broadcast_all ts ms q) a = foldl (\<lambda>c m. snd (ts c m)) (chans q a) (messages_to a ms) \<and>
   (flags (broadcast_all ts ms q) f = (flags q f \<or>
      (\<exists>before peer m after. ms = before @ (peer, m) # after \<and> penalized peer = f \<and>
         fst (ts (foldl (\<lambda>c m. snd (ts c m)) (chans q (tx peer)) (messages_to (tx peer) before)) m) = Full)))"
proof (induction ms arbitrary: q)
  case Nil
  then show ?case by (simp add: messages_to_def)
next
  case (Cons x ms)
  obtain peer m where x: "x = (peer, m)" by (cases x)
  let ?q = "enqueue_remote_message ts peer m q"
  let ?hit = "\<lambda>q ms. \<exists>before peer m after. ms = before @ (peer, m) # after \<and> penalized peer = f \<and>
         fst (ts (foldl (\<lambda>c m. snd (ts c m)) (chans q (tx peer)) (messages_to (tx peer) before)) m) = Full"
  have c: "chans (broadcast_all ts ms ?q) a =
      foldl (\<lambda>c m. snd (ts c m)) (chans q a) (messages_to a (x # ms))"
    using Cons.IH [of ?q] by (simp add: x messages_to_def enqueue_remote_chan)
  have step: "foldl (\<lambda>c m. snd (ts c m)) (chans ?q (tx p')) (messages_to (tx p') before) =
      foldl (\<lambda>c m. snd (ts c m)) (chans q (tx p')) (messages_to (tx p') (x # before))" for p' before
    by (simp add: x messages_to_def enqueue_remote_chan)
  have "?hit q (x # ms) \<longleftrightarrow>
      (penalized peer = f \<and> fst (ts (chans q (tx peer)) m) = Full) \<or> ?hit ?q ms" (is "?L \<longleftrightarrow> ?R")
  proof
    assume ?L
    then obtain before p' m' after where h: "x # ms = before @ (p', m') # after" "penalized p' = f"
        "fst (ts (foldl (\<lambda>c m. snd (ts c m)) (chans q (tx p')) (messages_to (tx p') before)) m') = Full"
      by blast
    show ?R
    proof (cases before)
      case Nil
      with h x show ?thesis by (simp add: messages_to_def)
    next
      case (Cons y before')
      with h have "ms = before' @ (p', m') # after" "y = x" by auto
      with h Cons step show ?thesis by metis
    qed
  next
    assume ?R
    then show ?L
    proof
      assume "penalized peer = f \<and> fst (ts (chans q (tx peer)) m) = Full"
      then show ?L by (intro exI [of _ "[]"] exI [of _ peer] exI [of _ m] exI [of _ ms]) (simp add: x messages_to_def)
    next
      assume "?hit ?q ms"
      then show ?L by (metis (no_types, lifting) append_Cons step)
    qed
  qed
  with c Cons.IH [of ?q] show ?case by (auto simp: x enqueue_remote_flag)
qed

text \<open>A frame ends a connection only if it is a close frame or if the client's own queue refuses the
  answer; in particular a signal that is forwarded never does, even when the peer's queue is full,
  and the sender then is not penalised for it.\<close>

theorem incoming_disconnects:
  assumes "handle_incoming_message ts parse cfg now room cid h m st q = (go, st', q')"
  shows "(\<not> go \<longrightarrow> m = Close \<or> (\<exists>answer. fst (ts (chans q (tx h)) answer) \<noteq> Sent)) \<and>
    (\<forall>t peer x. m = Text t \<and> parse t = Ok (SignalPeer peer x) \<and>
       (\<exists>r. fst (forward_signal cfg now room cid peer x st) = Ok r) \<longrightarrow>
       go \<and> (\<exists>target. fst (forward_signal cfg now room cid peer x st) = Ok (target, Signal cid x) \<and>
               q' = enqueue_remote_message ts target (Signal cid x) q))"
proof -
  have own: "fst (enqueue_local_message ts h a q) \<or> (\<exists>answer. fst (ts (chans q (tx h)) answer) \<noteq> Sent)" for a
    by (cases "fst (ts (chans q (tx h)) a)")
       (auto simp: enqueue_local_message_def Let_def split: prod.splits intro!: exI [of _ a])
  have go: "go" if "m \<noteq> Close" and "\<not> (\<exists>answer. fst (ts (chans q (tx h)) answer) \<noteq> Sent)"
  proof -
    have "fst (enqueue_local_message ts h a q)" for a using own that(2) by blast
    with assms that(1) show ?thesis
      by (cases m) (auto simp: handle_client_message_def Let_def case_prod_unfold
          split: sum.splits client_message.splits)
  qed
  have route: "fst r = Ok (target, mm) \<Longrightarrow> r = forward_signal cfg now room cid peer x st \<Longrightarrow> mm = Signal cid x"
    for r target mm peer x
    by (auto simp: forward_signal_def Let_def route_signal_def split: option.splits prod.splits if_splits)
  have sig: "go \<and> (\<exists>target. fst (forward_signal cfg now room cid peer x st) = Ok (target, Signal cid x) \<and>
               q' = enqueue_remote_message ts target (Signal cid x) q)"
    if "m = Text t" "parse t = Ok (SignalPeer peer x)" "fst (forward_signal cfg now room cid peer x st) = Ok r"
    for t peer x r
  proof -
    obtain target mm where r: "r = (target, mm)" by (cases r)
    with route [OF that(3) [unfolded r] refl] that assms show ?thesis
      by (auto simp: handle_client_message_def Let_def split: prod.splits)
  qed
  show ?thesis using go sig by blast
qed

section \<open>The step relation\<close>

record 'c system =
  sys_now :: instant
  sys_state :: state_inner
  sys_queues :: "'c queues"
  sys_conns :: "nat \<Rightarrow> conn option"
  sys_leaving :: "nat \<Rightarrow> conn option"

text \<open>The operations that the handshakes of other sockets run on the shared state.\<close>

fun handshake_op :: "'v server_op \<Rightarrow> bool" where
  "handshake_op (OpLogin h) = True"
| "handshake_op (OpStore h f) = True"
| "handshake_op OpCapacity = True"
| "handshake_op (OpAuth ip) = True"
| "handshake_op _ = False"

inductive sys_step ::
  "('c, 'v) try_send \<Rightarrow> (string \<Rightarrow> string + 'v client_message) \<Rightarrow> security_config \<Rightarrow> 'c system \<Rightarrow> 'c system \<Rightarrow> bool"
  for ts parse cfg where
  sys_connect: "sys_now s \<le> now \<Longrightarrow> sys_conns s k = None \<Longrightarrow> sys_leaving s k = None \<Longrightarrow>
    connect ts cfg now room role alias h (sys_state s) (sys_queues s) = Some (Some c, st, q) \<Longrightarrow>
    sys_step ts parse cfg s
      (s\<lparr>sys_now := now, sys_state := st, sys_queues := q, sys_conns := (sys_conns s)(k \<mapsto> c)\<rparr>)"
| sys_refused: "sys_now s \<le> now \<Longrightarrow>
    connect ts cfg now room role alias h (sys_state s) (sys_queues s) = Some (None, st, q) \<Longrightarrow>
    sys_step ts parse cfg s (s\<lparr>sys_now := now, sys_state := st, sys_queues := q\<rparr>)"
| sys_turn: "sys_now s \<le> now \<Longrightarrow> sys_conns s k = Some c \<Longrightarrow>
    conn_step ts parse cfg now w c (sys_state s) (sys_queues s) = (True, c', st, q) \<Longrightarrow>
    sys_step ts parse cfg s
      (s\<lparr>sys_now := now, sys_state := st, sys_queues := q, sys_conns := (sys_conns s)(k \<mapsto> c')\<rparr>)"
| sys_stop: "sys_now s \<le> now \<Longrightarrow> sys_conns s k = Some c \<Longrightarrow>
    conn_step ts parse cfg now w c (sys_state s) (sys_queues s) = (False, c', st, q) \<Longrightarrow>
    sys_step ts parse cfg s
      (s\<lparr>sys_now := now, sys_state := st, sys_queues := q, sys_conns := (sys_conns s)(k := None),
         sys_leaving := (sys_leaving s)(k \<mapsto> c')\<rparr>)"
| sys_leave: "sys_now s \<le> now \<Longrightarrow> sys_leaving s k = Some c \<Longrightarrow>
    disconnect ts cfg now c (sys_state s) (sys_queues s) = (st, q) \<Longrightarrow>
    sys_step ts parse cfg s
      (s\<lparr>sys_now := now, sys_state := st, sys_queues := q, sys_leaving := (sys_leaving s)(k := None)\<rparr>)"
| sys_handshake: "sys_now s \<le> now \<Longrightarrow> handshake_op (op :: 'v server_op) \<Longrightarrow>
    exec cfg now op (sys_state s) = Some (ok, st) \<Longrightarrow>
    sys_step ts parse cfg s (s\<lparr>sys_now := now, sys_state := st\<rparr>)"

inductive sys_reachable ::
  "('c, 'v) try_send \<Rightarrow> (string \<Rightarrow> string + 'v client_message) \<Rightarrow> security_config \<Rightarrow> 'c queues \<Rightarrow> 'c system \<Rightarrow> bool"
  for ts parse cfg q0 where
  sys_init: "sys_reachable ts parse cfg q0
    \<lparr>sys_now = 0, sys_state = state_inner_default, sys_queues = q0, sys_conns = Map.empty, sys_leaving = Map.empty\<rparr>"
| sys_next: "sys_reachable ts parse cfg q0 s \<Longrightarrow> sys_step ts parse cfg s s' \<Longrightarrow> sys_reachable ts parse cfg q0 s'"

text \<open>The clients registered in some room.\<close>

definition members :: "state_inner \<Rightarrow> (string \<times> client_role \<times> string) set" where
  "members st = {(h, role, c). \<exists>room. hm_get (rooms st) h = Some room \<and> c \<in> set (hm_keys (role_clients role room))}"

lemma members_prune [simp]:
  assumes "distinct (hm_keys (rooms st))"
  shows "members (prune_expired_rooms cfg now st) = members st"
proof -
  have "(h, role, c) \<in> members (prune_expired_rooms cfg now st) \<longleftrightarrow> (h, role, c) \<in> members st" for h role c
    using room_live_client [of c role _ cfg now]
    by (auto simp: members_def rooms_prune [OF assms] split: option.splits if_splits)
  then show ?thesis by auto
qed

lemma members_update:
  assumes "hm_get (rooms st) h = Some room"
    and "\<And>role. set (hm_keys (role_clients role room')) = set (hm_keys (role_clients role room))"
  shows "members (st\<lparr>rooms := hm_insert h room' (rooms st)\<rparr>) = members st"
  using assms by (auto simp: members_def hm_get_insert split: if_splits)

lemma members_frame [simp]:
  "members (st\<lparr>auth_events_by_ip := x\<rparr>) = members st"
  "members (st\<lparr>next_client_id := n\<rparr>) = members st"
  by (simp_all add: members_def)

lemma role_clients_cases: "role_clients r room = (if r = Agent then agents room else zookeepers room)"
  by (cases r) simp_all

lemma members_handshake:
  fixes op :: "'v server_op"
  assumes d: "distinct (hm_keys (rooms st))" and op: "handshake_op op" and e: "exec cfg now op st = Some (ok, st')"
  shows "members st' = members st"
proof (cases op)
  case (OpStore h f)
  let ?p = "prune_expired_rooms cfg now st"
  have "members (?p\<lparr>rooms := hm_insert h (new_room f now) (rooms ?p)\<rparr>) = members ?p" if "\<not> hm_contains (rooms ?p) h"
    using that by (auto simp: members_def hm_get_insert new_room_def hm_contains_def role_clients_cases)
  with d e OpStore show ?thesis by (auto simp: store_room_def Let_def apfst_eq_Pair)
qed (use assms in \<open>auto simp: apfst_eq_Pair ensure_room_capacity_def check_auth_rate_limit_def Let_def
      split: prod.splits if_splits\<close>)

lemma members_forward:
  assumes d: "distinct (hm_keys (rooms st))"
  shows "members (snd (forward_signal cfg now h s p x st)) = members st"
proof -
  let ?p = "prune_expired_rooms cfg now st"
  have "members (?p\<lparr>rooms := hm_insert h (room\<lparr>signal_events := ev, last_active_at := t\<rparr>) (rooms ?p)\<rparr>) = members ?p"
    "members (?p\<lparr>rooms := hm_insert h (room\<lparr>signal_events := ev\<rparr>) (rooms ?p)\<rparr>) = members ?p"
    if "hm_get (rooms ?p) h = Some room" for room ev t
    by (rule members_update [OF that]; simp add: role_clients_cases)+
  with d show ?thesis
    by (auto simp: forward_signal_cases [OF d] Let_def split: option.splits)
qed

lemma members_register:
  assumes d: "distinct (hm_keys (rooms st))"
    and r: "register cfg now h role pr cl st = Some (res, st')"
  shows "case res of
      Inl e \<Rightarrow> members st' = members st
    | Inr out \<Rightarrow> members st' = insert (h, role, ro_client_id out) (members st) \<and>
        (\<forall>role'. (h, role', ro_client_id out) \<notin> members st)"
proof -
  let ?p = "prune_expired_rooms cfg now st"
  show ?thesis
  proof (cases "hm_get (rooms ?p) h")
    case None
    with d r show ?thesis by (auto simp: register_def Let_def)
  next
    case (Some room)
    with r obtain c n where c: "choose_client_id role pr (occupied_ids room) (next_client_id st) = Some (c, n)"
      by (auto simp: register_def Let_def split: option.splits)
    let ?room = "insert_client role c cl (room\<lparr>last_active_at := now\<rparr>)"
    have "set (hm_keys (role_clients r ?room)) =
        (if r = role then insert c else id) (set (hm_keys (role_clients r room)))" for r
      by (cases r; cases role) (simp_all add: hm_keys_insert)
    then have "members (?p\<lparr>rooms := hm_insert h ?room (rooms ?p)\<rparr>) = insert (h, role, c) (members ?p)"
      using Some by (auto simp: members_def hm_get_insert hm_keys_insert split: if_splits)
    moreover have "(h, role', c) \<notin> members ?p" for role'
      using choose_client_id_fresh [OF c] Some by (cases role') (auto simp: members_def occupied_ids_def)
    moreover have "members (?p\<lparr>next_client_id := n, rooms := hm_insert h ?room (rooms ?p)\<rparr>) =
        members (?p\<lparr>rooms := hm_insert h ?room (rooms ?p)\<rparr>)"
      by (simp add: members_def)
    ultimately show ?thesis
      using d r Some c by (auto simp: register_def Let_def)
  qed
qed

lemma members_unregister:
  assumes d: "distinct (hm_keys (rooms st))"
  shows "members (snd (unregister cfg now h role c st)) = members st - {(h, role, c)}"
proof -
  let ?p = "prune_expired_rooms cfg now st"
  have D: "distinct (hm_keys (rooms ?p))" using d by (rule rooms_keys_prune)
  have mp: "members ?p = members st" using d by simp
  show ?thesis
  proof (cases "hm_get (rooms ?p) h")
    case None
    then have "(h, role, c) \<notin> members ?p" by (simp add: members_def)
    with None D mp show ?thesis by (simp add: unregister_def Let_def)
  next
    case (Some room)
    let ?room = "(remove_client role c room)\<lparr>last_active_at := now\<rparr>"
    let ?st = "?p\<lparr>rooms := hm_insert h ?room (rooms ?p)\<rparr>"
    have "set (hm_keys (role_clients r ?room)) = set (hm_keys (role_clients r room)) - (if r = role then {c} else {})" for r
      by (cases r; cases role) (auto simp: hm_keys_remove)
    then have "members ?st = members ?p - {(h, role, c)}"
      using Some by (auto simp: members_def hm_get_insert hm_keys_remove split: if_splits)
    moreover have "distinct (hm_keys (rooms ?st))" using D by (simp add: hm_distinct_insert)
    moreover have "(h, role, c) \<notin> members ?p" if "\<not> hm_contains (role_clients role room) c"
      using that Some by (simp add: members_def hm_contains_keys)
    ultimately show ?thesis
      using Some D mp by (auto simp: unregister_def Let_def)
  qed
qed

section \<open>Registered clients are connections\<close>

definition conn_key :: "conn \<Rightarrow> string \<times> client_role \<times> string" where
  "conn_key c = (c_room c, c_role c, c_id c)"

text \<open>The connection of a socket, whether its loop runs or is about to unregister.\<close>

definition sock :: "'c system \<Rightarrow> nat \<Rightarrow> conn option" where
  "sock s k = (case sys_conns s k of Some c \<Rightarrow> Some c | None \<Rightarrow> sys_leaving s k)"

definition sys_ok :: "security_config \<Rightarrow> 'c system \<Rightarrow> bool" where
  "sys_ok cfg s \<longleftrightarrow>
     state_ok cfg (sys_now s) (sys_state s) \<and>
     (\<forall>k. sys_conns s k = None \<or> sys_leaving s k = None) \<and>
     members (sys_state s) = conn_key ` {c. \<exists>k. sock s k = Some c} \<and>
     (\<forall>k k' c c'. sock s k = Some c \<and> sock s k' = Some c' \<and> conn_key c = conn_key c' \<longrightarrow> k = k')"

lemma handle_incoming_members:
  fixes parse :: "string \<Rightarrow> string + 'v client_message"
  assumes d: "distinct (hm_keys (rooms st))" and ok: "state_ok cfg now st"
    and "handle_incoming_message ts parse cfg now room cid h m st q = (go, st', q')"
  shows "members st' = members st \<and> state_ok cfg now st'"
proof -
  have "st' = st \<or> (\<exists>peer (x :: 'v). st' = snd (forward_signal cfg now room cid peer x st))"
    using assms(3)
    by (cases m) (fastforce simp: handle_client_message_def Let_def case_prod_unfold
        split: sum.splits client_message.splits)+
  then show ?thesis using ok by (auto simp: members_forward [OF d] intro: forward_signal_ok [OF ok])
qed

lemma conn_step_members:
  assumes "state_ok cfg now st" and "conn_step ts parse cfg now w c st q = (go, c', st', q')"
  shows "members st' = members st \<and> conn_key c' = conn_key c \<and> state_ok cfg now st'"
proof -
  have d: "distinct (hm_keys (rooms st))" using assms(1) by (simp add: state_ok_def rooms_ok_def)
  show ?thesis
    using assms(2,1)
    by (cases "(ts, parse, cfg, now, w, c, st, q)" rule: conn_step.cases)
       (auto simp: conn_key_def Let_def split: prod.splits if_splits
         dest: handle_incoming_members [OF d assms(1)])
qed

lemma sock_simps:
  "sys_conns s k = Some c \<Longrightarrow> sock s k = Some c"
  "sys_conns s k = None \<Longrightarrow> sock s k = sys_leaving s k"
  by (simp_all add: sock_def)

lemma sys_ok_rekey:
  assumes "sys_ok cfg s" and "sock s k = Some c" and "conn_key c' = conn_key c"
    and "state_ok cfg (sys_now s') (sys_state s')" and "members (sys_state s') = members (sys_state s)"
    and "\<And>k'. sock s' k' = ((sock s)(k \<mapsto> c')) k'"
    and "\<And>k'. sys_conns s' k' = None \<or> sys_leaving s' k' = None"
  shows "sys_ok cfg s'"
proof -
  have key: "map_option conn_key (sock s' k') = map_option conn_key (sock s k')" for k'
    using assms(2,3,6) by simp
  have sub: "conn_key ` {c. \<exists>k. f k = Some c} \<subseteq> conn_key ` {c. \<exists>k. g k = Some c}"
    if "\<And>k. map_option conn_key (f k) = map_option conn_key (g k)" for f g
  proof (intro subsetI, elim imageE CollectE exE)
    fix x c k assume "x = conn_key c" "f k = Some c"
    then have "map_option conn_key (g k) = Some x" using that [of k] by simp
    then obtain c' where "g k = Some c'" "x = conn_key c'" by auto
    then show "x \<in> conn_key ` {c. \<exists>k. g k = Some c}" by blast
  qed
  have "conn_key ` {c. \<exists>k. sock s' k = Some c} = conn_key ` {c. \<exists>k. sock s k = Some c}"
    by (intro equalityI sub) (simp_all only: key)
  then have "members (sys_state s') = conn_key ` {c. \<exists>k. sock s' k = Some c}"
    using assms(1,5) by (simp add: sys_ok_def)
  moreover have "k1 = k2" if t: "sock s' k1 = Some c1" "sock s' k2 = Some c2" "conn_key c1 = conn_key c2" for k1 k2 c1 c2
  proof -
    obtain d1 d2 where "sock s k1 = Some d1" "sock s k2 = Some d2" "conn_key d1 = conn_key c1" "conn_key d2 = conn_key c2"
      using key [of k1] key [of k2] t(1,2) by (auto dest!: sym [of "Some _"])
    with t(3) assms(1) show ?thesis unfolding sys_ok_def by metis
  qed
  ultimately show ?thesis using assms(4,7) unfolding sys_ok_def by blast
qed

lemma sys_ok_distinct: "sys_ok cfg s \<Longrightarrow> distinct (hm_keys (rooms (sys_state s)))"
  by (simp add: sys_ok_def state_ok_def rooms_ok_def)

lemma sys_ok_same_conns:
  assumes "sys_ok cfg s" and "sys_conns s' = sys_conns s" and "sys_leaving s' = sys_leaving s"
    and "state_ok cfg (sys_now s') (sys_state s')" and "members (sys_state s') = members (sys_state s)"
  shows "sys_ok cfg s'"
proof -
  have "sock s' = sock s" using assms(2,3) by (auto simp: sock_def fun_eq_iff split: option.splits)
  with assms show ?thesis by (simp add: sys_ok_def)
qed

lemma connect_cases:
  fixes ts :: "('c, 'v) try_send"
  assumes "connect ts cfg now room role alias h st q = Some (co, st', q')"
  obtains e where "(register cfg now room role alias h st :: ((string + 'v register_outcome) \<times> state_inner) option)
      = Some (Err e, st')" "co = None"
  | out c where "(register cfg now room role alias h st :: ((string + 'v register_outcome) \<times> state_inner) option)
      = Some (Ok out, st')" "co = Some c" "conn_key c = (room, role, ro_client_id out)"
  using assms
  by (auto simp: connect_def Let_def conn_key_def split: option.splits prod.splits sum.splits)

lemma sys_step_ok:
  fixes ts :: "('c, 'v) try_send"
  assumes "sys_step ts parse cfg s s'" and ok: "sys_ok cfg s"
  shows "sys_ok cfg s'"
  using assms(1)
proof cases
  case (sys_connect now k room role al h c st q)
  from sys_connect(5) obtain out where r: "register cfg now room role al h (sys_state s) =
      Some (Ok (out :: 'v register_outcome), st)" and key: "conn_key c = (room, role, ro_client_id out)"
    by (cases rule: connect_cases) auto
  have st: "state_ok cfg now (sys_state s)" using ok sys_connect(2) by (auto simp: sys_ok_def intro: state_ok_mono)
  have m: "members st = insert (conn_key c) (members (sys_state s))" "conn_key c \<notin> members (sys_state s)"
    using members_register [OF sys_ok_distinct [OF ok] r] key by auto
  have sk: "sock s' = (sock s)(k \<mapsto> c)" using sys_connect(1) by (auto simp: sock_def fun_eq_iff split: option.splits)
  have free: "sock s k = None" using sys_connect(3,4) by (simp add: sock_def)
  have "members (sys_state s') = conn_key ` {c. \<exists>k. sock s' k = Some c}"
  proof -
    have "{d. \<exists>k'. sock s' k' = Some d} = insert c {d. \<exists>k'. sock s k' = Some d}"
      unfolding sk using free by (auto split: if_splits) (metis option.distinct(1))
    then show ?thesis using m(1) ok sys_connect(1) by (simp add: sys_ok_def)
  qed
  moreover have new: "conn_key d \<noteq> conn_key c" if "sock s k' = Some d" for k' d
  proof -
    have "conn_key d \<in> members (sys_state s)" using ok that by (auto simp: sys_ok_def)
    with m(2) show ?thesis by metis
  qed
  have "k1 = k2" if t: "sock s' k1 = Some c1" "sock s' k2 = Some c2" "conn_key c1 = conn_key c2" for k1 k2 c1 c2
  proof (cases "k1 = k \<or> k2 = k")
    case True
    with t new [of k1 c1] new [of k2 c2] show ?thesis by (auto simp: sk split: if_splits)
  next
    case False
    with t have "sock s k1 = Some c1" "sock s k2 = Some c2" by (auto simp: sk)
    with t(3) ok show ?thesis unfolding sys_ok_def by blast
  qed
  moreover have "\<forall>k. sys_conns s' k = None \<or> sys_leaving s' k = None"
    using ok sys_connect(1,4) by (simp add: sys_ok_def)
  moreover have "state_ok cfg (sys_now s') (sys_state s')" using register_ok [OF st r] sys_connect(1) by simp
  ultimately show ?thesis unfolding sys_ok_def by blast
next
  case (sys_refused now room role al h st q)
  from sys_refused(3) obtain e where r: "(register cfg now room role al h (sys_state s) ::
      ((string + 'v register_outcome) \<times> state_inner) option) = Some (Err e, st)"
    by (cases rule: connect_cases) auto
  have "state_ok cfg now (sys_state s)" using ok sys_refused(2) by (auto simp: sys_ok_def intro: state_ok_mono)
  then show ?thesis
    using register_ok [OF _ r] members_register [OF sys_ok_distinct [OF ok] r] sys_refused(1)
    by (intro sys_ok_same_conns [OF ok]) simp_all
next
  case (sys_turn now k c w c' st q)
  have st: "state_ok cfg now (sys_state s)" using ok sys_turn(2) by (auto simp: sys_ok_def intro: state_ok_mono)
  note cs = conn_step_members [OF st sys_turn(4)]
  have disj: "\<And>k. sys_conns s k = None \<or> sys_leaving s k = None" using ok by (simp add: sys_ok_def)
  have "sock s' k' = ((sock s)(k \<mapsto> c')) k'" for k'
    using sys_turn(1,3) disj [of k] by (auto simp: sock_def split: option.splits)
  moreover have "sys_conns s' k' = None \<or> sys_leaving s' k' = None" for k'
    using sys_turn(1,3) disj [of k] disj [of k'] by auto
  ultimately show ?thesis
    using cs sys_turn(1) by (intro sys_ok_rekey [OF ok sock_simps(1) [OF sys_turn(3)], of c']) auto
next
  case (sys_stop now k c w c' st q)
  have st: "state_ok cfg now (sys_state s)" using ok sys_stop(2) by (auto simp: sys_ok_def intro: state_ok_mono)
  note cs = conn_step_members [OF st sys_stop(4)]
  have disj: "\<And>k. sys_conns s k = None \<or> sys_leaving s k = None" using ok by (simp add: sys_ok_def)
  have "sock s' k' = ((sock s)(k \<mapsto> c')) k'" for k'
    using sys_stop(1,3) disj [of k] by (auto simp: sock_def split: option.splits)
  moreover have "sys_conns s' k' = None \<or> sys_leaving s' k' = None" for k'
    using sys_stop(1,3) disj [of k] disj [of k'] by auto
  ultimately show ?thesis
    using cs sys_stop(1) by (intro sys_ok_rekey [OF ok sock_simps(1) [OF sys_stop(3)], of c']) auto
next
  case (sys_leave now k c st q)
  have st: "state_ok cfg now (sys_state s)" using ok sys_leave(2) by (auto simp: sys_ok_def intro: state_ok_mono)
  have st': "st = snd (unregister cfg now (c_room c) (c_role c) (c_id c) (sys_state s) ::
      (client_handle \<times> 'v server_message) list \<times> state_inner)"
    using sys_leave(4) by (auto simp: disconnect_def Let_def split: prod.splits)
  have ok': "state_ok cfg now st" unfolding st' using st by (rule unregister_ok)
  have m: "members st = members (sys_state s) - {conn_key c}"
    unfolding st' conn_key_def by (rule members_unregister [OF sys_ok_distinct [OF ok]])
  have noc: "sys_conns s k = None" using ok sys_leave(3) unfolding sys_ok_def by force
  then have k: "sock s k = Some c" using sys_leave(3) by (simp add: sock_def)
  have sk: "sock s' = (sock s)(k := None)" using sys_leave(1) noc by (auto simp: sock_def fun_eq_iff split: option.splits)
  have uniq: "k' = k" if "sock s k' = Some d" "conn_key d = conn_key c" for k' d
    using ok k that unfolding sys_ok_def by blast
  have "conn_key ` {d. \<exists>k'. sock s' k' = Some d} = conn_key ` {d. \<exists>k'. sock s k' = Some d} - {conn_key c}"
  proof -
    have "{d. \<exists>k'. sock s' k' = Some d} = {d. \<exists>k'. sock s k' = Some d \<and> conn_key d \<noteq> conn_key c}"
    proof -
      have "(\<exists>k'. sock s' k' = Some d) \<longleftrightarrow> (\<exists>k'. k' \<noteq> k \<and> sock s k' = Some d)" for d by (auto simp: sk)
      moreover have "k' \<noteq> k \<longleftrightarrow> conn_key d \<noteq> conn_key c" if "sock s k' = Some d" for k' d
        using uniq [OF that] k that by auto
      ultimately show ?thesis by blast
    qed
    then show ?thesis by auto
  qed
  then have "members (sys_state s') = conn_key ` {d. \<exists>k'. sock s' k' = Some d}"
    using ok m sys_leave(1) by (simp add: sys_ok_def)
  moreover have "k1 = k2" if t: "sock s' k1 = Some c1" "sock s' k2 = Some c2" "conn_key c1 = conn_key c2" for k1 k2 c1 c2
  proof -
    from t have "sock s k1 = Some c1" "sock s k2 = Some c2" by (auto simp: sk split: if_splits)
    with t(3) ok show ?thesis unfolding sys_ok_def by blast
  qed
  moreover have "\<forall>k. sys_conns s' k = None \<or> sys_leaving s' k = None"
    using ok sys_leave(1) by (simp add: sys_ok_def)
  moreover have "state_ok cfg (sys_now s') (sys_state s')" using ok' sys_leave(1) by simp
  ultimately show ?thesis unfolding sys_ok_def by blast
next
  case (sys_handshake now op ok' st)
  have st: "state_ok cfg now (sys_state s)" using ok sys_handshake(2) by (auto simp: sys_ok_def intro: state_ok_mono)
  show ?thesis
    using exec_ok [OF st sys_handshake(4)]
      members_handshake [OF sys_ok_distinct [OF ok] sys_handshake(3,4)] sys_handshake(1)
    by (intro sys_ok_same_conns [OF ok]) simp_all
qed

lemma sys_reachable_ok: "sys_reachable ts parse cfg q0 s \<Longrightarrow> sys_ok cfg s"
proof (induction rule: sys_reachable.induct)
  case sys_init
  have "members state_inner_default = {}" by (simp add: members_def state_inner_default_def)
  then show ?case by (simp add: sys_ok_def state_ok_default sock_def)
next
  case (sys_next s s')
  then show ?case using sys_step_ok by blast
qed

text \<open>C20. There are no ghost clients: in every reachable state of the whole server, with any number of
  connections and handshakes interleaved in any way, the clients registered in the rooms are
  exactly the connections whose task has registered and not yet unregistered, and no two sockets
  share a registration.\<close>

theorem no_ghost_clients:
  assumes "sys_reachable ts parse cfg q0 s"
  shows "members (sys_state s) = conn_key ` {c. \<exists>k. sock s k = Some c} \<and>
    (\<forall>k k'. \<forall>c c'. sock s k = Some c \<and> sock s k' = Some c' \<and> conn_key c = conn_key c' \<longrightarrow> k = k') \<and>
    state_ok cfg (sys_now s) (sys_state s)"
  using sys_reachable_ok [OF assms] unfolding sys_ok_def by blast

definition open_channel :: "(unit, unit) try_send" where
  "open_channel c m = (Sent, c)"

definition demo_queues :: "unit queues" where
  "demo_queues = \<lparr>chans = \<lambda>_. (), flags = \<lambda>_. False\<rparr>"

theorem no_ghost_clients_witness:
  "\<exists>s. sys_reachable open_channel demo_parse small_config demo_queues s \<and> sys_conns s 3 \<noteq> None \<and>
     members (sys_state s) = conn_key ` {c. \<exists>k. sock s k = Some c}"
proof -
  let ?s0 = "\<lparr>sys_now = 0, sys_state = state_inner_default, sys_queues = demo_queues,
      sys_conns = Map.empty, sys_leaving = Map.empty\<rparr> :: unit system"
  let ?st1 = "snd (store_room small_config 1 ''r'' [1] state_inner_default)"
  let ?s1 = "?s0\<lparr>sys_now := 1, sys_state := ?st1\<rparr>"
  have r0: "sys_reachable open_channel demo_parse small_config demo_queues ?s0" by (rule sys_reachable.sys_init)
  have "sys_step open_channel demo_parse small_config ?s0 ?s1"
    by (rule sys_step.sys_handshake [where op = "OpStore ''r'' [1]" and
            ok = "is_ok (fst (store_room small_config 1 ''r'' [1] state_inner_default))"])
       (simp_all add: apfst_def map_prod_def case_prod_unfold)
  then have r1: "sys_reachable open_channel demo_parse small_config demo_queues ?s1"
    using r0 by (rule sys_reachable.sys_next [rotated])
  have "case connect open_channel small_config 2 ''r'' Agent (Some ''a'') (demo_client 1) ?st1 demo_queues of
      Some (Some c, _, _) \<Rightarrow> True | _ \<Rightarrow> False"
    by (simp add: connect_def register_def store_room_def prune_expired_rooms_def state_inner_default_def
        small_config_def hm_contains_def new_room_def room_live_def occupied_ids_def choose_client_id_def Let_def)
  then obtain c st q where "connect open_channel small_config 2 ''r'' Agent (Some ''a'') (demo_client 1) ?st1 demo_queues
      = Some (Some c, st, q)"
    by (auto split: option.splits prod.splits)
  then have "sys_step open_channel demo_parse small_config ?s1
      (?s1\<lparr>sys_now := 2, sys_state := st, sys_queues := q, sys_conns := (sys_conns ?s1)(3 \<mapsto> c)\<rparr>)"
    by (intro sys_step.sys_connect) simp_all
  note r2 = sys_reachable.sys_next [OF r1 this]
  show ?thesis
    by (rule exI, intro conjI, rule r2, simp, rule no_ghost_clients [OF r2, THEN conjunct1])
qed

theorem incoming_disconnects_witness:
  "handle_incoming_message open_channel demo_parse small_config 6 ''r'' ''a'' (demo_client 1) Close demo_pair_state demo_queues
     = (False, demo_pair_state, demo_queues) \<and>
   (Close = Close \<or> (\<exists>answer. fst (open_channel (chans demo_queues 1) answer) \<noteq> Sent))"
  using incoming_disconnects [of open_channel demo_parse small_config 6 "''r''" "''a''" "demo_client 1" Close demo_pair_state demo_queues]
  by simp

end
