(* ===== verification/Server_Main.thy ===== *)
theory Server_Main
  imports Server_State
begin

text \<open>
  Starting the server, \<^verbatim>\<open>mitb-server/src/main.rs\<close>: the address it listens on, the number of worker threads, and the
  order in which runtime, state, listener and server are made. The URL parser and the calls of the platform are
  parameters; what was asked of the platform is kept in a list.
\<close>

section \<open>Numbers, with the reason they are refused\<close>

datatype int_error_kind = EmptyNumber | InvalidDigit | PosOverflow

fun int_error_text :: "int_error_kind \<Rightarrow> string" where
  "int_error_text EmptyNumber = ''cannot parse integer from empty string''"
| "int_error_text InvalidDigit = ''invalid digit found in string''"
| "int_error_text PosOverflow = ''number too large to fit in target type''"

text \<open>\<^verbatim>\<open>str::parse::<usize>\<close>, digit by digit from the left: the first bad digit or overflow decides.\<close>

fun scan_digits :: "nat \<Rightarrow> string \<Rightarrow> int_error_kind + nat" where
  "scan_digits acc [] = Inr acc"
| "scan_digits acc (c # cs) =
     (if \<not> is_ascii_digit c then Inl InvalidDigit
      else if 2 ^ 64 \<le> acc * 10 + digit_val c then Inl PosOverflow
      else scan_digits (acc * 10 + digit_val c) cs)"

definition parse_usize :: "string \<Rightarrow> int_error_kind + nat" where
  "parse_usize s =
     (case s of
        [] \<Rightarrow> Inl EmptyNumber
      | c # cs \<Rightarrow> if c \<in> {CHR ''+'', CHR ''-''} \<and> cs = [] then Inl InvalidDigit
                  else scan_digits 0 (if c = CHR ''+'' then cs else s))"

section \<open>Settings\<close>

text \<open>The argument \<^verbatim>\<open>--addr\<close>, else its variable, else the default.\<close>

definition cli_addr :: "string option \<Rightarrow> (string \<Rightarrow> string option) \<Rightarrow> string" where
  "cli_addr arg env =
     (case arg of
        Some a \<Rightarrow> a
      | None \<Rightarrow> (case env ''MITB_SERVER_BIND_ADDR'' of Some a \<Rightarrow> a | None \<Rightarrow> ''0.0.0.0:3000''))"

text \<open>\<open>parallelism\<close> is what \<^verbatim>\<open>available_parallelism\<close> answers, if it does not fail.\<close>

definition worker_threads_from_env :: "nat option \<Rightarrow> (string \<Rightarrow> string option) \<Rightarrow> string + nat" where
  "worker_threads_from_env parallelism env =
     (let default_threads = (case parallelism of Some n \<Rightarrow> n | None \<Rightarrow> 1) in
      case env ''MITB_SERVER_THREADS'' of
        None \<Rightarrow> Inr default_threads
      | Some value \<Rightarrow>
          (case parse_usize (trim value) of
             Inl k \<Rightarrow> Inl (''invalid MITB_SERVER_THREADS: '' @ int_error_text k)
           | Inr n \<Rightarrow> if n = 0 then Inl ''MITB_SERVER_THREADS must be >= 1'' else Inr n))"

text \<open>The URL parser, with the parts of a URL the code asks for.\<close>

record 'u url_parser =
  up_parse :: "string \<Rightarrow> string + 'u"
  up_host_str :: "'u \<Rightarrow> string option"
  up_port_or_known_default :: "'u \<Rightarrow> nat option"

definition normalize_bind_addr :: "'u url_parser \<Rightarrow> string \<Rightarrow> string + string" where
  "normalize_bind_addr U raw =
     (let trimmed = trim raw in
      if trimmed = [] then Inl ''bind address must not be empty''
      else if \<not> str_contains ''://'' trimmed then Inr trimmed
      else case up_parse U trimmed of
             Inl e \<Rightarrow> Inl (''invalid bind URL: '' @ e)
           | Inr url \<Rightarrow>
               (case up_host_str U url of
                  None \<Rightarrow> Inl ''bind URL is missing host''
                | Some host \<Rightarrow>
                    (case up_port_or_known_default U url of
                       None \<Rightarrow> Inl ''bind URL is missing port''
                     | Some port \<Rightarrow> Inr (host @ '':'' @ dec_of_nat port))))"

section \<open>The application\<close>

text \<open>\<^verbatim>\<open>RoomState::default\<close>, and the state of a new server; its keys are made by \<open>Pake\<close>.\<close>

definition room_state_default :: "instant \<Rightarrow> room_state" where
  "room_state_default now = \<lparr>password_file = [], agents = [], zookeepers = [], last_active_at = now, signal_events = []\<rparr>"

record 'k app_state =
  st_inner :: state_inner
  st_pake :: 'k
  st_config :: security_config

definition app_state_new :: "'k \<Rightarrow> (string \<Rightarrow> string option) \<Rightarrow> 'k app_state" where
  "app_state_new pake env = \<lparr>st_inner = state_inner_default, st_pake = pake, st_config = security_config_from_env env\<rparr>"

text \<open>The routes, all for the method GET.\<close>

datatype route_handler = Healthz | WsHandler | PakeWasm | Index

definition router :: "string \<Rightarrow> route_handler option" where
  "router =
     [''/healthz'' \<mapsto> Healthz, ''/ws'' \<mapsto> WsHandler, ''/assets/mitb-pake.wasm'' \<mapsto> PakeWasm, ''/'' \<mapsto> Index]"

record response =
  rs_status :: nat
  rs_content_type :: "string option"
  rs_body :: "byte list"

definition healthz :: response where
  "healthz = \<lparr>rs_status = 200, rs_content_type = Some ''text/plain; charset=utf-8'', rs_body = as_bytes ''ok''\<rparr>"

text \<open>\<open>html\<close> and \<open>wasm\<close> are the files the server was built with; \<open>built\<close> says whether the builder of responses succeeds.\<close>

definition index :: "byte list \<Rightarrow> response" where
  "index html = \<lparr>rs_status = 200, rs_content_type = Some ''text/html; charset=utf-8'', rs_body = html\<rparr>"

definition pake_wasm :: "byte list \<Rightarrow> bool \<Rightarrow> response" where
  "pake_wasm wasm built =
     (if built then \<lparr>rs_status = 200, rs_content_type = Some ''application/wasm'', rs_body = wasm\<rparr>
      else \<lparr>rs_status = 500, rs_content_type = None, rs_body = []\<rparr>)"

text \<open>The limits of a socket, in bytes, that \<^verbatim>\<open>ws_handler\<close> sets.\<close>

record ws_limits =
  wl_read_buffer_size :: nat
  wl_write_buffer_size :: nat
  wl_max_write_buffer_size :: nat
  wl_max_message_size :: nat
  wl_max_frame_size :: nat

definition ws_handler_limits :: ws_limits where
  "ws_handler_limits =
     \<lparr>wl_read_buffer_size = 32 * 1024, wl_write_buffer_size = 32 * 1024, wl_max_write_buffer_size = 256 * 1024,
      wl_max_message_size = 16 * 1024, wl_max_frame_size = 16 * 1024\<rparr>"

lemma ws_limits_fit:
  "wl_max_message_size ws_handler_limits \<le> wl_read_buffer_size ws_handler_limits"
  "wl_write_buffer_size ws_handler_limits < wl_max_write_buffer_size ws_handler_limits"
  by (simp_all add: ws_handler_limits_def)

section \<open>Starting\<close>

text \<open>What is asked of the platform: a runtime of some number of threads, a listener, and serving on it.\<close>

datatype runtime_kind = CurrentThread | MultiThread nat

datatype start_effect = BuildRuntime runtime_kind | BindListener string | Serve string

record platform =
  pf_build :: "runtime_kind \<Rightarrow> string option"
  pf_bind :: "string \<Rightarrow> string option"
  pf_serve :: "string \<Rightarrow> string option"

definition runtime_of :: "nat \<Rightarrow> runtime_kind" where
  "runtime_of worker_threads = (if worker_threads = 1 then CurrentThread else MultiThread worker_threads)"

text \<open>\<^verbatim>\<open>async_main\<close>: the state is new; an answer \<open>Some e\<close> of the platform is an error. Serving ends at the signal to
  shut down.\<close>

definition async_main :: "platform \<Rightarrow> string \<Rightarrow> start_effect list \<times> (string + unit)" where
  "async_main P bind_addr =
     (case pf_bind P bind_addr of
        Some e \<Rightarrow> ([BindListener bind_addr], Inl e)
      | None \<Rightarrow>
          (case pf_serve P bind_addr of
             Some e \<Rightarrow> ([BindListener bind_addr, Serve bind_addr], Inl e)
           | None \<Rightarrow> ([BindListener bind_addr, Serve bind_addr], Inr ())))"

definition server_main ::
  "'u url_parser \<Rightarrow> platform \<Rightarrow> nat option \<Rightarrow> (string \<Rightarrow> string option) \<Rightarrow> string option \<Rightarrow> start_effect list \<times> (string + unit)" where
  "server_main U P parallelism env arg =
     (case normalize_bind_addr U (cli_addr arg env) of
        Inl e \<Rightarrow> ([], Inl e)
      | Inr bind_addr \<Rightarrow>
     (case worker_threads_from_env parallelism env of
        Inl e \<Rightarrow> ([], Inl e)
      | Inr worker_threads \<Rightarrow>
          let kind = runtime_of worker_threads in
     (case pf_build P kind of
        Some e \<Rightarrow> ([BuildRuntime kind], Inl e)
      | None \<Rightarrow> (case async_main P bind_addr of (effects, r) \<Rightarrow> (BuildRuntime kind # effects, r)))))"

section \<open>Reading numbers\<close>

lemma foldl_digits_mono: "acc \<le> foldl (\<lambda>acc c. acc * 10 + digit_val c) acc s"
proof (induction s arbitrary: acc)
  case (Cons c s)
  have "acc \<le> acc * 10 + digit_val c" by simp
  also have "\<dots> \<le> foldl (\<lambda>acc c. acc * 10 + digit_val c) (acc * 10 + digit_val c) s" by (rule Cons.IH)
  finally show ?case by simp
qed simp

lemma scan_digits_Inr:
  "acc < 2 ^ 64 \<Longrightarrow>
   scan_digits acc s = Inr n \<longleftrightarrow> list_all is_ascii_digit s \<and> n = foldl (\<lambda>acc c. acc * 10 + digit_val c) acc s \<and> n < 2 ^ 64"
proof (induction s arbitrary: acc)
  case (Cons c s)
  then show ?case using foldl_digits_mono [of "acc * 10 + digit_val c" s]
    by (cases "2 ^ 64 \<le> acc * 10 + digit_val c") (auto simp del: power_numeral)
qed (auto simp del: power_numeral)

text \<open>It accepts what \<open>parse_unsigned\<close> accepts; the rest of it is the reason for refusing.\<close>

lemma parse_usize_Inr: "parse_usize s = Inr n \<longleftrightarrow> parse_unsigned 64 s = Some n"
proof -
  have minus: "\<not> is_ascii_digit (CHR ''-'')" by (simp add: is_ascii_digit_def byte_of_def)
  have scan: "scan_digits 0 t = Inr n \<longleftrightarrow> list_all is_ascii_digit t \<and> n = nat_of_dec t \<and> n < 2 ^ 64" for t
    using scan_digits_Inr [of 0 t n] by (simp add: nat_of_dec_def del: power_numeral)
  show ?thesis
    by (cases s) (auto simp: parse_usize_def parse_unsigned_def Let_def scan minus simp del: scan_digits.simps power_numeral)
qed

section \<open>Normalised addresses\<close>

text \<open>The characters of a host as a parsed URL gives it: printable ASCII, without a slash.\<close>

definition host_char :: "char \<Rightarrow> bool" where
  "host_char c \<longleftrightarrow> 32 < byte_of c \<and> byte_of c < 127 \<and> c \<noteq> CHR ''/''"

definition host_syntax :: "'u url_parser \<Rightarrow> bool" where
  "host_syntax U \<longleftrightarrow> (\<forall>s u h. up_parse U s = Inr u \<longrightarrow> up_host_str U u = Some h \<longrightarrow> list_all host_char h)"

lemma space_starts: "p \<in> set (unicode_ws @ map rev unicode_ws) \<Longrightarrow> p \<noteq> [] \<and> \<not> host_char (hd p)"
  by (simp add: unicode_ws_def host_char_def byte_of_def del: Un_iff) (elim disjE; simp)

lemma starts_with_hd: "starts_with p s \<Longrightarrow> p \<noteq> [] \<Longrightarrow> s \<noteq> [] \<and> hd s = hd p"
  by (cases p; cases s) (auto simp: starts_with_def)

lemma no_leading_space: "list_all host_char s \<Longrightarrow> leading_pat unicode_ws s = None \<and> leading_pat (map rev unicode_ws) s = None"
proof -
  assume s: "list_all host_char s"
  have "\<not> starts_with p s" if p: "p \<in> set (unicode_ws @ map rev unicode_ws)" for p
  proof
    assume "starts_with p s"
    with space_starts [OF p] starts_with_hd [of p s] have "s \<noteq> []" "\<not> host_char (hd s)" by auto
    with s show False by (cases s) auto
  qed
  then show ?thesis by (auto simp: leading_pat_def find_None_iff)
qed

lemma trim_host_chars: "list_all host_char s \<Longrightarrow> trim s = s"
  using no_leading_space [of s] no_leading_space [of "rev s"]
  by (simp add: trim_def trim_start_def trim_end_def strip_pats_id)

lemma no_scheme: "list_all host_char s \<Longrightarrow> \<not> str_contains ''://'' s"
proof
  assume s: "list_all host_char s" and "str_contains ''://'' s"
  then obtain i where "str_find ''://'' s = Some i" by (auto simp: str_contains_def)
  from str_find_Some [OF this] have "s = take i s @ ''://'' @ drop (i + length ''://'') s" by blast
  then have "CHR ''/'' \<in> set s" by (metis UnCI list.set_intros set_append)
  with s show False by (auto simp: list_all_iff host_char_def)
qed

lemma dec_host_chars: "list_all host_char (dec_of_nat n)"
  using dec_of_nat_digits [of n] by (auto simp: list_all_iff host_char_def is_ascii_digit_def byte_of_def)

lemma normalize_bind_addr_idem:
  assumes "host_syntax U" and "normalize_bind_addr U raw = Inr a"
  shows "normalize_bind_addr U a = Inr a \<and> a \<noteq> []"
proof (cases "str_contains ''://'' (trim raw)")
  case False
  with assms(2) show ?thesis by (auto simp: normalize_bind_addr_def Let_def trim_idem split: if_splits)
next
  case True
  with assms(2) obtain u host port where u: "up_parse U (trim raw) = Inr u" "up_host_str U u = Some host"
      "a = host @ '':'' @ dec_of_nat port"
    by (auto simp: normalize_bind_addr_def Let_def split: if_splits sum.splits option.splits)
  have "list_all host_char a" using assms(1) u dec_host_chars by (auto simp: host_syntax_def host_char_def byte_of_def)
  then show ?thesis using u(3) by (simp add: normalize_bind_addr_def trim_host_chars no_scheme)
qed

lemma threads_Inr:
  assumes "\<And>n. parallelism = Some n \<Longrightarrow> 0 < n"
  shows "worker_threads_from_env parallelism env = Inr n \<Longrightarrow>
    0 < n \<and> (\<forall>v. env ''MITB_SERVER_THREADS'' = Some v \<longrightarrow> parse_unsigned 64 (trim v) = Some n)"
  using assms by (auto simp: worker_threads_from_env_def parse_usize_Inr split: option.splits sum.splits if_splits)

lemma threads_Inl:
  "(\<exists>e. worker_threads_from_env parallelism env = Inl e) \<longleftrightarrow>
   (\<exists>v. env ''MITB_SERVER_THREADS'' = Some v \<and> parse_unsigned 64 (trim v) \<in> {None, Some 0})"
proof (cases "env ''MITB_SERVER_THREADS''")
  case (Some v)
  show ?thesis
  proof (cases "parse_usize (trim v)")
    case (Inl k)
    have "parse_unsigned 64 (trim v) \<noteq> Some n" for n
      unfolding parse_usize_Inr [symmetric] Inl by simp
    then have "parse_unsigned 64 (trim v) = None" by (cases "parse_unsigned 64 (trim v)") blast+
    with Some Inl show ?thesis by (simp add: worker_threads_from_env_def)
  next
    case (Inr n)
    then have "parse_unsigned 64 (trim v) = Some n" by (simp only: parse_usize_Inr)
    with Some Inr show ?thesis by (simp add: worker_threads_from_env_def)
  qed
qed (simp add: worker_threads_from_env_def)

lemma normalize_bind_addr_Inl:
  "(\<exists>e. normalize_bind_addr U raw = Inl e) \<longleftrightarrow>
   trim raw = [] \<or> str_contains ''://'' (trim raw) \<and>
     (case up_parse U (trim raw) of Inl e \<Rightarrow> True | Inr u \<Rightarrow> up_host_str U u = None \<or> up_port_or_known_default U u = None)"
  by (cases "up_parse U (trim raw)") (simp_all add: normalize_bind_addr_def Let_def split: option.split)

section \<open>What a start does\<close>

text \<open>What the platform answered to an effect.\<close>

fun answer :: "platform \<Rightarrow> start_effect \<Rightarrow> string option" where
  "answer P (BuildRuntime k) = pf_build P k"
| "answer P (BindListener a) = pf_bind P a"
| "answer P (Serve a) = pf_serve P a"

definition result_of :: "string option \<Rightarrow> string + unit" where
  "result_of ans = (case ans of Some e \<Rightarrow> Inl e | None \<Rightarrow> Inr ())"

lemma server_main_effects:
  assumes "normalize_bind_addr U (cli_addr arg env) = Inr a" and "worker_threads_from_env parallelism env = Inr n"
    and "server_main U P parallelism env arg = (effects, r)"
  shows "effects \<noteq> [] \<and> prefix effects [BuildRuntime (runtime_of n), BindListener a, Serve a]
    \<and> r = result_of (answer P (last effects)) \<and> (\<forall>x \<in> set (butlast effects). answer P x = None)
    \<and> (r = Inr () \<longrightarrow> length effects = 3)"
  using assms by (auto simp: server_main_def async_main_def result_of_def Let_def split: option.splits)


text \<open>A start on the address of a URL, where the port is taken.\<close>

definition demo_urls :: "string url_parser" where
  "demo_urls = \<lparr>up_parse = Inr, up_host_str = (\<lambda>u. if u = ''http://box'' then Some ''box'' else None),
     up_port_or_known_default = (\<lambda>u. Some 80)\<rparr>"

definition taken_port :: platform where
  "taken_port = \<lparr>pf_build = Map.empty, pf_bind = (\<lambda>a. Some ''address in use''), pf_serve = Map.empty\<rparr>"

lemma taken_port_start:
  "server_main demo_urls taken_port (Some 4) Map.empty (Some '' http://box '')
     = ([BuildRuntime (MultiThread 4), BindListener ''box:80''], Inl ''address in use'')"
  by code_simp


end
