(* ===== verification/Agent_Auth.thy ===== *)
theory Agent_Auth
  imports Server_Auth "HOL-Library.Countable"
begin

text \<open>
  The agent's side of the handshake, \<^verbatim>\<open>mitb-host/src/agent/auth.rs\<close> and \<^verbatim>\<open>protocol.rs\<close>, and its
  composition with the server's side (theory \<open>Server_Auth\<close>): an agent that knows the secret code of
  a room gets in, and one that comes first opens the room.

  JSON, \<^verbatim>\<open>opaque-ke\<close>, base64, SHA-256 and the escaping of \<^verbatim>\<open>str\<close>'s \<^verbatim>\<open>Debug\<close> are parameters, collected in
  the record \<open>agent_env\<close>. The loop of \<^verbatim>\<open>authenticate_websocket\<close> runs over what the socket gives, one
  input per frame, each with the outcome of the one send its handling may do.
\<close>

section \<open>Messages\<close>

datatype signaling_payload = Offer string | Answer string

text \<open>The agent's \<^verbatim>\<open>ClientMessage\<close> has the variants and fields of the server's, with a typed payload. Its
  \<^verbatim>\<open>ServerMessage\<close> leaves out the role that the server's \<^verbatim>\<open>Connected\<close> carries.\<close>

type_synonym agent_client_message = "signaling_payload client_message"

datatype agent_server_message =
    AgPakeRegistrationRequired
  | AgPakeRegistrationResponse string
  | AgPakeCredentialCandidates "pake_credential_candidate list"
  | AgConnected string "string list" "string list"
  | AgPeerJoined client_role string
  | AgPeerLeft client_role string
  | AgSignal string signaling_payload
  | AgError string
  | AgPong

datatype agent_error =
    InvalidServerAddr string
  | PakeError string
  | UrlError string
  | WebSocketError string
  | JsonError string
  | WebRtcError string

fun is_retryable :: "agent_error \<Rightarrow> bool" where
  "is_retryable (WebSocketError e) = True"
| "is_retryable _ = False"

text \<open>\<^verbatim>\<open>tungstenite::Message\<close>.\<close>

datatype tung_message =
    TText string
  | TBinary "byte list"
  | TPing "byte list"
  | TPong "byte list"
  | TClose
  | TFrame "byte list"

record agent_options =
  server_addr :: string
  opt_secret_code :: string
  opt_alias :: "string option"

record ('o, 'r) agent_env =
  ae_opaque :: "('o, 'r) opaque"
  ae_b64 :: b64
  ae_parse :: "string \<Rightarrow> string + agent_server_message"
  ae_render :: "agent_client_message \<Rightarrow> string + string"
  ae_sha256 :: "byte list \<Rightarrow> byte list"
  ae_str_debug :: "string \<Rightarrow> string"

text \<open>The derived \<^verbatim>\<open>Debug\<close> of the messages that no handshake expects.\<close>

fun debug_role :: "client_role \<Rightarrow> string" where
  "debug_role Agent = ''Agent''"
| "debug_role Zookeeper = ''Zookeeper''"

fun debug_payload :: "(string \<Rightarrow> string) \<Rightarrow> signaling_payload \<Rightarrow> string" where
  "debug_payload D (Offer sdp) = ''Offer { sdp: '' @ D sdp @ '' }''"
| "debug_payload D (Answer sdp) = ''Answer { sdp: '' @ D sdp @ '' }''"

fun debug_message :: "(string \<Rightarrow> string) \<Rightarrow> agent_server_message \<Rightarrow> string" where
  "debug_message D (AgPeerJoined role cid) =
     ''PeerJoined { role: '' @ debug_role role @ '', client_id: '' @ D cid @ '' }''"
| "debug_message D (AgPeerLeft role cid) =
     ''PeerLeft { role: '' @ debug_role role @ '', client_id: '' @ D cid @ '' }''"
| "debug_message D (AgSignal peer payload) =
     ''Signal { peer_id: '' @ D peer @ '', payload: '' @ debug_payload D payload @ '' }''"
| "debug_message D _ = []"

section \<open>The handshake of the agent\<close>

definition hex_digit :: "nat \<Rightarrow> char" where
  "hex_digit n = (if n < 10 then char_of (48 + n) else char_of (87 + n))"

text \<open>The format \<^verbatim>\<open>{byte:02x}\<close>.\<close>

definition hex2 :: "byte \<Rightarrow> string" where
  "hex2 b = [hex_digit (unat b div 16), hex_digit (unat b mod 16)]"

definition derive_room_handle :: "(byte list \<Rightarrow> byte list) \<Rightarrow> string \<Rightarrow> string" where
  "derive_room_handle sha code = ''room-'' @ concat (map hex2 (take 12 (sha (as_bytes code))))"

definition send_ws_message ::
  "('o, 'r) agent_env \<Rightarrow> string option \<Rightarrow> agent_client_message \<Rightarrow> agent_error + tung_message" where
  "send_ws_message env send_error m =
     (case ae_render env m of
        Inl e \<Rightarrow> Err (JsonError e)
      | Inr t \<Rightarrow> (case send_error of None \<Rightarrow> Ok (TText t) | Some e \<Rightarrow> Err (WebSocketError e)))"

text \<open>\<^verbatim>\<open>select_login_candidate\<close>, with the last error so far; each attempt draws once.\<close>

fun select_login_candidate ::
  "('o, 'r) opaque \<Rightarrow> b64 \<Rightarrow> (nat \<Rightarrow> 'r) \<Rightarrow> string option \<Rightarrow> pake_credential_candidate list \<Rightarrow>
     'o client_session \<Rightarrow> (agent_error + string \<times> byte list) \<times> 'o client_session" where
  "select_login_candidate K B draw last_error [] s =
     (Err (PakeError (case last_error of None \<Rightarrow> ''unknown secret code'' | Some e \<Rightarrow> e)), s)"
| "select_login_candidate K B draw last_error (c # cs) s =
     (case decode B (pcc_credential_response c) of
        Inl e \<Rightarrow> (Err (PakeError e), s)
      | Inr response \<Rightarrow>
          (case cs_finish_login K (draw 0) response s of
             (Inr fin, s') \<Rightarrow> (Ok (pcc_candidate_id c, fin), s')
           | (Inl e, s') \<Rightarrow> select_login_candidate K B (\<lambda>n. draw (Suc n)) (Some e) cs s'))"

datatype agent_turn = Waiting | Returned "agent_error + agent_server_message"

record 'r agent_input =
  gi_draw :: "nat \<Rightarrow> 'r"
  gi_send_error :: "string option"
  gi_recv :: "string + tung_message"

definition agent_fails :: "agent_error \<Rightarrow> 'o client_session \<Rightarrow> agent_turn \<times> 'o client_session \<times> tung_message list" where
  "agent_fails e s = (Returned (Err e), s, [])"

definition agent_sends ::
  "('o, 'r) agent_env \<Rightarrow> 'r agent_input \<Rightarrow> agent_client_message \<Rightarrow> 'o client_session \<Rightarrow>
     agent_turn \<times> 'o client_session \<times> tung_message list" where
  "agent_sends env i m s =
     (case send_ws_message env (gi_send_error i) m of
        Inl e \<Rightarrow> agent_fails e s
      | Inr f \<Rightarrow> (Waiting, s, [f]))"

text \<open>The inner \<^verbatim>\<open>match\<close> of the loop, on a parsed message.\<close>

fun agent_on_message ::
  "('o, 'r) agent_env \<Rightarrow> 'r agent_input \<Rightarrow> agent_server_message \<Rightarrow> 'o client_session \<Rightarrow>
     agent_turn \<times> 'o client_session \<times> tung_message list" where
  "agent_on_message env i AgPakeRegistrationRequired s =
     (case cs_start_registration (ae_opaque env) (gi_draw i 0) s of
        (Inl e, s) \<Rightarrow> agent_fails (PakeError e) s
      | (Inr request, s) \<Rightarrow>
          agent_sends env i (PakeRegistrationRequest (encode (ae_b64 env) request)) s)"
| "agent_on_message env i (AgPakeRegistrationResponse response) s =
     (case decode (ae_b64 env) response of
        Inl e \<Rightarrow> agent_fails (PakeError e) s
      | Inr bytes \<Rightarrow>
          (case cs_finish_registration (ae_opaque env) (gi_draw i 0) (gi_draw i 1) bytes s of
             (Inl e, s) \<Rightarrow> agent_fails (PakeError e) s
           | (Inr (upload, request), s) \<Rightarrow>
               agent_sends env i (PakeRegistrationUpload (encode (ae_b64 env) upload)
                 (encode (ae_b64 env) request)) s))"
| "agent_on_message env i (AgPakeCredentialCandidates candidates) s =
     (case select_login_candidate (ae_opaque env) (ae_b64 env) (gi_draw i) None candidates s of
        (Inl e, s) \<Rightarrow> agent_fails e s
      | (Inr (cid, fin), s) \<Rightarrow>
          agent_sends env i (PakeCredentialFinalization cid (encode (ae_b64 env) fin)) s)"
| "agent_on_message env i (AgConnected cid as zs) s = (Returned (Ok (AgConnected cid as zs)), s, [])"
| "agent_on_message env i (AgError e) s = agent_fails (PakeError e) s"
| "agent_on_message env i AgPong s = (Waiting, s, [])"
| "agent_on_message env i other s =
     agent_fails (PakeError (''unexpected server message during authentication: '' @
       debug_message (ae_str_debug env) other)) s"

definition socket_closed :: string where
  "socket_closed = ''signaling socket closed during authentication''"

text \<open>One turn of the loop.\<close>

definition agent_step ::
  "('o, 'r) agent_env \<Rightarrow> 'r agent_input \<Rightarrow> 'o client_session \<Rightarrow>
     agent_turn \<times> 'o client_session \<times> tung_message list" where
  "agent_step env i s =
     (case gi_recv i of
        Inl e \<Rightarrow> agent_fails (WebSocketError e) s
      | Inr (TText t) \<Rightarrow>
          (case ae_parse env t of
             Inl e \<Rightarrow> agent_fails (JsonError e) s
           | Inr m \<Rightarrow> agent_on_message env i m s)
      | Inr (TPing payload) \<Rightarrow>
          (case gi_send_error i of
             None \<Rightarrow> (Waiting, s, [TPong payload])
           | Some e \<Rightarrow> agent_fails (WebSocketError e) s)
      | Inr (TPong _) \<Rightarrow> (Waiting, s, [])
      | Inr TClose \<Rightarrow> agent_fails (PakeError socket_closed) s
      | Inr (TFrame _) \<Rightarrow> agent_fails (PakeError socket_closed) s
      | Inr (TBinary _) \<Rightarrow>
          agent_fails (PakeError ''unexpected binary websocket frame during authentication'') s)"

text \<open>The loop over everything the socket gives until it ends: the result and what was sent.\<close>

fun agent_loop ::
  "('o, 'r) agent_env \<Rightarrow> 'r agent_input list \<Rightarrow> 'o client_session \<Rightarrow>
     (agent_error + agent_server_message) \<times> tung_message list" where
  "agent_loop env [] s = (Err (PakeError socket_closed), [])"
| "agent_loop env (i # is) s =
     (case agent_step env i s of
        (Returned r, _, out) \<Rightarrow> (r, out)
      | (Waiting, s, out) \<Rightarrow> (case agent_loop env is s of (r, out') \<Rightarrow> (r, out @ out')))"

text \<open>What \<^verbatim>\<open>authenticate_websocket\<close> does before its loop.\<close>

definition agent_start ::
  "('o, 'r) agent_env \<Rightarrow> agent_options \<Rightarrow> 'r \<Rightarrow> string option \<Rightarrow>
     agent_error + 'o client_session \<times> tung_message" where
  "agent_start env opts r send_error =
     (case client_session_new (opt_secret_code opts) of
        Inl e \<Rightarrow> Err (PakeError e)
      | Inr s \<Rightarrow>
          (case cs_start_login (ae_opaque env) r s of
             (Inl e, s) \<Rightarrow> Err (PakeError e)
           | (Inr request, s) \<Rightarrow>
               map_sum id (Pair s) (send_ws_message env send_error
                 (PakeInit Agent (derive_room_handle (ae_sha256 env) (opt_secret_code opts))
                    (encode (ae_b64 env) request) (opt_alias opts)))))"

definition authenticate_websocket ::
  "('o, 'r) agent_env \<Rightarrow> agent_options \<Rightarrow> 'r \<Rightarrow> string option \<Rightarrow> 'r agent_input list \<Rightarrow>
     (agent_error + agent_server_message) \<times> tung_message list" where
  "authenticate_websocket env opts r send_error is =
     (case agent_start env opts r send_error of
        Inl e \<Rightarrow> (Err e, [])
      | Inr (s, f) \<Rightarrow> (case agent_loop env is s of (res, out) \<Rightarrow> (res, f # out)))"

section \<open>Room handles\<close>

lemma hex_digit_ok: "n < 16 \<Longrightarrow> room_handle_byte (hex_digit n)"
  by (auto simp: hex_digit_def room_handle_byte_def is_ascii_alphanumeric_def is_ascii_digit_def byte_of_def)

lemma hex2_ok: "list_all room_handle_byte (hex2 b)"
proof -
  have "unat b < 256" using unsigned_less [of b, where ?'a = nat] by simp
  then have "unat b div 16 < 16" by simp
  then show ?thesis by (simp add: hex2_def hex_digit_ok)
qed

lemma handle_bytes_untrimmed:
  assumes "list_all room_handle_byte h"
  shows "trim h = h"
proof -
  have first: "leading_pat ps s = None"
    if "list_all room_handle_byte s" "\<forall>p \<in> set ps. p \<noteq> [] \<longrightarrow> \<not> room_handle_byte (hd p)" for ps s
    using that by (cases s) (auto simp: leading_pat_def find_None_iff starts_with_def prefix_def neq_Nil_conv)
  have ws: "\<forall>p \<in> set unicode_ws. p \<noteq> [] \<longrightarrow> \<not> room_handle_byte (hd p)"
    "\<forall>p \<in> set (map rev unicode_ws). p \<noteq> [] \<longrightarrow> \<not> room_handle_byte (hd p)"
    by code_simp+
  have "list_all room_handle_byte (rev h)" using assms by (simp add: list_all_iff)
  then show ?thesis
    using first [OF assms ws(1)] first [OF _ ws(2), of "rev h"]
    by (simp add: trim_def trim_start_def trim_end_def strip_pats_id)
qed

lemma derived_handle_accepted:
  "normalize_room_handle (derive_room_handle sha code) = Ok (derive_room_handle sha code)"
proof -
  let ?bs = "take 12 (sha (as_bytes code))"
  have "list_all room_handle_byte (concat (map hex2 bs))" for bs
    by (induction bs) (simp_all add: hex2_ok)
  moreover have "list_all room_handle_byte ''room-''" by code_simp
  ultimately have ok: "list_all room_handle_byte (derive_room_handle sha code)"
    by (simp add: derive_room_handle_def)
  have "length (concat (map hex2 bs)) = 2 * length bs" for bs
    by (induction bs) (simp_all add: hex2_def)
  then have "length (derive_room_handle sha code) \<le> 64"
    by (simp add: derive_room_handle_def)
  with ok show ?thesis
    by (simp add: normalize_room_handle_def Let_def handle_bytes_untrimmed MAX_ROOM_HANDLE_LEN_def)
       (simp add: derive_room_handle_def)
qed

section \<open>Agent and server together\<close>

text \<open>What the two JSON formats promise each other: a message of the agent is read by the server as the
  same message, and a message of the server by the agent as the same one, less the role of
  \<^verbatim>\<open>Connected\<close>. \<open>render\<close> is the server's serialisation; \<open>to_json\<close> and \<open>of_json\<close> relate typed payloads to
  JSON values.\<close>

fun to_agent :: "('v \<Rightarrow> signaling_payload option) \<Rightarrow> 'v server_message \<Rightarrow> agent_server_message option" where
  "to_agent of_json PakeRegistrationRequired = Some AgPakeRegistrationRequired"
| "to_agent of_json (PakeRegistrationResponse x) = Some (AgPakeRegistrationResponse x)"
| "to_agent of_json (PakeCredentialCandidates cs) = Some (AgPakeCredentialCandidates cs)"
| "to_agent of_json (Connected cid role as zs) = Some (AgConnected cid as zs)"
| "to_agent of_json (PeerJoined role cid) = Some (AgPeerJoined role cid)"
| "to_agent of_json (PeerLeft role cid) = Some (AgPeerLeft role cid)"
| "to_agent of_json (Signal peer v) = map_option (AgSignal peer) (of_json v)"
| "to_agent of_json (ErrorMessage e) = Some (AgError e)"
| "to_agent of_json Pong = Some AgPong"

definition wire_ok ::
  "('o, 'r, 'v) server_env \<Rightarrow> ('o, 'r) agent_env \<Rightarrow> ('v server_message \<Rightarrow> string) \<Rightarrow>
     (signaling_payload \<Rightarrow> 'v) \<Rightarrow> ('v \<Rightarrow> signaling_payload option) \<Rightarrow> bool" where
  "wire_ok env aenv render to_json of_json \<longleftrightarrow>
     (\<forall>m. \<exists>t. ae_render aenv m = Ok t \<and> se_parse env t = Ok (map_client_message to_json m)) \<and>
     (\<forall>m m'. to_agent of_json m = Some m' \<longrightarrow> ae_parse aenv (render m) = Ok m')"

text \<open>The same libraries on both sides, and a server set up by \<^verbatim>\<open>ServerPake::new\<close>.\<close>

definition same_crypto :: "('o, 'r, 'v) server_env \<Rightarrow> ('o, 'r) agent_env \<Rightarrow> 'r \<Rightarrow> bool" where
  "same_crypto env aenv r \<longleftrightarrow>
     opaque_correct (se_opaque env) \<and> b64_roundtrip (se_b64 env) \<and>
     ae_opaque aenv = se_opaque env \<and> ae_b64 aenv = se_b64 env \<and>
     se_pake env = server_pake_new (se_opaque env) r"

text \<open>The socket between them: the frames of one side as the other receives them.\<close>

fun to_server_frame :: "tung_message \<Rightarrow> recv" where
  "to_server_frame (TText t) = RecvFrame (Text t)"
| "to_server_frame (TBinary b) = RecvFrame (Binary b)"
| "to_server_frame (TPing b) = RecvFrame (WsPing b)"
| "to_server_frame (TPong b) = RecvFrame (WsPong b)"
| "to_server_frame TClose = RecvFrame Close"
| "to_server_frame (TFrame b) = RecvError"

fun to_agent_frame :: "('v server_message \<Rightarrow> string) \<Rightarrow> 'v outgoing \<Rightarrow> tung_message" where
  "to_agent_frame render (SendMessage m) = TText (render m)"
| "to_agent_frame render (SendPong b) = TPong b"

record ('o, 'r) duplex =
  dx_phase :: "'o auth_phase"
  dx_turn :: agent_turn
  dx_session :: "'o client_session"
  dx_queue :: "tung_message list"
  dx_state :: state_inner

text \<open>The agent reacts to the frames of one server step; \<open>draw k\<close> is its randomness for the \<open>k\<close>-th.\<close>

fun agent_hears ::
  "('o, 'r) agent_env \<Rightarrow> (nat \<Rightarrow> nat \<Rightarrow> 'r) \<Rightarrow> tung_message list \<Rightarrow> ('o, 'r) duplex \<Rightarrow> ('o, 'r) duplex" where
  "agent_hears aenv draw [] d = d"
| "agent_hears aenv draw (f # fs) d =
     (case dx_turn d of
        Returned _ \<Rightarrow> d
      | Waiting \<Rightarrow>
          (case agent_step aenv \<lparr>gi_draw = draw 0, gi_send_error = None, gi_recv = Ok f\<rparr> (dx_session d) of
             (turn, s, out) \<Rightarrow>
               agent_hears aenv (\<lambda>k. draw (Suc k)) fs
                 (d\<lparr>dx_turn := turn, dx_session := s, dx_queue := dx_queue d @ out\<rparr>)))"

fun receives :: "'o auth_phase \<Rightarrow> bool" where
  "receives AwaitInit = True"
| "receives (AwaitRegistrationRequest h a) = True"
| "receives (AwaitRegistrationUpload h a) = True"
| "receives (AwaitFinalization role a ps c) = True"
| "receives _ = False"

text \<open>One step of the server, in the state it finds, on the next frame of the agent if it waits for one,
  and the agent's reaction.\<close>

definition duplex_step ::
  "('o, 'r, 'v) server_env \<Rightarrow> ('o, 'r) agent_env \<Rightarrow> ('v server_message \<Rightarrow> string) \<Rightarrow>
     'r auth_input \<times> state_inner \<times> (nat \<Rightarrow> nat \<Rightarrow> 'r) \<Rightarrow> ('o, 'r) duplex \<Rightarrow> ('o, 'r) duplex" where
  "duplex_step env aenv render x d =
     (case x of (i, st, draw) \<Rightarrow>
        let (rc, q) = (if \<not> receives (dx_phase d) then (ai_recv i, dx_queue d)
                       else case dx_queue d of [] \<Rightarrow> (RecvTimeout, []) | f # fs \<Rightarrow> (to_server_frame f, fs))
        in case authenticate_step env (i\<lparr>ai_recv := rc\<rparr>) (dx_phase d) st of
             (ph, out, st') \<Rightarrow>
               agent_hears aenv draw (map (to_agent_frame render) out)
                 (d\<lparr>dx_phase := ph, dx_queue := q, dx_state := st'\<rparr>))"

fun duplex_run ::
  "('o, 'r, 'v) server_env \<Rightarrow> ('o, 'r) agent_env \<Rightarrow> ('v server_message \<Rightarrow> string) \<Rightarrow>
     ('r auth_input \<times> state_inner \<times> (nat \<Rightarrow> nat \<Rightarrow> 'r)) list \<Rightarrow> ('o, 'r) duplex \<Rightarrow> ('o, 'r) duplex" where
  "duplex_run env aenv render [] d = d"
| "duplex_run env aenv render (x # xs) d =
     duplex_run env aenv render xs (duplex_step env aenv render x d)"

definition duplex_init :: "'o client_session \<Rightarrow> tung_message \<Rightarrow> state_inner \<Rightarrow> ('o, 'r) duplex" where
  "duplex_init s f st =
     \<lparr>dx_phase = AuthStart, dx_turn = Waiting, dx_session = s, dx_queue = [f], dx_state = st\<rparr>"

text \<open>The frame that carries a message of the agent.\<close>

definition frame_of :: "('o, 'r) agent_env \<Rightarrow> agent_client_message \<Rightarrow> tung_message" where
  "frame_of aenv m = TText (projr (ae_render aenv m))"

lemma wire_send:
  assumes "wire_ok env aenv render to_json of_json"
  shows "send_ws_message aenv None m = Ok (frame_of aenv m)"
proof -
  from assms obtain t where "ae_render aenv m = Ok t" unfolding wire_ok_def by blast
  then show ?thesis by (simp add: send_ws_message_def frame_of_def)
qed

lemma wire_server:
  assumes "wire_ok env aenv render to_json of_json"
  shows "on_message env (to_server_frame (frame_of aenv m)) st k = k (map_client_message to_json m)"
proof -
  from assms obtain t where "ae_render aenv m = Ok t" "se_parse env t = Ok (map_client_message to_json m)"
    unfolding wire_ok_def by blast
  then show ?thesis by (simp add: on_message_def frame_of_def)
qed

lemma wire_agent:
  assumes "wire_ok env aenv render to_json of_json" and "to_agent of_json m = Some m'"
    and "dx_turn d = Waiting"
  shows "agent_hears aenv draw [TText (render m)] d =
    (case agent_on_message aenv \<lparr>gi_draw = draw 0, gi_send_error = None, gi_recv = Ok (TText (render m))\<rparr>
            m' (dx_session d) of
       (turn, s, out) \<Rightarrow> d\<lparr>dx_turn := turn, dx_session := s, dx_queue := dx_queue d @ out\<rparr>)"
proof -
  have "ae_parse aenv (render m) = Ok m'" using assms(1,2) by (auto simp: wire_ok_def)
  with assms(3) show ?thesis by (simp add: agent_step_def split: prod.splits)
qed

lemma wire_agent_sends:
  assumes "wire_ok env aenv render to_json of_json" and "gi_send_error i = None"
  shows "agent_sends aenv i m s = (Waiting, s, [frame_of aenv m])"
  using wire_send [OF assms(1)] assms(2) by (simp add: agent_sends_def)

text \<open>The last exchange of every handshake: the server has offered a login against a file registered
  with the agent's password; the agent finishes it and the server accepts.\<close>

lemma login_exchange:
  assumes crypto: "same_crypto env aenv r0"
    and honest: "honest_login (se_opaque env) (se_pake env) ident pwfile request pw s"
  shows "\<exists>response session fin s'.
    sp_start_login (se_opaque env) r (se_pake env) ident pwfile request = Ok (response, session) \<and>
    select_login_candidate (ae_opaque aenv) (ae_b64 aenv) draw None
      [\<lparr>pcc_candidate_id = cid, pcc_credential_response = encode (se_b64 env) response\<rparr>] s = (Ok (cid, fin), s') \<and>
    sls_finish (se_opaque env) session fin = Ok ()"
proof -
  obtain response session fin s' where
    "sp_start_login (se_opaque env) r (se_pake env) ident pwfile request = Ok (response, session)"
    "cs_finish_login (se_opaque env) (draw 0) response s = (Ok fin, s')"
    "sls_finish (se_opaque env) session fin = Ok ()"
    using honest unfolding honest_login_def by metis
  with crypto show ?thesis by (auto simp: same_crypto_def b64_roundtrip_def)
qed

lemma agent_start_Ok:
  assumes wire: "wire_ok env aenv render to_json of_json"
    and start: "agent_start aenv opts r None = Ok (s, f)"
  shows "\<exists>s0 request. client_session_new (opt_secret_code opts) = Ok s0 \<and>
    cs_start_login (ae_opaque aenv) r s0 = (Ok request, s) \<and>
    f = frame_of aenv (PakeInit Agent (derive_room_handle (ae_sha256 aenv) (opt_secret_code opts))
          (encode (ae_b64 aenv) request) (opt_alias opts))"
  using start by (auto simp: agent_start_def wire_send [OF wire] split: sum.splits prod.splits)

text \<open>What the steps before the exchange find: the address may authenticate, and entropy for the
  candidate's token.\<close>

definition may_attempt :: "('o, 'r, 'v) server_env \<Rightarrow> 'r auth_input \<Rightarrow> state_inner \<Rightarrow> bool" where
  "may_attempt env i st \<longleftrightarrow> fst (check_auth_rate_limit (se_config env) (ai_now i) (ai_ip i) st) = Ok ()"

definition room_at :: "('o, 'r, 'v) server_env \<Rightarrow> 'r auth_input \<Rightarrow> state_inner \<Rightarrow> string \<Rightarrow> room_state option" where
  "room_at env i st h = hm_get (rooms (prune_expired_rooms (se_config env) (ai_now i) st)) h"

lemma duplex_opening:
  assumes wire: "wire_ok env aenv render to_json of_json"
    and crypto: "same_crypto env aenv r0"
    and start: "agent_start aenv opts r None = Ok (s, f)"
    and rate: "may_attempt env i0 st0"
  shows "\<exists>s0 request. client_session_new (opt_secret_code opts) = Ok s0 \<and>
    cs_start_login (se_opaque env) r s0 = (Ok request, s) \<and>
    duplex_run env aenv render [(i0, st0, w0), (i1, st1, w1)] (duplex_init s f st) =
      \<lparr>dx_phase = LookupRoom Agent (derive_room_handle (ae_sha256 aenv) (opt_secret_code opts)) request
          (clean_alias (opt_alias opts)),
       dx_turn = Waiting, dx_session = s, dx_queue = [], dx_state = st1\<rparr>"
proof -
  obtain s0 request where a: "client_session_new (opt_secret_code opts) = Ok s0"
      "cs_start_login (ae_opaque aenv) r s0 = (Ok request, s)"
      "f = frame_of aenv (PakeInit Agent (derive_room_handle (ae_sha256 aenv) (opt_secret_code opts))
          (encode (ae_b64 aenv) request) (opt_alias opts))"
    using agent_start_Ok [OF wire start] by blast
  obtain st0' where "check_auth_rate_limit (se_config env) (ai_now i0) (ai_ip i0) st0 = (Ok (), st0')"
    using rate by (cases "check_auth_rate_limit (se_config env) (ai_now i0) (ai_ip i0) st0")
      (simp add: may_attempt_def)
  with a crypto show ?thesis
    by (simp add: duplex_step_def duplex_init_def wire_server [OF wire] auth_init_def
        derived_handle_accepted same_crypto_def b64_roundtrip_def)
qed

text \<open>C5. An agent that knows the secret code of a live room gets in. If the room was registered
  with that code, the address is not rate limited and entropy is available, the agent and the
  server, run against each other whatever the other clients do in between and whatever
  randomness both draw, reach the end of the handshake: the server has authenticated an agent
  for the room the code names, and the agent waits for the server's welcome.\<close>

theorem agent_joins_room:
  assumes wire: "wire_ok env aenv render to_json of_json"
    and crypto: "same_crypto env aenv r0"
    and start: "agent_start aenv opts r None = Ok (s, f)"
    and h: "h = derive_room_handle (ae_sha256 aenv) (opt_secret_code opts)"
    and rate: "may_attempt env i0 st0"
    and room: "room_at env i2 st2 h = Some room"
    and known: "registered_file (se_opaque env) (se_pake env) (as_bytes h)
        (as_bytes (trim (opt_secret_code opts))) (password_file room)"
    and entropy: "ai_entropy i2 = Ok token"
  shows "\<exists>s'. duplex_run env aenv render [(i0, st0, w0), (i1, st1, w1), (i2, st2, w2), (i3, st3, w3)]
      (duplex_init s f st) =
    \<lparr>dx_phase = Authenticated h Agent (clean_alias (opt_alias opts)), dx_turn = Waiting,
     dx_session = s', dx_queue = [], dx_state = st3\<rparr>"
proof -
  obtain s0 request where a: "client_session_new (opt_secret_code opts) = Ok s0"
      "cs_start_login (se_opaque env) r s0 = (Ok request, s)"
      "duplex_step env aenv render (i1, st1, w1)
         (duplex_step env aenv render (i0, st0, w0) (duplex_init s f st)) =
      \<lparr>dx_phase = LookupRoom Agent h request (clean_alias (opt_alias opts)),
       dx_turn = Waiting, dx_session = s, dx_queue = [], dx_state = st1\<rparr>"
    using duplex_opening [OF wire crypto start rate, of w0 i1 st1 w1 st] by (auto simp: h)
  have "secret_code s0 = as_bytes (trim (opt_secret_code opts))"
    using a(1) by (simp add: client_session_new_Ok)
  then have "honest_login (se_opaque env) (se_pake env) (as_bytes h) (password_file room) request
      (secret_code s0) s"
    using registered_login [of "se_opaque env" "se_pake env" "as_bytes h" s0 "password_file room" r]
      known crypto a(2) by (simp add: same_crypto_def)
  then obtain response session fin s' where
    "sp_start_login (se_opaque env) (ai_rng i2) (se_pake env) (as_bytes h) (password_file room) request =
       Ok (response, session)"
    "select_login_candidate (ae_opaque aenv) (ae_b64 aenv) (w2 0) None
      [\<lparr>pcc_candidate_id = encode (se_b64 env) token, pcc_credential_response = encode (se_b64 env) response\<rparr>] s =
       (Ok (encode (se_b64 env) token, fin), s')"
    "sls_finish (se_opaque env) session fin = Ok ()"
    using login_exchange [OF crypto] by metis
  with room crypto entropy have "duplex_step env aenv render (i3, st3, w3) (duplex_step env aenv render (i2, st2, w2)
      \<lparr>dx_phase = LookupRoom Agent h request (clean_alias (opt_alias opts)),
       dx_turn = Waiting, dx_session = s, dx_queue = [], dx_state = st1\<rparr>) =
    \<lparr>dx_phase = Authenticated h Agent (clean_alias (opt_alias opts)), dx_turn = Waiting,
     dx_session = s', dx_queue = [], dx_state = st3\<rparr>"
    by (simp add: duplex_step_def candidate_login_for_room_def room_at_def random_token_def candidates_message_def
        wire_agent [OF wire] wire_agent_sends [OF wire] wire_server [OF wire]
        auth_finalization_def same_crypto_def b64_roundtrip_def final_alias_def
        del: select_login_candidate.simps agent_hears.simps(2))
  then show ?thesis by (simp add: a(3))
qed

definition has_capacity :: "('o, 'r, 'v) server_env \<Rightarrow> 'r auth_input \<Rightarrow> state_inner \<Rightarrow> bool" where
  "has_capacity env i st \<longleftrightarrow>
     length (rooms (prune_expired_rooms (se_config env) (ai_now i) st)) < max_rooms (se_config env)"

text \<open>The registration exchange: from the server's lookup of a handle it does not know to the point
  where the agent has finished a login against the file it registered.\<close>

lemma duplex_registration:
  fixes env :: "('o, 'r, 'v) server_env"
  assumes wire: "wire_ok env aenv render to_json of_json"
    and crypto: "same_crypto env aenv r0"
    and len: "length (secret_code s) \<le> 65535"
    and room: "room_at env i2 st2 h = None" "has_capacity env i3 st3"
    and allow: "allow_agent_room_creation (se_config env)"
    and entropy: "ai_entropy i5 = Ok token"
  shows "\<exists>s' pwfile.
    registered_file (se_opaque env) (se_pake env) (as_bytes h) (secret_code s) pwfile \<and>
    duplex_run env aenv render [(i2, st2, w2), (i3, st3, w3), (i4, st4, w4), (i5, st5, w5), (i6, st6, w6)]
      \<lparr>dx_phase = LookupRoom Agent h request alias', dx_turn = Waiting, dx_session = s, dx_queue = [], dx_state = st\<rparr> =
    \<lparr>dx_phase = StoreCreated Agent alias' h \<lparr>cr_room_handle = h, cr_password_file = pwfile\<rparr>,
     dx_turn = Waiting, dx_session = s', dx_queue = [], dx_state = st6\<rparr>"
proof -
  let ?K = "se_opaque env" and ?B = "se_b64 env"
  have c: "opaque_correct ?K" "ae_opaque aenv = ?K" "ae_b64 aenv = ?B" "se_pake env = server_pake_new ?K r0"
    "\<And>bs. decode ?B (encode ?B bs) = Ok bs"
    using crypto by (auto simp: same_crypto_def b64_roundtrip_def)
  obtain req s1 response upload request' s2 pwfile where reg:
    "cs_start_registration ?K (w3 0 0) s = (Ok req, s1)"
    "sp_registration_response ?K (se_pake env) (as_bytes h) req = Ok response"
    "cs_finish_registration ?K (w4 0 0) (w4 0 (Suc 0)) response s1 = (Ok (upload, request'), s2)"
    "sp_finish_registration ?K upload = Ok pwfile"
    "registered_file ?K (se_pake env) (as_bytes h) (secret_code s) pwfile"
    "honest_login ?K (se_pake env) (as_bytes h) pwfile request' (secret_code s) s2"
    using honest_registration [OF c(1) len, of "w3 0 0" r0 "as_bytes h" "w4 0 0" "w4 0 (Suc 0)"]
    unfolding c(4) by blast
  obtain cresponse session fin s' where login:
    "sp_start_login ?K (ai_rng i5) (se_pake env) (as_bytes h) pwfile request' = Ok (cresponse, session)"
    "select_login_candidate (ae_opaque aenv) (ae_b64 aenv) (w5 0) None
      [\<lparr>pcc_candidate_id = encode ?B token, pcc_credential_response = encode ?B cresponse\<rparr>] s2 =
       (Ok (encode ?B token, fin), s')"
    "sls_finish ?K session fin = Ok ()"
    using login_exchange [OF crypto reg(6)] by metis
  note steps = duplex_step_def wire_agent [OF wire] wire_agent_sends [OF wire] wire_server [OF wire] c(2,3,5) reg(1-4)
  let ?d = "\<lambda>ph s q st. \<lparr>dx_phase = ph, dx_turn = Waiting, dx_session = s, dx_queue = q, dx_state = st\<rparr>"
  let ?p = "\<lparr>pl_candidate_id = encode ?B token, pl_room_handle = h,
     pl_credential_response = cresponse, pl_login_session = session\<rparr>"
  let ?created = "\<lparr>cr_room_handle = h, cr_password_file = pwfile\<rparr>"
  let ?prune = "\<lambda>i. prune_expired_rooms (se_config env) (ai_now i)"
  have "duplex_step env aenv render (i2, st2, w2) (?d (LookupRoom Agent h request alias') s [] st) =
      ?d (CheckCapacity h alias') s [] (?prune i2 st2)"
    using room(1) allow by (simp add: duplex_step_def candidate_login_for_room_def room_at_def)
  moreover have "duplex_step env aenv render (i3, st3, w3) (?d (CheckCapacity h alias') s [] st) =
      ?d (AwaitRegistrationRequest h alias') s1
        [frame_of aenv (PakeRegistrationRequest (encode ?B req))] (?prune i3 st3)" for st
    using room(2) by (simp add: steps ensure_room_capacity_def has_capacity_def del: agent_hears.simps(2))
  moreover have "duplex_step env aenv render (i4, st4, w4)
      (?d (AwaitRegistrationRequest h alias') s1 [frame_of aenv (PakeRegistrationRequest (encode ?B req))] st) =
      ?d (AwaitRegistrationUpload h alias') s2
        [frame_of aenv (PakeRegistrationUpload (encode ?B upload) (encode ?B request'))] st4" for st
    by (simp add: steps auth_registration_request_def del: agent_hears.simps(2))
  moreover have "duplex_step env aenv render (i5, st5, w5) (?d (AwaitRegistrationUpload h alias') s2
        [frame_of aenv (PakeRegistrationUpload (encode ?B upload) (encode ?B request'))] st) =
      ?d (AwaitFinalization Agent alias' [?p] (Some ?created)) s'
        [frame_of aenv (PakeCredentialFinalization (encode ?B token) (encode ?B fin))] st5" for st
    using login(1,2) entropy
    by (simp add: steps auth_registration_upload_def random_token_def candidates_message_def
        del: agent_hears.simps(2) select_login_candidate.simps)
  moreover have "duplex_step env aenv render (i6, st6, w6)
      (?d (AwaitFinalization Agent alias' [?p] (Some ?created)) s'
        [frame_of aenv (PakeCredentialFinalization (encode ?B token) (encode ?B fin))] st) =
      ?d (StoreCreated Agent alias' h ?created) s' [] st6" for st
    by (simp add: steps auth_finalization_def login(3))
  ultimately show ?thesis using reg(5) by simp
qed

text \<open>C4. An agent that comes first opens the room. Under a policy that lets agents create rooms and
  within the quota, an agent whose code names no live room registers it: the handshake ends
  with the server authenticating the agent and storing a new room under the handle the code
  names, with a password file that this same code logs in to. So the next agent with the code
  gets in, by the previous property.\<close>

theorem agent_opens_room:
  assumes wire: "wire_ok env aenv render to_json of_json"
    and crypto: "same_crypto env aenv r0"
    and start: "agent_start aenv opts r None = Ok (s, f)"
    and len: "length (trim (opt_secret_code opts)) \<le> 65535"
    and h: "h = derive_room_handle (ae_sha256 aenv) (opt_secret_code opts)"
    and rate: "may_attempt env i0 st0"
    and room: "room_at env i2 st2 h = None" "has_capacity env i3 st3"
    and allow: "allow_agent_room_creation (se_config env)"
    and entropy: "ai_entropy i5 = Ok token"
    and free: "room_at env i7 st7 h = None" "has_capacity env i7 st7"
  shows "\<exists>s' st' room. duplex_run env aenv render
      [(i0, st0, w0), (i1, st1, w1), (i2, st2, w2), (i3, st3, w3), (i4, st4, w4), (i5, st5, w5), (i6, st6, w6),
       (i7, st7, w7)] (duplex_init s f st) =
    \<lparr>dx_phase = Authenticated h Agent (clean_alias (opt_alias opts)), dx_turn = Waiting,
     dx_session = s', dx_queue = [], dx_state = st'\<rparr> \<and>
    hm_get (rooms st') h = Some room \<and>
    registered_file (se_opaque env) (se_pake env) (as_bytes h)
      (as_bytes (trim (opt_secret_code opts))) (password_file room)"
proof -
  obtain s0 request where a: "client_session_new (opt_secret_code opts) = Ok s0"
      "cs_start_login (se_opaque env) r s0 = (Ok request, s)"
      "duplex_step env aenv render (i1, st1, w1)
         (duplex_step env aenv render (i0, st0, w0) (duplex_init s f st)) =
      \<lparr>dx_phase = LookupRoom Agent h request (clean_alias (opt_alias opts)),
       dx_turn = Waiting, dx_session = s, dx_queue = [], dx_state = st1\<rparr>"
    using duplex_opening [OF wire crypto start rate, of w0 i1 st1 w1 st] by (auto simp: h)
  have "secret_code s0 = as_bytes (trim (opt_secret_code opts))"
    using a(1) by (simp add: client_session_new_Ok)
  moreover have "secret_code s = secret_code s0"
    using cs_start_login_secret [of "se_opaque env" r s0] a(2) by simp
  ultimately have sec: "secret_code s = as_bytes (trim (opt_secret_code opts))" by simp
  with len have "length (secret_code s) \<le> 65535" by (simp add: as_bytes_def)
  from duplex_registration [OF wire crypto this room allow entropy, of w2 w3 i4 st4 w4 st5 w5 i6 st6 w6 request
      "clean_alias (opt_alias opts)" st1]
  obtain s' pwfile where
    "registered_file (se_opaque env) (se_pake env) (as_bytes h) (secret_code s) pwfile"
    "duplex_run env aenv render [(i2, st2, w2), (i3, st3, w3), (i4, st4, w4), (i5, st5, w5), (i6, st6, w6)]
      \<lparr>dx_phase = LookupRoom Agent h request (clean_alias (opt_alias opts)), dx_turn = Waiting,
       dx_session = s, dx_queue = [], dx_state = st1\<rparr> =
    \<lparr>dx_phase = StoreCreated Agent (clean_alias (opt_alias opts)) h
        \<lparr>cr_room_handle = h, cr_password_file = pwfile\<rparr>,
     dx_turn = Waiting, dx_session = s', dx_queue = [], dx_state = st6\<rparr>"
    by blast
  then show ?thesis using sec a(3) free
    by (simp add: duplex_step_def [of _ _ _ "(i7, st7, w7)"] store_room_def Let_def room_at_def has_capacity_def
        hm_contains_keys hm_get_None final_alias_def hm_get_insert new_room_def)
qed

section \<open>A concrete wire\<close>

text \<open>A wire that satisfies \<open>wire_ok\<close>: messages numbered by their countable types, written in decimal.\<close>

instance client_role :: countable
  by countable_datatype

instance signaling_payload :: countable
  by countable_datatype

instance client_message :: (countable) countable
  by countable_datatype

instance pake_credential_candidate_ext :: (countable) countable
  by (rule countable_classI [of "\<lambda>c. to_nat (pcc_candidate_id c, pcc_credential_response c,
      pake_credential_candidate.more c)"]) simp

instance server_message :: (countable) countable
  by countable_datatype

definition number_env :: "(byte list, unit, signaling_payload) server_env" where
  "number_env = \<lparr>se_opaque = echo_opaque, se_b64 = echo_b64, se_pake = server_pake_new echo_opaque (),
     se_config = small_config, se_parse = (\<lambda>t. Ok (from_nat (nat_of_dec t)))\<rparr>"

definition number_render :: "signaling_payload server_message \<Rightarrow> string" where
  "number_render m = dec_of_nat (to_nat m)"

definition number_agent :: "(byte list, unit) agent_env" where
  "number_agent = \<lparr>ae_opaque = echo_opaque, ae_b64 = echo_b64,
     ae_parse = (\<lambda>t. case to_agent Some (from_nat (nat_of_dec t)) of None \<Rightarrow> Err [] | Some m \<Rightarrow> Ok m),
     ae_render = (\<lambda>m. Ok (dec_of_nat (to_nat m))), ae_sha256 = (\<lambda>_. [1, 254]), ae_str_debug = id\<rparr>"

lemma number_wire: "wire_ok number_env number_agent number_render id Some"
  by (simp add: wire_ok_def number_env_def number_agent_def number_render_def client_message.map_id)

lemma number_crypto: "same_crypto number_env number_agent ()"
  by (simp add: same_crypto_def number_env_def number_agent_def echo_opaque_correct echo_b64_roundtrip)

definition number_opts :: agent_options where
  "number_opts = \<lparr>server_addr = ''host'', opt_secret_code = ''pw'', opt_alias = None\<rparr>"

definition number_session :: "byte list client_session" where
  "number_session = \<lparr>secret_code = as_bytes ''pw'', registration_state = None, login_state = Some (as_bytes ''pw'')\<rparr>"

definition number_frame :: tung_message where
  "number_frame = frame_of number_agent (PakeInit Agent ''room-01fe'' ''pw'' None)"

definition number_input :: "instant \<Rightarrow> unit auth_input" where
  "number_input now = \<lparr>ai_now = now, ai_rng = (), ai_entropy = Ok (as_bytes ''t''), ai_ip = V4 1, ai_recv = RecvClosed\<rparr>"

definition number_state :: state_inner where
  "number_state = demo_state\<lparr>rooms := [(''room-01fe'', new_room (as_bytes ''pw'') 5)]\<rparr>"

lemma number_handle: "''room-01fe'' = derive_room_handle (ae_sha256 number_agent) (opt_secret_code number_opts)"
proof -
  have "concat (map hex2 [1, 254]) = ''01fe''" by code_simp
  then show ?thesis by (simp add: derive_room_handle_def number_agent_def)
qed

lemma number_trim: "trim (opt_secret_code number_opts) = ''pw''"
  by code_simp

lemma number_start: "agent_start number_agent number_opts () None = Ok (number_session, number_frame)"
proof -
  have sel: "c_login_start (ae_opaque number_agent) () pw = Ok (pw, pw)" "msg_ser (ae_opaque number_agent) = id"
    "c_login_ser (ae_opaque number_agent) = id" "encode (ae_b64 number_agent) (as_bytes ''pw'') = ''pw''"
    "opt_alias number_opts = None" for pw
    by (simp_all add: number_agent_def echo_opaque_def echo_b64_def number_opts_def)
       (code_simp)
  show ?thesis
    by (simp add: agent_start_def client_session_new_def number_trim cs_start_login_def sel
        number_handle [symmetric] wire_send [OF number_wire] number_frame_def number_session_def)
qed

lemma number_registered:
  "registered_file echo_opaque (server_pake_new echo_opaque ()) ident (as_bytes ''pw'') (as_bytes ''pw'')"
  by (simp add: registered_file_def echo_opaque_def)

theorem agent_joins_room_witness:
  "\<exists>s'. duplex_run number_env number_agent number_render
      (map (\<lambda>n. (number_input n, number_state, \<lambda>_ _. ())) [6, 7, 8, 9])
      (duplex_init number_session number_frame number_state) =
    \<lparr>dx_phase = Authenticated ''room-01fe'' Agent None, dx_turn = Waiting, dx_session = s', dx_queue = [],
     dx_state = number_state\<rparr>"
proof -
  have rate: "may_attempt number_env (number_input 6) number_state" by code_simp
  have room: "room_at number_env (number_input 8) number_state ''room-01fe'' = Some (new_room (as_bytes ''pw'') 5)"
    by code_simp
  have known: "registered_file (se_opaque number_env) (se_pake number_env) (as_bytes ''room-01fe'')
      (as_bytes (trim (opt_secret_code number_opts))) (password_file (new_room (as_bytes ''pw'') 5))"
    using number_registered by (simp add: number_trim number_env_def new_room_def)
  have token: "ai_entropy (number_input 8) = Ok (as_bytes ''t'')" by (simp add: number_input_def)
  have [simp]: "clean_alias (opt_alias number_opts) = None" by code_simp
  from agent_joins_room [OF number_wire number_crypto number_start number_handle rate room known token,
      of "\<lambda>_ _. ()" "number_input 7" number_state "\<lambda>_ _. ()" "\<lambda>_ _. ()" "number_input 9" number_state "\<lambda>_ _. ()"
        number_state]
  show ?thesis by simp
qed

theorem agent_opens_room_witness:
  "\<exists>s' st' room. duplex_run number_env number_agent number_render
      (map (\<lambda>n. (number_input n, demo_state, \<lambda>_ _. ())) [6, 7, 8, 9, 10, 11, 12, 13])
      (duplex_init number_session number_frame demo_state) =
    \<lparr>dx_phase = Authenticated ''room-01fe'' Agent None, dx_turn = Waiting, dx_session = s', dx_queue = [],
     dx_state = st'\<rparr> \<and>
    hm_get (rooms st') ''room-01fe'' = Some room \<and>
    registered_file echo_opaque (server_pake_new echo_opaque ()) (as_bytes ''room-01fe'') (as_bytes ''pw'')
      (password_file room)"
proof -
  let ?w = "\<lambda>_ _. ()" and ?i = number_input and ?st = demo_state
  have len: "length (trim (opt_secret_code number_opts)) \<le> 65535" by (simp add: number_trim)
  have rate: "may_attempt number_env (?i 6) ?st" by code_simp
  have room: "room_at number_env (?i 8) ?st ''room-01fe'' = None" "has_capacity number_env (?i 9) ?st"
      "room_at number_env (?i 13) ?st ''room-01fe'' = None" "has_capacity number_env (?i 13) ?st"
    by code_simp+
  have allow: "allow_agent_room_creation (se_config number_env)" by code_simp
  have token: "ai_entropy (?i 11) = Ok (as_bytes ''t'')" by (simp add: number_input_def)
  have [simp]: "clean_alias (opt_alias number_opts) = None" by code_simp
  from agent_opens_room [OF number_wire number_crypto number_start len number_handle rate room(1,2) allow token
      room(3,4), of ?w "?i 7" ?st ?w ?w ?w "?i 10" ?st ?w ?st ?w "?i 12" ?st ?w ?w ?st]
  show ?thesis by (simp add: number_trim) (simp add: number_env_def)
qed

end
