(* ===== verification/Vte.thy ===== *)
theory Vte
  imports Prelude "HOL-Library.Monad_Syntax"
begin

text \<open>
  What the two terminal models of the program share: the events of the \<^verbatim>\<open>vte\<close> parser, its numeric
  parameters, loops over ranges of indices in which an index out of bounds is a panic (\<open>None\<close>), and
  the contract of a performer that consumes events. The parser itself is a parameter: a function
  from its state and a chunk of bytes to events and its new state.
\<close>

section \<open>Events\<close>

text \<open>A \<^verbatim>\<open>char\<close> is a Unicode scalar value, kept as its number.\<close>

type_synonym uchar = nat

type_synonym params = "nat list list"

datatype vte_event =
    VtePrint uchar
  | VteExecute nat
  | VteHook
  | VtePut nat
  | VteUnhook
  | VteOsc
  | VteCsi params "char list" bool char
  | VteEsc "char list" bool char

type_synonym 'p vte_parser = "'p \<Rightarrow> byte list \<Rightarrow> vte_event list \<times> 'p"

text \<open>\<^verbatim>\<open>params.iter().nth(index).and_then(|p| p.first().copied()).unwrap_or(default)\<close>, with 0 read as the
  default.\<close>

definition param_value :: "params \<Rightarrow> nat \<Rightarrow> nat option" where
  "param_value ps i =
     (if i < length ps then (case ps ! i of [] \<Rightarrow> None | v # _ \<Rightarrow> Some v) else None)"

definition param_at :: "params \<Rightarrow> nat \<Rightarrow> nat \<Rightarrow> nat" where
  "param_at ps i dflt =
     (let value = (case param_value ps i of Some v \<Rightarrow> v | None \<Rightarrow> dflt) in if value = 0 then dflt else value)"

definition param_count :: "params \<Rightarrow> nat \<Rightarrow> nat" where
  "param_count ps dflt = param_at ps 0 dflt"

lemma param_at_empty [simp]: "param_at [] i d = d"
  by (simp add: param_at_def param_value_def)

section \<open>Loops that may panic\<close>

fun each :: "('a \<Rightarrow> 's \<Rightarrow> 's option) \<Rightarrow> 'a list \<Rightarrow> 's \<Rightarrow> 's option" where
  "each f [] s = Some s"
| "each f (x # xs) s = (case f x s of None \<Rightarrow> None | Some s' \<Rightarrow> each f xs s')"

lemma each_append: "each f (xs @ ys) s = (case each f xs s of None \<Rightarrow> None | Some s' \<Rightarrow> each f ys s')"
  by (induction xs arbitrary: s) (auto split: option.splits)

text \<open>A loop whose body never panics and keeps an invariant.\<close>

lemma each_inv:
  assumes "P s" and "\<And>x s. x \<in> set xs \<Longrightarrow> P s \<Longrightarrow> \<exists>s'. f x s = Some s' \<and> P s'"
  shows "\<exists>s'. each f xs s = Some s' \<and> P s'"
  using assms
proof (induction xs arbitrary: s)
  case (Cons x xs)
  then obtain s' where "f x s = Some s'" "P s'" by (metis list.set_intros(1))
  with Cons show ?case by auto
qed simp

lemma each_upt_inv:
  assumes "P 0 s" and "\<And>k s. k < n \<Longrightarrow> P k s \<Longrightarrow> \<exists>s'. f k s = Some s' \<and> P (Suc k) s'"
  shows "\<exists>s'. each f [0..<n] s = Some s' \<and> P n s'"
  using assms(2)
proof (induction n)
  case (Suc n)
  then obtain s' where "each f [0..<n] s = Some s'" "P n s'" by force
  with Suc.prems [of n s'] show ?case by (auto simp: each_append)
qed (use assms(1) in simp)

lemma each_Some: "each (\<lambda>x s. Some (f x s)) xs s = Some (fold f xs s)"
  by (induction xs arbitrary: s) auto

section \<open>Arrays\<close>

definition get_at :: "'a list \<Rightarrow> nat \<Rightarrow> 'a option" where
  "get_at xs i = (if i < length xs then Some (xs ! i) else None)"

definition put_at :: "nat \<Rightarrow> 'a \<Rightarrow> 'a list \<Rightarrow> 'a list option" where
  "put_at i v xs = (if i < length xs then Some (xs[i := v]) else None)"

definition copy_at :: "nat \<Rightarrow> nat \<Rightarrow> 'a list \<Rightarrow> 'a list option" where
  "copy_at src dst xs = (case get_at xs src of None \<Rightarrow> None | Some v \<Rightarrow> put_at dst v xs)"

lemma get_at_ok [simp]: "i < length xs \<Longrightarrow> get_at xs i = Some (xs ! i)"
  by (simp add: get_at_def)

lemma put_at_ok [simp]: "i < length xs \<Longrightarrow> put_at i v xs = Some (xs[i := v])"
  by (simp add: put_at_def)

lemma copy_at_ok [simp]: "i < length xs \<Longrightarrow> j < length xs \<Longrightarrow> copy_at i j xs = Some (xs[j := xs ! i])"
  by (simp add: copy_at_def)

text \<open>\<^verbatim>\<open>for i in lo..hi { xs[i] = v }\<close>, and moving a range down or up by \<open>k\<close> places.\<close>

definition fill :: "nat \<Rightarrow> nat \<Rightarrow> 'a \<Rightarrow> 'a list \<Rightarrow> 'a list option" where
  "fill lo hi v xs = each (\<lambda>i. put_at i v) [lo..<hi] xs"

definition move_down :: "nat \<Rightarrow> nat \<Rightarrow> nat \<Rightarrow> 'a list \<Rightarrow> 'a list option" where
  "move_down k lo hi xs = each (\<lambda>i. copy_at (i + k) i) [lo..<hi] xs"

definition move_up :: "nat \<Rightarrow> nat \<Rightarrow> nat \<Rightarrow> 'a list \<Rightarrow> 'a list option" where
  "move_up k lo hi xs = each (\<lambda>i. copy_at i (i + k)) (rev [lo..<hi]) xs"

lemma fill_spec:
  assumes "hi \<le> length xs"
  shows "\<exists>ys. fill lo hi v xs = Some ys \<and> length ys = length xs \<and>
    (\<forall>i < length xs. ys ! i = (if lo \<le> i \<and> i < hi then v else xs ! i))"
  using assms
proof (induction hi)
  case (Suc hi)
  then obtain ys where "fill lo hi v xs = Some ys" "length ys = length xs"
      "\<forall>i < length xs. ys ! i = (if lo \<le> i \<and> i < hi then v else xs ! i)" by auto
  with Suc.prems show ?case
    by (cases "lo \<le> hi") (auto simp: fill_def each_append nth_list_update)
qed (simp add: fill_def)

lemma move_down_spec:
  assumes "hi + k \<le> length xs"
  shows "\<exists>ys. move_down k lo hi xs = Some ys \<and> length ys = length xs \<and>
    (\<forall>i < length xs. ys ! i = (if lo \<le> i \<and> i < hi then xs ! (i + k) else xs ! i))"
  using assms
proof (induction hi)
  case (Suc hi)
  then obtain ys where y: "move_down k lo hi xs = Some ys" "length ys = length xs"
      "\<And>i. i < length xs \<Longrightarrow> ys ! i = (if lo \<le> i \<and> i < hi then xs ! (i + k) else xs ! i)" by auto
  show ?case
  proof (cases "lo \<le> hi")
    case True
    have "ys ! (hi + k) = xs ! (hi + k)" using y(3) Suc.prems by simp
    then have "move_down k lo (Suc hi) xs = Some (ys[hi := xs ! (hi + k)])"
      using True y(1,2) Suc.prems by (simp add: move_down_def each_append)
    then show ?thesis using y(2,3) Suc.prems True by (auto simp: nth_list_update less_Suc_eq)
  next
    case False
    then have "move_down k lo (Suc hi) xs = Some ys" using y(1) by (simp add: move_down_def)
    with y(2,3) False show ?thesis by (intro exI [of _ ys]) auto
  qed
qed (simp add: move_down_def)

lemma move_up_spec:
  assumes "hi + k \<le> length xs"
  shows "\<exists>ys. move_up k lo hi xs = Some ys \<and> length ys = length xs \<and>
    (\<forall>i < length xs. ys ! i = (if lo + k \<le> i \<and> i < hi + k then xs ! (i - k) else xs ! i))"
  using assms
proof (induction "hi - lo" arbitrary: hi xs)
  case (Suc n)
  then obtain h where h: "hi = Suc h" "lo \<le> h" "n = h - lo" by (cases hi) auto
  let ?xs = "xs[h + k := xs ! h]"
  obtain ys where "move_up k lo h ?xs = Some ys" "length ys = length xs"
      "\<forall>i < length xs. ys ! i = (if lo + k \<le> i \<and> i < h + k then ?xs ! (i - k) else ?xs ! i)"
    using Suc.hyps(1) [of h ?xs] h Suc.prems by auto
  moreover have "copy_at h (h + k) xs = Some ?xs" using Suc.prems h(1) by simp
  ultimately show ?case
    using Suc.prems h by (auto simp: move_up_def nth_list_update less_Suc_eq)
qed (auto simp: move_up_def)

section \<open>Performers\<close>

text \<open>The state machines behind a parser: every event is handled without a panic and keeps the
  performer's invariant, so whole chunks are, whatever events the parser makes of them. The
  cursor of a performer that has one stays on its screen.\<close>

definition perform_all :: "(vte_event \<Rightarrow> 's \<Rightarrow> 's option) \<Rightarrow> vte_event list \<Rightarrow> 's \<Rightarrow> 's option" where
  "perform_all perform es s = each perform es s"

locale performer =
  fixes perform :: "vte_event \<Rightarrow> 's \<Rightarrow> 's option" and ok :: "'s \<Rightarrow> bool"
  assumes perform_ok: "ok s \<Longrightarrow> \<exists>s'. perform e s = Some s' \<and> ok s'"
begin

lemma perform_all_ok: "ok s \<Longrightarrow> \<exists>s'. perform_all perform es s = Some s' \<and> ok s'"
  unfolding perform_all_def by (rule each_inv) (auto intro: perform_ok)

end

locale screen = performer perform ok for perform :: "vte_event \<Rightarrow> 's \<Rightarrow> 's option" and ok +
  fixes cursor :: "'s \<Rightarrow> nat \<times> nat" and size :: "'s \<Rightarrow> nat \<times> nat"
  assumes cursor_on_screen: "ok s \<Longrightarrow> fst (cursor s) < fst (size s) \<and> snd (cursor s) < snd (size s)"
    and size_fixed: "ok s \<Longrightarrow> perform e s = Some s' \<Longrightarrow> size s' = size s"
begin

lemma perform_all_cursor:
  assumes "ok s" and "perform_all perform es s = Some s'"
  shows "fst (cursor s') < fst (size s) \<and> snd (cursor s') < snd (size s) \<and> size s' = size s"
proof -
  have "\<exists>t. each perform es s = Some t \<and> ok t \<and> size t = size s"
    by (rule each_inv [of "\<lambda>t. ok t \<and> size t = size s"]) (use assms(1) perform_ok size_fixed in fastforce)+
  then show ?thesis using assms(2) cursor_on_screen by (fastforce simp: perform_all_def)
qed

end

end
