(* ===== verification/Pty_Terminal.thy ===== *)
theory Pty_Terminal
  imports Vte
begin

text \<open>
  The cursor tracker of the host, \<^verbatim>\<open>mitb-host/src/terminal_state.rs\<close>: it follows the output of the
  child's terminal closely enough to answer cursor position requests.
\<close>

section \<open>State and operations\<close>

record pty_terminal =
  pt_cursor_row :: nat
  pt_cursor_col :: nat
  pt_rows :: nat
  pt_cols :: nat
  pt_saved_cursor :: "nat \<times> nat"
  pt_pending_responses :: "string list"

definition pty_terminal_new :: "nat \<Rightarrow> nat \<Rightarrow> pty_terminal" where
  "pty_terminal_new cols rows =
     \<lparr>pt_cursor_row = 0, pt_cursor_col = 0, pt_rows = max rows 1, pt_cols = max cols 1,
      pt_saved_cursor = (0, 0), pt_pending_responses = []\<rparr>"

definition pt_linefeed :: "pty_terminal \<Rightarrow> pty_terminal" where
  "pt_linefeed s = s\<lparr>pt_cursor_row := min (pt_cursor_row s + 1) (pt_rows s - 1)\<rparr>"

definition is_control :: "uchar \<Rightarrow> bool" where
  "is_control c \<longleftrightarrow> c < 32 \<or> (127 \<le> c \<and> c < 160)"

text \<open>\<^verbatim>\<open>!c.is_ascii() && c.len_utf8() > 1\<close>: the UTF-8 length is more than one exactly from 128 on.\<close>

definition char_is_wide :: "uchar \<Rightarrow> bool" where
  "char_is_wide c \<longleftrightarrow> \<not> c < 128 \<and> 128 \<le> c"

definition pt_put_char :: "uchar \<Rightarrow> pty_terminal \<Rightarrow> pty_terminal" where
  "pt_put_char c s =
     (if is_control c then s
      else let col = pt_cursor_col s + (if char_is_wide c then 2 else 1) in
        if col \<ge> pt_cols s then pt_linefeed (s\<lparr>pt_cursor_col := 0\<rparr>)
        else s\<lparr>pt_cursor_col := col\<rparr>)"

definition cursor_report :: "nat \<Rightarrow> nat \<Rightarrow> string" where
  "cursor_report row col = [CHR 0x1B, CHR 0x5B] @ dec_of_nat row @ '';'' @ dec_of_nat col @ ''R''"

definition enqueue_cursor_report :: "pty_terminal \<Rightarrow> pty_terminal" where
  "enqueue_cursor_report s =
     s\<lparr>pt_pending_responses := pt_pending_responses s @
        [cursor_report (sat_add (pt_cursor_row s) 1) (sat_add (pt_cursor_col s) 1)]\<rparr>"

definition pt_execute :: "nat \<Rightarrow> pty_terminal \<Rightarrow> pty_terminal" where
  "pt_execute b s =
     (if b = 10 then pt_linefeed s
      else if b = 13 then s\<lparr>pt_cursor_col := 0\<rparr>
      else if b = 9 then s\<lparr>pt_cursor_col := min ((pt_cursor_col s + 8) div 8 * 8) (pt_cols s - 1)\<rparr>
      else if b = 8 then s\<lparr>pt_cursor_col := pt_cursor_col s - 1\<rparr>
      else s)"

definition pt_restore_cursor :: "pty_terminal \<Rightarrow> pty_terminal" where
  "pt_restore_cursor s =
     s\<lparr>pt_cursor_row := min (fst (pt_saved_cursor s)) (pt_rows s - 1),
       pt_cursor_col := min (snd (pt_saved_cursor s)) (pt_cols s - 1)\<rparr>"

definition pt_save_cursor :: "pty_terminal \<Rightarrow> pty_terminal" where
  "pt_save_cursor s = s\<lparr>pt_saved_cursor := (pt_cursor_row s, pt_cursor_col s)\<rparr>"

definition pt_csi_dispatch :: "params \<Rightarrow> char list \<Rightarrow> char \<Rightarrow> pty_terminal \<Rightarrow> pty_terminal" where
  "pt_csi_dispatch ps im action s =
     (let n = param_count ps 1; last_row = pt_rows s - 1; last_col = pt_cols s - 1 in
      if action = CHR ''A'' then s\<lparr>pt_cursor_row := pt_cursor_row s - n\<rparr>
      else if action = CHR ''B'' then s\<lparr>pt_cursor_row := min (pt_cursor_row s + n) last_row\<rparr>
      else if action = CHR ''C'' then s\<lparr>pt_cursor_col := min (pt_cursor_col s + n) last_col\<rparr>
      else if action = CHR ''D'' then s\<lparr>pt_cursor_col := pt_cursor_col s - n\<rparr>
      else if action = CHR ''E'' then s\<lparr>pt_cursor_row := min (pt_cursor_row s + n) last_row, pt_cursor_col := 0\<rparr>
      else if action = CHR ''F'' then s\<lparr>pt_cursor_row := pt_cursor_row s - n, pt_cursor_col := 0\<rparr>
      else if action = CHR ''G'' then s\<lparr>pt_cursor_col := min (param_at ps 0 1 - 1) last_col\<rparr>
      else if action = CHR ''H'' \<or> action = CHR ''f''
      then s\<lparr>pt_cursor_row := min (param_at ps 0 1 - 1) last_row, pt_cursor_col := min (param_at ps 1 1 - 1) last_col\<rparr>
      else if action = CHR ''d'' then s\<lparr>pt_cursor_row := min (param_at ps 0 1 - 1) last_row\<rparr>
      else if action = CHR ''n''
      then (if im = [] \<and> param_at ps 0 0 = 6 then enqueue_cursor_report s else s)
      else if action = CHR ''s'' then pt_save_cursor s
      else if action = CHR ''u'' then pt_restore_cursor s
      else s)"

definition pt_esc_dispatch :: "char list \<Rightarrow> char \<Rightarrow> pty_terminal \<Rightarrow> pty_terminal" where
  "pt_esc_dispatch im b s =
     (if im \<noteq> [] then s
      else if b = CHR ''7'' then pt_save_cursor s
      else if b = CHR ''8'' then pt_restore_cursor s
      else if b = CHR ''D'' then pt_linefeed s
      else if b = CHR ''E'' then (pt_linefeed s)\<lparr>pt_cursor_col := 0\<rparr>
      else s)"

fun pt_perform :: "vte_event \<Rightarrow> pty_terminal \<Rightarrow> pty_terminal" where
  "pt_perform (VtePrint c) s = pt_put_char c s"
| "pt_perform (VteExecute b) s = pt_execute b s"
| "pt_perform (VteCsi ps im ignore action) s = pt_csi_dispatch ps im action s"
| "pt_perform (VteEsc im ignore b) s = pt_esc_dispatch im b s"
| "pt_perform _ s = s"

definition pt_feed ::
  "'p vte_parser \<Rightarrow> byte list \<Rightarrow> 'p \<times> pty_terminal \<Rightarrow> string list \<times> 'p \<times> pty_terminal" where
  "pt_feed parser bytes ps =
     (let (es, p) = parser (fst ps) bytes; s = fold pt_perform es (snd ps)
      in (pt_pending_responses s, p, s\<lparr>pt_pending_responses := []\<rparr>))"

section \<open>The cursor stays on the screen\<close>

definition pt_ok :: "pty_terminal \<Rightarrow> bool" where
  "pt_ok s \<longleftrightarrow> pt_cursor_row s < pt_rows s \<and> pt_cursor_col s < pt_cols s"

lemmas pt_defs = pt_put_char_def pt_execute_def pt_csi_dispatch_def pt_esc_dispatch_def pt_linefeed_def
  pt_restore_cursor_def pt_save_cursor_def enqueue_cursor_report_def

lemma pt_new_ok: "pt_ok (pty_terminal_new cols rows)"
  by (simp add: pt_ok_def pty_terminal_new_def less_max_iff_disj)

text \<open>An operation that keeps the cursor on the screen and the size of the screen.\<close>

definition pt_keeps :: "pty_terminal \<Rightarrow> pty_terminal \<Rightarrow> bool" where
  "pt_keeps s s' \<longleftrightarrow> pt_ok s' \<and> pt_rows s' = pt_rows s \<and> pt_cols s' = pt_cols s"

lemma pt_keeps_basic [inv_intros]:
  assumes "pt_ok s"
  shows "pt_keeps s s" "pt_keeps s (pt_linefeed s)" "pt_keeps s (pt_save_cursor s)" "pt_keeps s (pt_restore_cursor s)"
    "pt_keeps s (enqueue_cursor_report s)" "pt_keeps s ((pt_linefeed s)\<lparr>pt_cursor_col := 0\<rparr>)"
    "row < pt_rows s \<Longrightarrow> pt_keeps s (s\<lparr>pt_cursor_row := row\<rparr>)"
    "col < pt_cols s \<Longrightarrow> pt_keeps s (s\<lparr>pt_cursor_col := col\<rparr>)"
    "row < pt_rows s \<Longrightarrow> col < pt_cols s \<Longrightarrow> pt_keeps s (s\<lparr>pt_cursor_row := row, pt_cursor_col := col\<rparr>)"
    "pt_keeps s (pt_linefeed (s\<lparr>pt_cursor_col := 0\<rparr>))"
  using assms
  by (simp_all add: pt_keeps_def pt_ok_def pt_linefeed_def pt_save_cursor_def pt_restore_cursor_def
      enqueue_cursor_report_def min_less_iff_disj)

lemma pt_last: "pt_ok s \<Longrightarrow> min x (pt_rows s - 1) < pt_rows s" "pt_ok s \<Longrightarrow> min x (pt_cols s - 1) < pt_cols s"
    "pt_ok s \<Longrightarrow> pt_cursor_row s - n < pt_rows s" "pt_ok s \<Longrightarrow> pt_cursor_col s - n < pt_cols s"
    "pt_ok s \<Longrightarrow> 0 < pt_cols s" "pt_ok s \<Longrightarrow> min x (pt_rows s - Suc 0) < pt_rows s"
    "pt_ok s \<Longrightarrow> min x (pt_cols s - Suc 0) < pt_cols s"
  by (simp_all add: pt_ok_def min_less_iff_disj less_imp_diff_less)

lemma pt_csi_keeps: "pt_ok s \<Longrightarrow> pt_keeps s (pt_csi_dispatch ps im a s)"
  unfolding pt_csi_dispatch_def Let_def by (simp add: pt_keeps_basic pt_last)

lemma pt_perform_keeps:
  assumes "pt_ok s"
  shows "pt_keeps s (pt_perform e s)"
  using assms
  by (cases e) (simp_all add: pt_csi_keeps pt_keeps_basic pt_last pt_put_char_def pt_execute_def pt_esc_dispatch_def Let_def)

lemma pt_perform_ok:
  assumes "pt_ok s"
  shows "pt_ok (pt_perform e s) \<and> pt_rows (pt_perform e s) = pt_rows s \<and> pt_cols (pt_perform e s) = pt_cols s"
  using pt_perform_keeps [OF assms] by (simp add: pt_keeps_def)

interpretation pty: screen "\<lambda>e s. Some (pt_perform e s)" pt_ok
  "\<lambda>s. (pt_cursor_row s, pt_cursor_col s)" "\<lambda>s. (pt_rows s, pt_cols s)"
  by unfold_locales (simp_all add: pt_perform_ok, auto simp: pt_ok_def pt_perform_ok)

text \<open>A request for the cursor position.\<close>

fun is_cursor_request :: "vte_event \<Rightarrow> bool" where
  "is_cursor_request (VteCsi ps im ignore action) \<longleftrightarrow>
     action = CHR ''n'' \<and> im = [] \<and> param_at ps 0 0 = 6"
| "is_cursor_request _ \<longleftrightarrow> False"

lemma pt_perform_pending:
  "pt_pending_responses (pt_perform e s) = pt_pending_responses s @
     (if is_cursor_request e
      then [cursor_report (sat_add (pt_cursor_row s) 1) (sat_add (pt_cursor_col s) 1)] else [])"
  by (cases e) (simp_all add: pt_defs Let_def)

definition valid_report :: "nat \<Rightarrow> nat \<Rightarrow> string \<Rightarrow> bool" where
  "valid_report rows cols r \<longleftrightarrow>
     (\<exists>row col. r = cursor_report row col \<and> 1 \<le> row \<and> row \<le> rows \<and> 1 \<le> col \<and> col \<le> cols)"

lemma valid_report_here: "pt_ok s \<Longrightarrow>
  valid_report (pt_rows s) (pt_cols s) (cursor_report (sat_add (pt_cursor_row s) 1) (sat_add (pt_cursor_col s) 1))"
  unfolding valid_report_def
  by (intro exI conjI, rule refl) (auto simp: pt_ok_def sat_add_def u64_max_def)

lemma fold_perform_reports:
  assumes "pt_ok s"
  shows "\<exists>rs. pt_pending_responses (fold pt_perform es s) = pt_pending_responses s @ rs \<and>
    length rs = length (filter is_cursor_request es) \<and> list_all (valid_report (pt_rows s) (pt_cols s)) rs"
  using assms
proof (induction es arbitrary: s)
  case (Cons e es)
  let ?s = "pt_perform e s"
  note ok = pt_perform_ok [OF Cons.prems, of e]
  obtain rs where "pt_pending_responses (fold pt_perform es ?s) = pt_pending_responses ?s @ rs"
      "length rs = length (filter is_cursor_request es)" "list_all (valid_report (pt_rows s) (pt_cols s)) rs"
    using Cons.IH [of ?s] ok by auto
  then show ?case
    using valid_report_here [OF Cons.prems] by (auto simp: pt_perform_pending)
qed simp

text \<open>Every cursor position request is answered, once and with a position on the screen: whatever
  the parser makes of a chunk of output, the responses are as many as the requests among its
  events, each is a well-formed report within the screen, and none is left over.\<close>

theorem cursor_requests_answered:
  assumes "pt_ok s" and "pt_pending_responses s = []" and "pt_feed parser bytes (p, s) = (rs, p', s')"
  shows "length rs = length (filter is_cursor_request (fst (parser p bytes))) \<and>
    list_all (valid_report (pt_rows s) (pt_cols s)) rs \<and>
    pt_ok s' \<and> pt_pending_responses s' = [] \<and> pt_rows s' = pt_rows s \<and> pt_cols s' = pt_cols s"
proof -
  let ?es = "fst (parser p bytes)"
  have fold: "perform_all (\<lambda>e s. Some (pt_perform e s)) ?es s = Some (fold pt_perform ?es s)"
    by (simp add: perform_all_def each_Some)
  have "pt_ok (fold pt_perform ?es s)" using pty.perform_all_ok [OF assms(1)] fold by (metis option.inject)
  moreover have "(pt_rows (fold pt_perform ?es s), pt_cols (fold pt_perform ?es s)) = (pt_rows s, pt_cols s)"
    using pty.perform_all_cursor [OF assms(1) fold] by blast
  moreover obtain rs' where "pt_pending_responses (fold pt_perform ?es s) = rs'"
      "length rs' = length (filter is_cursor_request ?es)" "list_all (valid_report (pt_rows s) (pt_cols s)) rs'"
    using fold_perform_reports [OF assms(1), of ?es] assms(2) by auto
  ultimately show ?thesis
    using assms(3) by (auto simp: pt_feed_def Let_def case_prod_unfold pt_ok_def)
qed

theorem cursor_requests_answered_witness:
  "case pt_feed (\<lambda>p _. ([VtePrint 65, VteCsi [[6]] [] False CHR ''n''], p)) [] ((), pty_terminal_new 80 24) of
     (rs, p', s') \<Rightarrow> rs = [[CHR 0x1B, CHR 0x5B] @ ''1;2R''] \<and> list_all (valid_report 24 80) rs \<and> pt_ok s'"
proof -
  let ?P = "\<lambda>p (_ :: byte list). ([VtePrint 65, VteCsi [[6]] [] False CHR ''n''], p :: unit)"
  obtain rs p' s' where f: "pt_feed ?P [] ((), pty_terminal_new 80 24) = (rs, p', s')" by (metis prod.collapse)
  have "cursor_report (Suc 0) (Suc (Suc 0)) = [CHR 0x1B, CHR 0x5B] @ ''1;2R''" by code_simp
  then have "rs = [[CHR 0x1B, CHR 0x5B] @ ''1;2R'']"
    using f by (auto simp: pt_feed_def pty_terminal_new_def pt_defs is_control_def char_is_wide_def param_count_def
        param_at_def param_value_def sat_add_def u64_max_def)
  moreover have "list_all (valid_report 24 80) rs \<and> pt_ok s'"
    using cursor_requests_answered [OF pt_new_ok _ f] by (simp add: pty_terminal_new_def)
  ultimately show ?thesis unfolding f by simp
qed

end
