(* ===== verification/Transcript.thy ===== *)
theory Transcript
  imports Pty_Terminal
begin

text \<open>
  The transcript of the child's terminal and the input and output of its pseudo terminal,
  \<^verbatim>\<open>mitb-host/src/transcript.rs\<close> and \<^verbatim>\<open>mitb-host/src/pty_io.rs\<close>. The transcript is a window on the end
  of everything the child ever wrote, shared between the thread that reads the terminal and the
  policy that polls it; a poisoned lock is the value \<open>None\<close>. The device is a parameter: what a read
  returns is a list of results, and writing is a function that may fail.
\<close>

section \<open>Errors\<close>

datatype host_error =
    HostIo string
  | HostWasmtime string
  | HostJoin string
  | HostPolicy string
  | HostAgent string
  | PoisonedLock string
  | MissingExport string

section \<open>The transcript\<close>

record transcript_buffer =
  tr_start :: nat
  tr_bytes :: "byte list"

type_synonym shared_transcript = "transcript_buffer option"

definition transcript_head :: "shared_transcript \<Rightarrow> host_error + nat" where
  "transcript_head t =
     (case t of
        None \<Rightarrow> Err (PoisonedLock ''transcript'')
      | Some t \<Rightarrow> Ok (sat_add (tr_start t) (length (tr_bytes t))))"

definition transcript_snapshot_bytes :: "shared_transcript \<Rightarrow> nat \<Rightarrow> host_error + byte list" where
  "transcript_snapshot_bytes t max_bytes =
     (case t of
        None \<Rightarrow> Err (PoisonedLock ''transcript'')
      | Some t \<Rightarrow>
          let keep = min (length (tr_bytes t)) max_bytes; start_index = length (tr_bytes t) - keep
          in Ok (drop start_index (tr_bytes t)))"

definition transcript_bytes_since :: "shared_transcript \<Rightarrow> nat \<Rightarrow> nat \<Rightarrow> host_error + nat \<times> byte list" where
  "transcript_bytes_since t cursor max_bytes =
     (case t of
        None \<Rightarrow> Err (PoisonedLock ''transcript'')
      | Some t \<Rightarrow>
          let available_start = tr_start t;
              available_end = sat_add (tr_start t) (length (tr_bytes t));
              start = min (max cursor available_start) available_end;
              offset = start - available_start;
              keep = min (length (tr_bytes t) - offset) max_bytes;
              bytes = take keep (drop offset (tr_bytes t))
          in Ok (sat_add start (length bytes), bytes))"

definition trim_transcript :: "nat \<Rightarrow> transcript_buffer \<Rightarrow> transcript_buffer" where
  "trim_transcript max_bytes t =
     (if length (tr_bytes t) > max_bytes
      then let overflow = length (tr_bytes t) - max_bytes
           in \<lparr>tr_start = sat_add (tr_start t) overflow, tr_bytes = drop overflow (tr_bytes t)\<rparr>
      else t)"

section \<open>The pseudo terminal\<close>

text \<open>The device behind the writer's lock: writing and flushing may fail with an I/O error.\<close>

record 'w writer_ops =
  wo_write_all :: "byte list \<Rightarrow> 'w \<Rightarrow> (string + unit) \<times> 'w"
  wo_flush :: "'w \<Rightarrow> (string + unit) \<times> 'w"

type_synonym 'w pty_writer = "'w option"

definition write_payload_blocking ::
  "'w writer_ops \<Rightarrow> byte list \<Rightarrow> 'w pty_writer \<Rightarrow> (host_error + unit) \<times> 'w pty_writer" where
  "write_payload_blocking W payload w =
     (case w of
        None \<Rightarrow> (Err (PoisonedLock ''writer''), w)
      | Some d \<Rightarrow>
          (case wo_write_all W payload d of
             (Inl e, d) \<Rightarrow> (Err (HostIo e), Some d)
           | (Inr _, d) \<Rightarrow>
               (case wo_flush W d of
                  (Inl e, d) \<Rightarrow> (Err (HostIo e), Some d)
                | (Inr _, d) \<Rightarrow> (Ok (), Some d))))"

fun write_responses ::
  "'w writer_ops \<Rightarrow> string list \<Rightarrow> 'w pty_writer \<Rightarrow> (host_error + unit) \<times> 'w pty_writer" where
  "write_responses W [] w = (Ok (), w)"
| "write_responses W (r # rs) w =
     (case write_payload_blocking W (as_bytes r) w of
        (Inl e, w) \<Rightarrow> (Err e, w)
      | (Inr _, w) \<Rightarrow> write_responses W rs w)"

datatype host_event = TerminalOutput "byte list" | SessionEnded string | Disconnected

text \<open>What one call of the reader returns.\<close>

datatype read_result = ReadEof | ReadBytes "byte list" | ReadInterrupted | ReadError string

record ('p, 'w) pty_io =
  io_parser :: 'p
  io_terminal :: pty_terminal
  io_writer :: "'w pty_writer"
  io_transcript :: shared_transcript
  io_events :: "host_event list"

text \<open>One chunk: the answers to position requests, the event, the transcript.\<close>

definition pty_chunk ::
  "'p vte_parser \<Rightarrow> 'w writer_ops \<Rightarrow> nat \<Rightarrow> bool \<Rightarrow> byte list \<Rightarrow> ('p, 'w) pty_io \<Rightarrow> (host_error + unit) \<times> ('p, 'w) pty_io" where
  "pty_chunk parser W max_bytes listening chunk s =
     (let (responses, p, term) = pt_feed parser chunk (io_parser s, io_terminal s);
          s = s\<lparr>io_parser := p, io_terminal := term\<rparr>
      in case write_responses W responses (io_writer s) of
           (Inl e, w) \<Rightarrow> (Err e, s\<lparr>io_writer := w\<rparr>)
         | (Inr _, w) \<Rightarrow>
             let s = s\<lparr>io_writer := w\<rparr>;
                 s = (if listening then s\<lparr>io_events := io_events s @ [TerminalOutput chunk]\<rparr> else s)
             in (case io_transcript s of
                   None \<Rightarrow> (Err (PoisonedLock ''transcript''), s)
                 | Some t \<Rightarrow>
                     (Ok (), s\<lparr>io_transcript :=
                        Some (trim_transcript max_bytes (t\<lparr>tr_bytes := tr_bytes t @ chunk\<rparr>))\<rparr>)))"

text \<open>The reading loop over the results of its reads; \<open>None\<close> while it has not returned yet.\<close>

fun read_pty_output ::
  "'p vte_parser \<Rightarrow> 'w writer_ops \<Rightarrow> nat \<Rightarrow> bool \<Rightarrow> read_result list \<Rightarrow> ('p, 'w) pty_io \<Rightarrow>
     (host_error + unit) option \<times> ('p, 'w) pty_io" where
  "read_pty_output parser W max_bytes listening [] s = (None, s)"
| "read_pty_output parser W max_bytes listening (r # rs) s =
     (case r of
        ReadEof \<Rightarrow> (Some (Ok ()), s)
      | ReadInterrupted \<Rightarrow> read_pty_output parser W max_bytes listening rs s
      | ReadError e \<Rightarrow> (Some (Err (HostIo e)), s)
      | ReadBytes chunk \<Rightarrow>
          (case pty_chunk parser W max_bytes listening chunk s of
             (Inl e, s) \<Rightarrow> (Some (Err e), s)
           | (Inr _, s) \<Rightarrow> read_pty_output parser W max_bytes listening rs s))"

section \<open>Inputs of the policy\<close>

datatype key = Enter | Tab | Backspace | Escape | ArrowUp | ArrowDown | ArrowLeft | ArrowRight | CtrlC | CtrlD

datatype pty_input = InputText string | InputKey key

fun key_bytes :: "key \<Rightarrow> byte list" where
  "key_bytes Enter = [13]"
| "key_bytes Tab = [9]"
| "key_bytes Backspace = [127]"
| "key_bytes Escape = [27]"
| "key_bytes ArrowUp = [27, 91, 65]"
| "key_bytes ArrowDown = [27, 91, 66]"
| "key_bytes ArrowLeft = [27, 91, 68]"
| "key_bytes ArrowRight = [27, 91, 67]"
| "key_bytes CtrlC = [3]"
| "key_bytes CtrlD = [4]"

definition TEXT_CHUNK_BYTES :: nat where
  "TEXT_CHUNK_BYTES = 96"

definition TEXT_CHUNK_DELAY :: duration where
  "TEXT_CHUNK_DELAY = from_millis 20"

definition KEY_DELAY_AFTER_TEXT :: duration where
  "KEY_DELAY_AFTER_TEXT = from_millis 250"

definition ENTER_DELAY_AFTER_TEXT :: duration where
  "ENTER_DELAY_AFTER_TEXT = from_millis 700"

definition KEY_DELAY_BETWEEN_KEYS :: duration where
  "KEY_DELAY_BETWEEN_KEYS = from_millis 120"

text \<open>What writing inputs does, in order: payloads handed to the device and pauses.\<close>

datatype pty_effect = Wrote "byte list" | Slept duration

type_synonym 'w pty_run = "(host_error + unit) \<times> 'w pty_writer \<times> pty_effect list"

definition write_payload :: "'w writer_ops \<Rightarrow> byte list \<Rightarrow> 'w pty_writer \<Rightarrow> 'w pty_run" where
  "write_payload W payload w =
     (if payload = [] then (Ok (), w, [])
      else case write_payload_blocking W payload w of
             (Inl e, w) \<Rightarrow> (Err e, w, [])
           | (Inr _, w) \<Rightarrow> (Ok (), w, [Wrote payload]))"

text \<open>\<^verbatim>\<open>slice::chunks\<close>.\<close>

function chunks :: "nat \<Rightarrow> 'a list \<Rightarrow> 'a list list" where
  "chunks n xs = (if xs = [] \<or> n = 0 then [] else take n xs # chunks n (drop n xs))"
  by auto
termination by (relation "measure (\<lambda>(n, xs). length xs)") auto

declare chunks.simps [simp del]

fun write_chunks :: "'w writer_ops \<Rightarrow> byte list list \<Rightarrow> 'w pty_writer \<Rightarrow> 'w pty_run" where
  "write_chunks W [] w = (Ok (), w, [])"
| "write_chunks W (c # cs) w =
     (case write_payload W c w of
        (Inl e, w, fx) \<Rightarrow> (Err e, w, fx)
      | (Inr _, w, fx) \<Rightarrow>
          (case write_chunks W cs w of (res, w, fx') \<Rightarrow> (res, w, fx @ [Slept TEXT_CHUNK_DELAY] @ fx')))"

definition write_text_streamed :: "'w writer_ops \<Rightarrow> string \<Rightarrow> 'w pty_writer \<Rightarrow> 'w pty_run" where
  "write_text_streamed W t w =
     (if t = [] then (Ok (), w, []) else write_chunks W (chunks TEXT_CHUNK_BYTES (as_bytes t)) w)"

fun key_delay :: "pty_input option \<Rightarrow> pty_input \<Rightarrow> pty_effect list" where
  "key_delay (Some (InputText _)) (InputKey k) =
     [Slept (if k = Enter then ENTER_DELAY_AFTER_TEXT else KEY_DELAY_AFTER_TEXT)]"
| "key_delay (Some (InputKey _)) (InputKey k) = [Slept KEY_DELAY_BETWEEN_KEYS]"
| "key_delay _ _ = []"

fun write_input :: "'w writer_ops \<Rightarrow> pty_input \<Rightarrow> 'w pty_writer \<Rightarrow> 'w pty_run" where
  "write_input W (InputText t) w = write_text_streamed W t w"
| "write_input W (InputKey k) w = (if key_bytes k = [] then (Ok (), w, []) else write_payload W (key_bytes k) w)"

fun write_inputs_from :: "'w writer_ops \<Rightarrow> pty_input option \<Rightarrow> pty_input list \<Rightarrow> 'w pty_writer \<Rightarrow> 'w pty_run" where
  "write_inputs_from W prev [] w = (Ok (), w, [])"
| "write_inputs_from W prev (i # is) w =
     (case write_input W i w of
        (Inl e, w, fx) \<Rightarrow> (Err e, w, key_delay prev i @ fx)
      | (Inr _, w, fx) \<Rightarrow>
          (case write_inputs_from W (Some i) is w of (res, w, fx') \<Rightarrow> (res, w, key_delay prev i @ fx @ fx')))"

definition write_inputs :: "'w writer_ops \<Rightarrow> pty_input list \<Rightarrow> 'w pty_writer \<Rightarrow> 'w pty_run" where
  "write_inputs W is w = write_inputs_from W None is w"

section \<open>The transcript is a window on the output\<close>

text \<open>The abstract transcript: everything the child wrote, \<open>T\<close>, of which the last bytes are kept.\<close>

definition window :: "nat \<Rightarrow> byte list \<Rightarrow> transcript_buffer" where
  "window max_bytes T =
     \<lparr>tr_start = length T - max_bytes, tr_bytes = drop (length T - max_bytes) T\<rparr>"

lemma window_append:
  assumes "length T + length chunk \<le> u64_max"
  shows "trim_transcript m ((window m T)\<lparr>tr_bytes := tr_bytes (window m T) @ chunk\<rparr>) = window m (T @ chunk)"
  using assms by (cases "length T \<le> m") (auto simp: window_def trim_transcript_def Let_def sat_add_exact add.commute)

fun delivered :: "read_result list \<Rightarrow> byte list list" where
  "delivered [] = []"
| "delivered (ReadBytes c # rs) = c # delivered rs"
| "delivered (ReadInterrupted # rs) = delivered rs"
| "delivered (_ # rs) = []"

lemma pty_chunk_spec:
  assumes "io_transcript s = Some (window m T)" and "length T + length chunk \<le> u64_max"
    and "pty_chunk parser W m listening chunk s = (res, s')"
  shows "io_transcript s' = Some (window m (if res = Ok () then T @ chunk else T)) \<and>
    io_events s' = io_events s @ (if res = Ok () \<and> listening then [TerminalOutput chunk] else [])"
  using assms
  by (auto simp: pty_chunk_def Let_def window_append split: prod.splits sum.splits option.splits if_splits)

lemma read_pty_window:
  assumes "io_transcript s = Some (window m T)" and "length (T @ concat (delivered rs)) \<le> u64_max"
    and "read_pty_output parser W m listening rs s = (res, s')"
  shows "\<exists>cs. prefix cs (delivered rs) \<and> io_transcript s' = Some (window m (T @ concat cs)) \<and>
    io_events s' = io_events s @ (if listening then map TerminalOutput cs else []) \<and>
    (res = None \<or> res = Some (Ok ()) \<longrightarrow> cs = delivered rs)"
  using assms
proof (induction rs arbitrary: s T)
  case (Cons r rs)
  show ?case
  proof (cases r)
    case (ReadBytes chunk)
    obtain x s1 where c: "pty_chunk parser W m listening chunk s = (x, s1)" by (metis prod.collapse)
    have spec: "io_transcript s1 = Some (window m (if x = Ok () then T @ chunk else T))"
      "io_events s1 = io_events s @ (if x = Ok () \<and> listening then [TerminalOutput chunk] else [])"
      using pty_chunk_spec [OF Cons.prems(1) _ c] Cons.prems(2) ReadBytes by auto
    show ?thesis
    proof (cases x)
      case (Inl e)
      with spec c Cons.prems(3) ReadBytes show ?thesis by (intro exI [of _ "[]"]) auto
    next
      case (Inr u)
      with Cons.IH [of s1 "T @ chunk"] spec c Cons.prems ReadBytes obtain cs where
        "prefix cs (delivered rs)" "io_transcript s' = Some (window m (T @ chunk @ concat cs))"
        "io_events s' = io_events s1 @ (if listening then map TerminalOutput cs else [])"
        "res = None \<or> res = Some (Ok ()) \<longrightarrow> cs = delivered rs" by auto
      with spec(2) Inr ReadBytes show ?thesis by (intro exI [of _ "chunk # cs"]) auto
    qed
  qed (use Cons in auto)
qed auto

text \<open>C8. The transcript is exactly the end of the child's output: after any sequence of reads it holds the
  last \<open>m\<close> bytes of what was read, under their position in the whole output, and the listener was
  sent the same chunks in order. Only a failed answer to a position request loses the chunks from
  there on.\<close>

theorem transcript_is_window:
  assumes "io_transcript s = Some (window m T)" and "length (T @ concat (delivered rs)) \<le> u64_max"
    and "read_pty_output parser W m listening rs s = (res, s')"
  shows "\<exists>cs. prefix cs (delivered rs) \<and> io_transcript s' = Some (window m (T @ concat cs)) \<and>
    io_events s' = io_events s @ (if listening then map TerminalOutput cs else []) \<and>
    (res = None \<or> res = Some (Ok ()) \<longrightarrow> cs = delivered rs)"
  by (rule read_pty_window [OF assms])

section \<open>Polling\<close>

lemma transcript_bytes_since_window:
  assumes "length T \<le> u64_max"
  shows "transcript_bytes_since (Some (window m T)) cursor k =
    (let s = min (max cursor (length T - m)) (length T); bs = take k (drop s T) in Ok (s + length bs, bs))"
proof -
  let ?b = "length T - m" and ?s = "min (max cursor (length T - m)) (length T)"
  have s: "?b + (?s - ?b) = ?s" "?s \<le> length T" by auto
  have e: "sat_add ?b (length T - ?b) = length T" using assms by (simp add: sat_add_exact)
  have d: "drop (?s - ?b) (drop ?b T) = drop ?s T" using s(1) by (metis drop_drop add.commute)
  have t: "take (min (length T - ?b - (?s - ?b)) k) (drop ?s T) = take k (drop ?s T)"
    using s by (auto simp: min_def)
  have "length (take k (drop ?s T)) \<le> length T - ?s" by simp
  then have "?s + length (take k (drop ?s T)) \<le> u64_max" using assms s(2) by linarith
  then have h: "sat_add ?s (length (take k (drop ?s T))) = ?s + length (take k (drop ?s T))"
    by (rule sat_add_exact)
  show ?thesis
    unfolding transcript_bytes_since_def window_def
    by (simp only: option.case transcript_buffer.simps Let_def length_drop e d t h)
qed

text \<open>A policy that polls with the cursor of its last poll, while the child writes.\<close>

fun poll_loop :: "nat \<Rightarrow> byte list \<Rightarrow> nat \<Rightarrow> (byte list \<times> nat) list \<Rightarrow> byte list \<times> nat" where
  "poll_loop m T cursor [] = ([], cursor)"
| "poll_loop m T cursor ((written, k) # ps) =
     (case transcript_bytes_since (Some (window m (T @ written))) cursor k of
        Inl e \<Rightarrow> ([], cursor)
      | Inr (c, bs) \<Rightarrow> (case poll_loop m (T @ written) c ps of (rest, c) \<Rightarrow> (bs @ rest, c)))"

text \<open>Polling from the head misses nothing and repeats nothing: if no more is written between two
  polls than the transcript keeps and the poll asks for, the bytes of all polls together are
  exactly what was written since, and the last cursor is the head.\<close>

theorem polling_sees_everything:
  assumes "transcript_head (Some (window m T)) = Ok cursor"
    and "list_all (\<lambda>(written, k). length written \<le> m \<and> length written \<le> k) ps"
    and "length T + length (concat (map fst ps)) \<le> u64_max"
  shows "poll_loop m T cursor ps = (concat (map fst ps), length (T @ concat (map fst ps))) \<and>
    transcript_head (Some (window m (T @ concat (map fst ps)))) = Ok (length (T @ concat (map fst ps)))"
proof -
  have head: "transcript_head (Some (window m T)) = Ok (length T)" if "length T \<le> u64_max" for T
    using that by (simp add: transcript_head_def window_def sat_add_exact)
  have "poll_loop m T (length T) ps = (concat (map fst ps), length (T @ concat (map fst ps)))"
    using assms(2,3)
  proof (induction ps arbitrary: T)
    case (Cons p ps)
    obtain written k where p: "p = (written, k)" by (cases p)
    have "min (max (length T) (length (T @ written) - m)) (length (T @ written)) = length T"
      using Cons.prems(1) p by auto
    then have "transcript_bytes_since (Some (window m (T @ written))) (length T) k =
        Ok (length (T @ written), written)"
      using Cons.prems p by (subst transcript_bytes_since_window) (auto simp: Let_def)
    moreover have "poll_loop m (T @ written) (length (T @ written)) ps =
        (concat (map fst ps), length ((T @ written) @ concat (map fst ps)))"
      using Cons.prems p by (intro Cons.IH) auto
    ultimately show ?case by (simp add: p)
  qed simp
  then show ?thesis using assms(1,3) head by auto
qed

section \<open>Inputs\<close>

fun input_payload :: "pty_input \<Rightarrow> byte list" where
  "input_payload (InputText t) = as_bytes t"
| "input_payload (InputKey k) = key_bytes k"

fun input_effects :: "pty_input \<Rightarrow> pty_effect list" where
  "input_effects (InputText t) =
     concat (map (\<lambda>c. [Wrote c, Slept TEXT_CHUNK_DELAY]) (chunks TEXT_CHUNK_BYTES (as_bytes t)))"
| "input_effects (InputKey k) = [Wrote (key_bytes k)]"

fun inputs_effects :: "pty_input option \<Rightarrow> pty_input list \<Rightarrow> pty_effect list" where
  "inputs_effects prev [] = []"
| "inputs_effects prev (i # is) = key_delay prev i @ input_effects i @ inputs_effects (Some i) is"

lemma chunks_spec:
  assumes "0 < n"
  shows "concat (chunks n xs) = xs \<and> list_all (\<lambda>c. c \<noteq> [] \<and> length c \<le> n) (chunks n xs)"
  using assms
  by (induction n xs rule: chunks.induct) (subst (1 2) chunks.simps, auto)

text \<open>What a working device does: everything is accepted and appended to what it has received.\<close>

definition device_works :: "'w writer_ops \<Rightarrow> ('w \<Rightarrow> byte list) \<Rightarrow> bool" where
  "device_works W received \<longleftrightarrow>
     (\<forall>p d. \<exists>d'. wo_write_all W p d = (Ok (), d') \<and> received d' = received d @ p) \<and>
     (\<forall>d. \<exists>d'. wo_flush W d = (Ok (), d') \<and> received d' = received d)"

lemma write_payload_blocking_works:
  assumes "device_works W received"
  shows "\<exists>d'. write_payload_blocking W p (Some d) = (Ok (), Some d') \<and> received d' = received d @ p"
proof -
  obtain d1 where "wo_write_all W p d = (Ok (), d1)" "received d1 = received d @ p"
    using assms unfolding device_works_def by blast
  moreover obtain d2 where "wo_flush W d1 = (Ok (), d2)" "received d2 = received d1"
    using assms unfolding device_works_def by blast
  ultimately show ?thesis by (simp add: write_payload_blocking_def)
qed

lemma write_payload_works:
  assumes "device_works W received" and "p \<noteq> []"
  shows "\<exists>d'. write_payload W p (Some d) = (Ok (), Some d', [Wrote p]) \<and> received d' = received d @ p"
  using write_payload_blocking_works [OF assms(1), of p d] assms(2) by (auto simp: write_payload_def)

lemma write_chunks_works:
  assumes "device_works W received" and "list_all (\<lambda>c. c \<noteq> [] \<and> length c \<le> n) cs"
  shows "\<exists>d'. write_chunks W cs (Some d) =
      (Ok (), Some d', concat (map (\<lambda>c. [Wrote c, Slept TEXT_CHUNK_DELAY]) cs)) \<and> received d' = received d @ concat cs"
  using assms(2)
proof (induction cs arbitrary: d)
  case (Cons c cs)
  obtain d1 where "write_payload W c (Some d) = (Ok (), Some d1, [Wrote c])" "received d1 = received d @ c"
    using write_payload_works [OF assms(1), of c d] Cons.prems by auto
  with Cons.IH [of d1] Cons.prems show ?case by auto
qed simp

lemma write_input_works:
  assumes "device_works W received"
  shows "\<exists>d'. write_input W i (Some d) = (Ok (), Some d', input_effects i) \<and> received d' = received d @ input_payload i"
proof (cases i)
  case (InputText t)
  have "concat (chunks TEXT_CHUNK_BYTES (as_bytes t)) = as_bytes t \<and>
      list_all (\<lambda>c. c \<noteq> [] \<and> length c \<le> TEXT_CHUNK_BYTES) (chunks TEXT_CHUNK_BYTES (as_bytes t))"
    by (rule chunks_spec) (simp add: TEXT_CHUNK_BYTES_def)
  moreover have "chunks n [] = []" for n by (simp add: chunks.simps)
  ultimately show ?thesis
    using write_chunks_works [OF assms, of TEXT_CHUNK_BYTES "chunks TEXT_CHUNK_BYTES (as_bytes t)" d] InputText
    by (auto simp: write_text_streamed_def as_bytes_def)
next
  case (InputKey k)
  have "key_bytes k \<noteq> []" by (cases k) auto
  with write_payload_works [OF assms, of "key_bytes k" d] InputKey show ?thesis by auto
qed

lemma write_inputs_from_works:
  assumes "device_works W received"
  shows "\<exists>d'. write_inputs_from W prev is (Some d) = (Ok (), Some d', inputs_effects prev is) \<and>
    received d' = received d @ concat (map input_payload is)"
proof (induction "is" arbitrary: prev d)
  case (Cons i "is")
  obtain d1 where "write_input W i (Some d) = (Ok (), Some d1, input_effects i)"
      "received d1 = received d @ input_payload i"
    using write_input_works [OF assms] by blast
  with Cons.IH [of "Some i" d1] show ?case by auto
qed simp

text \<open>Inputs arrive complete and in order: on a working device, writing any inputs succeeds, the device
  receives the bytes of all texts and keys in order, texts in pieces of at most 96 bytes, with
  exactly the prescribed pauses.\<close>

theorem inputs_reach_the_terminal:
  assumes "device_works W received"
  shows "\<exists>d'. write_inputs W is (Some d) = (Ok (), Some d', inputs_effects None is) \<and>
    received d' = received d @ concat (map input_payload is) \<and>
    list_all (\<lambda>fx. case fx of Wrote p \<Rightarrow> p \<noteq> [] \<and> length p \<le> 96 | Slept _ \<Rightarrow> True) (inputs_effects None is)"
proof -
  have one: "list_all (\<lambda>fx. case fx of Wrote p \<Rightarrow> p \<noteq> [] \<and> length p \<le> 96 | Slept _ \<Rightarrow> True)
      (key_delay prev i @ input_effects i)" for prev i
  proof (cases i)
    case (InputText t)
    have "list_all (\<lambda>c. c \<noteq> [] \<and> length c \<le> 96) (chunks TEXT_CHUNK_BYTES (as_bytes t))"
      using chunks_spec [of TEXT_CHUNK_BYTES "as_bytes t"] by (simp add: TEXT_CHUNK_BYTES_def)
    then show ?thesis using InputText by (cases prev) (auto simp: list_all_iff split: pty_input.splits)
  next
    case (InputKey k)
    have "key_bytes k \<noteq> [] \<and> length (key_bytes k) \<le> 96" by (cases k) auto
    then show ?thesis using InputKey by (cases "(prev, i)" rule: key_delay.cases) auto
  qed
  have "list_all (\<lambda>fx. case fx of Wrote p \<Rightarrow> p \<noteq> [] \<and> length p \<le> 96 | Slept _ \<Rightarrow> True) (inputs_effects prev is)" for prev
    by (induction "is" arbitrary: prev) (use one in auto)
  then show ?thesis using write_inputs_from_works [OF assms] unfolding write_inputs_def by blast
qed

section \<open>Concrete runs\<close>

definition demo_device :: "byte list writer_ops" where
  "demo_device = \<lparr>wo_write_all = (\<lambda>p d. (Ok (), d @ p)), wo_flush = (\<lambda>d. (Ok (), d))\<rparr>"

theorem inputs_reach_the_terminal_witness:
  "\<exists>d'. write_inputs demo_device [InputText ''ls'', InputKey Enter] (Some []) =
      (Ok (), Some d', inputs_effects None [InputText ''ls'', InputKey Enter]) \<and> d' = [108, 115, 13]"
proof -
  have "device_works demo_device id" by (simp add: device_works_def demo_device_def)
  from inputs_reach_the_terminal [OF this, of "[InputText ''ls'', InputKey Enter]" "[]"] show ?thesis
    by (auto simp: as_bytes_def)
qed

theorem polling_sees_everything_witness:
  "poll_loop 4 [1, 2, 3] 3 [([4, 5], 8), ([], 8), ([6, 7, 8], 8)] = ([4, 5, 6, 7, 8], 8)"
  using polling_sees_everything [of 4 "[1, 2, 3]" 3 "[([4, 5], 8), ([], 8), ([6, 7, 8], 8)]"]
  by (simp add: transcript_head_def window_def sat_add_def u64_max_def)

theorem transcript_is_window_witness:
  "\<exists>res s'. read_pty_output (\<lambda>p _. ([], p)) demo_device 2 True [ReadBytes [1, 2], ReadInterrupted, ReadBytes [3], ReadEof]
      \<lparr>io_parser = (), io_terminal = pty_terminal_new 80 24, io_writer = Some [], io_transcript = Some (window 2 []),
       io_events = []\<rparr> = (res, s') \<and> res = Some (Ok ()) \<and>
    io_transcript s' = Some \<lparr>tr_start = 1, tr_bytes = [2, 3]\<rparr> \<and>
    io_events s' = [TerminalOutput [1, 2], TerminalOutput [3]]"
proof -
  let ?s = "\<lparr>io_parser = (), io_terminal = pty_terminal_new 80 24, io_writer = Some [], io_transcript = Some (window 2 []),
       io_events = []\<rparr>"
  let ?rs = "[ReadBytes [1, 2], ReadInterrupted, ReadBytes [3], ReadEof]"
  obtain res s' where r: "read_pty_output (\<lambda>p _. ([], p)) demo_device 2 True ?rs ?s = (res, s')" by (metis prod.collapse)
  then have "res = Some (Ok ())"
    by (auto simp: pty_chunk_def pt_feed_def pty_terminal_new_def window_def trim_transcript_def)
  with transcript_is_window [OF _ _ r, of "[]"] r show ?thesis
    by (auto simp: window_def u64_max_def)
qed

end
