(* ===== verification/Rounding.thy ===== *)
theory Rounding
  imports Complex_Main Prelude
begin

text \<open>
  Rounding rationals to binary floating point numbers, for any number of fraction bits and any least
  exponent: what the two formats of IEEE 754 in the program share.
\<close>

section \<open>Rounding\<close>

text \<open>To the nearest integer, ties to even.\<close>

definition rne :: "rat \<Rightarrow> int" where
  "rne x = (let f = \<lfloor>x\<rfloor>; d = x - of_int f in
     if d < 1 / 2 then f else if d > 1 / 2 then f + 1 else if even f then f else f + 1)"

lemma rne_floor: "\<lfloor>x\<rfloor> \<le> rne x \<and> rne x \<le> \<lfloor>x\<rfloor> + 1"
  by (simp add: rne_def Let_def)

lemma rne_mono: "x \<le> y \<Longrightarrow> rne x \<le> rne y"
proof (cases "\<lfloor>x\<rfloor> = \<lfloor>y\<rfloor>")
  case False
  assume "x \<le> y"
  with False have "\<lfloor>x\<rfloor> + 1 \<le> \<lfloor>y\<rfloor>" using floor_mono [of x y] by linarith
  then show ?thesis using rne_floor [of x] rne_floor [of y] by linarith
qed (auto simp: rne_def Let_def)

lemma rne_of_int [simp]: "rne (of_int n) = n"
  by (simp add: rne_def)

text \<open>The binary logarithm of a natural number, and the exponent of a positive rational.\<close>

fun lb :: "nat \<Rightarrow> nat" where
  "lb n = (if n \<le> 1 then 0 else Suc (lb (n div 2)))"

declare lb.simps [simp del]

lemma lb_bounds: "0 < n \<Longrightarrow> 2 ^ lb n \<le> n \<and> n < 2 * 2 ^ lb n"
proof (induction n rule: lb.induct)
  case (1 n)
  show ?case
  proof (cases "n \<le> 1")
    case True
    with 1(2) show ?thesis by (simp add: lb.simps)
  next
    case False
    then have "2 ^ lb (n div 2) \<le> n div 2 \<and> n div 2 < 2 * 2 ^ lb (n div 2)"
      using 1(1) by simp
    then have "2 * 2 ^ lb (n div 2) \<le> n \<and> n < 2 * (2 * 2 ^ lb (n div 2))" by linarith
    with False show ?thesis by (simp add: lb.simps [of n])
  qed
qed

lemma lb_bounds_rat:
  assumes "0 < k"
  shows "(2 :: rat) ^ lb (nat k) \<le> of_int k" and "of_int k < (2 :: rat) * 2 ^ lb (nat k)"
proof -
  have "int (2 ^ lb (nat k)) \<le> int (nat k)" "int (nat k) < int (2 * 2 ^ lb (nat k))"
    using lb_bounds [of "nat k"] assms by (simp_all only: of_nat_le_iff of_nat_less_iff zero_less_nat_eq)
  then have "2 ^ lb (nat k) \<le> k" "k < 2 * 2 ^ lb (nat k)" using assms by simp_all
  then have "(of_int (2 ^ lb (nat k)) :: rat) \<le> of_int k" "(of_int k :: rat) < of_int (2 * 2 ^ lb (nat k))"
    by (simp_all only: of_int_le_iff of_int_less_iff)
  then show "(2 :: rat) ^ lb (nat k) \<le> of_int k" "of_int k < (2 :: rat) * 2 ^ lb (nat k)" by simp_all
qed

definition expo :: "rat \<Rightarrow> int" where
  "expo x = (let (n, d) = quotient_of \<bar>x\<bar>; e = int (lb (nat n)) - int (lb (nat d)) in
     if 2 powi e \<le> \<bar>x\<bar> then e else e - 1)"

lemma two_powi_pos [simp]: "0 < (2 :: rat) powi e"
  by simp

lemma two_powi_Suc: "(2 :: rat) powi (e + 1) = 2 * 2 powi e"
  by (simp add: power_int_add_1)

lemma expo_bounds:
  assumes "x \<noteq> 0"
  shows "2 powi expo x \<le> \<bar>x\<bar> \<and> \<bar>x\<bar> < 2 powi (expo x + 1)"
proof -
  obtain n d where q: "quotient_of \<bar>x\<bar> = (n, d)" by (cases "quotient_of \<bar>x\<bar>")
  have d: "0 < d" using q by (rule quotient_of_denom_pos)
  have x: "\<bar>x\<bar> = of_int n / of_int d" using q by (rule quotient_of_div)
  then have "0 < (of_int n / of_int d :: rat)" using assms by (metis zero_less_abs_iff)
  then have n: "0 < n" using d by (simp add: zero_less_divide_iff)
  let ?a = "lb (nat n)" and ?b = "lb (nat d)"
  let ?e = "int ?a - int ?b"
  note nb = lb_bounds_rat [OF n] and db = lb_bounds_rat [OF d]
  have pe: "(2 :: rat) powi ?e = 2 ^ ?a / 2 ^ ?b" by (simp add: power_int_diff)
  have up: "\<bar>x\<bar> < 2 * 2 powi ?e"
  proof -
    have "of_int n * (2 :: rat) ^ ?b < (2 * 2 ^ ?a) * of_int d"
      using nb(2) db(1) d n by (intro mult_less_le_imp_less) auto
    then show ?thesis unfolding x pe using d by (simp add: divide_simps)
  qed
  have lo: "2 powi (?e - 1) \<le> \<bar>x\<bar>"
  proof -
    have "(2 :: rat) ^ ?a * of_int d \<le> of_int n * (2 * 2 ^ ?b)"
      using nb(1) db(2) d n by (intro mult_mono) auto
    then have "2 ^ ?a / 2 ^ ?b / 2 \<le> (of_int n / of_int d :: rat)" using d by (simp add: divide_simps mult.commute)
    then show ?thesis unfolding x using two_powi_Suc [of "?e - 1"] pe by simp
  qed
  show ?thesis
  proof (cases "2 powi ?e \<le> \<bar>x\<bar>")
    case True
    then have "expo x = ?e" by (simp add: expo_def q Let_def)
    with True up show ?thesis by (simp add: two_powi_Suc)
  next
    case False
    then have "expo x = ?e - 1" by (simp add: expo_def q Let_def)
    with False lo show ?thesis by simp
  qed
qed

text \<open>The unit in the last place for \<open>p\<close> fraction bits and the least exponent \<open>m\<close>, and the nearest number.\<close>

definition unit_of :: "nat \<Rightarrow> int \<Rightarrow> rat \<Rightarrow> rat" where
  "unit_of p m x = 2 powi (max (expo x) m - int p)"

definition round_to :: "nat \<Rightarrow> int \<Rightarrow> rat \<Rightarrow> rat" where
  "round_to p m x = (if x = 0 then 0 else of_int (rne (x / unit_of p m x)) * unit_of p m x)"

lemma unit_pos [simp]: "0 < unit_of p m x"
  by (simp add: unit_of_def)

lemma rne_ge: "of_int n \<le> x \<Longrightarrow> n \<le> rne x"
  using rne_mono [of "of_int n" x] by simp

lemma rne_le: "x \<le> of_int n \<Longrightarrow> rne x \<le> n"
  using rne_mono [of x "of_int n"] by simp

lemma rne_minus: "rne (- x) = - rne x"
proof (cases "x = of_int \<lfloor>x\<rfloor>")
  case True
  then show ?thesis by (metis of_int_minus rne_of_int)
next
  case False
  then have "\<lfloor>- x\<rfloor> = - \<lfloor>x\<rfloor> - 1" by (simp add: floor_minus ceiling_altdef)
  then show ?thesis using False by (auto simp: rne_def Let_def)
qed

lemma expo_minus [simp]: "expo (- x) = expo x"
  by (simp add: expo_def)

lemma round_minus: "round_to p m (- x) = - round_to p m x"
  by (simp add: round_to_def unit_of_def rne_minus)

lemma round_0 [simp]: "round_to p m 0 = 0"
  by (simp add: round_to_def)

lemma round_nonneg: "0 \<le> x \<Longrightarrow> 0 \<le> round_to p m x"
  using rne_ge [of 0 "x / unit_of p m x"] by (simp add: round_to_def less_imp_le)

lemma powi_mono: "a \<le> b \<Longrightarrow> (2 :: rat) powi a \<le> 2 powi b"
  by (simp add: power_int_increasing)

lemma powi_le_iff: "(2 :: rat) powi a < 2 powi b \<Longrightarrow> a < b"
  by (metis linorder_not_less powi_mono)

lemma powi_split: "(2 :: rat) powi (e + int k) = of_int (2 ^ k) * 2 powi e"
  by (simp add: power_int_add)

lemma round_upper:
  assumes "0 < x"
  shows "round_to p m x \<le> 2 powi (max (expo x) m + 1)"
proof -
  let ?e = "max (expo x) m" and ?u = "unit_of p m x"
  have split: "(2 :: rat) powi (?e + 1) = of_int (2 ^ Suc p) * ?u"
    using powi_split [of "?e - int p" "Suc p"] by (simp add: unit_of_def algebra_simps)
  have "x \<le> 2 powi (expo x + 1)" using expo_bounds [of x] assms by simp
  also have "\<dots> \<le> 2 powi (?e + 1)" by (intro powi_mono) simp
  finally have "x / ?u \<le> of_int (2 ^ Suc p)" unfolding split by (simp add: divide_le_eq)
  then have "rne (x / ?u) \<le> 2 ^ Suc p" by (rule rne_le)
  then have "(of_int (rne (x / ?u)) :: rat) \<le> of_int (2 ^ Suc p)" by (simp only: of_int_le_iff)
  then show ?thesis using assms unfolding split round_to_def by (simp add: mult_right_mono less_imp_le)
qed

lemma round_lower:
  assumes "0 < x" and "m \<le> expo x"
  shows "2 powi expo x \<le> round_to p m x"
proof -
  let ?u = "unit_of p m x"
  have split: "(2 :: rat) powi expo x = of_int (2 ^ p) * ?u"
    using powi_split [of "expo x - int p" p] assms(2) by (simp add: unit_of_def max_def)
  have "2 powi expo x \<le> x" using expo_bounds [of x] assms by simp
  then have "of_int (2 ^ p) \<le> x / ?u" unfolding split by (simp add: le_divide_eq)
  then have "2 ^ p \<le> rne (x / ?u)" by (rule rne_ge)
  then have "(of_int (2 ^ p) :: rat) \<le> of_int (rne (x / ?u))" by (simp only: of_int_le_iff)
  then show ?thesis using assms unfolding split round_to_def by (simp add: mult_right_mono less_imp_le)
qed

lemma round_mono_pos:
  assumes "0 \<le> x" and "x \<le> y"
  shows "round_to p m x \<le> round_to p m y"
proof (cases "x = 0")
  case True
  then show ?thesis using round_nonneg [of y] assms by simp
next
  case False
  then have pos: "0 < x" "0 < y" using assms by auto
  let ?ex = "max (expo x) m" and ?ey = "max (expo y) m"
  have "2 powi expo x < (2 :: rat) powi (expo y + 1)"
    using expo_bounds [of x] expo_bounds [of y] pos assms(2) by simp
  then have le: "expo x \<le> expo y" using powi_le_iff by fastforce
  show ?thesis
  proof (cases "?ex = ?ey")
    case True
    then have "unit_of p m x = unit_of p m y" by (simp add: unit_of_def)
    moreover have "rne (x / unit_of p m y) \<le> rne (y / unit_of p m y)"
      using assms(2) by (intro rne_mono divide_right_mono) (simp_all add: less_imp_le)
    ultimately show ?thesis using pos by (simp add: round_to_def less_imp_le)
  next
    case False
    with le have ey: "?ey = expo y" "?ex + 1 \<le> expo y" by auto
    have "round_to p m x \<le> 2 powi (?ex + 1)" using pos(1) by (rule round_upper)
    also have "\<dots> \<le> 2 powi expo y" using ey(2) by (rule powi_mono)
    also have "\<dots> \<le> round_to p m y" using pos(2) ey(1) by (intro round_lower) auto
    finally show ?thesis .
  qed
qed

lemma round_mono: "x \<le> y \<Longrightarrow> round_to p m x \<le> round_to p m y"
proof -
  assume le: "x \<le> y"
  consider "0 \<le> x" | "x < 0" "0 \<le> y" | "y < 0" using le by linarith
  then show ?thesis
  proof cases
    case 2
    then have "round_to p m x \<le> 0" using round_nonneg [of "- x" p m] by (simp add: round_minus)
    with round_nonneg [OF 2(2), of p m] show ?thesis by simp
  next
    case 3
    then show ?thesis using round_mono_pos [of "- y" "- x" p m] le by (simp add: round_minus)
  qed (simp add: round_mono_pos le)
qed

lemma round_exact: "x / unit_of p m x = of_int k \<Longrightarrow> round_to p m x = x"
  by (simp add: round_to_def) (metis less_irrefl nonzero_eq_divide_eq unit_pos)

text \<open>A multiple of a power of two that is not below the least unit, with few enough bits, is kept.\<close>

lemma round_multiple:
  assumes "\<bar>k\<bar> \<le> 2 ^ Suc p" and "m - int p \<le> e"
  shows "round_to p m (of_int k * 2 powi e) = of_int k * 2 powi e"
proof (cases "k = 0")
  case False
  let ?x = "of_int k * (2 :: rat) powi e"
  have x: "?x \<noteq> 0" using False by simp
  have "\<bar>of_int k :: rat\<bar> \<le> of_int (2 ^ Suc p)" using assms(1) by (simp only: of_int_abs [symmetric] of_int_le_iff)
  then have up: "\<bar>?x\<bar> \<le> 2 powi (e + int (Suc p))" unfolding powi_split by (simp add: abs_mult mult_right_mono less_imp_le)
  have "2 powi expo ?x \<le> (2 :: rat) powi (e + int (Suc p))" using expo_bounds [OF x] up by linarith
  then have le: "expo ?x \<le> e + int (Suc p)" by (metis linorder_not_less powi_le_iff less_le_not_le power_int_strict_increasing one_less_numeral_iff semiring_norm(76))
  show ?thesis
  proof (cases "max (expo ?x) m - int p \<le> e")
    case True
    let ?d = "nat (e - (max (expo ?x) m - int p))"
    have "e = (max (expo ?x) m - int p) + int ?d" using True by simp
    then obtain d u where u: "u = unit_of p m ?x" and d: "(2 :: rat) powi e = of_int (2 ^ d) * u"
      unfolding unit_of_def by (metis powi_split)
    have "u \<noteq> 0" using unit_pos [of p m ?x] unfolding u by linarith
    then have "?x / u = of_int (k * 2 ^ d)" unfolding d by simp
    then have "?x / unit_of p m ?x = of_int (k * 2 ^ d)" unfolding u .
    then show ?thesis by (rule round_exact)
  next
    case False
    with assms(2) le have ex: "expo ?x = e + int (Suc p)" by linarith
    with expo_bounds [OF x] up have "\<bar>?x\<bar> = 2 powi (e + int (Suc p))" by simp
    then have "?x = 2 powi (e + int (Suc p)) \<or> ?x = - (2 powi (e + int (Suc p)))" by linarith
    moreover have "m \<le> e + int (Suc p)" using assms(2) False ex by linarith
    then have "(2 :: rat) powi (e + int (Suc p)) / unit_of p m ?x = of_int (2 ^ p)"
      unfolding unit_of_def ex using powi_split [of "e + int (Suc p) - int p" p] by (simp add: max_def add.assoc)
    ultimately have "?x / unit_of p m ?x = of_int (2 ^ p) \<or> ?x / unit_of p m ?x = of_int (- (2 ^ p))" by auto
    then show ?thesis using round_exact by blast
  qed
qed simp

lemma round_int: "\<bar>k\<bar> \<le> 2 ^ Suc p \<Longrightarrow> m \<le> 0 \<Longrightarrow> round_to p m (of_int k) = of_int k"
  using round_multiple [of k p m 0] by simp

lemma round_error: "\<bar>round_to p m x - x\<bar> \<le> unit_of p m x"
proof -
  let ?u = "unit_of p m x"
  have "\<bar>of_int (rne (x / ?u)) - x / ?u\<bar> \<le> 1" using rne_floor [of "x / ?u"] by linarith
  then have "\<bar>of_int (rne (x / ?u)) - x / ?u\<bar> * ?u \<le> 1 * ?u" by (intro mult_right_mono) (simp_all add: less_imp_le)
  moreover have "\<bar>a\<bar> * ?u = \<bar>a * ?u\<bar>" for a by (simp only: abs_mult abs_of_pos [OF unit_pos])
  moreover have "(of_int (rne (x / ?u)) - x / ?u) * ?u = of_int (rne (x / ?u)) * ?u - x"
    using less_imp_neq [OF unit_pos [of p m x]] by (simp add: left_diff_distrib)
  ultimately show ?thesis by (auto simp: round_to_def less_imp_le)
qed

end
