(* ===== verification/F64.thy ===== *)
theory F64
  imports Rounding
begin

text \<open>
  IEEE 754 binary64, Rust's \<^verbatim>\<open>f64\<close>: finite values as rationals, the infinities and NaN, and every
  operation as the exact result rounded to the nearest representable number, ties to even. The
  sign of zero is not kept: no operation modelled in this development divides by zero or looks at
  it. The functions \<^verbatim>\<open>ln\<close> and \<^verbatim>\<open>powf\<close> have unspecified precision and are parameters where they are used.
\<close>

datatype f64 = Fin rat | PInf | NInf | NaN

fun is_finite :: "f64 \<Rightarrow> bool" where
  "is_finite (Fin x) = True"
| "is_finite _ = False"

section \<open>Rounding\<close>

definition ulp :: "rat \<Rightarrow> rat" where
  "ulp x = 2 powi (max (expo x) (- 1022) - 52)"

text \<open>The nearest number with 53 significant bits and exponent at least \<open>-1022\<close>.\<close>

definition rv :: "rat \<Rightarrow> rat" where
  "rv x = (if x = 0 then 0 else of_int (rne (x / ulp x)) * ulp x)"

definition rnd :: "rat \<Rightarrow> f64" where
  "rnd x = (let v = rv x in if v \<ge> 2 ^ 1024 then PInf else if v \<le> - (2 ^ 1024) then NInf else Fin v)"

lemma ulp_unit: "ulp x = unit_of 52 (- 1022) x"
  by (simp add: ulp_def unit_of_def)

lemma rv_round: "rv x = round_to 52 (- 1022) x"
  by (simp add: rv_def round_to_def ulp_unit)

lemma ulp_pos [simp]: "0 < ulp x"
  by (simp add: ulp_unit)

lemma rv_nonneg: "0 \<le> x \<Longrightarrow> 0 \<le> rv x"
  by (simp add: rv_round round_nonneg)

lemma rv_mono: "x \<le> y \<Longrightarrow> rv x \<le> rv y"
  by (simp add: rv_round round_mono)

lemma rv_exact: "x / ulp x = of_int k \<Longrightarrow> rv x = x"
  unfolding rv_round ulp_unit by (rule round_exact)

lemma rv_nat: "n \<le> 2 ^ 53 \<Longrightarrow> rv (of_nat n) = of_nat n"
  using round_int [of "int n" 52 "- 1022"] by (simp add: rv_round)

lemma rnd_Fin: "0 \<le> x \<Longrightarrow> x \<le> of_nat n \<Longrightarrow> n \<le> 2 ^ 53 \<Longrightarrow> rnd x = Fin (rv x) \<and> 0 \<le> rv x \<and> rv x \<le> of_nat n"
proof -
  assume x: "0 \<le> x" "x \<le> of_nat n" and n: "n \<le> 2 ^ 53"
  have le: "rv x \<le> of_nat n" using rv_mono [OF x(2)] rv_nat [OF n] by simp
  have ge: "0 \<le> rv x" using x(1) by (rule rv_nonneg)
  have "(of_nat n :: rat) \<le> of_nat (2 ^ 53)" using n by (simp only: of_nat_le_iff)
  then have "rv x < 2 ^ 1024" using le by simp
  with le ge show ?thesis by (simp add: rnd_def Let_def)
qed

section \<open>Operations\<close>

fun f_add :: "f64 \<Rightarrow> f64 \<Rightarrow> f64" where
  "f_add (Fin a) (Fin b) = rnd (a + b)"
| "f_add NaN _ = NaN"
| "f_add _ NaN = NaN"
| "f_add PInf NInf = NaN"
| "f_add NInf PInf = NaN"
| "f_add PInf _ = PInf"
| "f_add NInf _ = NInf"
| "f_add _ PInf = PInf"
| "f_add _ NInf = NInf"

text \<open>The product of an infinity of the given sign with a finite number.\<close>

definition f_inf_times :: "bool \<Rightarrow> rat \<Rightarrow> f64" where
  "f_inf_times pos b = (if b = 0 then NaN else if (0 < b) = pos then PInf else NInf)"

fun f_mul :: "f64 \<Rightarrow> f64 \<Rightarrow> f64" where
  "f_mul (Fin a) (Fin b) = rnd (a * b)"
| "f_mul NaN _ = NaN"
| "f_mul _ NaN = NaN"
| "f_mul PInf (Fin b) = f_inf_times True b"
| "f_mul NInf (Fin b) = f_inf_times False b"
| "f_mul (Fin a) PInf = f_inf_times True a"
| "f_mul (Fin a) NInf = f_inf_times False a"
| "f_mul PInf PInf = PInf"
| "f_mul NInf NInf = PInf"
| "f_mul PInf NInf = NInf"
| "f_mul NInf PInf = NInf"

fun f_div :: "f64 \<Rightarrow> f64 \<Rightarrow> f64" where
  "f_div NaN _ = NaN"
| "f_div _ NaN = NaN"
| "f_div (Fin a) (Fin b) =
     (if b = 0 then (if a = 0 then NaN else if 0 < a then PInf else NInf) else rnd (a / b))"
| "f_div (Fin a) _ = Fin 0"
| "f_div PInf (Fin b) = (if 0 \<le> b then PInf else NInf)"
| "f_div NInf (Fin b) = (if 0 \<le> b then NInf else PInf)"
| "f_div _ _ = NaN"

fun f_lt :: "f64 \<Rightarrow> f64 \<Rightarrow> bool" where
  "f_lt (Fin a) (Fin b) = (a < b)"
| "f_lt NaN _ = False"
| "f_lt _ NaN = False"
| "f_lt NInf NInf = False"
| "f_lt NInf _ = True"
| "f_lt _ NInf = False"
| "f_lt PInf _ = False"
| "f_lt _ PInf = True"

fun f_eq :: "f64 \<Rightarrow> f64 \<Rightarrow> bool" where
  "f_eq NaN _ = False"
| "f_eq _ NaN = False"
| "f_eq a b = (a = b)"

definition f_of_nat :: "nat \<Rightarrow> f64" where
  "f_of_nat n = rnd (of_nat n)"

text \<open>The correctly rounded square root: the integer root of the scaled operand, then the nearest of
  its two neighbours. The root of a positive number is never subnormal.\<close>

fun isqrt :: "nat \<Rightarrow> nat" where
  "isqrt n = (if n = 0 then 0
     else let s = 2 * isqrt (n div 4) in if (s + 1) * (s + 1) \<le> n then s + 1 else s)"

declare isqrt.simps [simp del]

definition sqrt_rat :: "rat \<Rightarrow> rat" where
  "sqrt_rat x =
     (let u = 2 powi (expo x div 2 - 52); y = x / (u * u); m = isqrt (nat \<lfloor>y\<rfloor>);
          h = of_nat m + 1 / 2; k = (if y < h * h then m else if y > h * h then m + 1 else if even m then m else m + 1)
      in of_nat k * u)"

fun f_sqrt :: "f64 \<Rightarrow> f64" where
  "f_sqrt (Fin x) = (if x < 0 then NaN else if x = 0 then Fin 0 else Fin (sqrt_rat x))"
| "f_sqrt PInf = PInf"
| "f_sqrt NInf = NaN"
| "f_sqrt NaN = NaN"

text \<open>\<^verbatim>\<open>f64::clamp\<close> for a finite interval.\<close>

definition f_clamp :: "rat \<Rightarrow> rat \<Rightarrow> f64 \<Rightarrow> f64" where
  "f_clamp lo hi x = (if f_lt x (Fin lo) then Fin lo else if f_lt (Fin hi) x then Fin hi else x)"

lemma isqrt_correct: "isqrt n * isqrt n \<le> n \<and> n < (isqrt n + 1) * (isqrt n + 1)"
proof (induction n rule: isqrt.induct)
  case (1 n)
  show ?case
  proof (cases "n = 0")
    case False
    let ?r = "isqrt (n div 4)"
    have r: "?r * ?r \<le> n div 4" "n div 4 < (?r + 1) * (?r + 1)" using 1 False by auto
    then have "4 * (?r * ?r) \<le> n" "n < 4 * ((?r + 1) * (?r + 1))" by linarith+
    with False show ?thesis by (auto simp: isqrt.simps [of n] Let_def algebra_simps)
  qed (simp add: isqrt.simps)
qed

lemma f_of_nat_exact: "n \<le> 2 ^ 53 \<Longrightarrow> f_of_nat n = Fin (of_nat n)"
  using rnd_Fin [of "of_nat n" n] by (simp add: f_of_nat_def rv_nat)

lemma rnd_not_NaN [simp]: "rnd x \<noteq> NaN"
  by (simp add: rnd_def Let_def)

lemma rnd_nonneg: "0 \<le> x \<Longrightarrow> rnd x = PInf \<or> (\<exists>y\<ge>0. rnd x = Fin y)"
  using rv_nonneg [of x] by (auto simp: rnd_def Let_def)

lemma sqrt_rat_nonneg: "0 \<le> sqrt_rat x"
  by (simp add: sqrt_rat_def Let_def)

lemma f_eq_refl: "x \<noteq> NaN \<Longrightarrow> f_eq x x"
  by (cases x) simp_all

lemma f_lt_irrefl [simp]: "\<not> f_lt x x"
  by (cases x) simp_all

end
