(* ===== verification/Utf8.thy ===== *)
theory Utf8
  imports Prelude
begin

text \<open>
  UTF-8 as the Rust standard library reads it: which byte sequences are well formed
  (\<^verbatim>\<open>std::str::from_utf8\<close>), by the table of the Unicode standard, and the conversion that replaces what
  is not (\<^verbatim>\<open>String::from_utf8_lossy\<close>).
\<close>

section \<open>Well-formed sequences\<close>

definition is_cont :: "byte \<Rightarrow> bool" where
  "is_cont b \<longleftrightarrow> 0x80 \<le> b \<and> b \<le> 0xBF"

definition lead1 :: "byte \<Rightarrow> bool" where
  "lead1 b \<longleftrightarrow> b \<le> 0x7F"

definition lead2 :: "byte \<Rightarrow> bool" where
  "lead2 b \<longleftrightarrow> 0xC2 \<le> b \<and> b \<le> 0xDF"

definition lead3 :: "byte \<Rightarrow> bool" where
  "lead3 b \<longleftrightarrow> 0xE0 \<le> b \<and> b \<le> 0xEF"

definition lead4 :: "byte \<Rightarrow> bool" where
  "lead4 b \<longleftrightarrow> 0xF0 \<le> b \<and> b \<le> 0xF4"

text \<open>The second bytes that a lead of three or four bytes allows.\<close>

definition second3 :: "byte \<Rightarrow> byte \<Rightarrow> bool" where
  "second3 a b \<longleftrightarrow> (if a = 0xE0 then 0xA0 else 0x80) \<le> b \<and> b \<le> (if a = 0xED then 0x9F else 0xBF)"

definition second4 :: "byte \<Rightarrow> byte \<Rightarrow> bool" where
  "second4 a b \<longleftrightarrow> (if a = 0xF0 then 0x90 else 0x80) \<le> b \<and> b \<le> (if a = 0xF4 then 0x8F else 0xBF)"

text \<open>At the front of a byte sequence: \<open>Inr n\<close> for a well-formed character of \<open>n\<close> bytes, \<open>Inl n\<close> for \<open>n\<close>
  bytes that begin none, a maximal part of one or a single byte.\<close>

fun utf8_head :: "byte list \<Rightarrow> nat + nat" where
  "utf8_head [] = Inl 0"
| "utf8_head (a # bs) =
     (if lead1 a then Inr 1
      else if lead2 a then
        (case bs of b # _ \<Rightarrow> if is_cont b then Inr 2 else Inl 1 | [] \<Rightarrow> Inl 1)
      else if lead3 a then
        (case bs of
           b # bs \<Rightarrow>
             if second3 a b then (case bs of c # _ \<Rightarrow> if is_cont c then Inr 3 else Inl 2 | [] \<Rightarrow> Inl 2)
             else Inl 1
         | [] \<Rightarrow> Inl 1)
      else if lead4 a then
        (case bs of
           b # bs \<Rightarrow>
             if second4 a b then
               (case bs of
                  c # bs \<Rightarrow>
                    if is_cont c then (case bs of d # _ \<Rightarrow> if is_cont d then Inr 4 else Inl 3 | [] \<Rightarrow> Inl 3)
                    else Inl 2
                | [] \<Rightarrow> Inl 2)
             else Inl 1
         | [] \<Rightarrow> Inl 1)
      else Inl 1)"

lemma second_cont: "second3 a b \<Longrightarrow> is_cont b" "second4 a b \<Longrightarrow> is_cont b"
  by (auto simp: second3_def second4_def is_cont_def word_le_nat_alt split: if_splits)

lemma utf8_head_Inr:
  assumes "utf8_head bs = Inr n"
  shows "0 < n \<and> n \<le> length bs \<and> list_all is_cont (tl (take n bs)) \<and> utf8_head (take n bs @ cs) = Inr n"
  using assms
  by (cases bs) (auto simp: second_cont split: if_splits list.splits)

lemma utf8_head_drop: "utf8_head bs = Inr n \<Longrightarrow> length (drop n bs) < length bs"
  using utf8_head_Inr [of bs n "[]"] by simp linarith

lemma utf8_head_Inl:
  assumes "utf8_head bs = Inl n" and "bs \<noteq> []"
  shows "0 < n" and "n \<le> length bs" and "length (drop n bs) < length bs"
  using assms by (cases bs; auto split: if_splits list.splits)+

function valid_utf8 :: "byte list \<Rightarrow> bool" where
  "valid_utf8 bs =
     (bs = [] \<or> (case utf8_head bs of Inl n \<Rightarrow> False | Inr n \<Rightarrow> valid_utf8 (drop n bs)))"
  by pat_completeness auto
termination
proof (relation "measure length")
  fix bs :: "byte list" and n
  assume "utf8_head bs = Inr n"
  then show "(drop n bs, bs) \<in> measure length" using utf8_head_drop [of bs n] by simp
qed simp

declare valid_utf8.simps [simp del]

lemma valid_utf8_Nil [simp]: "valid_utf8 []"
  by (simp add: valid_utf8.simps)

lemma valid_utf8_step:
  "utf8_head bs = Inr n \<Longrightarrow> valid_utf8 bs = valid_utf8 (drop n bs)"
  by (subst valid_utf8.simps) auto

definition from_utf8 :: "byte list \<Rightarrow> string option" where
  "from_utf8 bs = (if valid_utf8 bs then Some (string_of_bytes bs) else None)"

text \<open>U+FFFD, the replacement character.\<close>

definition replacement :: "byte list" where
  "replacement = [0xEF, 0xBF, 0xBD]"

function utf8_lossy :: "byte list \<Rightarrow> byte list" where
  "utf8_lossy bs =
     (if bs = [] then []
      else case utf8_head bs of
             Inr n \<Rightarrow> take n bs @ utf8_lossy (drop n bs)
           | Inl n \<Rightarrow> replacement @ utf8_lossy (drop n bs))"
  by pat_completeness auto
termination
proof (relation "measure length")
  fix bs :: "byte list" and n
  assume "bs \<noteq> []" "utf8_head bs = Inl n"
  then show "(drop n bs, bs) \<in> measure length" using utf8_head_Inl(3) [of bs n] by simp
next
  fix bs :: "byte list" and n
  assume "bs \<noteq> []" "utf8_head bs = Inr n"
  then show "(drop n bs, bs) \<in> measure length" using utf8_head_drop [of bs n] by simp
qed simp

declare utf8_lossy.simps [simp del]

definition from_utf8_lossy :: "byte list \<Rightarrow> string" where
  "from_utf8_lossy bs = string_of_bytes (utf8_lossy bs)"

section \<open>Lemmas\<close>

lemma valid_utf8_append: "valid_utf8 bs \<Longrightarrow> valid_utf8 (bs @ cs) = valid_utf8 cs"
proof (induction bs rule: valid_utf8.induct)
  case (1 bs)
  show ?case
  proof (cases "bs = []")
    case False
    then obtain n where n: "utf8_head bs = Inr n" "valid_utf8 (drop n bs)"
      using 1(2) by (subst (asm) valid_utf8.simps) (auto split: sum.splits)
    note h = utf8_head_Inr [OF n(1), of "drop n bs @ cs"]
    have "utf8_head (bs @ cs) = Inr n" using h by (metis append.assoc append_take_drop_id)
    with h 1(1) [OF n] show ?thesis by (simp add: valid_utf8_step)
  qed simp
qed

text \<open>Cutting well-formed text before a byte that does not continue a character leaves it well formed.\<close>

lemma valid_utf8_take:
  assumes "valid_utf8 bs" and "k < length bs" and "\<not> is_cont (bs ! k)"
  shows "valid_utf8 (take k bs)"
  using assms
proof (induction bs arbitrary: k rule: valid_utf8.induct)
  case (1 bs)
  then obtain n where n: "utf8_head bs = Inr n" "valid_utf8 (drop n bs)"
    by (subst (asm) (2) valid_utf8.simps) (auto split: sum.splits)
  note h = utf8_head_Inr [OF n(1)]
  show ?case
  proof (cases "k < n")
    case True
    have "k = 0"
    proof (rule ccontr)
      assume "k \<noteq> 0"
      then have "bs ! k \<in> set (tl (take n bs))"
        using True h [of "[]"] "1.prems"(2)
        by (auto simp: in_set_conv_nth nth_tl intro!: exI [of _ "k - 1"])
      with h [of "[]"] "1.prems"(3) show False by (auto simp: list_all_iff)
    qed
    then show ?thesis by simp
  next
    case False
    have "valid_utf8 (take (k - n) (drop n bs))"
      using 1(1) [OF n(1) n(2), of "k - n"] "1.prems" False by simp
    moreover have "take k bs = take n bs @ take (k - n) (drop n bs)"
      using False by (metis append_take_drop_id le_add_diff_inverse not_less take_add)
    moreover from this have "utf8_head (take k bs) = Inr n" using h by metis
    ultimately show ?thesis
      using False h [of "[]"] "1.prems"(2) by (simp add: valid_utf8_step drop_take)
  qed
qed

lemma valid_utf8_ascii: "list_all lead1 bs \<Longrightarrow> valid_utf8 bs"
  by (induction bs) (simp_all add: valid_utf8_step)

text \<open>The lossy conversion changes nothing that is well formed, and always gives well-formed text.\<close>

lemma utf8_lossy_valid: "valid_utf8 bs \<Longrightarrow> utf8_lossy bs = bs"
proof (induction bs rule: valid_utf8.induct)
  case (1 bs)
  show ?case
  proof (cases "bs = []")
    case False
    then obtain n where n: "utf8_head bs = Inr n" "valid_utf8 (drop n bs)"
      using 1(2) by (subst (asm) valid_utf8.simps) (auto split: sum.splits)
    from 1(1) [OF n] n show ?thesis by (subst utf8_lossy.simps) simp
  qed (simp add: utf8_lossy.simps)
qed

lemma replacement_valid: "valid_utf8 replacement"
  by code_simp

lemma utf8_lossy_is_valid: "valid_utf8 (utf8_lossy bs)"
proof (induction bs rule: utf8_lossy.induct)
  case (1 bs)
  show ?case
  proof (cases "bs = []")
    case False
    show ?thesis
    proof (cases "utf8_head bs")
      case (Inl n)
      with False 1(1) [OF False Inl] show ?thesis
        by (subst utf8_lossy.simps) (simp add: valid_utf8_append [OF replacement_valid])
    next
      case (Inr n)
      note h = utf8_head_Inr [OF Inr]
      have "utf8_head (take n bs @ utf8_lossy (drop n bs)) = Inr n" using h by blast
      with False Inr 1(2) [OF False Inr] h [of "[]"] show ?thesis
        by (subst utf8_lossy.simps) (simp add: valid_utf8_step)
    qed
  qed (simp add: utf8_lossy.simps)
qed

lemma from_utf8_Some: "from_utf8 bs = Some s \<Longrightarrow> as_bytes s = bs"
  by (auto simp: from_utf8_def split: if_splits)

end
