(* ===== verification/Agent_Runtime.thy ===== *)
theory Agent_Runtime
  imports Agent_Auth Transcript F64 Utf8
begin

text \<open>
  The agent of the host after its handshake, \<^verbatim>\<open>mitb-host/src/agent.rs\<close>, \<^verbatim>\<open>agent/signaling.rs\<close> and
  \<^verbatim>\<open>agent/signaling_handlers.rs\<close>: the store of reward reports, the peer connections to the zookeepers
  of the room, the signalling session and the loop that reconnects.

  WebRTC, the URL parser, JSON and the socket are parameters. A peer connection with its data
  channel is an address; a channel records whether it is open, what its opening callback still
  has to replay and what was sent on it. The tasks of the agent (the session, the publisher of
  rewards, the callbacks of the channels) are interleaved by the step relation \<open>report_step\<close>.
\<close>

section \<open>Reports\<close>

record reward_report =
  rr_reward :: f64
  rr_reported_at_ms :: nat

definition validate_reward :: "(f64 \<Rightarrow> string) \<Rightarrow> f64 \<Rightarrow> string + unit" where
  "validate_reward show_f64 r =
     (if \<not> is_finite r then Err ''reward must be finite''
      else if f_lt r (Fin 0) \<or> f_lt (Fin 1) r
      then Err (''reward must be in [0.0, 1.0], got '' @ show_f64 r)
      else Ok ())"

text \<open>\<open>since_epoch\<close> is the time since the epoch in milliseconds, \<open>None\<close> before it.\<close>

definition current_timestamp_ms :: "nat option \<Rightarrow> nat" where
  "current_timestamp_ms since_epoch =
     (case since_epoch of None \<Rightarrow> 0 | Some ms \<Rightarrow> min ms u64_max)"

section \<open>The state of a session\<close>

text \<open>\<open>ch_replay\<close> is \<open>None\<close> until the opening callback has taken its snapshot, then what it still has to send.\<close>

record channel =
  ch_open :: bool
  ch_replay :: "reward_report list option"
  ch_sent :: "byte list list"

definition new_channel :: channel where
  "new_channel = \<lparr>ch_open = False, ch_replay = None, ch_sent = []\<rparr>"

text \<open>The history of the \<^verbatim>\<open>ReportStore\<close>, the reports pushed to it and not yet broadcast, the session's
  receiver of the broadcast, the peers by zookeeper, and what the session did to the outside.\<close>

record agent_world =
  aw_history :: "reward_report list"
  aw_publishing :: "reward_report list"
  aw_queue :: "reward_report list"
  aw_peers :: "(string, nat) hashmap"
  aw_chan :: "nat \<Rightarrow> channel"
  aw_signals :: "agent_client_message list"
  aw_answers :: "(nat \<times> string) list"
  aw_closed :: "nat list"
  aw_shutdown :: bool
  aw_events :: "host_event list"

text \<open>\<^verbatim>\<open>ReportStore::publish\<close> up to the release of the lock; the broadcast follows as a step of its own.\<close>

definition publish_push ::
  "(f64 \<Rightarrow> string) \<Rightarrow> nat option \<Rightarrow> f64 \<Rightarrow> agent_world \<Rightarrow> (string + unit) \<times> agent_world" where
  "publish_push show_f64 since_epoch r w =
     (case validate_reward show_f64 r of
        Inl e \<Rightarrow> (Err e, w)
      | Inr _ \<Rightarrow>
          let report = \<lparr>rr_reward = r, rr_reported_at_ms = current_timestamp_ms since_epoch\<rparr> in
          (Ok (), w\<lparr>aw_history := aw_history w @ [report], aw_publishing := aw_publishing w @ [report]\<rparr>))"

definition publish_send :: "reward_report \<Rightarrow> agent_world \<Rightarrow> agent_world" where
  "publish_send report w =
     w\<lparr>aw_publishing := remove1 report (aw_publishing w), aw_queue := aw_queue w @ [report]\<rparr>"

section \<open>Peers\<close>

text \<open>What creating a connection, its channel and an offer gives: an error of the library, a missing
  local description, or the address of the connection and the offer.\<close>

datatype offer_outcome = OfferError string | OfferNoDescription | OfferReady nat string

definition ensure_peer ::
  "offer_outcome \<Rightarrow> string \<Rightarrow> agent_world \<Rightarrow> (agent_error + unit) \<times> agent_world" where
  "ensure_peer outcome zid w =
     (if hm_contains (aw_peers w) zid then (Ok (), w)
      else case outcome of
             OfferError e \<Rightarrow> (Err (WebRtcError e), w)
           | OfferNoDescription \<Rightarrow> (Err (InvalidServerAddr ''missing local description after offer''), w)
           | OfferReady c sdp \<Rightarrow>
               (Ok (), w\<lparr>aw_chan := (aw_chan w)(c := new_channel),
                         aw_signals := aw_signals w @ [SignalPeer zid (Offer sdp)],
                         aw_peers := hm_insert zid c (aw_peers w)\<rparr>))"

text \<open>\<^verbatim>\<open>send_report\<close>: \<open>ser\<close> is the serialisation, \<open>fails\<close> what the channel answers to a payload.\<close>

definition send_report ::
  "(reward_report \<Rightarrow> string + byte list) \<Rightarrow> (byte list \<Rightarrow> string option) \<Rightarrow> reward_report \<Rightarrow> channel \<Rightarrow>
     (string + unit) \<times> channel" where
  "send_report ser fails report ch =
     (case ser report of
        Inl e \<Rightarrow> (Err (''failed serializing reward report: '' @ e), ch)
      | Inr payload \<Rightarrow>
          (case fails payload of
             Some e \<Rightarrow> (Err e, ch)
           | None \<Rightarrow> (Ok (), ch\<lparr>ch_sent := ch_sent ch @ [payload]\<rparr>)))"

text \<open>\<^verbatim>\<open>broadcast_report\<close>: a failing send is only logged.\<close>

definition broadcast_to ::
  "(reward_report \<Rightarrow> string + byte list) \<Rightarrow> (nat \<Rightarrow> byte list \<Rightarrow> string option) \<Rightarrow> reward_report \<Rightarrow> nat \<Rightarrow>
     (nat \<Rightarrow> channel) \<Rightarrow> (nat \<Rightarrow> channel)" where
  "broadcast_to ser fails report c chan =
     (if \<not> ch_open (chan c) then chan
      else chan(c := snd (send_report ser (fails c) report (chan c))))"

definition broadcast_report ::
  "(reward_report \<Rightarrow> string + byte list) \<Rightarrow> (nat \<Rightarrow> byte list \<Rightarrow> string option) \<Rightarrow> reward_report \<Rightarrow>
     agent_world \<Rightarrow> agent_world" where
  "broadcast_report ser fails report w =
     w\<lparr>aw_chan := fold (broadcast_to ser fails report) (hm_values (aw_peers w)) (aw_chan w)\<rparr>"

text \<open>The callbacks of a data channel. Opening takes a snapshot of the history and sends it report by
  report, giving up at the first failure.\<close>

definition on_open :: "nat \<Rightarrow> agent_world \<Rightarrow> agent_world" where
  "on_open c w =
     w\<lparr>aw_chan := (aw_chan w)(c := (aw_chan w c)\<lparr>ch_replay := Some (aw_history w)\<rparr>)\<rparr>"

definition replay_next ::
  "(reward_report \<Rightarrow> string + byte list) \<Rightarrow> (nat \<Rightarrow> byte list \<Rightarrow> string option) \<Rightarrow> nat \<Rightarrow>
     agent_world \<Rightarrow> agent_world" where
  "replay_next ser fails c w =
     (case ch_replay (aw_chan w c) of
        Some (report # rest) \<Rightarrow>
          (case send_report ser (fails c) report (aw_chan w c) of
             (Inl _, ch) \<Rightarrow> w\<lparr>aw_chan := (aw_chan w)(c := ch\<lparr>ch_replay := Some []\<rparr>)\<rparr>
           | (Inr _, ch) \<Rightarrow> w\<lparr>aw_chan := (aw_chan w)(c := ch\<lparr>ch_replay := Some rest\<rparr>)\<rparr>)
      | _ \<Rightarrow> w)"

text \<open>A message of a zookeeper; \<open>parse\<close> accepts the text of \<^verbatim>\<open>AgentDataMessage::Terminate\<close>, its only
  variant. Without an \<open>event_sender\<close> no event is sent.\<close>

definition on_data_message ::
  "(string \<Rightarrow> bool) \<Rightarrow> bool \<Rightarrow> string \<Rightarrow> bool \<Rightarrow> byte list \<Rightarrow> agent_world \<Rightarrow> agent_world" where
  "on_data_message parse event_sender zid is_string data w =
     (if \<not> is_string then w
      else case from_utf8 data of
             None \<Rightarrow> w
           | Some t \<Rightarrow>
               if parse t
               then w\<lparr>aw_shutdown := True,
                      aw_events := aw_events w @
                        (if event_sender
                         then [SessionEnded (''zookeeper `'' @ zid @ ''` requested terminate'')] else [])\<rparr>
               else w)"

section \<open>Messages of the server\<close>

text \<open>\<^verbatim>\<open>agent/av.rs\<close>: the audio and video state of the agent, which handles nothing.\<close>

definition av_handle_connected :: "agent_error + unit" where
  "av_handle_connected = Ok ()"

definition av_handle_peer_joined_agent :: "agent_error + unit" where
  "av_handle_peer_joined_agent = Ok ()"

definition av_handle_signal :: "agent_error + bool" where
  "av_handle_signal = Ok False"

fun is_ignored_pake_message :: "agent_server_message \<Rightarrow> bool" where
  "is_ignored_pake_message AgPakeRegistrationRequired = True"
| "is_ignored_pake_message (AgPakeRegistrationResponse _) = True"
| "is_ignored_pake_message (AgPakeCredentialCandidates _) = True"
| "is_ignored_pake_message _ = False"

fun ensure_peers ::
  "(string \<Rightarrow> offer_outcome) \<Rightarrow> string list \<Rightarrow> agent_world \<Rightarrow> (agent_error + unit) \<times> agent_world" where
  "ensure_peers offers [] w = (Ok (), w)"
| "ensure_peers offers (z # zs) w =
     (case ensure_peer (offers z) z w of
        (Inl e, w) \<Rightarrow> (Err e, w)
      | (Inr _, w) \<Rightarrow> ensure_peers offers zs w)"

definition handle_connected ::
  "(string \<Rightarrow> offer_outcome) \<Rightarrow> string list \<Rightarrow> agent_world \<Rightarrow> (agent_error + unit) \<times> agent_world" where
  "handle_connected offers zs w =
     (case av_handle_connected of
        Inl e \<Rightarrow> (Err e, w)
      | Inr _ \<Rightarrow> ensure_peers offers zs w)"

definition handle_peer_joined ::
  "(string \<Rightarrow> offer_outcome) \<Rightarrow> client_role \<Rightarrow> string \<Rightarrow> agent_world \<Rightarrow> (agent_error + unit) \<times> agent_world" where
  "handle_peer_joined offers role cid w =
     (case role of
        Zookeeper \<Rightarrow> ensure_peer (offers cid) cid w
      | Agent \<Rightarrow> (av_handle_peer_joined_agent, w))"

definition handle_peer_left :: "client_role \<Rightarrow> string \<Rightarrow> agent_world \<Rightarrow> agent_world" where
  "handle_peer_left role cid w =
     (case role of
        Zookeeper \<Rightarrow>
          (case hm_get (aw_peers w) cid of
             None \<Rightarrow> w
           | Some c \<Rightarrow> w\<lparr>aw_peers := hm_remove cid (aw_peers w), aw_closed := aw_closed w @ [c]\<rparr>)
      | Agent \<Rightarrow> w)"

text \<open>\<open>remote c sdp\<close> is the error of setting an answer as the remote description, if any.\<close>

definition handle_signal ::
  "(nat \<Rightarrow> string \<Rightarrow> string option) \<Rightarrow> string \<Rightarrow> signaling_payload \<Rightarrow> agent_world \<Rightarrow>
     (agent_error + unit) \<times> agent_world" where
  "handle_signal remote peer payload w =
     (case hm_get (aw_peers w) peer of
        Some c \<Rightarrow>
          (case payload of
             Answer sdp \<Rightarrow>
               (case remote c sdp of
                  Some e \<Rightarrow> (Err (WebRtcError e), w)
                | None \<Rightarrow> (Ok (), w\<lparr>aw_answers := aw_answers w @ [(c, sdp)]\<rparr>))
           | Offer _ \<Rightarrow> (Ok (), w))
      | None \<Rightarrow> (case av_handle_signal of Inl e \<Rightarrow> (Err e, w) | Inr handled \<Rightarrow> (Ok (), w)))"

text \<open>The arm of the key exchange messages is unreachable behind the guard.\<close>

definition handle_server_message ::
  "(string \<Rightarrow> offer_outcome) \<Rightarrow> (nat \<Rightarrow> string \<Rightarrow> string option) \<Rightarrow> agent_server_message \<Rightarrow> agent_world \<Rightarrow>
     (agent_error + unit) \<times> agent_world" where
  "handle_server_message offers remote m w =
     (if is_ignored_pake_message m then (Ok (), w)
      else case m of
             AgConnected cid as zs \<Rightarrow> handle_connected offers zs w
           | AgPeerJoined role cid \<Rightarrow> handle_peer_joined offers role cid w
           | AgPeerLeft role cid \<Rightarrow> (Ok (), handle_peer_left role cid w)
           | AgSignal peer payload \<Rightarrow> handle_signal remote peer payload w
           | AgError e \<Rightarrow> (Ok (), w)
           | AgPong \<Rightarrow> (Ok (), w)
           | _ \<Rightarrow> (Ok (), w))"

section \<open>The session\<close>

datatype directive = SessionContinue | SessionBreak

datatype report_recv = RecvReport reward_report | RecvLagged nat | RecvReportClosed

datatype loop_event =
    WebsocketEvent "(string + tung_message) option"
  | ReportEvent report_recv
  | ShutdownTick

record session_env =
  sv_parse :: "string \<Rightarrow> string + agent_server_message"
  sv_offers :: "string \<Rightarrow> offer_outcome"
  sv_remote :: "nat \<Rightarrow> string \<Rightarrow> string option"
  sv_ser :: "reward_report \<Rightarrow> string + byte list"
  sv_fails :: "nat \<Rightarrow> byte list \<Rightarrow> string option"

definition handle_websocket_event ::
  "session_env \<Rightarrow> (string + tung_message) option \<Rightarrow> agent_world \<Rightarrow> (agent_error + directive) \<times> agent_world" where
  "handle_websocket_event env m w =
     (case m of
        None \<Rightarrow> (Ok SessionBreak, w)
      | Some (Inl e) \<Rightarrow> (Err (WebSocketError e), w)
      | Some (Inr (TText t)) \<Rightarrow>
          (case sv_parse env t of
             Inl e \<Rightarrow> (Err (JsonError e), w)
           | Inr m \<Rightarrow> apfst (map_sum id (\<lambda>_. SessionContinue))
               (handle_server_message (sv_offers env) (sv_remote env) m w))
      | Some (Inr TClose) \<Rightarrow> (Ok SessionBreak, w)
      | Some (Inr _) \<Rightarrow> (Ok SessionContinue, w))"

fun handle_report_event :: "session_env \<Rightarrow> report_recv \<Rightarrow> agent_world \<Rightarrow> directive \<times> agent_world" where
  "handle_report_event env (RecvReport r) w =
     (SessionContinue, broadcast_report (sv_ser env) (sv_fails env) r w)"
| "handle_report_event env (RecvLagged n) w = (SessionContinue, w)"
| "handle_report_event env RecvReportClosed w = (SessionBreak, w)"

fun process_next_loop_event ::
  "session_env \<Rightarrow> loop_event \<Rightarrow> agent_world \<Rightarrow> (agent_error + directive) \<times> agent_world" where
  "process_next_loop_event env (WebsocketEvent m) w = handle_websocket_event env m w"
| "process_next_loop_event env (ReportEvent r) w = apfst Inr (handle_report_event env r w)"
| "process_next_loop_event env ShutdownTick w = (Ok SessionContinue, w)"

text \<open>The loop over the events the session sees; the flag of each turn is what it finds \<^verbatim>\<open>shutdown\<close> to be.
  \<open>None\<close> means that the session is still running after these events.\<close>

fun session_loop ::
  "session_env \<Rightarrow> (bool \<times> loop_event) list \<Rightarrow> agent_world \<Rightarrow> (agent_error + unit) option \<times> agent_world" where
  "session_loop env [] w = (None, w)"
| "session_loop env ((shutdown, ev) # evs) w =
     (if shutdown then (Some (Ok ()), w)
      else case process_next_loop_event env ev w of
             (Inl e, w) \<Rightarrow> (Some (Err e), w)
           | (Inr SessionBreak, w) \<Rightarrow> (Some (Ok ()), w)
           | (Inr SessionContinue, w) \<Rightarrow> session_loop env evs w)"

text \<open>\<^verbatim>\<open>run_signaling_session\<close> after the handshake, which gave \<open>initial\<close>. The peers are closed when the
  loop ends, not when an error leaves it.\<close>

definition run_session ::
  "session_env \<Rightarrow> agent_server_message \<Rightarrow> (bool \<times> loop_event) list \<Rightarrow> agent_world \<Rightarrow>
     (agent_error + unit) option \<times> agent_world" where
  "run_session env initial evs w =
     (case handle_server_message (sv_offers env) (sv_remote env) initial (w\<lparr>aw_peers := [], aw_queue := []\<rparr>) of
        (Inl e, w) \<Rightarrow> (Some (Err e), w)
      | (Inr _, w) \<Rightarrow>
          (case session_loop env evs w of
             (Some (Inr _), w) \<Rightarrow>
               (Some (Ok ()), w\<lparr>aw_peers := [], aw_closed := aw_closed w @ hm_values (aw_peers w)\<rparr>)
           | (res, w) \<Rightarrow> (res, w)))"

section \<open>Reconnecting\<close>

definition RECONNECT_DELAY_INITIAL :: duration where
  "RECONNECT_DELAY_INITIAL = from_secs 1"

definition RECONNECT_DELAY_MAX :: duration where
  "RECONNECT_DELAY_MAX = from_secs 30"

definition next_reconnect_delay :: "duration \<Rightarrow> duration" where
  "next_reconnect_delay d = min (min (d * 2) duration_max) RECONNECT_DELAY_MAX"

text \<open>\<^verbatim>\<open>signaling_url\<close> over the \<^verbatim>\<open>url\<close> crate: parsing, the path and replacing it.\<close>

record 'u url_ops =
  url_parse :: "string \<Rightarrow> string + 'u"
  url_path :: "'u \<Rightarrow> string"
  url_set_path :: "string \<Rightarrow> 'u \<Rightarrow> 'u"

definition normalize_server_addr :: "string \<Rightarrow> string option" where
  "normalize_server_addr addr =
     (if starts_with ''wss://'' addr then Some addr
      else case strip_prefix ''https://'' addr of
             Some rest \<Rightarrow> Some (''wss://'' @ rest)
           | None \<Rightarrow>
      (case strip_prefix ''ws://'' addr of
         Some rest \<Rightarrow> Some (''ws://'' @ rest)
       | None \<Rightarrow>
      (case strip_prefix ''http://'' addr of
         Some rest \<Rightarrow> Some (''ws://'' @ rest)
       | None \<Rightarrow>
      if str_contains ''://'' addr then None else Some (''ws://'' @ addr))))"

definition signaling_url :: "'u url_ops \<Rightarrow> string \<Rightarrow> agent_error + 'u" where
  "signaling_url U addr =
     (case normalize_server_addr addr of
        None \<Rightarrow> Err (InvalidServerAddr addr)
      | Some normalized \<Rightarrow>
          (case url_parse U normalized of
             Inl e \<Rightarrow> Err (UrlError e)
           | Inr u \<Rightarrow>
               Ok (if url_path U u = [] \<or> url_path U u = ''/'' then url_set_path U ''/ws'' u else u)))"

text \<open>One turn of \<^verbatim>\<open>run\<close>: the flag at its start, the result of the session, the flag after it.\<close>

record run_turn =
  rt_shutdown_before :: bool
  rt_session :: "agent_error + unit"
  rt_shutdown_after :: bool

text \<open>The loop of \<^verbatim>\<open>run\<close> over its turns: the result, if it has returned, and the pauses it made.\<close>

fun run_loop :: "duration \<Rightarrow> run_turn list \<Rightarrow> (agent_error + unit) option \<times> duration list" where
  "run_loop delay [] = (None, [])"
| "run_loop delay (t # ts) =
     (if rt_shutdown_before t then (Some (Ok ()), [])
      else case rt_session t of
             Inr _ \<Rightarrow>
               if rt_shutdown_after t then (Some (Ok ()), [])
               else apsnd (Cons RECONNECT_DELAY_INITIAL)
                      (run_loop (next_reconnect_delay RECONNECT_DELAY_INITIAL) ts)
           | Inl e \<Rightarrow>
               if is_retryable e \<and> \<not> rt_shutdown_after t
               then apsnd (Cons delay) (run_loop (next_reconnect_delay delay) ts)
               else (Some (Err e), []))"

definition run_agent ::
  "'u url_ops \<Rightarrow> (agent_error + unit) \<Rightarrow> string \<Rightarrow> run_turn list \<Rightarrow> (agent_error + unit) option \<times> duration list" where
  "run_agent U api addr ts =
     (case signaling_url U addr of
        Inl e \<Rightarrow> (Some (Err e), [])
      | Inr _ \<Rightarrow>
          (case api of
             Inl e \<Rightarrow> (Some (Err e), [])
           | Inr _ \<Rightarrow> run_loop RECONNECT_DELAY_INITIAL ts))"

text \<open>\<^verbatim>\<open>spawn\<close> reports a failed run as a fatal event, with the error's \<^verbatim>\<open>Display\<close>.\<close>

fun agent_error_string :: "agent_error \<Rightarrow> string" where
  "agent_error_string (InvalidServerAddr a) = ''invalid MITB_SERVER_ADDR `'' @ a @ ''`''"
| "agent_error_string (PakeError e) = e"
| "agent_error_string (UrlError e) = e"
| "agent_error_string (WebSocketError e) = e"
| "agent_error_string (JsonError e) = e"
| "agent_error_string (WebRtcError e) = e"

fun agent_runtime_events :: "(agent_error + unit) option \<Rightarrow> string list" where
  "agent_runtime_events (Some (Inl e)) = [agent_error_string e]"
| "agent_runtime_events _ = []"

section \<open>Interleavings\<close>

text \<open>The steps of all tasks of the agent during a session: the publisher of rewards (in two steps),
  the session (a report, a message of the server), and the events and callbacks of a channel.\<close>

inductive report_step :: "session_env \<Rightarrow> agent_world \<Rightarrow> agent_world \<Rightarrow> bool" for env where
  StepPublish: "publish_push show_f64 since_epoch r w = (Ok (), w') \<Longrightarrow> report_step env w w'"
| StepBroadcast: "r \<in> set (aw_publishing w) \<Longrightarrow> report_step env w (publish_send r w)"
| StepReport: "aw_queue w = r # q \<Longrightarrow>
     process_next_loop_event env (ReportEvent (RecvReport r)) (w\<lparr>aw_queue := q\<rparr>) = (d, w') \<Longrightarrow> report_step env w w'"
| StepMessage: "handle_server_message offers (sv_remote env) m w = (d, w') \<Longrightarrow> report_step env w w'"
| StepOpens: "c \<in> set (hm_values (aw_peers w)) \<Longrightarrow> ch_replay (aw_chan w c) = None \<Longrightarrow>
     report_step env w (w\<lparr>aw_chan := (aw_chan w)(c := (aw_chan w c)\<lparr>ch_open := True\<rparr>)\<rparr>)"
| StepOnOpen: "ch_open (aw_chan w c) \<Longrightarrow> ch_replay (aw_chan w c) = None \<Longrightarrow> report_step env w (on_open c w)"
| StepReplay: "report_step env w (replay_next (sv_ser env) (sv_fails env) c w)"
| StepCloses: "report_step env w (w\<lparr>aw_chan := (aw_chan w)(c := (aw_chan w c)\<lparr>ch_open := False\<rparr>)\<rparr>)"
| StepData: "report_step env w (on_data_message parse sender zid is_string data w)"

definition session_init :: "reward_report list \<Rightarrow> agent_world" where
  "session_init history =
     \<lparr>aw_history = history, aw_publishing = [], aw_queue = [], aw_peers = [], aw_chan = (\<lambda>_. new_channel),
      aw_signals = [], aw_answers = [], aw_closed = [], aw_shutdown = False, aw_events = []\<rparr>"

inductive session_reaches :: "session_env \<Rightarrow> reward_report list \<Rightarrow> agent_world \<Rightarrow> bool" for env history where
  reach_init: "session_reaches env history (session_init history)"
| reach_step: "session_reaches env history w \<Longrightarrow> report_step env w w' \<Longrightarrow> session_reaches env history w'"

text \<open>Serialisation and sending work.\<close>

definition sends_work :: "session_env \<Rightarrow> bool" where
  "sends_work env \<longleftrightarrow> (\<forall>r. \<exists>p. sv_ser env r = Ok p) \<and> (\<forall>c p. sv_fails env c p = None)"

definition payload :: "session_env \<Rightarrow> reward_report \<Rightarrow> byte list" where
  "payload env r = projr (sv_ser env r)"

text \<open>Where a report of the history can be, seen from an open channel whose callback has run.\<close>

definition accounted :: "session_env \<Rightarrow> agent_world \<Rightarrow> nat \<Rightarrow> reward_report \<Rightarrow> bool" where
  "accounted env w c r \<longleftrightarrow>
     payload env r \<in> set (ch_sent (aw_chan w c)) \<or> r \<in> set (the (ch_replay (aw_chan w c))) \<or>
     r \<in> set (aw_queue w) \<or> r \<in> set (aw_publishing w)"

definition reports_ok :: "session_env \<Rightarrow> agent_world \<Rightarrow> bool" where
  "reports_ok env w \<longleftrightarrow>
     (\<forall>c \<in> set (hm_values (aw_peers w)). ch_open (aw_chan w c) \<and> ch_replay (aw_chan w c) \<noteq> None \<longrightarrow>
        (\<forall>r \<in> set (aw_history w). accounted env w c r))"

text \<open>What is under way, and what was sent, are reports of the history.\<close>

definition only_reports :: "session_env \<Rightarrow> agent_world \<Rightarrow> bool" where
  "only_reports env w \<longleftrightarrow>
     set (aw_publishing w) \<subseteq> set (aw_history w) \<and> set (aw_queue w) \<subseteq> set (aw_history w) \<and>
     (\<forall>c. (\<forall>rs. ch_replay (aw_chan w c) = Some rs \<longrightarrow> set rs \<subseteq> set (aw_history w)) \<and>
        set (ch_sent (aw_chan w c)) \<subseteq> payload env ` set (aw_history w))"

lemma send_report_works:
  "sends_work env \<Longrightarrow> send_report (sv_ser env) (sv_fails env c) r ch =
     (Ok (), ch\<lparr>ch_sent := ch_sent ch @ [payload env r]\<rparr>)"
  by (auto simp: sends_work_def send_report_def payload_def split: sum.splits option.splits) (metis sum.distinct(1))

lemma broadcast_chan:
  assumes "sends_work env"
  shows "ch_open (fold (broadcast_to (sv_ser env) (sv_fails env) r) cs chan c) = ch_open (chan c) \<and>
    ch_replay (fold (broadcast_to (sv_ser env) (sv_fails env) r) cs chan c) = ch_replay (chan c) \<and>
    set (ch_sent (fold (broadcast_to (sv_ser env) (sv_fails env) r) cs chan c)) =
      set (ch_sent (chan c)) \<union> (if c \<in> set cs \<and> ch_open (chan c) then {payload env r} else {})"
  by (induction cs arbitrary: chan)
     (auto simp: broadcast_to_def send_report_works [OF assms] split: if_splits)

lemma hm_values_insert_subset: "set (hm_values (hm_insert k v m)) \<subseteq> insert v (set (hm_values m))"
proof
  fix x
  assume "x \<in> set (hm_values (hm_insert k v m))"
  then obtain k' where "(k', x) \<in> set (hm_insert k v m)" by (auto simp: hm_in_values)
  with hm_set_insert_subset [of k v m] have "(k', x) = (k, v) \<or> (k', x) \<in> set m" by blast
  then show "x \<in> insert v (set (hm_values m))" by (auto simp: hm_in_values)
qed

lemma hm_values_remove_subset: "set (hm_values (hm_remove k m)) \<subseteq> set (hm_values m)"
  using hm_set_remove_subset [of k m] unfolding subset_iff hm_in_values by blast

lemma ensure_peer_reports:
  assumes e: "ensure_peer outcome z w = (d, w')"
  shows "(reports_ok env w \<longrightarrow> reports_ok env w') \<and> (only_reports env w \<longrightarrow> only_reports env w')"
proof (cases "w' = w")
  case False
  then obtain c sdp where w': "w' = w\<lparr>aw_chan := (aw_chan w)(c := new_channel),
      aw_signals := aw_signals w @ [SignalPeer z (Offer sdp)], aw_peers := hm_insert z c (aw_peers w)\<rparr>"
    using e by (auto simp: ensure_peer_def split: if_splits offer_outcome.splits)
  have "reports_ok env w'" if ok: "reports_ok env w"
    unfolding reports_ok_def
  proof (intro ballI impI)
    fix c' r
    assume c': "c' \<in> set (hm_values (aw_peers w'))" "ch_open (aw_chan w' c') \<and> ch_replay (aw_chan w' c') \<noteq> None"
      and r: "r \<in> set (aw_history w')"
    from c'(2) have "c' \<noteq> c" by (auto simp: w' new_channel_def)
    with c' have "c' \<in> set (hm_values (aw_peers w))" "ch_open (aw_chan w c')" "ch_replay (aw_chan w c') \<noteq> None"
      using hm_values_insert_subset [of z c "aw_peers w"] by (auto simp: w')
    then have "accounted env w c' r" using ok r by (simp add: reports_ok_def w')
    with \<open>c' \<noteq> c\<close> show "accounted env w' c' r" by (simp add: accounted_def w')
  qed
  moreover have "only_reports env w'" if "only_reports env w"
    using that by (simp add: only_reports_def w' new_channel_def)
  ultimately show ?thesis by blast
qed simp

lemma ensure_peers_reports:
  "ensure_peers offers zs w = (d, w') \<Longrightarrow>
     (reports_ok env w \<longrightarrow> reports_ok env w') \<and> (only_reports env w \<longrightarrow> only_reports env w')"
proof (induction zs arbitrary: w)
  case (Cons z zs)
  obtain d1 w1 where e: "ensure_peer (offers z) z w = (d1, w1)" by fastforce
  show ?case
    using ensure_peer_reports [OF e] Cons.prems Cons.IH [of w1] e by (cases d1) auto
qed simp

lemma reports_frame:
  assumes "aw_history w' = aw_history w" "aw_publishing w' = aw_publishing w" "aw_queue w' = aw_queue w"
    "aw_chan w' = aw_chan w" "set (hm_values (aw_peers w')) \<subseteq> set (hm_values (aw_peers w))"
  shows "(reports_ok env w \<longrightarrow> reports_ok env w') \<and> (only_reports env w \<longrightarrow> only_reports env w')"
proof -
  have "accounted env w' = accounted env w" using assms by (intro ext) (simp add: accounted_def)
  with assms show ?thesis by (auto simp: reports_ok_def only_reports_def)
qed

lemma handle_peer_left_reports:
  "(reports_ok env w \<longrightarrow> reports_ok env (handle_peer_left role cid w)) \<and>
   (only_reports env w \<longrightarrow> only_reports env (handle_peer_left role cid w))"
  by (rule reports_frame)
     (simp_all add: handle_peer_left_def hm_values_remove_subset split: client_role.splits option.splits)

lemma handle_signal_reports:
  "handle_signal remote peer p w = (d, w') \<Longrightarrow>
     (reports_ok env w \<longrightarrow> reports_ok env w') \<and> (only_reports env w \<longrightarrow> only_reports env w')"
  by (rule reports_frame)
     (auto simp: handle_signal_def av_handle_signal_def split: option.splits signaling_payload.splits)

lemma handle_server_message_reports:
  "handle_server_message offers remote m w = (d, w') \<Longrightarrow>
     (reports_ok env w \<longrightarrow> reports_ok env w') \<and> (only_reports env w \<longrightarrow> only_reports env w')"
  by (cases m)
     (auto simp: handle_server_message_def handle_connected_def av_handle_connected_def handle_peer_joined_def
        av_handle_peer_joined_agent_def handle_peer_left_reports split: client_role.splits
        dest: ensure_peers_reports [where env = env] ensure_peer_reports [where env = env]
          handle_signal_reports [where env = env])

lemma broadcast_reports:
  assumes works: "sends_work env" and q: "aw_queue w = r # q"
    and ok: "reports_ok env w" "only_reports env w"
  shows "reports_ok env (broadcast_report (sv_ser env) (sv_fails env) r (w\<lparr>aw_queue := q\<rparr>)) \<and>
    only_reports env (broadcast_report (sv_ser env) (sv_fails env) r (w\<lparr>aw_queue := q\<rparr>))"
proof -
  let ?f = "fold (broadcast_to (sv_ser env) (sv_fails env) r) (hm_values (aw_peers w)) (aw_chan w)"
  note c = broadcast_chan [OF works, of r "hm_values (aw_peers w)" "aw_chan w"]
  have "r \<in> set (aw_history w)" using ok(2) q by (auto simp: only_reports_def)
  then show ?thesis
    using ok q unfolding broadcast_report_def reports_ok_def only_reports_def accounted_def
    by (simp add: c) (auto simp: image_iff)
qed

text \<open>A step at one channel \<open>c\<close>, or at the queues, that loses no report.\<close>

lemma reports_step:
  assumes ok: "reports_ok env w" and "aw_peers w' = aw_peers w"
    and other: "\<And>c'. c' \<noteq> c \<Longrightarrow> aw_chan w' c' = aw_chan w c'"
    and hist: "\<And>r c'. r \<in> set (aw_history w') \<Longrightarrow> accounted env w c' r \<or> r \<notin> set (aw_history w) \<Longrightarrow> c' \<noteq> c \<Longrightarrow>
       accounted env w' c' r"
    and chan: "\<And>r. r \<in> set (aw_history w') \<Longrightarrow> ch_open (aw_chan w' c) \<Longrightarrow> ch_replay (aw_chan w' c) \<noteq> None \<Longrightarrow>
       (ch_open (aw_chan w c) \<and> ch_replay (aw_chan w c) \<noteq> None \<and> r \<in> set (aw_history w) \<Longrightarrow> accounted env w c r) \<Longrightarrow>
       accounted env w' c r"
  shows "reports_ok env w'"
  unfolding reports_ok_def
proof (intro ballI impI)
  fix c' r
  assume c': "c' \<in> set (hm_values (aw_peers w'))" "ch_open (aw_chan w' c') \<and> ch_replay (aw_chan w' c') \<noteq> None"
    and r: "r \<in> set (aw_history w')"
  have acc: "accounted env w c' r"
    if "ch_open (aw_chan w c') \<and> ch_replay (aw_chan w c') \<noteq> None \<and> r \<in> set (aw_history w)"
    using ok that c'(1) assms(2) by (simp add: reports_ok_def)
  show "accounted env w' c' r"
  proof (cases "c' = c")
    case True
    then show ?thesis using chan [of r] c'(2) r acc by blast
  next
    case False
    then show ?thesis using hist [OF r _ False] other [OF False] c'(2) acc by auto
  qed
qed

lemma replay_reports:
  assumes works: "sends_work env" and ok: "reports_ok env w" "only_reports env w"
  shows "reports_ok env (replay_next (sv_ser env) (sv_fails env) c w) \<and>
    only_reports env (replay_next (sv_ser env) (sv_fails env) c w)" (is "reports_ok env ?w \<and> only_reports env ?w")
proof (cases "\<exists>r rs. ch_replay (aw_chan w c) = Some (r # rs)")
  case True
  then obtain r rs where c: "ch_replay (aw_chan w c) = Some (r # rs)" by blast
  then have w': "?w = w\<lparr>aw_chan := (aw_chan w)(c := (aw_chan w c)\<lparr>ch_sent := ch_sent (aw_chan w c) @ [payload env r],
      ch_replay := Some rs\<rparr>)\<rparr>"
    by (simp add: replay_next_def send_report_works [OF works])
  have "set (r # rs) \<subseteq> set (aw_history w)" using ok(2) c unfolding only_reports_def by blast
  then have "only_reports env ?w" using ok(2) unfolding w' only_reports_def by auto
  moreover have "reports_ok env ?w"
    by (rule reports_step [OF ok(1), of _ c]) (use c in \<open>auto simp: w' accounted_def\<close>)
  ultimately show ?thesis by blast
qed (use ok in \<open>simp add: replay_next_def split: option.splits list.splits\<close>)

lemma report_step_ok:
  assumes works: "sends_work env" and step: "report_step env w w'"
    and ok: "reports_ok env w" "only_reports env w"
  shows "reports_ok env w' \<and> only_reports env w'"
  using step
proof cases
  case (StepPublish show_f64 since_epoch r)
  then obtain report where w': "w' = w\<lparr>aw_history := aw_history w @ [report], aw_publishing := aw_publishing w @ [report]\<rparr>"
    by (auto simp: publish_push_def Let_def split: sum.splits)
  have "reports_ok env w'" by (rule reports_step [OF ok(1), of _ 0]) (auto simp: w' accounted_def)
  moreover have "only_reports env w'" using ok(2) unfolding w' only_reports_def by (simp; blast)
  ultimately show ?thesis by blast
next
  case (StepBroadcast r)
  have "x \<in> set (remove1 r (aw_publishing w))" if "x \<in> set (aw_publishing w)" "x \<noteq> r" for x
    using that by simp
  then have "reports_ok env w'" unfolding StepBroadcast
    by (intro reports_step [OF ok(1), of _ 0]) (auto simp: publish_send_def accounted_def)
  moreover have "only_reports env w'"
    using ok(2) StepBroadcast(2) set_remove1_subset [of r "aw_publishing w"]
    unfolding StepBroadcast(1) only_reports_def publish_send_def by auto
  ultimately show ?thesis by blast
next
  case (StepReport r q d)
  then show ?thesis using broadcast_reports [OF works StepReport(1) ok] by simp
next
  case (StepMessage offers m d)
  then show ?thesis using handle_server_message_reports [OF StepMessage, of env] ok by blast
next
  case (StepReplay c)
  then show ?thesis using replay_reports [OF works ok] by simp
next
  case (StepOnOpen c)
  have "reports_ok env w'"
    unfolding StepOnOpen(1) by (rule reports_step [OF ok(1), of _ c]) (auto simp: on_open_def accounted_def)
  moreover have "only_reports env w'" using ok(2) unfolding StepOnOpen(1) only_reports_def on_open_def by auto
  ultimately show ?thesis by blast
next
  case (StepData parse sender zid is_string data)
  have "(reports_ok env w \<longrightarrow> reports_ok env w') \<and> (only_reports env w \<longrightarrow> only_reports env w')"
    unfolding StepData by (rule reports_frame) (simp_all add: on_data_message_def split: option.splits)
  with ok show ?thesis by blast
next
  case (StepOpens c)
  have "reports_ok env w'"
    unfolding StepOpens(1) by (rule reports_step [OF ok(1), of _ c]) (use StepOpens(3) in \<open>auto simp: accounted_def\<close>)
  moreover have "only_reports env w'" using ok(2) unfolding StepOpens(1) only_reports_def by auto
  ultimately show ?thesis by blast
next
  case (StepCloses c)
  have "reports_ok env w'"
    unfolding StepCloses(1) by (rule reports_step [OF ok(1), of _ c]) (auto simp: accounted_def)
  moreover have "only_reports env w'" using ok(2) unfolding StepCloses(1) only_reports_def by auto
  ultimately show ?thesis by blast
qed

lemma session_reaches_ok:
  "session_reaches env history w \<Longrightarrow> sends_work env \<Longrightarrow> reports_ok env w \<and> only_reports env w"
proof (induction rule: session_reaches.induct)
  case reach_init
  show ?case by (simp add: session_init_def reports_ok_def only_reports_def new_channel_def)
next
  case (reach_step w w')
  then show ?case using report_step_ok by blast
qed


definition echo_session :: session_env where
  "echo_session = \<lparr>sv_parse = (\<lambda>_. Ok AgPong), sv_offers = (\<lambda>_. OfferReady 1 ''sdp''), sv_remote = (\<lambda>_ _. None),
     sv_ser = (\<lambda>r. Ok [of_nat (rr_reported_at_ms r)]), sv_fails = (\<lambda>_ _. None)\<rparr>"

definition half_report :: reward_report where
  "half_report = \<lparr>rr_reward = Fin (1 / 2), rr_reported_at_ms = 7\<rparr>"

text \<open>A zookeeper joins, a reward is published, the channel opens and replays it, and then the reward's
  broadcast arrives too.\<close>

definition demo_joined :: agent_world where
  "demo_joined = snd (handle_server_message (\<lambda>_. OfferReady 1 ''sdp'') (\<lambda>_ _. None) (AgPeerJoined Zookeeper ''z'') (session_init []))"

definition demo_published :: agent_world where
  "demo_published = demo_joined\<lparr>aw_history := [half_report], aw_publishing := [half_report]\<rparr>"

definition demo_open :: agent_world where
  "demo_open = demo_published\<lparr>aw_chan := (aw_chan demo_published)(1 := (aw_chan demo_published 1)\<lparr>ch_open := True\<rparr>)\<rparr>"

definition demo_replayed :: agent_world where
  "demo_replayed = replay_next (sv_ser echo_session) (sv_fails echo_session) 1 (on_open 1 demo_open)"

definition demo_sent :: agent_world where
  "demo_sent = snd (process_next_loop_event echo_session (ReportEvent (RecvReport half_report))
     ((publish_send half_report demo_replayed)\<lparr>aw_queue := []\<rparr>))"

lemmas demo_session_defs = demo_joined_def demo_published_def demo_open_def demo_replayed_def demo_sent_def
  half_report_def session_init_def handle_server_message_def handle_peer_joined_def ensure_peer_def hm_contains_def
  on_open_def replay_next_def publish_send_def send_report_def broadcast_report_def broadcast_to_def new_channel_def
  echo_session_def hm_values_def

lemma demo_sent_reached: "session_reaches echo_session [] demo_sent"
proof -
  have 0: "session_reaches echo_session [] demo_joined"
    by (rule reach_step [OF reach_init], rule StepMessage) (auto simp: demo_joined_def echo_session_def intro: prod.collapse [symmetric])
  have "publish_push (\<lambda>_. []) (Some 7) (Fin (1 / 2)) demo_joined = (Ok (), demo_published)"
    by (simp add: publish_push_def validate_reward_def current_timestamp_ms_def u64_max_def demo_session_defs Let_def)
  then have 1: "session_reaches echo_session [] demo_published"
    by (rule reach_step [OF 0 StepPublish])
  have "report_step echo_session demo_published demo_open"
    unfolding demo_open_def by (rule StepOpens) (simp_all add: demo_session_defs)
  note 2 = reach_step [OF 1 this]
  have "report_step echo_session demo_open (on_open 1 demo_open)"
    by (rule StepOnOpen) (simp_all add: demo_session_defs)
  note 3 = reach_step [OF 2 this]
  have 4: "session_reaches echo_session [] demo_replayed"
    unfolding demo_replayed_def by (rule reach_step [OF 3 StepReplay])
  have "report_step echo_session demo_replayed (publish_send half_report demo_replayed)"
    by (rule StepBroadcast) (simp add: demo_session_defs)
  note 5 = reach_step [OF 4 this]
  have "report_step echo_session (publish_send half_report demo_replayed) demo_sent"
    unfolding demo_sent_def
    by (rule StepReport [of _ half_report "[]"]) (auto simp: demo_session_defs intro: prod.collapse [symmetric])
  then show ?thesis by (rule reach_step [OF 5])
qed


section \<open>Reconnecting with backoff\<close>

definition retry_turn :: "run_turn \<Rightarrow> bool" where
  "retry_turn t \<longleftrightarrow> \<not> rt_shutdown_before t \<and> \<not> rt_shutdown_after t \<and> (\<exists>e. rt_session t = Err e \<and> is_retryable e)"

lemma next_reconnect_delay_bounds:
  "from_secs 1 \<le> d \<Longrightarrow> from_secs 1 \<le> next_reconnect_delay d \<and> next_reconnect_delay d \<le> from_secs 30"
  by (auto simp: next_reconnect_delay_def from_secs_def RECONNECT_DELAY_MAX_def duration_max_def u64_max_def)

lemma run_loop_pauses:
  "from_secs 1 \<le> delay \<Longrightarrow> delay \<le> from_secs 30 \<Longrightarrow>
     \<forall>p \<in> set (snd (run_loop delay ts)). from_secs 1 \<le> p \<and> p \<le> from_secs 30"
proof (induction delay ts rule: run_loop.induct)
  case (2 delay t ts)
  have i: "from_secs 1 \<le> RECONNECT_DELAY_INITIAL" "RECONNECT_DELAY_INITIAL \<le> from_secs 30"
    by (simp_all add: RECONNECT_DELAY_INITIAL_def from_secs_def)
  show ?case
    using 2 i next_reconnect_delay_bounds [OF "2.prems"(1)] next_reconnect_delay_bounds [OF i(1)]
    by (auto simp: apsnd_def map_prod_def split: sum.splits prod.splits)
qed simp

lemma run_loop_retries:
  assumes "\<forall>t \<in> set ts. retry_turn t"
  shows "run_loop (from_secs (min (2 ^ k) 30)) (ts @ ts') =
    apsnd ((@) (map (\<lambda>j. from_secs (min (2 ^ (k + j)) 30)) [0..<length ts]))
      (run_loop (from_secs (min (2 ^ (k + length ts)) 30)) ts')"
  using assms
proof (induction ts arbitrary: k)
  case Nil
  then show ?case by (simp add: apsnd_def map_prod_def)
next
  case (Cons t ts)
  have d: "next_reconnect_delay (from_secs (min (2 ^ k) 30)) = from_secs (min (2 ^ Suc k) 30)"
    by (auto simp: next_reconnect_delay_def from_secs_def RECONNECT_DELAY_MAX_def duration_max_def u64_max_def min_def)
  have m: "map (\<lambda>j. from_secs (min (2 ^ (k + j)) 30)) [0..<Suc (length ts)] =
      from_secs (min (2 ^ k) 30) # map (\<lambda>j. from_secs (min (2 ^ (Suc k + j)) 30)) [0..<length ts]"
    by (simp add: upt_conv_Cons map_Suc_upt [symmetric] del: upt_Suc)
  from Cons.prems obtain e where "\<not> rt_shutdown_before t" "\<not> rt_shutdown_after t" "rt_session t = Err e" "is_retryable e"
    by (auto simp: retry_turn_def)
  then have "run_loop (from_secs (min (2 ^ k) 30)) ((t # ts) @ ts') =
      apsnd (Cons (from_secs (min (2 ^ k) 30))) (run_loop (from_secs (min (2 ^ Suc k) 30)) (ts @ ts'))"
    by (simp add: d)
  also have "\<dots> = apsnd ((@) (map (\<lambda>j. from_secs (min (2 ^ (k + j)) 30)) [0..<length (t # ts)]))
      (run_loop (from_secs (min (2 ^ (k + length (t # ts))) 30)) ts')"
    using Cons.IH [of "Suc k"] Cons.prems unfolding list.size add_Suc_right add_0_right m
    by (simp add: apsnd_def map_prod_def split: prod.splits)
  finally show ?case .
qed

lemma run_loop_returns:
  "fst (run_loop d ts) = Some res \<Longrightarrow>
     \<exists>t \<in> set ts. rt_shutdown_before t \<or> rt_shutdown_after t \<or> (\<exists>e. rt_session t = Err e \<and> \<not> is_retryable e)"
  by (induction d ts rule: run_loop.induct) (auto split: if_splits sum.splits)

text \<open>The agent reconnects with exponential backoff. Over any history of sessions every pause is
  between one and thirty seconds; while sessions keep being lost it does not return, and its
  pauses are one, two, four, eight and sixteen seconds and then thirty; it returns only when it is
  shut down or a session fails with an error other than the socket's.\<close>

theorem reconnect_backoff:
  "(\<forall>p \<in> set (snd (run_loop RECONNECT_DELAY_INITIAL ts)). from_secs 1 \<le> p \<and> p \<le> from_secs 30) \<and>
   ((\<forall>t \<in> set ts. retry_turn t) \<longrightarrow> run_loop RECONNECT_DELAY_INITIAL ts =
      (None, map (\<lambda>k. from_secs (min (2 ^ k) 30)) [0..<length ts])) \<and>
   (\<forall>res. fst (run_loop RECONNECT_DELAY_INITIAL ts) = Some res \<longrightarrow>
      (\<exists>t \<in> set ts. rt_shutdown_before t \<or> rt_shutdown_after t \<or> (\<exists>e. rt_session t = Err e \<and> \<not> is_retryable e)))"
proof (intro conjI impI allI)
  show "\<forall>p \<in> set (snd (run_loop RECONNECT_DELAY_INITIAL ts)). from_secs 1 \<le> p \<and> p \<le> from_secs 30"
    by (rule run_loop_pauses) (simp_all add: RECONNECT_DELAY_INITIAL_def from_secs_def)
  show "run_loop RECONNECT_DELAY_INITIAL ts = (None, map (\<lambda>k. from_secs (min (2 ^ k) 30)) [0..<length ts])"
    if "\<forall>t \<in> set ts. retry_turn t"
    using run_loop_retries [OF that, of 0 "[]"] by (simp add: RECONNECT_DELAY_INITIAL_def)
qed (rule run_loop_returns)

definition lost_turn :: run_turn where
  "lost_turn = \<lparr>rt_shutdown_before = False, rt_session = Err (WebSocketError ''reset''), rt_shutdown_after = False\<rparr>"

theorem reconnect_backoff_witness:
  "run_loop RECONNECT_DELAY_INITIAL [lost_turn, lost_turn, lost_turn] = (None, [from_secs 1, from_secs 2, from_secs 4])"
proof -
  have r: "\<forall>t \<in> set [lost_turn, lost_turn, lost_turn]. retry_turn t" by (simp add: retry_turn_def lost_turn_def)
  have "run_loop RECONNECT_DELAY_INITIAL [lost_turn, lost_turn, lost_turn] =
      (None, map (\<lambda>k. from_secs (min (2 ^ k) 30)) [0..<length [lost_turn, lost_turn, lost_turn]])"
    using reconnect_backoff [of "[lost_turn, lost_turn, lost_turn]"] r by (elim conjE impE)
  also have "map (\<lambda>k. from_secs (min (2 ^ k) 30)) [0..<length [lost_turn, lost_turn, lost_turn]] =
      [from_secs 1, from_secs 2, from_secs 4]"
    by (simp add: upt_rec)
  finally show ?thesis .
qed

end
