(* ===== verification/Agent_Room.thy ===== *)
theory Agent_Room
  imports Agent_Runtime
begin

text \<open>
  The agent and the room: the peers of an agent (\<open>Agent_Runtime\<close>) follow the zookeepers the server
  has registered in its room (\<open>Server_State\<close>), through the messages of the server. The server's
  rooms are seen as a directory of members, which every operation updates like a plain table.
\<close>

section \<open>The server as a directory of members\<close>

definition role_at :: "state_inner \<Rightarrow> string \<Rightarrow> client_role \<Rightarrow> (string, client_handle) hashmap" where
  "role_at st h role = (case hm_get (rooms st) h of None \<Rightarrow> [] | Some room \<Rightarrow> role_clients role room)"

lemma role_at_prune:
  "distinct (hm_keys (rooms st)) \<Longrightarrow> role_at (prune_expired_rooms cfg now st) h role = role_at st h role"
  by (cases role) (auto simp: role_at_def rooms_prune room_live_def split: option.splits if_splits)

lemma role_at_pruned:
  "distinct (hm_keys (rooms st)) \<Longrightarrow> hm_get (rooms (prune_expired_rooms cfg now st)) h = Some room \<Longrightarrow>
     role_clients role room = role_at st h role"
  using role_at_prune [of st cfg now h role] by (simp add: role_at_def)

lemma role_at_expired:
  "distinct (hm_keys (rooms st)) \<Longrightarrow> hm_get (rooms (prune_expired_rooms cfg now st)) h = None \<Longrightarrow> role_at st h role = []"
  using role_at_prune [of st cfg now h role] by (simp add: role_at_def)

lemma role_at_insert:
  "role_at (st\<lparr>rooms := hm_insert h room (rooms st)\<rparr>) h' role =
     (if h' = h then role_clients role room else role_at st h' role)"
  by (simp add: role_at_def hm_get_insert)

lemma role_at_cong: "rooms st = rooms st' \<Longrightarrow> role_at st = role_at st'"
  by (intro ext) (simp add: role_at_def)

lemma role_at_other_fields [simp]:
  "role_at (st\<lparr>next_client_id := n\<rparr>) = role_at st" "role_at (st\<lparr>auth_events_by_ip := x\<rparr>) = role_at st"
  by (rule role_at_cong, simp)+

lemma role_clients_frame [simp]:
  "role_clients role (room\<lparr>signal_events := x\<rparr>) = role_clients role room"
  "role_clients role (new_room f t) = []"
  by (cases role; simp add: new_room_def)+

text \<open>What an operation sends to whom.\<close>

fun op_messages ::
  "security_config \<Rightarrow> instant \<Rightarrow> 'v server_op \<Rightarrow> state_inner \<Rightarrow> (client_handle \<times> 'v server_message) list" where
  "op_messages cfg now (OpRegister h role preferred client) st =
     (case register cfg now h role preferred client st of
        Some (Inr out, _) \<Rightarrow> ro_broadcasts out | _ \<Rightarrow> [])"
| "op_messages cfg now (OpUnregister h role c) st = fst (unregister cfg now h role c st)"
| "op_messages cfg now (OpSignal h sender peer v) st =
     (case fst (forward_signal cfg now h sender peer v st) of Inr m \<Rightarrow> [m] | Inl _ \<Rightarrow> [])"
| "op_messages cfg now _ st = []"

text \<open>The directory after an operation, and what it sends.\<close>

inductive directory_step ::
  "(string \<Rightarrow> client_role \<Rightarrow> (string, client_handle) hashmap) \<Rightarrow> 'v server_op \<Rightarrow>
   (client_handle \<times> 'v server_message) list \<Rightarrow>
   (string \<Rightarrow> client_role \<Rightarrow> (string, client_handle) hashmap) \<Rightarrow> bool" where
  dir_join: "c \<notin> set (hm_keys (D h role)) \<Longrightarrow> c \<notin> set (hm_keys (D h (opposite role))) \<Longrightarrow>
     directory_step D (OpRegister h role preferred client) (announce (PeerJoined role c) (D h (opposite role)))
       (D(h := (D h)(role := hm_insert c client (D h role))))"
| dir_leave: "hm_contains (D h role) c \<Longrightarrow>
     directory_step D (OpUnregister h role c) (announce (PeerLeft role c) (D h (opposite role)))
       (D(h := (D h)(role := hm_remove c (D h role))))"
| dir_absent: "\<not> hm_contains (D h role) c \<Longrightarrow> directory_step D (OpUnregister h role c) [] D"
| dir_signal: "m = Signal sender v \<Longrightarrow> directory_step D (OpSignal h sender peer v) [(client, m)] D"
| dir_same: "(\<forall>h role c. op \<noteq> OpUnregister h role c) \<Longrightarrow> directory_step D op [] D"

lemma register_Ok:
  fixes out :: "'v register_outcome"
  assumes d: "distinct (hm_keys (rooms st))"
    and reg: "register cfg now h role preferred client st = Some (Ok out, st')"
  shows "role_at st' = (role_at st)(h := (role_at st h)(role := hm_insert (ro_client_id out) client (role_at st h role)))"
    and "ro_client_id out \<notin> set (hm_keys (role_at st h role'))"
    and "ro_broadcasts out = announce (PeerJoined role (ro_client_id out)) (role_at st h (opposite role))"
    and "ro_initial_messages out =
      [Connected (ro_client_id out) role (hm_keys (role_at st h Agent)) (hm_keys (role_at st h Zookeeper))]"
proof -
  let ?p = "prune_expired_rooms cfg now st"
  obtain room c n where room: "hm_get (rooms ?p) h = Some room"
    and c: "choose_client_id role preferred (occupied_ids room) (next_client_id st) = Some (c, n)"
    using reg by (auto simp: register_def Let_def split: option.splits)
  have D: "role_at st h role' = role_clients role' room" for role'
    using role_at_pruned [OF d room] by simp
  have out: "out = \<lparr>ro_client_id = c, ro_initial_messages = [Connected c role (hm_keys (agents room)) (hm_keys (zookeepers room))],
         ro_broadcasts = announce (PeerJoined role c) (role_clients (opposite role) room)\<rparr>"
    and "st' = ?p\<lparr>next_client_id := n, rooms := hm_insert h (insert_client role c client (room\<lparr>last_active_at := now\<rparr>)) (rooms ?p)\<rparr>"
    using reg room c by (simp_all add: register_def Let_def)
  then have st': "role_at st' = role_at (?p\<lparr>rooms := hm_insert h (insert_client role c client (room\<lparr>last_active_at := now\<rparr>)) (rooms ?p)\<rparr>)"
    by (intro role_at_cong) simp
  show "role_at st' = (role_at st)(h := (role_at st h)(role := hm_insert (ro_client_id out) client (role_at st h role)))"
  proof (intro ext)
    fix h' role'
    show "role_at st' h' role' =
      ((role_at st)(h := (role_at st h)(role := hm_insert (ro_client_id out) client (role_at st h role)))) h' role'"
      using other_role [of role' role]
      by (cases "role' = role") (simp_all add: st' out role_at_insert role_at_prune [OF d] D)
  qed
  show "ro_client_id out \<notin> set (hm_keys (role_at st h role'))"
    using choose_client_id_fresh [OF c] by (simp add: set_occupied_ids [of room role'] D out)
  show "ro_broadcasts out = announce (PeerJoined role (ro_client_id out)) (role_at st h (opposite role))"
    by (simp add: out D)
  show "ro_initial_messages out =
      [Connected (ro_client_id out) role (hm_keys (role_at st h Agent)) (hm_keys (role_at st h Zookeeper))]"
    by (simp add: out D)
qed

lemma register_Err:
  assumes "distinct (hm_keys (rooms st))" and "register cfg now h role preferred client st = Some (Err e, st')"
  shows "role_at st' = role_at st"
  using assms by (intro ext) (auto simp: register_def Let_def role_at_prune split: option.splits)

lemma register_directory:
  fixes preferred :: "string option"
  assumes d: "distinct (hm_keys (rooms st))"
    and e: "exec cfg now (OpRegister h role preferred client :: 'v server_op) st = Some (ok, st')"
  shows "directory_step (role_at st) (OpRegister h role preferred client :: 'v server_op)
    (op_messages cfg now (OpRegister h role preferred client) st) (role_at st')"
proof -
  obtain res where r: "register cfg now h role preferred client st = Some (res :: string + 'v register_outcome, st')"
    using e by (auto simp: apfst_eq_Pair)
  show ?thesis
  proof (cases res)
    case (Inl err)
    with r show ?thesis by (simp add: register_Err [OF d] dir_same)
  next
    case (Inr out)
    note o = register_Ok [OF d r [unfolded Inr]]
    from dir_join [of "ro_client_id out" "role_at st" h role preferred client, OF o(2) o(2)] r Inr show ?thesis
      by (simp add: o(1,3))
  qed
qed

lemma unregister_directory:
  assumes d: "distinct (hm_keys (rooms st))"
    and e: "exec cfg now (OpUnregister h role c :: 'v server_op) st = Some (ok, st')"
  shows "directory_step (role_at st) (OpUnregister h role c :: 'v server_op)
    (op_messages cfg now (OpUnregister h role c) st) (role_at st')"
proof -
  let ?p = "prune_expired_rooms cfg now st"
  have dp: "distinct (hm_keys (rooms ?p))" using d by (rule rooms_keys_prune)
  have p2: "role_at (prune_expired_rooms cfg now ?p) = role_at st"
    using d dp by (intro ext) (simp add: role_at_prune)
  show ?thesis
  proof (cases "hm_contains (role_at st h role) c")
    case False
    then have "\<not> hm_contains (role_clients role room) c" if "hm_get (rooms ?p) h = Some room" for room
      using role_at_pruned [OF d that] by simp
    then have "unregister cfg now h role c st = ([] :: (client_handle \<times> 'v server_message) list, prune_expired_rooms cfg now ?p)"
      by (auto simp: unregister_def Let_def split: option.splits)
    with e False p2 show ?thesis by (simp add: dir_absent)
  next
    case True
    then obtain room where room: "hm_get (rooms ?p) h = Some room"
      using role_at_prune [OF d, of cfg now h role]
      by (cases "hm_get (rooms ?p) h") (auto simp: role_at_def hm_contains_def)
    have D: "role_at st h role' = role_clients role' room" for role'
      using role_at_pruned [OF d room] by simp
    let ?s = "?p\<lparr>rooms := hm_insert h ((remove_client role c room)\<lparr>last_active_at := now\<rparr>) (rooms ?p)\<rparr>"
    have u: "unregister cfg now h role c st =
        (announce (PeerLeft role c) (role_clients (opposite role) room) :: (client_handle \<times> 'v server_message) list,
         prune_expired_rooms cfg now ?s)"
      using True room D by (simp add: unregister_def Let_def)
    then have st': "st' = prune_expired_rooms cfg now ?s" using e by simp
    have ds: "distinct (hm_keys (rooms ?s))" using dp by (simp add: hm_distinct_insert)
    have "role_at st' = (role_at st)(h := (role_at st h)(role := hm_remove c (role_at st h role)))"
    proof (intro ext)
      fix h' role'
      show "role_at st' h' role' = ((role_at st)(h := (role_at st h)(role := hm_remove c (role_at st h role)))) h' role'"
        using other_role [of role' role]
        by (cases "role' = role") (simp_all add: st' role_at_prune [OF ds] role_at_insert role_at_prune [OF d] D)
    qed
    with True u show ?thesis using dir_leave [of "role_at st" h role c] by (simp add: D)
  qed
qed

lemma exec_directory:
  fixes op :: "'v server_op"
  assumes d: "distinct (hm_keys (rooms st))" and e: "exec cfg now op st = Some (ok, st')"
  shows "directory_step (role_at st) op (op_messages cfg now op st) (role_at st')"
proof -
  let ?p = "prune_expired_rooms cfg now st"
  have p: "role_at ?p = role_at st" using d by (intro ext) (simp add: role_at_prune)
  show ?thesis
  proof (cases op)
    case (OpRegister h role preferred client)
    with e show ?thesis using register_directory [OF d] by blast
  next
    case (OpUnregister h role c)
    with e show ?thesis using unregister_directory [OF d] by blast
  next
    case (OpSignal h sender peer v)
    have "role_at (snd (forward_signal cfg now h sender peer v st)) = role_at st"
      by (intro ext) (auto simp: forward_signal_cases [OF d] Let_def role_at_insert role_at_prune [OF d] role_at_pruned [OF d]
          split: option.splits)
    moreover have "st' = snd (forward_signal cfg now h sender peer v st)" using e OpSignal by (simp add: apfst_eq_Pair)
    moreover have "m = Signal sender v" if "fst (forward_signal cfg now h sender peer v st) = Ok (client, m)" for client m
      using that by (auto simp: forward_signal_cases [OF d] Let_def dest: route_signal_ok split: option.splits if_splits)
    ultimately show ?thesis
      unfolding OpSignal by (auto intro: dir_signal dir_same split: sum.splits)
  next
    case (OpStore h pwfile)
    have "role_at st' = role_at st"
    proof (intro ext)
      fix h' role
      show "role_at st' h' role = role_at st h' role"
        using e OpStore
        by (auto simp: store_room_def Let_def apfst_eq_Pair role_at_insert role_at_prune [OF d] role_at_expired [OF d]
            hm_contains_def split: if_splits)
    qed
    then show ?thesis by (simp add: OpStore dir_same)
  next
    case (OpLogin h)
    with e p show ?thesis by (simp add: dir_same)
  next
    case OpCapacity
    with e p show ?thesis by (auto simp: ensure_room_capacity_def Let_def apfst_eq_Pair intro: dir_same)
  next
    case (OpAuth ip)
    with e p show ?thesis
      by (auto simp: check_auth_rate_limit_def Let_def apfst_eq_Pair intro: dir_same split: prod.splits)
  qed
qed

section \<open>What one agent is told\<close>

text \<open>The zookeepers a client knows of, message by message.\<close>

fun zookeeper_view :: "'v server_message \<Rightarrow> string set \<Rightarrow> string set" where
  "zookeeper_view (PeerJoined Zookeeper c) S = insert c S"
| "zookeeper_view (PeerLeft Zookeeper c) S = S - {c}"
| "zookeeper_view (Connected cid role as zs) S = S \<union> set zs"
| "zookeeper_view _ S = S"

definition messages_to :: "client_handle \<Rightarrow> (client_handle \<times> 'v server_message) list \<Rightarrow> 'v server_message list" where
  "messages_to ha ms = map snd (filter (\<lambda>(c, m). c = ha) ms)"

fun inbox :: "security_config \<Rightarrow> (instant \<times> 'v server_op) list \<Rightarrow> client_handle \<Rightarrow> state_inner \<Rightarrow> 'v server_message list" where
  "inbox cfg [] ha st = []"
| "inbox cfg ((now, op) # ops) ha st =
     (case exec cfg now op st of
        None \<Rightarrow> []
      | Some (ok, st') \<Rightarrow> messages_to ha (op_messages cfg now op st) @ inbox cfg ops ha st')"

text \<open>The handle \<open>ha\<close> is that of the agent \<open>a\<close> of room \<open>h\<close> and of nobody else.\<close>

definition sole ::
  "string \<Rightarrow> string \<Rightarrow> client_handle \<Rightarrow> (string \<Rightarrow> client_role \<Rightarrow> (string, client_handle) hashmap) \<Rightarrow> bool" where
  "sole h a ha D \<longleftrightarrow> (a, ha) \<in> set (D h Agent) \<and>
     (\<forall>h' role c. (c, ha) \<in> set (D h' role) \<longrightarrow> h' = h \<and> role = Agent \<and> c = a)"

lemma fold_view_same:
  assumes "ms \<noteq> []" and "set ms \<subseteq> {m}"
  shows "fold zookeeper_view ms S = zookeeper_view m S"
proof -
  have idem: "zookeeper_view m (zookeeper_view m S) = zookeeper_view m S" for S
    by (induction m S rule: zookeeper_view.induct) auto
  have "fold zookeeper_view ms (zookeeper_view m S) = zookeeper_view m S"
    using assms(2) by (induction ms) (auto simp: idem)
  with assms show ?thesis by (cases ms) (simp_all add: idem)
qed

lemma messages_to_announce:
  "set (messages_to ha (announce m peers)) \<subseteq> {m}"
  "messages_to ha (announce m peers) = [] \<longleftrightarrow> (\<forall>c. (c, ha) \<notin> set peers)"
  by (auto simp: messages_to_def announce_def filter_empty_conv hm_values_def)

lemma sole_recipient:
  assumes "sole h a ha D"
  shows "messages_to ha (announce m (D h' role)) = [] \<longleftrightarrow> \<not> (h' = h \<and> role = Agent)"
  using assms unfolding messages_to_announce(2) sole_def by blast

lemma hm_set_insert: "k \<notin> set (hm_keys m) \<Longrightarrow> set (hm_insert k v m) = insert (k, v) (set m)"
  by (simp add: hm_insert_fresh)

lemma hm_set_remove: "set (hm_remove k m) = {p \<in> set m. fst p \<noteq> k}"
  by (auto simp: AList.delete_eq)

lemma directory_view:
  assumes step: "directory_step D op ms D'" and sole: "sole h a ha D"
    and stays: "op \<noteq> OpUnregister h Agent a"
    and other: "\<And>h' role preferred. op \<noteq> OpRegister h' role preferred ha"
  shows "sole h a ha D' \<and>
    set (hm_keys (D' h Zookeeper)) = fold zookeeper_view (messages_to ha ms) (set (hm_keys (D h Zookeeper)))"
  using step
proof cases
  case (dir_join c h' role preferred client)
  have "client \<noteq> ha" using other dir_join(1) by blast
  moreover have mem: "(c', x) \<in> set (D' h'' role') \<longleftrightarrow>
      (c', x) \<in> set (D h'' role') \<or> (h'' = h' \<and> role' = role \<and> c' = c \<and> x = client)" for c' x h'' role'
    by (auto simp: dir_join(3) hm_set_insert [OF dir_join(4)])
  ultimately have "sole h a ha D'"
    using sole by (auto simp: sole_def mem)
  moreover have "set (hm_keys (D' h Zookeeper)) = fold zookeeper_view (messages_to ha ms) (set (hm_keys (D h Zookeeper)))"
  proof (cases "h' = h \<and> role = Zookeeper")
    case True
    then have "messages_to ha ms \<noteq> []" by (simp add: dir_join(2) sole_recipient [OF sole])
    then have "fold zookeeper_view (messages_to ha ms) S = insert c S" for S
      using True by (simp add: dir_join(2) fold_view_same [OF _ messages_to_announce(1)])
    with True dir_join(4) show ?thesis by (simp add: dir_join(3) hm_keys_insert)
  next
    case False
    then have "messages_to ha ms = []"
      by (cases role) (simp_all add: dir_join(2) sole_recipient [OF sole])
    with False show ?thesis by (auto simp: dir_join(3))
  qed
  ultimately show ?thesis ..
next
  case (dir_leave h' role c)
  have "\<not> (h' = h \<and> role = Agent \<and> c = a)" using stays dir_leave(1) by blast
  moreover have mem: "(c', x) \<in> set (D' h'' role') \<longleftrightarrow>
      (c', x) \<in> set (D h'' role') \<and> \<not> (h'' = h' \<and> role' = role \<and> c' = c)" for c' x h'' role'
    by (auto simp: dir_leave(3) hm_set_remove)
  ultimately have "sole h a ha D'"
    using sole by (auto simp: sole_def mem)
  moreover have "set (hm_keys (D' h Zookeeper)) = fold zookeeper_view (messages_to ha ms) (set (hm_keys (D h Zookeeper)))"
  proof (cases "h' = h \<and> role = Zookeeper")
    case True
    then have "messages_to ha ms \<noteq> []" by (simp add: dir_leave(2) sole_recipient [OF sole])
    then have "fold zookeeper_view (messages_to ha ms) S = S - {c}" for S
      using True by (simp add: dir_leave(2) fold_view_same [OF _ messages_to_announce(1)])
    with True show ?thesis by (simp add: dir_leave(3) hm_keys_remove)
  next
    case False
    then have "messages_to ha ms = []"
      by (cases role) (simp_all add: dir_leave(2) sole_recipient [OF sole])
    with False show ?thesis by (auto simp: dir_leave(3))
  qed
  ultimately show ?thesis ..
qed (use sole in \<open>auto simp: messages_to_def\<close>)

lemma inbox_view:
  fixes ops :: "(instant \<times> 'v server_op) list"
  assumes "state_ok cfg t st" and "sorted (t # map fst ops)" and "run cfg ops st = Some (evs, st')"
    and "sole h a ha (role_at st)"
    and "\<forall>op \<in> snd ` set ops. op \<noteq> OpUnregister h Agent a \<and> (\<forall>h' role preferred. op \<noteq> OpRegister h' role preferred ha)"
  shows "set (hm_keys (role_at st' h Zookeeper)) =
    fold zookeeper_view (inbox cfg ops ha st) (set (hm_keys (role_at st h Zookeeper)))"
  using assms
proof (induction ops arbitrary: t st evs)
  case (Cons x ops)
  obtain now op where x: "x = (now, op)" by (cases x)
  with Cons.prems(3) obtain ok st1 evs1 where e: "exec cfg now op st = Some (ok, st1)"
    and r: "run cfg ops st1 = Some (evs1, st')"
    by (auto split: option.splits)
  have ok: "state_ok cfg now st" using Cons.prems(1,2) x by (auto intro: state_ok_mono)
  then have d: "distinct (hm_keys (rooms st))" by (simp add: state_ok_def rooms_ok_def)
  have v: "sole h a ha (role_at st1) \<and> set (hm_keys (role_at st1 h Zookeeper)) =
      fold zookeeper_view (messages_to ha (op_messages cfg now op st)) (set (hm_keys (role_at st h Zookeeper)))"
    by (rule directory_view [OF exec_directory [OF d e] Cons.prems(4)]) (use Cons.prems(5) x in auto)
  have "sorted (now # map fst ops)" using Cons.prems(2) x by simp
  from Cons.IH [OF exec_ok [OF ok e] this r conjunct1 [OF v]] v Cons.prems(5) show ?case
    by (simp add: x e)
qed simp

section \<open>What the agent does about it\<close>

text \<open>The agent handles the messages one after the other; an error ends the session.\<close>

fun hear_all ::
  "(nat \<Rightarrow> string \<Rightarrow> string option) \<Rightarrow> ((string \<Rightarrow> offer_outcome) \<times> agent_server_message) list \<Rightarrow> agent_world \<Rightarrow>
     (agent_error + unit) \<times> agent_world" where
  "hear_all remote [] w = (Ok (), w)"
| "hear_all remote ((offers, m) # ms) w =
     (case handle_server_message offers remote m w of
        (Inl e, w) \<Rightarrow> (Err e, w)
      | (Inr _, w) \<Rightarrow> hear_all remote ms w)"

lemma ensure_peer_keys:
  "ensure_peer outcome z w = (Ok u, w') \<Longrightarrow> set (hm_keys (aw_peers w')) = insert z (set (hm_keys (aw_peers w)))"
  by (auto simp: ensure_peer_def hm_contains_keys hm_keys_insert insert_absorb split: if_splits offer_outcome.splits)

lemma ensure_peers_keys:
  "ensure_peers offers zs w = (Ok u, w') \<Longrightarrow> set (hm_keys (aw_peers w')) = set (hm_keys (aw_peers w)) \<union> set zs"
proof (induction zs arbitrary: w)
  case (Cons z zs)
  then obtain v w1 where "ensure_peer (offers z) z w = (Ok v, w1)" "ensure_peers offers zs w1 = (Ok u, w')"
    by (auto split: sum.splits prod.splits)
  with Cons.IH [of w1] ensure_peer_keys show ?case by fastforce
qed simp

lemma handle_peer_left_keys:
  "set (hm_keys (aw_peers (handle_peer_left Zookeeper c w))) = set (hm_keys (aw_peers w)) - {c}"
  by (auto simp: handle_peer_left_def hm_keys_remove hm_get_None split: option.splits)

lemma handle_signal_keys: "handle_signal remote peer p w = (d, w') \<Longrightarrow> aw_peers w' = aw_peers w"
  by (auto simp: handle_signal_def av_handle_signal_def split: option.splits signaling_payload.splits)

lemma handle_server_message_keys:
  assumes m: "to_agent of_json m = Some m'" and h: "handle_server_message offers remote m' w = (Ok u, w')"
  shows "set (hm_keys (aw_peers w')) = zookeeper_view m (set (hm_keys (aw_peers w)))"
proof (cases m)
  case (PeerJoined role c)
  with m h show ?thesis
    by (cases role) (auto simp: handle_server_message_def handle_peer_joined_def ensure_peer_keys)
next
  case (PeerLeft role c)
  with m h show ?thesis
    by (cases role) (auto simp: handle_server_message_def handle_peer_left_keys, auto simp: handle_peer_left_def)
next
  case (Connected c role as zs)
  with m h show ?thesis
    by (auto simp: handle_server_message_def handle_connected_def av_handle_connected_def ensure_peers_keys)
next
  case (Signal peer v)
  with m h show ?thesis
    by (auto simp: handle_server_message_def handle_signal_keys)
qed (use m h in \<open>auto simp: handle_server_message_def\<close>)

lemma hear_all_keys:
  "map (to_agent of_json) ms = map (Some \<circ> snd) heard \<Longrightarrow> hear_all remote heard w = (Ok u, w') \<Longrightarrow>
     set (hm_keys (aw_peers w')) = fold zookeeper_view ms (set (hm_keys (aw_peers w)))"
proof (induction heard arbitrary: ms w)
  case (Cons x heard)
  obtain offers m' where x: "x = (offers, m')" by (cases x)
  with Cons.prems obtain m ms' where ms: "ms = m # ms'" "to_agent of_json m = Some m'"
      "map (to_agent of_json) ms' = map (Some \<circ> snd) heard"
    by auto
  from Cons.prems x obtain v w1 where h: "handle_server_message offers remote m' w = (Ok v, w1)"
      "hear_all remote heard w1 = (Ok u, w')"
    by (auto split: sum.splits prod.splits)
  from Cons.IH [OF ms(3) h(2)] handle_server_message_keys [OF ms(2) h(1)] show ?case by (simp add: ms)
qed simp


definition room_ops :: "(instant \<times> signaling_payload server_op) list" where
  "room_ops = [(7, OpRegister ''r'' Zookeeper (Some ''ann'') (demo_client 2)), (8, OpRegister ''r'' Zookeeper (Some ''bob'') (demo_client 3)),
     (9, OpSignal ''r'' ''ann'' ''a'' (Answer ''sdp'')), (10, OpUnregister ''r'' Zookeeper ''ann'')]"

definition room_heard :: "((string \<Rightarrow> offer_outcome) \<times> agent_server_message) list" where
  "room_heard = [(\<lambda>_. OfferError ''none'', AgConnected ''a'' [] []),
     (\<lambda>_. OfferReady 1 ''o1'', AgPeerJoined Zookeeper ''ann''), (\<lambda>_. OfferReady 2 ''o2'', AgPeerJoined Zookeeper ''bob''),
     (\<lambda>_. OfferError ''none'', AgSignal ''ann'' (Answer ''sdp'')), (\<lambda>_. OfferError ''none'', AgPeerLeft Zookeeper ''ann'')]"


end
