(* ===== verification/Mcts.thy ===== *)
theory Mcts
  imports F64
begin

text \<open>
  Monte-Carlo tree search with progressive widening and persistence, \<^verbatim>\<open>mitb-sdk/src/search/mcts.rs\<close>.
  Nodes live in a vector and refer to each other by index; an index out of bounds is a panic, which
  is an error value \<open>Panic\<close> of its own here. The file system is a map from paths to contents with
  the failures of its operations as parameters; \<^verbatim>\<open>serde_json\<close> is a parameter, and so are \<^verbatim>\<open>ln\<close> and
  \<^verbatim>\<open>powf\<close>, whose precision is unspecified.
\<close>

section \<open>Data\<close>

datatype mcts_error = Panic | Msg string

record mcts_config =
  exploration_constant :: f64
  progressive_widening_k :: f64
  progressive_widening_alpha :: f64

text \<open>\<^verbatim>\<open>SQRT_2\<close> is the double \<open>6369051672525773 / 2^52\<close>.\<close>

definition mcts_config_default :: mcts_config where
  "mcts_config_default =
     \<lparr>exploration_constant = Fin (6369051672525773 / 2 ^ 52),
      progressive_widening_k = Fin (3 / 2), progressive_widening_alpha = Fin (1 / 2)\<rparr>"

record node_stats =
  ns_visits :: nat
  ns_mean_reward :: f64
  ns_best_reward :: f64
  ns_children :: nat

record node =
  n_key :: string
  n_parent :: "nat option"
  n_children :: "nat list"
  n_visits :: nat
  n_reward_sum :: f64
  n_best_reward :: f64

definition node_new :: "string \<Rightarrow> nat option \<Rightarrow> node" where
  "node_new key parent =
     \<lparr>n_key = key, n_parent = parent, n_children = [], n_visits = 0, n_reward_sum = Fin 0,
      n_best_reward = NInf\<rparr>"

definition mean_reward :: "node \<Rightarrow> f64" where
  "mean_reward n = (if n_visits n = 0 then Fin 0 else f_div (n_reward_sum n) (f_of_nat (n_visits n)))"

record mcts =
  m_config :: mcts_config
  m_root :: nat
  m_nodes :: "node list"
  m_index :: "(string, nat) hashmap"
  m_persistence_path :: "string option"

record persisted_node =
  pn_key :: string
  pn_parent :: "nat option"
  pn_children :: "nat list"
  pn_visits :: nat
  pn_reward_sum :: f64
  pn_best_reward :: "f64 option"

record persisted_mcts =
  pm_config :: mcts_config
  pm_root :: nat
  pm_nodes :: "persisted_node list"

definition from_node :: "node \<Rightarrow> persisted_node" where
  "from_node n =
     \<lparr>pn_key = n_key n, pn_parent = n_parent n, pn_children = n_children n, pn_visits = n_visits n,
      pn_reward_sum = n_reward_sum n,
      pn_best_reward = (if is_finite (n_best_reward n) then Some (n_best_reward n) else None)\<rparr>"

definition into_node :: "persisted_node \<Rightarrow> node" where
  "into_node p =
     \<lparr>n_key = pn_key p, n_parent = pn_parent p, n_children = pn_children p, n_visits = pn_visits p,
      n_reward_sum = pn_reward_sum p,
      n_best_reward = (case pn_best_reward p of Some b \<Rightarrow> b | None \<Rightarrow> NInf)\<rparr>"

definition node_at :: "mcts \<Rightarrow> nat \<Rightarrow> mcts_error + node" where
  "node_at t i = (if i < length (m_nodes t) then Ok (m_nodes t ! i) else Err Panic)"

definition set_node :: "nat \<Rightarrow> node \<Rightarrow> mcts \<Rightarrow> mcts" where
  "set_node i n t = t\<lparr>m_nodes := (m_nodes t)[i := n]\<rparr>"

definition fresh :: "string \<Rightarrow> mcts_config \<Rightarrow> string option \<Rightarrow> mcts" where
  "fresh root_key config path =
     \<lparr>m_config = config, m_root = 0, m_nodes = [node_new root_key None],
      m_index = hm_insert root_key 0 [], m_persistence_path = path\<rparr>"

definition root_key :: "mcts \<Rightarrow> mcts_error + string" where
  "root_key t = map_sum id n_key (node_at t (m_root t))"

definition contains :: "mcts \<Rightarrow> string \<Rightarrow> bool" where
  "contains t key = hm_contains (m_index t) key"

section \<open>Persistence\<close>

record disk_env =
  d_serialize :: "persisted_mcts \<Rightarrow> string + string"
  d_parse :: "string \<Rightarrow> string + persisted_mcts"
  d_read_error :: "string \<Rightarrow> string option"
  d_mkdir_error :: "string \<Rightarrow> string option"
  d_write_error :: "string \<Rightarrow> string option"

type_synonym disk = "string \<rightharpoonup> string"

definition to_persisted :: "mcts \<Rightarrow> persisted_mcts" where
  "to_persisted t = \<lparr>pm_config = m_config t, pm_root = m_root t, pm_nodes = map from_node (m_nodes t)\<rparr>"

text \<open>\<^verbatim>\<open>Path::parent\<close>: all but the last component.\<close>

definition slash :: "char \<Rightarrow> bool" where
  "slash c \<longleftrightarrow> c = CHR ''/''"

definition path_parent :: "string \<Rightarrow> string option" where
  "path_parent p =
     (let r = dropWhile slash (rev p) in
      if r = [] then None
      else let d = dropWhile (\<lambda>c. \<not> slash c) r; e = dropWhile slash d in
           Some (if d \<noteq> [] \<and> e = [] then ''/'' else rev e))"

definition persist_to_disk :: "disk_env \<Rightarrow> mcts \<Rightarrow> disk \<Rightarrow> (string + unit) \<times> disk" where
  "persist_to_disk D t disk =
     (case m_persistence_path t of
        None \<Rightarrow> (Ok (), disk)
      | Some path \<Rightarrow>
          (case (case path_parent path of
                   Some parent \<Rightarrow> if parent \<noteq> [] then map_option (Pair parent) (d_mkdir_error D parent) else None
                 | None \<Rightarrow> None) of
             Some (parent, e) \<Rightarrow>
               (Err (''failed creating MCTS persistence directory `'' @ parent @ ''`: '' @ e), disk)
           | None \<Rightarrow>
               (case d_serialize D (to_persisted t) of
                  Inl e \<Rightarrow> (Err (''failed serializing MCTS persistence file `'' @ path @ ''`: '' @ e), disk)
                | Inr text \<Rightarrow>
                    (case d_write_error D path of
                       Some e \<Rightarrow> (Err (''failed writing MCTS persistence file `'' @ path @ ''`: '' @ e), disk)
                     | None \<Rightarrow> (Ok (), disk(path \<mapsto> text))))))"

definition persist_best_effort :: "disk_env \<Rightarrow> mcts \<Rightarrow> disk \<Rightarrow> disk" where
  "persist_best_effort D t disk = snd (persist_to_disk D t disk)"

text \<open>The index being built, or the first node that is not acceptable.\<close>

fun build_index :: "node list \<Rightarrow> nat \<Rightarrow> (string, nat) hashmap \<Rightarrow> string + (string, nat) hashmap" where
  "build_index [] i m = Ok m"
| "build_index (n # ns) i m =
     (if \<not> is_finite (n_reward_sum n)
      then Err (''persisted MCTS node `'' @ n_key n @ ''` had non-finite reward sum'')
      else if \<not> is_finite (n_best_reward n) \<and> \<not> f_eq (n_best_reward n) NInf
      then Err (''persisted MCTS node `'' @ n_key n @ ''` had invalid best reward'')
      else if hm_contains m (n_key n)
      then Err (''persisted MCTS tree had duplicate node key `'' @ n_key n @ ''`'')
      else build_index ns (Suc i) (hm_insert (n_key n) i m))"

fun check_children :: "node list \<Rightarrow> nat \<Rightarrow> node \<Rightarrow> nat list \<Rightarrow> string option" where
  "check_children nodes i n [] = None"
| "check_children nodes i n (c # cs) =
     (if length nodes \<le> c
      then Some (''persisted MCTS node `'' @ n_key n @ ''` referenced child index '' @ dec_of_nat c @ '' out of bounds'')
      else if n_parent (nodes ! c) \<noteq> Some i
      then Some (''persisted MCTS child-parent mismatch for `'' @ n_key n @ ''` -> `'' @ n_key (nodes ! c) @ ''`'')
      else check_children nodes i n cs)"

fun check_links :: "node list \<Rightarrow> node list \<Rightarrow> nat \<Rightarrow> string option" where
  "check_links nodes [] i = None"
| "check_links nodes (n # ns) i =
     (case (case n_parent n of
              None \<Rightarrow> None
            | Some p \<Rightarrow>
                if length nodes \<le> p
                then Some (''persisted MCTS node `'' @ n_key n @ ''` referenced parent index '' @ dec_of_nat p @ '' out of bounds'')
                else if i \<notin> set (n_children (nodes ! p))
                then Some (''persisted MCTS parent-child relationship missing for `'' @ n_key n @ ''`'')
                else None) of
        Some e \<Rightarrow> Some e
      | None \<Rightarrow>
          (case check_children nodes i n (n_children n) of
             Some e \<Rightarrow> Some e
           | None \<Rightarrow> check_links nodes ns (Suc i)))"

definition from_persisted :: "persisted_mcts \<Rightarrow> string option \<Rightarrow> string + mcts" where
  "from_persisted p path =
     (if pm_nodes p = [] then Err ''persisted MCTS tree had no nodes''
      else if length (pm_nodes p) \<le> pm_root p
      then Err (''persisted MCTS root index '' @ dec_of_nat (pm_root p) @ '' was out of bounds for '' @
                dec_of_nat (length (pm_nodes p)) @ '' nodes'')
      else let nodes = map into_node (pm_nodes p) in
        if n_parent (nodes ! pm_root p) \<noteq> None then Err ''persisted MCTS root node had a parent''
        else case build_index nodes 0 [] of
               Inl e \<Rightarrow> Err e
             | Inr index \<Rightarrow>
                 (case check_links nodes nodes 0 of
                    Some e \<Rightarrow> Err e
                  | None \<Rightarrow> Ok \<lparr>m_config = pm_config p, m_root = pm_root p, m_nodes = nodes,
                               m_index = index, m_persistence_path = path\<rparr>))"

definition maybe_load_from_disk :: "disk_env \<Rightarrow> string \<Rightarrow> disk \<Rightarrow> string + mcts option" where
  "maybe_load_from_disk D path disk =
     (case d_read_error D path of
        Some e \<Rightarrow> Err (''failed reading MCTS persistence file `'' @ path @ ''`: '' @ e)
      | None \<Rightarrow>
          (case disk path of
             None \<Rightarrow> Ok None
           | Some text \<Rightarrow>
               (case d_parse D text of
                  Inl e \<Rightarrow> Err (''failed parsing MCTS persistence file `'' @ path @ ''`: '' @ e)
                | Inr p \<Rightarrow> map_sum id Some (from_persisted p (Some path)))))"

record mcts_builder =
  b_root_key :: string
  b_config :: mcts_config
  b_persistence_path :: "string option"

definition DEFAULT_MCTS_PERSISTENCE_PATH :: string where
  "DEFAULT_MCTS_PERSISTENCE_PATH = ''./.mitb/mcts.json''"

definition builder_new :: "string \<Rightarrow> mcts_builder" where
  "builder_new key = \<lparr>b_root_key = key, b_config = mcts_config_default, b_persistence_path = None\<rparr>"

definition builder_config :: "mcts_config \<Rightarrow> mcts_builder \<Rightarrow> mcts_builder" where
  "builder_config c b = b\<lparr>b_config := c\<rparr>"

definition builder_persistence_path :: "string \<Rightarrow> mcts_builder \<Rightarrow> mcts_builder" where
  "builder_persistence_path p b = b\<lparr>b_persistence_path := Some p\<rparr>"

definition enable_persistence :: "mcts_builder \<Rightarrow> mcts_builder" where
  "enable_persistence b = b\<lparr>b_persistence_path := Some DEFAULT_MCTS_PERSISTENCE_PATH\<rparr>"

definition disable_persistence :: "mcts_builder \<Rightarrow> mcts_builder" where
  "disable_persistence b = b\<lparr>b_persistence_path := None\<rparr>"

definition try_build :: "disk_env \<Rightarrow> mcts_builder \<Rightarrow> disk \<Rightarrow> string + mcts" where
  "try_build D b disk =
     (case b_persistence_path b of
        None \<Rightarrow> Ok (fresh (b_root_key b) (b_config b) (b_persistence_path b))
      | Some path \<Rightarrow>
          (case maybe_load_from_disk D path disk of
             Inl e \<Rightarrow> Err e
           | Inr (Some loaded) \<Rightarrow>
               if root_key loaded = Ok (b_root_key b)
               then Ok (loaded\<lparr>m_config := b_config b, m_persistence_path := Some path\<rparr>)
               else Ok (fresh (b_root_key b) (b_config b) (b_persistence_path b))
           | Inr None \<Rightarrow> Ok (fresh (b_root_key b) (b_config b) (b_persistence_path b))))"

definition build :: "disk_env \<Rightarrow> mcts_builder \<Rightarrow> disk \<Rightarrow> mcts" where
  "build D b disk =
     (case try_build D b disk of
        Inl e \<Rightarrow> fresh (b_root_key b) (b_config b) (b_persistence_path b)
      | Inr t \<Rightarrow> t)"

definition mcts_new :: "disk_env \<Rightarrow> string \<Rightarrow> disk \<Rightarrow> mcts" where
  "mcts_new D key disk = build D (builder_new key) disk"

definition mcts_with_config :: "disk_env \<Rightarrow> string \<Rightarrow> mcts_config \<Rightarrow> disk \<Rightarrow> mcts" where
  "mcts_with_config D key c disk = build D (builder_config c (builder_new key)) disk"

section \<open>Growing the tree and propagating rewards\<close>

definition ensure_child ::
  "disk_env \<Rightarrow> string \<Rightarrow> string \<Rightarrow> mcts \<Rightarrow> disk \<Rightarrow> (mcts_error + unit) \<times> mcts \<times> disk" where
  "ensure_child D parent_key child_key t disk =
     (case hm_get (m_index t) parent_key of
        None \<Rightarrow> (Err (Msg (''unknown parent node `'' @ parent_key @ ''`'')), t, disk)
      | Some parent \<Rightarrow>
          (case hm_get (m_index t) child_key of
             Some existing \<Rightarrow>
               (case node_at t existing of
                  Inl e \<Rightarrow> (Err e, t, disk)
                | Inr c \<Rightarrow>
                    if n_parent c \<noteq> Some parent
                    then (Err (Msg (''node `'' @ child_key @ ''` already exists under a different parent'')), t, disk)
                    else (case node_at t parent of
                            Inl e \<Rightarrow> (Err e, t, disk)
                          | Inr p \<Rightarrow>
                              if existing \<in> set (n_children p) then (Ok (), t, disk)
                              else let t = set_node parent (p\<lparr>n_children := n_children p @ [existing]\<rparr>) t
                                   in (Ok (), t, persist_best_effort D t disk)))
           | None \<Rightarrow>
               let child = length (m_nodes t);
                   t = t\<lparr>m_nodes := m_nodes t @ [node_new child_key (Some parent)]\<rparr>
               in (case node_at t parent of
                     Inl e \<Rightarrow> (Err e, t, disk)
                   | Inr p \<Rightarrow>
                       let t = set_node parent (p\<lparr>n_children := n_children p @ [child]\<rparr>) t;
                           t = t\<lparr>m_index := hm_insert child_key child (m_index t)\<rparr>
                       in (Ok (), t, persist_best_effort D t disk))))"

definition visit :: "f64 \<Rightarrow> node \<Rightarrow> node" where
  "visit reward n =
     n\<lparr>n_visits := sat_add (n_visits n) 1, n_reward_sum := f_add (n_reward_sum n) reward,
       n_best_reward := (if f_lt (n_best_reward n) reward then reward else n_best_reward n)\<rparr>"

text \<open>The loop over the path: each node is updated before the next one is looked at, and an error
  leaves the updates made so far.\<close>

fun backpropagate_loop ::
  "string option \<Rightarrow> string list \<Rightarrow> f64 \<Rightarrow> mcts \<Rightarrow> (mcts_error + unit) \<times> mcts" where
  "backpropagate_loop prev [] reward t = (Ok (), t)"
| "backpropagate_loop prev (key # path) reward t =
     (case hm_get (m_index t) key of
        None \<Rightarrow> (Err (Msg (''unknown node `'' @ key @ ''` in backpropagation path'')), t)
      | Some i \<Rightarrow>
          (case (case prev of
                   None \<Rightarrow> None
                 | Some prev_key \<Rightarrow>
                     (case hm_get (m_index t) prev_key of
                        None \<Rightarrow> Some (Msg (''unknown node `'' @ prev_key @ ''` in path''))
                      | Some j \<Rightarrow>
                          (case node_at t j of
                             Inl e \<Rightarrow> Some e
                           | Inr p \<Rightarrow>
                               if i \<in> set (n_children p) then None
                               else Some (Msg (''invalid path segment `'' @ prev_key @ ''` -> `'' @ key @
                                               ''`: child relationship not found''))))) of
             Some e \<Rightarrow> (Err e, t)
           | None \<Rightarrow>
               (case node_at t i of
                  Inl e \<Rightarrow> (Err e, t)
                | Inr n \<Rightarrow> backpropagate_loop (Some key) path reward (set_node i (visit reward n) t))))"

definition backpropagate_path ::
  "disk_env \<Rightarrow> string list \<Rightarrow> f64 \<Rightarrow> mcts \<Rightarrow> disk \<Rightarrow> (mcts_error + unit) \<times> mcts \<times> disk" where
  "backpropagate_path D path reward t disk =
     (if \<not> is_finite reward then (Err (Msg ''reward must be finite''), t, disk)
      else if path = [] then (Err (Msg ''path must include at least one node''), t, disk)
      else case backpropagate_loop None path reward t of
             (Inl e, t) \<Rightarrow> (Err e, t, disk)
           | (Inr _, t) \<Rightarrow> (Ok (), t, persist_best_effort D t disk))"

section \<open>Selection\<close>

record libm =
  l_ln :: "f64 \<Rightarrow> f64"
  l_powf :: "f64 \<Rightarrow> f64 \<Rightarrow> f64"

definition should_expand_here :: "libm \<Rightarrow> mcts \<Rightarrow> node \<Rightarrow> bool" where
  "should_expand_here L t n =
     (if n_children n = [] then True
      else let visits = f_of_nat (max (n_visits n) 1);
               widening_limit = f_mul (progressive_widening_k (m_config t))
                                  (l_powf L visits (progressive_widening_alpha (m_config t)))
           in f_lt (f_of_nat (length (n_children n))) widening_limit)"

text \<open>The byte order of strings.\<close>

fun str_less :: "string \<Rightarrow> string \<Rightarrow> bool" where
  "str_less [] [] = False"
| "str_less [] (c # cs) = True"
| "str_less (c # cs) [] = False"
| "str_less (c # cs) (d # ds) = (byte_of c < byte_of d \<or> (c = d \<and> str_less cs ds))"

definition ucb_score :: "libm \<Rightarrow> mcts \<Rightarrow> node \<Rightarrow> node \<Rightarrow> f64" where
  "ucb_score L t parent child =
     (let ln_parent_visits = l_ln L (f_of_nat (max (n_visits parent) 1)) in
      if n_visits child = 0 then PInf
      else f_add (mean_reward child)
             (f_mul (exploration_constant (m_config t))
                (f_sqrt (f_div ln_parent_visits (f_of_nat (n_visits child))))))"

fun best_child_loop ::
  "libm \<Rightarrow> mcts \<Rightarrow> node \<Rightarrow> nat list \<Rightarrow> nat option \<Rightarrow> f64 \<Rightarrow> mcts_error + nat option" where
  "best_child_loop L t parent [] best score = Ok best"
| "best_child_loop L t parent (i # is) best score =
     (case node_at t i of
        Inl e \<Rightarrow> Err e
      | Inr child \<Rightarrow>
          let s = ucb_score L t parent child in
          if f_lt score s then best_child_loop L t parent is (Some i) s
          else if f_eq s score
               then (case best of
                       None \<Rightarrow> best_child_loop L t parent is best score
                     | Some b \<Rightarrow>
                         (case node_at t b of
                            Inl e \<Rightarrow> Err e
                          | Inr existing \<Rightarrow>
                              best_child_loop L t parent is
                                (if str_less (n_key child) (n_key existing) then Some i else best) score))
               else best_child_loop L t parent is best score)"

definition select_best_child_by_ucb :: "libm \<Rightarrow> mcts \<Rightarrow> node \<Rightarrow> mcts_error + nat option" where
  "select_best_child_by_ucb L t parent =
     (if n_children parent = [] then Ok None
      else best_child_loop L t parent (n_children parent) None NInf)"

text \<open>The loop of \<^verbatim>\<open>select_path\<close> with the number of nodes that may still be added.\<close>

fun select_loop :: "libm \<Rightarrow> mcts \<Rightarrow> nat \<Rightarrow> nat \<Rightarrow> mcts_error + string list" where
  "select_loop L t 0 cursor = Ok []"
| "select_loop L t (Suc depth) cursor =
     (case node_at t cursor of
        Inl e \<Rightarrow> Err e
      | Inr n \<Rightarrow>
          if should_expand_here L t n then Ok []
          else (case select_best_child_by_ucb L t n of
                  Inl e \<Rightarrow> Err e
                | Inr None \<Rightarrow> Err (Msg (''node `'' @ n_key n @ ''` had no selectable children''))
                | Inr (Some child) \<Rightarrow>
                    (case node_at t child of
                       Inl e \<Rightarrow> Err e
                     | Inr c \<Rightarrow>
                         (case select_loop L t depth child of
                            Inl e \<Rightarrow> Err e
                          | Inr path \<Rightarrow> Ok (n_key c # path)))))"

definition select_path :: "libm \<Rightarrow> mcts \<Rightarrow> nat \<Rightarrow> mcts_error + string list" where
  "select_path L t max_depth =
     (if max_depth = 0 then Err (Msg ''max_depth must be at least 1'')
      else case node_at t (m_root t) of
             Inl e \<Rightarrow> Err e
           | Inr r \<Rightarrow> map_sum id (Cons (n_key r)) (select_loop L t (max_depth - 1) (m_root t)))"

definition node_stats_of :: "mcts \<Rightarrow> string \<Rightarrow> mcts_error + node_stats option" where
  "node_stats_of t key =
     (case hm_get (m_index t) key of
        None \<Rightarrow> Ok None
      | Some i \<Rightarrow>
          map_sum id (\<lambda>n. Some \<lparr>ns_visits = n_visits n, ns_mean_reward = mean_reward n,
              ns_best_reward = (if is_finite (n_best_reward n) then n_best_reward n else Fin 0),
              ns_children = length (n_children n)\<rparr>) (node_at t i))"

section \<open>The pending search\<close>

record selection_step =
  ss_selected_key :: string
  ss_selected_path :: "string list"
  ss_backpropagation_path :: "string list"

record pending_tree_search =
  p_tree :: mcts
  p_pending :: "string list option"

definition with_tree :: "mcts \<Rightarrow> pending_tree_search" where
  "with_tree t = \<lparr>p_tree = t, p_pending = None\<rparr>"

definition finish_selection ::
  "libm \<Rightarrow> nat \<Rightarrow> string list \<Rightarrow> pending_tree_search \<Rightarrow> (mcts_error + selection_step) \<times> pending_tree_search" where
  "finish_selection L max_depth back s =
     (case select_path L (p_tree s) max_depth of
        Inl e \<Rightarrow> (Err e, s)
      | Inr path \<Rightarrow>
          if path = [] then (Err (Msg ''mcts returned an empty selection path''), s)
          else (Ok \<lparr>ss_selected_key = last path, ss_selected_path = path, ss_backpropagation_path = back\<rparr>,
                s\<lparr>p_pending := Some path\<rparr>))"

definition select_next ::
  "libm \<Rightarrow> nat \<Rightarrow> pending_tree_search \<Rightarrow> (mcts_error + selection_step) \<times> pending_tree_search" where
  "select_next L max_depth s = finish_selection L max_depth [] s"

text \<open>The path to propagate along: the pending selection, or the root, extended by the current node
  when that is another one, which is then attached as a child.\<close>

definition backpropagation_path ::
  "disk_env \<Rightarrow> string \<Rightarrow> pending_tree_search \<Rightarrow> disk \<Rightarrow>
     (mcts_error + string list) \<times> pending_tree_search \<times> disk" where
  "backpropagation_path D current s disk =
     (case (case p_pending s of
              Some path \<Rightarrow>
                if path = [] then Err (Msg ''pending selection path was unexpectedly empty'') else Ok path
            | None \<Rightarrow> map_sum id (\<lambda>root. [root]) (root_key (p_tree s))) of
        Inl e \<Rightarrow> (Err e, s, disk)
      | Inr path \<Rightarrow>
          if last path = current then (Ok path, s, disk)
          else (case ensure_child D (last path) current (p_tree s) disk of
                  (Inl e, t, disk) \<Rightarrow> (Err e, s\<lparr>p_tree := t\<rparr>, disk)
                | (Inr _, t, disk) \<Rightarrow> (Ok (path @ [current]), s\<lparr>p_tree := t\<rparr>, disk)))"

definition backpropagate_and_select ::
  "libm \<Rightarrow> disk_env \<Rightarrow> string \<Rightarrow> f64 \<Rightarrow> nat \<Rightarrow> pending_tree_search \<Rightarrow> disk \<Rightarrow>
     (mcts_error + selection_step) \<times> pending_tree_search \<times> disk" where
  "backpropagate_and_select L D current reward max_depth s disk =
     (case backpropagation_path D current s disk of
        (Inl e, s, disk) \<Rightarrow> (Err e, s, disk)
      | (Inr path, s, disk) \<Rightarrow>
          (case backpropagate_path D path reward (p_tree s) disk of
             (Inl e, t, disk) \<Rightarrow> (Err e, s\<lparr>p_tree := t\<rparr>, disk)
           | (Inr _, t, disk) \<Rightarrow>
               (case finish_selection L max_depth path (s\<lparr>p_tree := t\<rparr>) of (res, s) \<Rightarrow> (res, s, disk))))"

definition normalize_reward :: "f64 \<Rightarrow> f64" where
  "normalize_reward r = (if is_finite r then f_clamp 0 1 r else Fin 0)"

end
