(* ===== verification/Mcts_Inv.thy ===== *)
theory Mcts_Inv
  imports Mcts
begin

text \<open>
  The tree search: its index and links stay consistent, so that no operation ever indexes out of
  bounds; a selected path is always one that rewards can be propagated along; what is written to
  disk is read back; means of normalised rewards stay in the unit interval.
\<close>

section \<open>The invariant\<close>

definition links_ok :: "node list \<Rightarrow> bool" where
  "links_ok ns \<longleftrightarrow>
     (\<forall>i < length ns. (\<forall>c \<in> set (n_children (ns ! i)). c < length ns \<and> n_parent (ns ! c) = Some i) \<and>
        (\<forall>p. n_parent (ns ! i) = Some p \<longrightarrow> p < length ns \<and> i \<in> set (n_children (ns ! p))))"

definition index_ok :: "node list \<Rightarrow> (string, nat) hashmap \<Rightarrow> bool" where
  "index_ok ns m \<longleftrightarrow> (\<forall>k i. hm_get m k = Some i \<longleftrightarrow> i < length ns \<and> n_key (ns ! i) = k)"

definition tree_ok :: "mcts \<Rightarrow> bool" where
  "tree_ok t \<longleftrightarrow>
     m_root t < length (m_nodes t) \<and> n_parent (m_nodes t ! m_root t) = None \<and>
     index_ok (m_nodes t) (m_index t) \<and> links_ok (m_nodes t) \<and>
     (\<forall>n \<in> set (m_nodes t). is_finite (n_best_reward n) \<or> n_best_reward n = NInf)"

lemma tree_ok_fresh: "tree_ok (fresh k c p)"
  by (auto simp: tree_ok_def fresh_def index_ok_def links_ok_def node_new_def)

lemma tree_ok_config: "tree_ok t \<Longrightarrow> tree_ok (t\<lparr>m_config := c, m_persistence_path := p\<rparr>)"
  by (simp add: tree_ok_def)

lemma index_ok_get: "index_ok ns m \<Longrightarrow> hm_get m k = Some i \<Longrightarrow> i < length ns \<and> n_key (ns ! i) = k"
  by (simp add: index_ok_def)

lemma index_ok_key: "index_ok ns m \<Longrightarrow> i < length ns \<Longrightarrow> hm_get m (n_key (ns ! i)) = Some i"
  by (simp add: index_ok_def)

lemma node_at_ok: "i < length (m_nodes t) \<Longrightarrow> node_at t i = Ok (m_nodes t ! i)"
  by (simp add: node_at_def)

text \<open>Replacing a node by one with the same key, parent and a justified list of children.\<close>

lemma links_ok_same:
  assumes "links_ok ns" and "i < length ns" and "n_parent n = n_parent (ns ! i)" and "n_children n = n_children (ns ! i)"
  shows "links_ok (ns[i := n])"
proof -
  have fields: "n_parent (ns[i := n] ! j) = n_parent (ns ! j)" "n_children (ns[i := n] ! j) = n_children (ns ! j)" for j
    using assms(2-4) by (cases "j = i"; simp)+
  show ?thesis
    using assms(1) unfolding links_ok_def length_list_update fields by assumption
qed

lemma index_ok_same:
  assumes "index_ok ns m" and "i < length ns" and "n_key n = n_key (ns ! i)"
  shows "index_ok (ns[i := n]) m"
  using assms by (auto simp: index_ok_def nth_list_update)

lemma f_best_ok:
  "is_finite r \<Longrightarrow> is_finite (n_best_reward n) \<or> n_best_reward n = NInf \<Longrightarrow>
     is_finite (n_best_reward (visit r n)) \<or> n_best_reward (visit r n) = NInf"
  by (simp add: visit_def)

lemma visit_fields [simp]:
  "n_key (visit r n) = n_key n" "n_parent (visit r n) = n_parent n" "n_children (visit r n) = n_children n"
  by (simp_all add: visit_def)

lemma tree_ok_visit [inv_intros]:
  assumes "tree_ok t" and "i < length (m_nodes t)" and "is_finite r"
  shows "tree_ok (set_node i (visit r (m_nodes t ! i)) t)"
proof -
  let ?n = "visit r (m_nodes t ! i)"
  have "\<forall>n \<in> set ((m_nodes t)[i := ?n]). is_finite (n_best_reward n) \<or> n_best_reward n = NInf"
    using assms f_best_ok [of r "m_nodes t ! i"]
    by (auto simp: tree_ok_def dest!: set_update_subset_insert [THEN subsetD])
  moreover have "n_parent ((m_nodes t)[i := ?n] ! m_root t) = None"
    using assms by (cases "i = m_root t") (simp_all add: tree_ok_def)
  ultimately show ?thesis
    using assms by (simp add: tree_ok_def set_node_def links_ok_same index_ok_same)
qed

lemma tree_ok_new_child:
  assumes ok: "tree_ok t" and p: "p < length (m_nodes t)" and k: "hm_get (m_index t) k = None"
  defines "N \<equiv> length (m_nodes t)"
  shows "tree_ok (t\<lparr>m_nodes := (m_nodes t @ [node_new k (Some p)])
      [p := (m_nodes t ! p)\<lparr>n_children := n_children (m_nodes t ! p) @ [N]\<rparr>],
      m_index := hm_insert k N (m_index t)\<rparr>)" (is "tree_ok ?t")
proof -
  let ?ns = "m_nodes t" and ?p = "(m_nodes t ! p)\<lparr>n_children := n_children (m_nodes t ! p) @ [N]\<rparr>"
  define ns' where "ns' = (?ns @ [node_new k (Some p)])[p := ?p]"
  have len: "length ns' = Suc N" by (simp add: N_def ns'_def)
  have nth: "ns' ! i = (if i = p then ?p else if i < N then ?ns ! i else node_new k (Some p))" if "i \<le> N" for i
    using that p by (auto simp: N_def ns'_def nth_list_update nth_append)
  have pN: "p < N" using p by (simp add: N_def)
  have lk: "links_ok ?ns"  and ix: "index_ok ?ns (m_index t)" using ok by (simp_all add: tree_ok_def)
  have lkC: "c < N \<and> n_parent (?ns ! c) = Some i" if "i < N" "c \<in> set (n_children (?ns ! i))" for i c
    using lk that unfolding links_ok_def N_def by blast
  have lkP: "q < N \<and> i \<in> set (n_children (?ns ! q))" if "i < N" "n_parent (?ns ! i) = Some q" for i q
    using lk that unfolding links_ok_def N_def by blast
  have fresh_key: "n_key (?ns ! i) \<noteq> k" if "i < N" for i
    using index_ok_key [OF ix, of i] that k by (auto simp: N_def)
  have "links_ok ns'"
    unfolding links_ok_def len
  proof (intro allI impI conjI ballI)
    fix i c assume i: "i < Suc N" and c: "c \<in> set (n_children (ns' ! i))"
    have "c < N \<and> n_parent (?ns ! c) = Some i \<or> c = N \<and> i = p"
      using lkC [of i c] i c pN by (auto simp: nth node_new_def split: if_splits)
    then show "c < Suc N" "n_parent (ns' ! c) = Some i"
      using pN by (auto simp: nth node_new_def)
  next
    fix i q assume i: "i < Suc N" and q: "n_parent (ns' ! i) = Some q"
    have "q < N \<and> (i < N \<and> i \<in> set (n_children (?ns ! q)) \<or> i = N \<and> q = p)"
      using lkP [of i q] i q pN by (auto simp: nth node_new_def split: if_splits)
    then show "q < Suc N" "i \<in> set (n_children (ns' ! q))" by (auto simp: nth)
  qed
  moreover have "index_ok ns' (hm_insert k N (m_index t))"
    unfolding index_ok_def len
  proof (intro allI)
    fix k' i
    show "hm_get (hm_insert k N (m_index t)) k' = Some i \<longleftrightarrow> i < Suc N \<and> n_key (ns' ! i) = k'"
    proof (cases "i < N")
      case True
      then have "n_key (ns' ! i) = n_key (?ns ! i)" by (simp add: nth)
      then show ?thesis using True ix fresh_key [OF True] by (auto simp: hm_get_insert index_ok_def N_def)
    next
      case False
      then have "hm_get (m_index t) k' \<noteq> Some i" using ix by (auto simp: index_ok_def N_def)
      then show ?thesis using False pN by (auto simp: hm_get_insert nth node_new_def less_Suc_eq)
    qed
  qed
  moreover have "\<forall>n \<in> set ns'. is_finite (n_best_reward n) \<or> n_best_reward n = NInf"
    using ok p by (auto simp: tree_ok_def node_new_def ns'_def dest!: set_update_subset_insert [THEN subsetD])
  moreover have "m_root t < Suc N" "n_parent (ns' ! m_root t) = None"
    using ok pN by (auto simp: tree_ok_def nth N_def)
  ultimately show ?thesis using len by (simp add: tree_ok_def ns'_def)
qed

section \<open>The operations\<close>

lemma tree_ok_child: "tree_ok t \<Longrightarrow> i < length (m_nodes t) \<Longrightarrow> c \<in> set (n_children (m_nodes t ! i)) \<Longrightarrow>
    c < length (m_nodes t) \<and> n_parent (m_nodes t ! c) = Some i"
  unfolding tree_ok_def links_ok_def by blast

lemma tree_ok_parent: "tree_ok t \<Longrightarrow> i < length (m_nodes t) \<Longrightarrow> n_parent (m_nodes t ! i) = Some p \<Longrightarrow>
    p < length (m_nodes t) \<and> i \<in> set (n_children (m_nodes t ! p))"
  unfolding tree_ok_def links_ok_def by blast

lemma tree_ok_get: "tree_ok t \<Longrightarrow> hm_get (m_index t) k = Some i \<Longrightarrow>
    i < length (m_nodes t) \<and> n_key (m_nodes t ! i) = k"
  unfolding tree_ok_def using index_ok_get by blast

lemma ensure_child_spec:
  assumes ok: "tree_ok t" and e: "ensure_child D pk ck t disk = (res, t', disk')"
  shows "tree_ok t' \<and> res \<noteq> Err Panic \<and>
    (res = Ok () \<longrightarrow> (\<exists>p c. hm_get (m_index t') pk = Some p \<and> hm_get (m_index t') ck = Some c \<and>
       c \<in> set (n_children (m_nodes t' ! p)))) \<and>
    m_root t' = m_root t \<and> (\<forall>k i. hm_get (m_index t) k = Some i \<longrightarrow> hm_get (m_index t') k = Some i)"
proof (cases "hm_get (m_index t) pk")
  case None
  with e ok show ?thesis by (auto simp: ensure_child_def)
next
  case (Some p)
  note p = tree_ok_get [OF ok Some]
  show ?thesis
  proof (cases "hm_get (m_index t) ck")
    case (Some c)
    note c = tree_ok_get [OF ok Some]
    show ?thesis
    proof (cases "n_parent (m_nodes t ! c) = Some p")
      case True
      then have "c \<in> set (n_children (m_nodes t ! p))" using tree_ok_parent [OF ok] c by blast
      with e ok p c True Some \<open>hm_get (m_index t) pk = Some p\<close> show ?thesis
        by (auto simp: ensure_child_def node_at_ok)
    next
      case False
      with e ok p c Some \<open>hm_get (m_index t) pk = Some p\<close> show ?thesis
        by (auto simp: ensure_child_def node_at_ok)
    qed
  next
    case None
    let ?N = "length (m_nodes t)"
    let ?t = "t\<lparr>m_nodes := (m_nodes t @ [node_new ck (Some p)])
      [p := (m_nodes t ! p)\<lparr>n_children := n_children (m_nodes t ! p) @ [?N]\<rparr>],
      m_index := hm_insert ck ?N (m_index t)\<rparr>"
    have t': "t' = ?t" "res = Ok ()"
      using e None \<open>hm_get (m_index t) pk = Some p\<close> p
      by (auto simp: ensure_child_def node_at_def set_node_def Let_def nth_append)
    have "tree_ok ?t" using tree_ok_new_child [OF ok _ None] p by simp
    moreover have "pk \<noteq> ck" using None \<open>hm_get (m_index t) pk = Some p\<close> by auto
    ultimately show ?thesis
      using t' None \<open>hm_get (m_index t) pk = Some p\<close> p
      by (auto simp: hm_get_insert nth_list_update)
  qed
qed

text \<open>The links and keys are untouched by visits.\<close>

definition same_shape :: "mcts \<Rightarrow> mcts \<Rightarrow> bool" where
  "same_shape t t' \<longleftrightarrow>
     m_index t' = m_index t \<and> m_root t' = m_root t \<and> m_config t' = m_config t \<and>
     m_persistence_path t' = m_persistence_path t \<and> length (m_nodes t') = length (m_nodes t) \<and>
     (\<forall>i < length (m_nodes t). n_key (m_nodes t' ! i) = n_key (m_nodes t ! i) \<and>
        n_parent (m_nodes t' ! i) = n_parent (m_nodes t ! i) \<and>
        n_children (m_nodes t' ! i) = n_children (m_nodes t ! i))"

lemma same_shape_refl [simp]: "same_shape t t"
  by (simp add: same_shape_def)

lemma same_shape_trans: "same_shape a b \<Longrightarrow> same_shape b c \<Longrightarrow> same_shape a c"
  by (simp add: same_shape_def)

lemma same_shape_visit: "i < length (m_nodes t) \<Longrightarrow> same_shape t (set_node i (visit r (m_nodes t ! i)) t)"
  by (auto simp: same_shape_def set_node_def nth_list_update)

text \<open>A path through the tree: every key is known and every step goes to a child.\<close>

fun path_ok :: "mcts \<Rightarrow> string option \<Rightarrow> string list \<Rightarrow> bool" where
  "path_ok t prev [] = True"
| "path_ok t prev (k # ks) =
     ((\<exists>i. hm_get (m_index t) k = Some i \<and>
        (case prev of None \<Rightarrow> True
         | Some pk \<Rightarrow> \<exists>j. hm_get (m_index t) pk = Some j \<and> i \<in> set (n_children (m_nodes t ! j)))) \<and>
      path_ok t (Some k) ks)"

lemma path_ok_shape:
  assumes "tree_ok t" and "same_shape t t'"
  shows "path_ok t' prev ks = path_ok t prev ks"
proof (induction ks arbitrary: prev)
  case (Cons k ks)
  have "n_children (m_nodes t' ! j) = n_children (m_nodes t ! j)" if "hm_get (m_index t) pk = Some j" for pk j
    using tree_ok_get [OF assms(1) that] assms(2) by (simp add: same_shape_def)
  then have "(\<exists>j. hm_get (m_index t) pk = Some j \<and> i \<in> set (n_children (m_nodes t' ! j))) \<longleftrightarrow>
      (\<exists>j. hm_get (m_index t) pk = Some j \<and> i \<in> set (n_children (m_nodes t ! j)))" for pk i
    by metis
  moreover have "m_index t' = m_index t" using assms(2) by (simp add: same_shape_def)
  ultimately show ?case using Cons.IH by (cases prev) simp_all
qed simp

lemma backpropagate_loop_spec:
  assumes "tree_ok t" and "is_finite r"
  shows "(path_ok t prev ks \<longrightarrow> fst (backpropagate_loop prev ks r t) = Ok ()) \<and>
    (\<not> path_ok t prev ks \<longrightarrow> (\<exists>m. fst (backpropagate_loop prev ks r t) = Err (Msg m))) \<and>
    tree_ok (snd (backpropagate_loop prev ks r t)) \<and> same_shape t (snd (backpropagate_loop prev ks r t))"
  using assms
proof (induction ks arbitrary: prev t)
  case (Cons k ks)
  show ?case
  proof (cases "hm_get (m_index t) k")
    case None
    with Cons.prems show ?thesis by simp
  next
    case (Some i)
    note i = tree_ok_get [OF Cons.prems(1) Some]
    let ?t = "set_node i (visit r (m_nodes t ! i)) t"
    have ok: "tree_ok ?t" using Cons.prems i by (intro tree_ok_visit) auto
    have shape: "same_shape t ?t" using i by (intro same_shape_visit) simp
    note IH = Cons.IH [OF ok Cons.prems(2), of "Some k"] path_ok_shape [OF Cons.prems(1) shape]
    show ?thesis
    proof (cases "case prev of None \<Rightarrow> True
         | Some pk \<Rightarrow> \<exists>j. hm_get (m_index t) pk = Some j \<and> i \<in> set (n_children (m_nodes t ! j))")
      case True
      then have "backpropagate_loop prev (k # ks) r t = backpropagate_loop (Some k) ks r ?t"
      proof (cases prev)
        case (Some pk)
        then obtain j where j: "hm_get (m_index t) pk = Some j" "i \<in> set (n_children (m_nodes t ! j))"
          using True by auto
        then show ?thesis
          using Some \<open>hm_get (m_index t) k = Some i\<close> i tree_ok_get [OF Cons.prems(1) j(1)] by (simp add: node_at_ok)
      qed (use \<open>hm_get (m_index t) k = Some i\<close> i in \<open>simp add: node_at_ok\<close>)
      with IH True Some show ?thesis by (auto intro: same_shape_trans [OF shape])
    next
      case False
      then obtain pk where pk: "prev = Some pk" by (auto split: option.splits)
      have "\<exists>m. backpropagate_loop prev (k # ks) r t = (Err (Msg m), t)"
      proof (cases "hm_get (m_index t) pk")
        case (Some j)
        then show ?thesis using False pk i \<open>hm_get (m_index t) k = Some i\<close> tree_ok_get [OF Cons.prems(1) Some]
          by (simp add: node_at_ok)
      qed (use pk \<open>hm_get (m_index t) k = Some i\<close> in simp)
      moreover have "\<not> path_ok t prev (k # ks)" using False Some by auto
      ultimately show ?thesis using Cons.prems(1) by auto
    qed
  qed
qed simp

lemma backpropagate_path_spec:
  assumes "tree_ok t" and "backpropagate_path D ks r t disk = (res, t', disk')"
  shows "tree_ok t' \<and> same_shape t t' \<and> res \<noteq> Err Panic \<and>
    (res = Ok () \<longleftrightarrow> is_finite r \<and> ks \<noteq> [] \<and> path_ok t None ks)"
  using assms backpropagate_loop_spec [OF assms(1), of r None ks]
  by (auto simp: backpropagate_path_def split: if_splits prod.splits sum.splits)

section \<open>Selection\<close>

lemma best_child_loop_spec:
  assumes "\<forall>i \<in> set is. i < length (m_nodes t)" and "\<forall>b. best = Some b \<longrightarrow> b < length (m_nodes t)"
  shows "\<exists>r. best_child_loop L t p is best score = Ok r \<and> (\<forall>b. r = Some b \<longrightarrow> b \<in> set is \<or> best = Some b)"
  using assms
proof (induction "is" arbitrary: best score)
  case (Cons i "is")
  let ?s = "ucb_score L t p (m_nodes t ! i)"
  have i: "node_at t i = Ok (m_nodes t ! i)" using Cons.prems by (simp add: node_at_ok)
  have all: "\<forall>i \<in> set is. i < length (m_nodes t)" and fst: "\<forall>b. Some i = Some b \<longrightarrow> b < length (m_nodes t)"
    using Cons.prems by auto
  note a = Cons.IH [OF all fst, of ?s] and b = Cons.IH [OF all Cons.prems(2), of score]
    and c = Cons.IH [OF all fst, of score]
  show ?case
  proof (cases "f_lt score ?s")
    case True
    with a i show ?thesis by (fastforce simp: Let_def)
  next
    case False
    show ?thesis
    proof (cases "f_eq ?s score")
      case True
      show ?thesis
      proof (cases best)
        case None
        with b i False True show ?thesis by (fastforce simp: Let_def)
      next
        case (Some e)
        then have "node_at t e = Ok (m_nodes t ! e)" using Cons.prems(2) by (simp add: node_at_ok)
        with Some b c i False True show ?thesis by (auto simp: Let_def)
      qed
    next
      case False
      with \<open>\<not> f_lt score ?s\<close> b i show ?thesis by (fastforce simp: Let_def)
    qed
  qed
qed simp

lemma select_best_child_spec:
  assumes "tree_ok t" and "i < length (m_nodes t)"
  shows "\<exists>r. select_best_child_by_ucb L t (m_nodes t ! i) = Ok r \<and>
    (\<forall>b. r = Some b \<longrightarrow> b \<in> set (n_children (m_nodes t ! i)))"
  using best_child_loop_spec [of "n_children (m_nodes t ! i)" t None L "m_nodes t ! i" NInf]
    tree_ok_child [OF assms]
  by (fastforce simp: select_best_child_by_ucb_def)

lemma select_loop_spec:
  assumes "tree_ok t" and "i < length (m_nodes t)"
  shows "select_loop L t d i \<noteq> Err Panic \<and>
    (\<forall>path. select_loop L t d i = Ok path \<longrightarrow>
       path_ok t (Some (n_key (m_nodes t ! i))) path \<and> length path \<le> d)"
  using assms(2)
proof (induction d arbitrary: i)
  case (Suc d)
  have key: "hm_get (m_index t) (n_key (m_nodes t ! j)) = Some j" if "j < length (m_nodes t)" for j
    using assms(1) that by (auto simp: tree_ok_def intro: index_ok_key)
  obtain r where r: "select_best_child_by_ucb L t (m_nodes t ! i) = Ok r"
      "\<forall>b. r = Some b \<longrightarrow> b \<in> set (n_children (m_nodes t ! i))"
    using select_best_child_spec [OF assms(1) Suc.prems] by blast
  show ?case
  proof (cases r)
    case None
    with r Suc.prems show ?thesis by (auto simp: node_at_ok)
  next
    case (Some b)
    then have b: "b < length (m_nodes t)" "b \<in> set (n_children (m_nodes t ! i))"
      using r tree_ok_child [OF assms(1) Suc.prems] by auto
    with Suc.IH [OF b(1)] Some r(1) Suc.prems key show ?thesis
      by (auto simp: node_at_ok split: sum.splits)
  qed
qed simp

lemma select_path_spec:
  assumes "tree_ok t"
  shows "select_path L t d \<noteq> Err Panic \<and>
    (\<forall>path. select_path L t d = Ok path \<longrightarrow>
       path_ok t None path \<and> path \<noteq> [] \<and> hd path = n_key (m_nodes t ! m_root t) \<and> length path \<le> d)"
proof -
  have r: "m_root t < length (m_nodes t)" using assms by (simp add: tree_ok_def)
  moreover have "hm_get (m_index t) (n_key (m_nodes t ! m_root t)) = Some (m_root t)"
    using assms r by (auto simp: tree_ok_def intro: index_ok_key)
  ultimately show ?thesis
    using select_loop_spec [OF assms r, of L "d - 1"]
    by (auto simp: select_path_def node_at_ok)
qed

text \<open>What selection returns can be propagated along: the selected path starts at the root, is at most
  as long as asked for, and every finite reward is accepted for it.\<close>

theorem selected_path_backpropagates:
  assumes "tree_ok t" and "select_path L t d = Ok path" and "is_finite reward"
  shows "root_key t = Ok (hd path) \<and> length path \<le> d \<and>
    (\<exists>t'. backpropagate_path D path reward t disk = (Ok (), t', persist_best_effort D t' disk) \<and> same_shape t t')"
proof -
  note p = select_path_spec [OF assms(1), of L d, THEN conjunct2, rule_format, OF assms(2)]
  obtain res t' disk' where b: "backpropagate_path D path reward t disk = (res, t', disk')"
    by (metis prod.collapse)
  with backpropagate_path_spec [OF assms(1) b] p assms(3) have "res = Ok ()" "same_shape t t'" by auto
  moreover from this b have "disk' = persist_best_effort D t' disk"
    by (auto simp: backpropagate_path_def split: if_splits prod.splits sum.splits)
  moreover have "root_key t = Ok (hd path)"
    using p assms(1) by (simp add: root_key_def tree_ok_def node_at_ok)
  ultimately show ?thesis using b p by blast
qed

section \<open>Persistence\<close>

lemma build_index_ok:
  assumes "index_ok pre m" and "build_index ns (length pre) m = Ok m'"
  shows "index_ok (pre @ ns) m' \<and>
    (\<forall>n \<in> set ns. is_finite (n_reward_sum n) \<and> (is_finite (n_best_reward n) \<or> n_best_reward n = NInf))"
  using assms
proof (induction ns arbitrary: pre m)
  case (Cons n ns)
  have fresh: "hm_get m (n_key n) = None" and fin: "is_finite (n_reward_sum n)"
    and best: "is_finite (n_best_reward n) \<or> f_eq (n_best_reward n) NInf"
    and rest: "build_index ns (length (pre @ [n])) (hm_insert (n_key n) (length pre) m) = Ok m'"
    using Cons.prems(2) by (auto simp: hm_contains_def split: if_splits)
  have "hm_get m k \<noteq> Some (length pre)" for k using Cons.prems(1) by (simp add: index_ok_def)
  moreover have "n_key (pre ! i) \<noteq> n_key n" if "i < length pre" for i
    using Cons.prems(1) fresh that by (metis index_ok_key option.distinct(1))
  ultimately have "index_ok (pre @ [n]) (hm_insert (n_key n) (length pre) m)"
    using Cons.prems(1) by (auto simp: index_ok_def hm_get_insert nth_append less_Suc_eq)
  from Cons.IH [OF this rest] fin best show ?case
    by (cases "n_best_reward n") auto
qed simp

lemma build_index_accepts:
  assumes "index_ok pre m" and "distinct (map n_key (pre @ ns))"
    and "\<forall>n \<in> set ns. is_finite (n_reward_sum n) \<and> (is_finite (n_best_reward n) \<or> n_best_reward n = NInf)"
  shows "\<exists>m'. build_index ns (length pre) m = Ok m'"
  using assms
proof (induction ns arbitrary: pre m)
  case (Cons n ns)
  have fresh: "hm_get m (n_key n) = None"
  proof (rule ccontr)
    assume "hm_get m (n_key n) \<noteq> None"
    then obtain i where "i < length pre" "n_key (pre ! i) = n_key n"
      using index_ok_get [OF Cons.prems(1)] by blast
    then have "n_key n \<in> n_key ` set pre" by (metis image_eqI nth_mem)
    with Cons.prems(2) show False by auto
  qed
  have "hm_get m k \<noteq> Some (length pre)" for k using Cons.prems(1) by (simp add: index_ok_def)
  moreover have "n_key (pre ! i) \<noteq> n_key n" if "i < length pre" for i
    using Cons.prems(1) fresh that by (metis index_ok_key option.distinct(1))
  ultimately have "index_ok (pre @ [n]) (hm_insert (n_key n) (length pre) m)"
    using Cons.prems(1) by (auto simp: index_ok_def hm_get_insert nth_append less_Suc_eq)
  from Cons.IH [OF this] Cons.prems(2,3) fresh show ?case by (auto simp: hm_contains_def)
qed simp

lemma check_children_None:
  "check_children nodes i n cs = None \<longleftrightarrow>
     (\<forall>c \<in> set cs. c < length nodes \<and> n_parent (nodes ! c) = Some i)"
  by (induction cs) auto

lemma check_links_None:
  "check_links nodes ns i = None \<longleftrightarrow>
     (\<forall>j < length ns.
        (\<forall>c \<in> set (n_children (ns ! j)). c < length nodes \<and> n_parent (nodes ! c) = Some (i + j)) \<and>
        (\<forall>p. n_parent (ns ! j) = Some p \<longrightarrow> p < length nodes \<and> i + j \<in> set (n_children (nodes ! p))))"
proof (induction ns arbitrary: i)
  case (Cons n ns)
  have "check_links nodes (n # ns) i = None \<longleftrightarrow>
      (check_children nodes i n (n_children n) = None \<and>
       (\<forall>p. n_parent n = Some p \<longrightarrow> p < length nodes \<and> i \<in> set (n_children (nodes ! p)))) \<and>
      check_links nodes ns (Suc i) = None"
    by (auto split: option.splits if_splits)
  also have "\<dots> \<longleftrightarrow> (\<forall>j < length (n # ns).
        (\<forall>c \<in> set (n_children ((n # ns) ! j)). c < length nodes \<and> n_parent (nodes ! c) = Some (i + j)) \<and>
        (\<forall>p. n_parent ((n # ns) ! j) = Some p \<longrightarrow> p < length nodes \<and> i + j \<in> set (n_children (nodes ! p))))"
    unfolding Cons.IH All_less_Suc2 length_Cons check_children_None by simp
  finally show ?case .
qed simp

lemma check_links_iff: "check_links ns ns 0 = None \<longleftrightarrow> links_ok ns"
  by (simp add: check_links_None links_ok_def)

lemma from_persisted_ok:
  assumes "from_persisted p path = Ok t"
  shows "tree_ok t \<and> (\<forall>n \<in> set (m_nodes t). is_finite (n_reward_sum n)) \<and>
    m_nodes t = map into_node (pm_nodes p) \<and> m_root t = pm_root p \<and> m_config t = pm_config p"
proof -
  let ?ns = "map into_node (pm_nodes p)"
  from assms obtain m where m: "build_index ?ns (length ([] :: node list)) [] = Ok m"
    and l: "check_links ?ns ?ns 0 = None" and r: "pm_root p < length ?ns" "n_parent (?ns ! pm_root p) = None"
    and t: "t = \<lparr>m_config = pm_config p, m_root = pm_root p, m_nodes = ?ns, m_index = m, m_persistence_path = path\<rparr>"
    by (auto simp: from_persisted_def Let_def split: if_splits sum.splits option.splits)
  have "index_ok [] []" by (simp add: index_ok_def)
  from build_index_ok [OF this m] l r show ?thesis
    by (auto simp: t tree_ok_def check_links_iff)
qed

lemma into_from_node:
  "is_finite (n_best_reward n) \<or> n_best_reward n = NInf \<Longrightarrow> into_node (from_node n) = n"
  by (auto simp: into_node_def from_node_def)

lemma tree_ok_distinct_keys: "tree_ok t \<Longrightarrow> distinct (map n_key (m_nodes t))"
  unfolding distinct_conv_nth tree_ok_def using index_ok_key
  by (metis length_map nth_map option.inject)

lemma from_to_persisted:
  assumes ok: "tree_ok t" and fin: "\<forall>n \<in> set (m_nodes t). is_finite (n_reward_sum n)"
  shows "\<exists>t'. from_persisted (to_persisted t) path = Ok t' \<and> tree_ok t' \<and> m_nodes t' = m_nodes t \<and>
    m_root t' = m_root t \<and> m_config t' = m_config t \<and> m_persistence_path t' = path"
proof -
  have ns: "map into_node (map from_node (m_nodes t)) = m_nodes t"
    using ok by (simp add: tree_ok_def into_from_node map_idI)
  have "index_ok [] []" by (simp add: index_ok_def)
  then obtain m where m: "build_index (m_nodes t) 0 [] = Ok m"
    using build_index_accepts [of "[]" "[]" "m_nodes t"] tree_ok_distinct_keys [OF ok] ok fin
    by (auto simp: tree_ok_def)
  have l: "check_links (m_nodes t) (m_nodes t) 0 = None" using ok by (simp add: check_links_iff tree_ok_def)
  have r: "m_root t < length (m_nodes t)" "n_parent (m_nodes t ! m_root t) = None" "m_nodes t \<noteq> []"
    using ok by (auto simp: tree_ok_def)
  let ?t = "\<lparr>m_config = m_config t, m_root = m_root t, m_nodes = m_nodes t, m_index = m, m_persistence_path = path\<rparr>"
  have "from_persisted (to_persisted t) path = Ok ?t"
    unfolding from_persisted_def to_persisted_def using m l r by (simp only: persisted_mcts.simps ns) simp
  from this from_persisted_ok [OF this] show ?thesis by auto
qed


section \<open>Whole searches\<close>

lemma try_build_ok: "try_build D b disk = Ok t \<Longrightarrow> tree_ok t"
  by (auto simp: try_build_def maybe_load_from_disk_def tree_ok_fresh split: option.splits sum.splits if_splits
      dest!: from_persisted_ok intro!: tree_ok_config)

lemma build_ok: "tree_ok (build D b disk)"
  using try_build_ok by (auto simp: build_def tree_ok_fresh split: sum.splits)

text \<open>The public operations of a tree and of a pending search.\<close>

datatype search_op =
    EnsureChild string string
  | Backpropagate "string list" f64
  | SelectNext nat
  | BackpropagateAndSelect string f64 nat

fun search_step ::
  "libm \<Rightarrow> disk_env \<Rightarrow> search_op \<Rightarrow> pending_tree_search \<Rightarrow> disk \<Rightarrow>
     mcts_error option \<times> pending_tree_search \<times> disk" where
  "search_step L D (EnsureChild p c) s disk =
     (case ensure_child D p c (p_tree s) disk of
        (Inl e, t, disk) \<Rightarrow> (Some e, s\<lparr>p_tree := t\<rparr>, disk)
      | (Inr _, t, disk) \<Rightarrow> (None, s\<lparr>p_tree := t\<rparr>, disk))"
| "search_step L D (Backpropagate path r) s disk =
     (case backpropagate_path D path r (p_tree s) disk of
        (Inl e, t, disk) \<Rightarrow> (Some e, s\<lparr>p_tree := t\<rparr>, disk)
      | (Inr _, t, disk) \<Rightarrow> (None, s\<lparr>p_tree := t\<rparr>, disk))"
| "search_step L D (SelectNext d) s disk =
     (case select_next L d s of (Inl e, s) \<Rightarrow> (Some e, s, disk) | (Inr _, s) \<Rightarrow> (None, s, disk))"
| "search_step L D (BackpropagateAndSelect k r d) s disk =
     (case backpropagate_and_select L D k r d s disk of
        (Inl e, s, disk) \<Rightarrow> (Some e, s, disk) | (Inr _, s, disk) \<Rightarrow> (None, s, disk))"

fun search_run ::
  "libm \<Rightarrow> disk_env \<Rightarrow> search_op list \<Rightarrow> pending_tree_search \<Rightarrow> disk \<Rightarrow>
     mcts_error option list \<times> pending_tree_search \<times> disk" where
  "search_run L D [] s disk = ([], s, disk)"
| "search_run L D (op # ops) s disk =
     (let (e, s, disk) = search_step L D op s disk; (es, s, disk) = search_run L D ops s disk
      in (e # es, s, disk))"

lemma finish_selection_spec:
  assumes "tree_ok (p_tree s)" and "finish_selection L d back s = (res, s')"
  shows "p_tree s' = p_tree s \<and> res \<noteq> Err Panic"
  using assms select_path_spec [OF assms(1), of L d]
  by (auto simp: finish_selection_def split: sum.splits if_splits)

lemma root_key_ok: "tree_ok t \<Longrightarrow> root_key t = Ok (n_key (m_nodes t ! m_root t))"
  by (simp add: root_key_def tree_ok_def node_at_ok)

lemma backpropagation_path_spec:
  assumes "tree_ok (p_tree s)" and "backpropagation_path D k s disk = (res, s', disk')"
  shows "tree_ok (p_tree s') \<and> res \<noteq> Err Panic"
  using assms root_key_ok [OF assms(1)]
  by (auto simp: backpropagation_path_def split: option.splits if_splits prod.splits sum.splits
      dest: ensure_child_spec [OF assms(1)])

lemma search_step_spec:
  assumes ok: "tree_ok (p_tree s)" and e: "search_step L D op s disk = (err, s', disk')"
  shows "tree_ok (p_tree s') \<and> err \<noteq> Some Panic"
proof (cases op)
  case (EnsureChild p c)
  with e show ?thesis by (auto split: prod.splits sum.splits dest!: ensure_child_spec [OF ok])
next
  case (Backpropagate path r)
  with e show ?thesis by (auto split: prod.splits sum.splits dest!: backpropagate_path_spec [OF ok])
next
  case (SelectNext d)
  with e ok show ?thesis
    by (auto simp: select_next_def split: prod.splits sum.splits dest!: finish_selection_spec [OF ok])
next
  case (BackpropagateAndSelect k r d)
  obtain x1 s1 d1 where b: "backpropagation_path D k s disk = (x1, s1, d1)" by (metis prod.collapse)
  note ok1 = backpropagation_path_spec [OF ok b]
  show ?thesis
  proof (cases x1)
    case (Inl e1)
    with b ok1 e BackpropagateAndSelect show ?thesis by (auto simp: backpropagate_and_select_def)
  next
    case (Inr path)
    obtain x2 t2 d2 where p: "backpropagate_path D path r (p_tree s1) d1 = (x2, t2, d2)" by (metis prod.collapse)
    note ok2 = backpropagate_path_spec [OF conjunct1 [OF ok1] p]
    obtain x3 s3 where f: "finish_selection L d path (s1\<lparr>p_tree := t2\<rparr>) = (x3, s3)" by (metis prod.collapse)
    have "p_tree s3 = t2 \<and> x3 \<noteq> Err Panic" using finish_selection_spec [OF _ f] ok2 by simp
    with b p f Inr ok1 ok2 e BackpropagateAndSelect show ?thesis
      by (auto simp: backpropagate_and_select_def split: sum.splits)
  qed
qed

lemma search_run_spec:
  assumes "tree_ok (p_tree s)" and "search_run L D ops s disk = (es, s', disk')"
  shows "tree_ok (p_tree s') \<and> Some Panic \<notin> set es"
  using assms
proof (induction ops arbitrary: s disk es)
  case (Cons op ops)
  obtain e s1 d1 where o: "search_step L D op s disk = (e, s1, d1)" by (metis prod.collapse)
  obtain es1 where r: "search_run L D ops s1 d1 = (es1, s', disk')" "es = e # es1"
    using Cons.prems(2) o by (auto simp: Let_def split: prod.splits)
  from Cons.IH [OF _ r(1)] search_step_spec [OF Cons.prems(1) o] r(2) show ?case by auto
qed simp

text \<open>C10. No search ever panics: from whatever is on disk, after building the tree and any sequence of
  public operations with any arguments, links and index are consistent and no operation has
  indexed the node table out of bounds.\<close>

theorem search_never_panics:
  assumes "search_run L D ops (with_tree (build D b disk)) disk = (es, s, disk')"
  shows "tree_ok (p_tree s) \<and> Some Panic \<notin> set es"
  using search_run_spec [OF _ assms] by (simp add: with_tree_def build_ok)

section \<open>Statistics of normalised rewards\<close>

definition stats_ok :: "nat \<Rightarrow> node list \<Rightarrow> bool" where
  "stats_ok B ns \<longleftrightarrow>
     (\<forall>n \<in> set ns. n_visits n \<le> B \<and> (\<exists>s. n_reward_sum n = Fin s \<and> 0 \<le> s \<and> s \<le> of_nat (n_visits n)))"

lemma stats_ok_mono: "stats_ok B ns \<Longrightarrow> B \<le> B' \<Longrightarrow> stats_ok B' ns"
  by (fastforce simp: stats_ok_def)

lemma normalize_reward_unit: "\<exists>x. normalize_reward r = Fin x \<and> 0 \<le> x \<and> x \<le> 1"
  by (cases r) (auto simp: normalize_reward_def f_clamp_def)

lemma two53_u64: "(2 :: nat) ^ 53 \<le> u64_max"
  by (simp add: u64_max_def)

lemma visit_stats:
  assumes "n_visits n \<le> B" and "n_reward_sum n = Fin s" and "0 \<le> s" and "s \<le> of_nat (n_visits n)"
    and "B < 2 ^ 53" and "r = Fin x" and "0 \<le> x" and "x \<le> 1"
  shows "n_visits (visit r n) \<le> Suc B \<and>
    (\<exists>s. n_reward_sum (visit r n) = Fin s \<and> 0 \<le> s \<and> s \<le> of_nat (n_visits (visit r n)))"
proof -
  have v: "n_visits (visit r n) = Suc (n_visits n)"
    using assms(1,5) two53_u64 by (simp add: visit_def sat_add_def)
  have "s + x \<le> of_nat (Suc (n_visits n))" using assms(4,8) by simp
  then have "rnd (s + x) = Fin (rv (s + x)) \<and> 0 \<le> rv (s + x) \<and> rv (s + x) \<le> of_nat (Suc (n_visits n))"
    using assms(1,3,5,7) by (intro rnd_Fin) auto
  moreover have "n_reward_sum (visit r n) = rnd (s + x)" using assms(2,6) by (simp add: visit_def)
  ultimately show ?thesis using v assms(1) by auto
qed

lemma backpropagate_loop_stats:
  assumes "stats_ok B (m_nodes t)" and "B + length ks \<le> 2 ^ 53" and "r = Fin x" and "0 \<le> x" and "x \<le> 1"
  shows "stats_ok (B + length ks) (m_nodes (snd (backpropagate_loop prev ks r t)))"
  using assms
proof (induction ks arbitrary: prev t B)
  case (Cons k ks)
  let ?t = "\<lambda>i. set_node i (visit r (m_nodes t ! i)) t"
  have st: "stats_ok (Suc B) (m_nodes (?t i))" if "i < length (m_nodes t)" for i
    unfolding stats_ok_def
  proof
    fix n assume "n \<in> set (m_nodes (?t i))"
    then consider "n = visit r (m_nodes t ! i)" | "n \<in> set (m_nodes t)"
      by (auto simp: set_node_def dest!: set_update_subset_insert [THEN subsetD])
    then show "n_visits n \<le> Suc B \<and> (\<exists>s. n_reward_sum n = Fin s \<and> 0 \<le> s \<and> s \<le> of_nat (n_visits n))"
    proof cases
      case 1
      have "m_nodes t ! i \<in> set (m_nodes t)" using that by simp
      then obtain s where "n_visits (m_nodes t ! i) \<le> B" "n_reward_sum (m_nodes t ! i) = Fin s" "0 \<le> s"
          "s \<le> of_nat (n_visits (m_nodes t ! i))"
        using Cons.prems(1) unfolding stats_ok_def by blast
      moreover have "B < 2 ^ 53" using Cons.prems(2) by simp
      ultimately show ?thesis unfolding 1 by (intro visit_stats) (use Cons.prems(3-5) in auto)
    qed (use Cons.prems(1) in \<open>auto simp: stats_ok_def\<close>)
  qed
  have keep: "stats_ok (B + length (k # ks)) (m_nodes t)" using Cons.prems(1) by (rule stats_ok_mono) simp
  have "stats_ok (Suc B + length ks) (m_nodes (snd (backpropagate_loop (Some k) ks r (?t i))))"
    if "i < length (m_nodes t)" for i
    using Cons.IH [OF st [OF that]] Cons.prems by simp
  with keep show ?case
    by (auto simp: node_at_def split: option.splits sum.splits if_splits)
qed simp

lemma ensure_child_stats:
  assumes "tree_ok t" and "stats_ok B (m_nodes t)" and "ensure_child D p c t disk = (res, t', disk')"
  shows "stats_ok B (m_nodes t')"
  using assms
  by (auto simp: ensure_child_def set_node_def node_at_def node_new_def stats_ok_def Let_def nth_append
      split: option.splits sum.splits if_splits dest!: set_update_subset_insert [THEN subsetD] tree_ok_get)

lemma mean_reward_unit:
  assumes "stats_ok B (m_nodes t)" and "B \<le> 2 ^ 53" and "n \<in> set (m_nodes t)"
  shows "\<exists>m. mean_reward n = Fin m \<and> 0 \<le> m \<and> m \<le> 1"
proof (cases "n_visits n = 0")
  case False
  obtain s where s: "n_reward_sum n = Fin s" "0 \<le> s" "s \<le> of_nat (n_visits n)" "n_visits n \<le> B"
    using assms(1,3) by (auto simp: stats_ok_def)
  have "s / of_nat (n_visits n) \<le> of_nat 1" using s False by (simp add: divide_le_eq)
  then have "rnd (s / of_nat (n_visits n)) = Fin (rv (s / of_nat (n_visits n))) \<and>
      0 \<le> rv (s / of_nat (n_visits n)) \<and> rv (s / of_nat (n_visits n)) \<le> of_nat 1"
    using s by (intro rnd_Fin) auto
  then show ?thesis using s False assms(2) by (auto simp: mean_reward_def f_of_nat_exact)
qed (simp add: mean_reward_def)

text \<open>How many visits an operation can add to a node, when selections go at most \<open>M\<close> deep.\<close>

fun op_weight :: "nat \<Rightarrow> search_op \<Rightarrow> nat" where
  "op_weight M (Backpropagate path r) = length path"
| "op_weight M (BackpropagateAndSelect k r d) = M + 1"
| "op_weight M _ = 0"

fun op_normal :: "nat \<Rightarrow> search_op \<Rightarrow> bool" where
  "op_normal M (Backpropagate path r) = (\<exists>x. r = normalize_reward x)"
| "op_normal M (BackpropagateAndSelect k r d) = (d \<le> M \<and> (\<exists>x. r = normalize_reward x))"
| "op_normal M (SelectNext d) = (d \<le> M)"
| "op_normal M (EnsureChild p c) = True"

definition pending_ok :: "nat \<Rightarrow> pending_tree_search \<Rightarrow> bool" where
  "pending_ok M s \<longleftrightarrow> (\<forall>path. p_pending s = Some path \<longrightarrow> length path \<le> M)"

lemma finish_selection_pending:
  assumes "tree_ok (p_tree s)" and "pending_ok M s" and "d \<le> M"
  shows "pending_ok M (snd (finish_selection L d back s))"
  using assms select_path_spec [OF assms(1), of L d]
  by (auto simp: finish_selection_def pending_ok_def split: sum.splits)

lemma backpropagation_path_stats:
  assumes "tree_ok (p_tree s)" and "stats_ok B (m_nodes (p_tree s))" and "pending_ok M s" and "0 < M"
    and "backpropagation_path D k s disk = (res, s', disk')"
  shows "stats_ok B (m_nodes (p_tree s')) \<and> p_pending s' = p_pending s \<and> (\<forall>path. res = Ok path \<longrightarrow> length path \<le> M + 1)"
  using assms
  by (auto simp: backpropagation_path_def pending_ok_def
      split: option.splits if_splits prod.splits sum.splits dest: ensure_child_stats [OF assms(1,2)])

lemma backpropagate_path_stats:
  assumes "stats_ok B (m_nodes t)" and "B + length ks \<le> 2 ^ 53" and "backpropagate_path D ks (normalize_reward x) t disk = (res, t', disk')"
  shows "stats_ok (B + length ks) (m_nodes t')"
proof -
  obtain y where y: "normalize_reward x = Fin y" "0 \<le> y" "y \<le> 1" using normalize_reward_unit by blast
  note * = backpropagate_loop_stats [OF assms(1,2) y, of None]
  have "stats_ok (B + length ks) (m_nodes t)" using assms(1) by (rule stats_ok_mono) simp
  with * assms(3) y(1) show ?thesis
    by (auto simp: backpropagate_path_def split: if_splits prod.splits sum.splits)
qed

lemma search_step_stats:
  assumes ok: "tree_ok (p_tree s)" and st: "stats_ok B (m_nodes (p_tree s))" and pe: "pending_ok M s" and M: "0 < M"
    and n: "op_normal M op" and w: "B + op_weight M op \<le> 2 ^ 53" and e: "search_step L D op s disk = (err, s', disk')"
  shows "stats_ok (B + op_weight M op) (m_nodes (p_tree s')) \<and> pending_ok M s'"
proof (cases op)
  case (EnsureChild p c)
  with e pe show ?thesis
    by (auto simp: pending_ok_def split: prod.splits sum.splits dest!: ensure_child_stats [OF ok st])
next
  case (Backpropagate path r)
  then obtain x where r: "r = normalize_reward x" using n by auto
  have "B + length path \<le> 2 ^ 53" using w Backpropagate by simp
  note bp = backpropagate_path_stats [OF st this]
  from e pe Backpropagate show ?thesis
    by (auto simp: pending_ok_def r split: prod.splits sum.splits dest!: bp)
next
  case (SelectNext d)
  obtain x s1 where f: "finish_selection L d [] s = (x, s1)" by (metis prod.collapse)
  have "pending_ok M s1" using finish_selection_pending [OF ok pe, of d L "[]"] n SelectNext f by simp
  with f e st finish_selection_spec [OF ok f] SelectNext show ?thesis by (auto simp: select_next_def split: sum.splits)
next
  case (BackpropagateAndSelect k r d)
  then obtain x where r: "r = normalize_reward x" and d: "d \<le> M" using n by auto
  have w': "B + (M + 1) \<le> 2 ^ 53" using w BackpropagateAndSelect by simp
  obtain x1 s1 d1 where b: "backpropagation_path D k s disk = (x1, s1, d1)" by (metis prod.collapse)
  note ok1 = backpropagation_path_spec [OF ok b] and st1 = backpropagation_path_stats [OF ok st pe M b]
  have pe1: "pending_ok M s1" using st1 pe by (simp add: pending_ok_def)
  show ?thesis
  proof (cases x1)
    case (Inl e1)
    then have "s' = s1" using b e BackpropagateAndSelect by (auto simp: backpropagate_and_select_def)
    with st1 pe1 BackpropagateAndSelect show ?thesis by (auto intro: stats_ok_mono)
  next
    case (Inr path)
    obtain x2 t2 d2 where p: "backpropagate_path D path r (p_tree s1) d1 = (x2, t2, d2)" by (metis prod.collapse)
    have len: "length path \<le> M + 1" using st1 Inr by simp
    have "stats_ok (B + length path) (m_nodes t2)"
      using backpropagate_path_stats [of B "p_tree s1" path D x d1 x2 t2 d2] st1 p r len w' by simp
    then have st2: "stats_ok (B + (M + 1)) (m_nodes t2)" by (rule stats_ok_mono) (use len in simp)
    have ok2: "tree_ok t2" using backpropagate_path_spec [OF conjunct1 [OF ok1] p] by simp
    obtain x3 s3 where f: "finish_selection L d path (s1\<lparr>p_tree := t2\<rparr>) = (x3, s3)" by (metis prod.collapse)
    have "p_tree s3 = t2" using finish_selection_spec [OF _ f] ok2 by simp
    moreover have "pending_ok M (s1\<lparr>p_tree := t2\<rparr>)" using pe1 by (simp add: pending_ok_def)
    then have "pending_ok M (snd (x3, s3))" unfolding f [symmetric] by (rule finish_selection_pending [rotated]) (simp_all add: ok2 d)
    then have "pending_ok M s3" by simp
    moreover have "s' = (case x2 of Inl _ \<Rightarrow> s1\<lparr>p_tree := t2\<rparr> | Inr _ \<Rightarrow> s3)"
      using b p f Inr e unfolding BackpropagateAndSelect search_step.simps backpropagate_and_select_def
      by (cases x2; cases x3) simp_all
    moreover have "op_weight M op = M + 1" using BackpropagateAndSelect by simp
    ultimately show ?thesis using st2 pe1 by (cases x2) (simp_all add: pending_ok_def)
  qed
qed

lemma search_run_stats:
  assumes "tree_ok (p_tree s)" and "stats_ok B (m_nodes (p_tree s))" and "pending_ok M s" and "0 < M"
    and "\<forall>op \<in> set ops. op_normal M op" and "B + sum_list (map (op_weight M) ops) \<le> 2 ^ 53"
    and "search_run L D ops s disk = (es, s', disk')"
  shows "stats_ok (B + sum_list (map (op_weight M) ops)) (m_nodes (p_tree s'))"
  using assms
proof (induction ops arbitrary: s disk es B)
  case (Cons op ops)
  obtain e s1 d1 where o: "search_step L D op s disk = (e, s1, d1)" by (metis prod.collapse)
  obtain es1 where r: "search_run L D ops s1 d1 = (es1, s', disk')"
    using Cons.prems(7) o by (auto simp: Let_def split: prod.splits)
  have "stats_ok (B + op_weight M op) (m_nodes (p_tree s1)) \<and> pending_ok M s1"
    using search_step_stats [OF Cons.prems(1-4) _ _ o] Cons.prems(5,6) by simp
  moreover have "tree_ok (p_tree s1)" using search_step_spec [OF Cons.prems(1) o] by simp
  ultimately show ?case
    using Cons.IH [of s1 "B + op_weight M op" d1 es1] Cons.prems(4-6) r by (simp add: add.assoc)
qed simp

lemma stats_ok_fresh: "stats_ok 0 (m_nodes (fresh k c p))"
  by (simp add: stats_ok_def fresh_def node_new_def)

text \<open>C33. Mean rewards are in the unit interval: a search that starts from a fresh tree and feeds only
  normalised rewards keeps every node's mean reward a finite number between 0 and 1, whatever the
  rounding of the floating-point sums, as long as the visits it can add stay within
  \<open>2 ^ 53\<close>, where a \<^verbatim>\<open>u64\<close> count is still an exact \<^verbatim>\<open>f64\<close>. Operations with selections at most
  \<open>M\<close> deep add at most \<open>op_weight M\<close> visits to a node each.\<close>

theorem mean_rewards_stay_in_unit_interval:
  assumes "\<forall>op \<in> set ops. op_normal M op" and "0 < M" and "sum_list (map (op_weight M) ops) \<le> 2 ^ 53"
    and "search_run L D ops (with_tree (fresh key config path)) disk = (es, s, disk')"
    and "n \<in> set (m_nodes (p_tree s))"
  shows "\<exists>m. mean_reward n = Fin m \<and> 0 \<le> m \<and> m \<le> 1"
proof -
  have "stats_ok (0 + sum_list (map (op_weight M) ops)) (m_nodes (p_tree s))"
    by (rule search_run_stats [OF _ _ _ assms(2,1) _ assms(4)])
      (use assms(3) in \<open>simp_all add: with_tree_def tree_ok_fresh stats_ok_fresh pending_ok_def\<close>)
  then show ?thesis using mean_reward_unit [OF _ _ assms(5)] assms(3) by simp
qed

end
