(* ===== verification/Mcts_Select.thy ===== *)
theory Mcts_Select
  imports Mcts_Inv
begin

text \<open>
  Selection by upper confidence bounds always finds a child, what a rejected reward leaves behind,
  and concrete searches that exercise the properties of \<^verbatim>\<open>mitb-sdk/src/search/mcts.rs\<close>.
\<close>

section \<open>Selection is total\<close>

text \<open>What is assumed of the logarithm: for an argument of at least 1 it is a number between 0 and
  that argument.\<close>

definition ln_law :: "libm \<Rightarrow> bool" where
  "ln_law L \<longleftrightarrow> (\<forall>x \<ge> 1. \<exists>y. l_ln L (Fin x) = Fin y \<and> 0 \<le> y \<and> y \<le> x)"

lemma rnd_above_NInf: "0 \<le> x \<Longrightarrow> f_lt NInf (rnd x)"
  using rnd_nonneg [of x] by auto

lemma f_add_above_NInf:
  assumes "0 \<le> m" and "y = PInf \<or> (\<exists>z \<ge> 0. y = Fin z)"
  shows "f_lt NInf (f_add (Fin m) y)"
  using assms rnd_above_NInf [of "m + z" for z] by (auto simp del: f_lt.simps) simp

lemma ucb_exploration:
  assumes "ln_law L" and "n_visits parent \<le> 2 ^ 53" and "n_visits child \<le> 2 ^ 53" and "n_visits child \<noteq> 0"
    and "0 \<le> c"
  shows "\<exists>y. f_mul (Fin c) (f_sqrt (f_div (l_ln L (f_of_nat (max (n_visits parent) 1))) (f_of_nat (n_visits child)))) = y \<and>
    (y = PInf \<or> (\<exists>z \<ge> 0. y = Fin z))"
proof -
  let ?p = "max (n_visits parent) 1" and ?v = "n_visits child"
  have p: "f_of_nat ?p = Fin (of_nat ?p)" "?p \<le> 2 ^ 53" using assms(2) by (simp_all add: f_of_nat_exact)
  have "(1 :: rat) \<le> of_nat ?p" by (simp add: max_def)
  then obtain y where y: "l_ln L (Fin (of_nat ?p)) = Fin y" "0 \<le> y" "y \<le> of_nat ?p"
    using assms(1) unfolding ln_law_def by blast
  have "y / of_nat ?v \<le> y / 1" using assms(4) y(2) by (intro divide_left_mono) auto
  then have "y / of_nat ?v \<le> of_nat ?p" using y(3) by simp
  then have "rnd (y / of_nat ?v) = Fin (rv (y / of_nat ?v)) \<and> 0 \<le> rv (y / of_nat ?v) \<and> rv (y / of_nat ?v) \<le> of_nat ?p"
    using y(2) p(2) by (intro rnd_Fin) simp_all
  then obtain q where q: "f_div (Fin y) (f_of_nat ?v) = Fin q" "0 \<le> q"
    using assms(3,4) by (auto simp: f_of_nat_exact)
  then obtain r where r: "f_sqrt (Fin q) = Fin r" "0 \<le> r"
    by (cases "q = 0") (auto simp: sqrt_rat_nonneg)
  have "0 \<le> c * r" using assms(5) r(2) by simp
  then show ?thesis unfolding p(1) y(1) q(1) r(1) using rnd_nonneg [of "c * r"] by auto
qed

lemma ucb_score_above_NInf:
  assumes "ln_law L" and "stats_ok B (m_nodes t)" and "B \<le> 2 ^ 53" and "exploration_constant (m_config t) = Fin c"
    and "0 \<le> c" and "parent \<in> set (m_nodes t)" and "child \<in> set (m_nodes t)"
  shows "f_lt NInf (ucb_score L t parent child)"
proof (cases "n_visits child = 0")
  case False
  have v: "n_visits parent \<le> 2 ^ 53" "n_visits child \<le> 2 ^ 53"
    using assms(2,3,6,7) by (auto simp: stats_ok_def intro: order_trans)
  obtain m where "mean_reward child = Fin m" "0 \<le> m" using mean_reward_unit [OF assms(2,3,7)] by blast
  then show ?thesis
    using False ucb_exploration [OF assms(1) v False assms(5)] assms(4)
    by (auto simp: ucb_score_def Let_def intro!: f_add_above_NInf)
qed (simp add: ucb_score_def)

text \<open>Once some child has been accepted there is always a best one.\<close>

lemma best_child_loop_keeps:
  assumes "best_child_loop L t p is (Some b) score = Ok r"
  shows "r \<noteq> None"
  using assms
  by (induction "is" arbitrary: b score) (auto simp: Let_def split: sum.splits if_splits)

lemma best_child_found:
  assumes "\<forall>i \<in> set (n_children p). i < length (m_nodes t) \<and> f_lt NInf (ucb_score L t p (m_nodes t ! i))"
    and "n_children p \<noteq> []" and "select_best_child_by_ucb L t p = Ok r"
  shows "r \<noteq> None"
  using assms best_child_loop_keeps
  by (cases "n_children p") (fastforce simp: select_best_child_by_ucb_def node_at_ok Let_def)+

lemma select_loop_total:
  assumes ok: "tree_ok t" and st: "stats_ok B (m_nodes t)" "B \<le> 2 ^ 53"
    and c: "exploration_constant (m_config t) = Fin c" "0 \<le> c" and ln: "ln_law L" and i: "i < length (m_nodes t)"
  shows "\<exists>path. select_loop L t d i = Ok path"
  using i
proof (induction d arbitrary: i)
  case (Suc d)
  let ?n = "m_nodes t ! i"
  have n: "?n \<in> set (m_nodes t)" using Suc.prems by simp
  obtain r where r: "select_best_child_by_ucb L t ?n = Ok r" "\<forall>b. r = Some b \<longrightarrow> b \<in> set (n_children ?n)"
    using select_best_child_spec [OF ok Suc.prems] by blast
  show ?case
  proof (cases "should_expand_here L t ?n")
    case False
    then have "n_children ?n \<noteq> []" by (auto simp: should_expand_here_def)
    moreover have "\<forall>j \<in> set (n_children ?n). j < length (m_nodes t) \<and> f_lt NInf (ucb_score L t ?n (m_nodes t ! j))"
      using tree_ok_child [OF ok Suc.prems] ucb_score_above_NInf [OF ln st c n] by simp
    ultimately obtain b where b: "r = Some b" using best_child_found r(1) by blast
    then have "b < length (m_nodes t)" using r(2) tree_ok_child [OF ok Suc.prems] by simp
    with Suc.IH [OF this] b r(1) Suc.prems show ?thesis by (auto simp: node_at_ok)
  qed (use Suc.prems in \<open>simp add: node_at_ok\<close>)
qed simp

text \<open>C34. Selection never gets stuck: on a consistent tree whose statistics come from at most \<open>2 ^ 53\<close>
  normalised rewards, with a finite non-negative exploration constant, a selection of positive depth
  returns a path. No score is NaN, so no node ever has \<^emph>\<open>no selectable children\<close>.\<close>

theorem selection_always_finds_a_path:
  assumes "tree_ok t" and "stats_ok B (m_nodes t)" and "B \<le> 2 ^ 53"
    and "exploration_constant (m_config t) = Fin c" and "0 \<le> c" and "ln_law L" and "0 < d"
  shows "\<exists>path. select_path L t d = Ok path \<and> path \<noteq> [] \<and> length path \<le> d"
proof -
  have "m_root t < length (m_nodes t)" using assms(1) by (simp add: tree_ok_def)
  with select_loop_total [OF assms(1-6) this, of "d - 1"] assms(7) obtain path where "select_path L t d = Ok path"
    by (auto simp: select_path_def node_at_ok)
  with select_path_spec [OF assms(1), of L d] show ?thesis by blast
qed

section \<open>Rejected rewards\<close>

lemma backpropagate_loop_error:
  assumes "backpropagate_loop prev ks r t = (Err e, t')"
  shows "\<exists>ks1 k ks2. ks = ks1 @ k # ks2 \<and> backpropagate_loop prev ks1 r t = (Ok (), t')"
  using assms
proof (induction ks arbitrary: prev t)
  case (Cons k ks)
  show ?case
  proof (cases "fst (backpropagate_loop prev [k] r t)")
    case (Inl e)
    with Cons.prems have "t' = t" by (auto split: option.splits sum.splits if_splits)
    then show ?thesis by (metis append_Nil backpropagate_loop.simps(1))
  next
    case (Inr u)
    then obtain t1 where "\<And>ks. backpropagate_loop prev (k # ks) r t = backpropagate_loop (Some k) ks r t1"
      by (auto split: option.splits sum.splits if_splits)
    with Cons show ?thesis by (metis append_Cons)
  qed
qed simp

text \<open>A reward for an invalid path is still half applied: when propagation fails, nothing is written
  to disk, but the tree in memory has the visits of a proper prefix of the path.\<close>

theorem rejected_path_is_partly_visited:
  assumes "backpropagate_path D ks r t disk = (Err e, t', disk')"
  shows "disk' = disk \<and> (\<exists>n < max 1 (length ks). backpropagate_loop None (take n ks) r t = (Ok (), t'))"
proof -
  consider "t' = t" "disk' = disk" | "disk' = disk" "backpropagate_loop None ks r t = (Err e, t')"
    using assms by (auto simp: backpropagate_path_def split: if_splits prod.splits sum.splits)
  then show ?thesis
  proof cases
    case 1
    then show ?thesis by (intro conjI exI [of _ 0]) simp_all
  next
    case 2
    then obtain ks1 k ks2 where "ks = ks1 @ k # ks2" "backpropagate_loop None ks1 r t = (Ok (), t')"
      using backpropagate_loop_error by blast
    with 2(1) show ?thesis by (intro conjI exI [of _ "length ks1"]) simp_all
  qed
qed

section \<open>Concrete searches\<close>

text \<open>A disk that stores trees under any name, and constant library functions.\<close>

definition demo_disk :: "persisted_mcts \<Rightarrow> disk_env" where
  "demo_disk p = \<lparr>d_serialize = (\<lambda>_. Ok ''{}''), d_parse = (\<lambda>_. Ok p), d_read_error = (\<lambda>_. None),
     d_mkdir_error = (\<lambda>_. None), d_write_error = (\<lambda>_. None)\<rparr>"

definition demo_libm :: libm where
  "demo_libm = \<lparr>l_ln = (\<lambda>_. Fin 0), l_powf = (\<lambda>x y. Fin 0)\<rparr>"

definition demo_tree :: mcts where
  "demo_tree =
     \<lparr>m_config = mcts_config_default, m_root = 0,
      m_nodes = [\<lparr>n_key = ''r'', n_parent = None, n_children = [1], n_visits = 1, n_reward_sum = Fin (1/2), n_best_reward = Fin (1/2)\<rparr>,
                 \<lparr>n_key = ''c'', n_parent = Some 0, n_children = [], n_visits = 0, n_reward_sum = Fin 0, n_best_reward = NInf\<rparr>],
      m_index = [(''r'', 0), (''c'', 1)], m_persistence_path = Some ''t.json''\<rparr>"

lemma demo_ln_law: "ln_law demo_libm"
  by (auto simp: ln_law_def demo_libm_def intro: order_trans)

lemma demo_tree_ok: "tree_ok demo_tree"
  by (auto simp: tree_ok_def links_ok_def index_ok_def demo_tree_def less_Suc_eq nth_Cons' split: if_splits)

lemma demo_stats: "stats_ok 1 (m_nodes demo_tree)"
  by (auto simp: stats_ok_def demo_tree_def intro: exI [of _ "1/2"])

theorem selection_always_finds_a_path_witness:
  "\<exists>path. select_path demo_libm demo_tree 3 = Ok path \<and> path \<noteq> [] \<and> length path \<le> 3"
  by (rule selection_always_finds_a_path [OF demo_tree_ok demo_stats, of "6369051672525773 / 2 ^ 52"])
    (simp_all add: demo_tree_def mcts_config_default_def demo_ln_law)

theorem rejected_path_is_partly_visited_witness:
  "case backpropagate_path (demo_disk (to_persisted demo_tree)) [''r'', ''x''] (Fin 1) demo_tree Map.empty of
     (res, t', disk') \<Rightarrow> res = Err (Msg ''unknown node `x` in backpropagation path'') \<and> map n_visits (m_nodes t') = [2, 0] \<and>
       disk' = Map.empty \<and>
       (\<exists>n < max 1 2. backpropagate_loop None (take n [''r'', ''x'']) (Fin 1) demo_tree = (Ok (), t'))"
proof -
  let ?D = "demo_disk (to_persisted demo_tree)" and ?ks = "[''r'', ''x'']"
  obtain res t' disk' where b: "backpropagate_path ?D ?ks (Fin 1) demo_tree Map.empty = (res, t', disk')"
    by (metis prod.collapse)
  then have r: "res = Err (Msg ''unknown node `x` in backpropagation path'')" "map n_visits (m_nodes t') = [2, 0]"
    by (auto simp: backpropagate_path_def demo_tree_def set_node_def node_at_def visit_def sat_add_def u64_max_def)
  show ?thesis unfolding b using r rejected_path_is_partly_visited [OF b [unfolded r(1)]] by simp
qed

theorem selected_path_backpropagates_witness:
  "root_key demo_tree = Ok ''r'' \<and>
   (\<exists>t'. backpropagate_path (demo_disk (to_persisted demo_tree)) [''r'', ''c''] (Fin 1) demo_tree Map.empty =
      (Ok (), t', persist_best_effort (demo_disk (to_persisted demo_tree)) t' Map.empty) \<and> same_shape demo_tree t')"
proof -
  have "select_path demo_libm demo_tree 2 = Ok [''r'', ''c'']"
    by (simp add: select_path_def demo_tree_def demo_libm_def node_at_def numeral_2_eq_2 should_expand_here_def
        select_best_child_by_ucb_def ucb_score_def mcts_config_default_def rnd_def rv_def f_of_nat_exact [of 1, simplified])
  from selected_path_backpropagates [OF demo_tree_ok this, of "Fin 1"] show ?thesis by simp
qed


text \<open>A run that reports, attaches a child and selects again.\<close>

definition demo_ops :: "search_op list" where
  "demo_ops = [SelectNext 4, BackpropagateAndSelect ''c'' (normalize_reward (Fin (1/2))) 4,
     BackpropagateAndSelect ''d'' (normalize_reward (Fin 7)) 4]"

definition demo_search :: "mcts_error option list \<times> pending_tree_search \<times> disk" where
  "demo_search = search_run demo_libm (demo_disk (to_persisted demo_tree)) demo_ops
     (with_tree (fresh ''r'' mcts_config_default None)) Map.empty"

theorem mean_rewards_stay_in_unit_interval_witness:
  "list_all (\<lambda>n. \<exists>m. mean_reward n = Fin m \<and> 0 \<le> m \<and> m \<le> 1) (m_nodes (p_tree (fst (snd demo_search))))"
proof -
  obtain es s disk' where r: "search_run demo_libm (demo_disk (to_persisted demo_tree)) demo_ops
      (with_tree (fresh ''r'' mcts_config_default None)) Map.empty = (es, s, disk')"
    by (metis prod.collapse)
  have "\<exists>m. mean_reward n = Fin m \<and> 0 \<le> m \<and> m \<le> 1" if "n \<in> set (m_nodes (p_tree s))" for n
    by (rule mean_rewards_stay_in_unit_interval [OF _ _ _ r that, of 4]) (auto simp: demo_ops_def)
  then show ?thesis using r by (simp add: demo_search_def list_all_iff)
qed

definition demo_builder :: mcts_builder where
  "demo_builder = \<lparr>b_root_key = ''r'', b_config = mcts_config_default, b_persistence_path = Some ''t.json''\<rparr>"

theorem search_never_panics_witness:
  "case search_run demo_libm (demo_disk (to_persisted demo_tree)) demo_ops
      (with_tree (build (demo_disk (to_persisted demo_tree)) demo_builder [''t.json'' \<mapsto> ''{}''])) [''t.json'' \<mapsto> ''{}''] of
    (es, s, disk') \<Rightarrow> tree_ok (p_tree s) \<and> Some Panic \<notin> set es"
  by (auto split: prod.splits dest: search_never_panics)

lemma expo_pow2: "expo (2 ^ k) = int k"
proof -
  have "2 powi expo (2 ^ k) < (2 :: rat) powi (int k + 1)" "(2 :: rat) powi int k < 2 powi (expo (2 ^ k) + 1)"
    using expo_bounds [of "2 ^ k"] by (simp_all add: two_powi_Suc)
  from this [THEN powi_le_iff] show ?thesis by simp
qed

lemma rv_pow2: "52 \<le> k \<Longrightarrow> rv (2 ^ k) = 2 ^ k"
proof (rule rv_exact [where k = "2 ^ 52"])
  assume "52 \<le> k"
  then have "ulp (2 ^ k) = 2 ^ (k - 52)" by (simp add: ulp_def expo_pow2 power_int_def nat_diff_distrib' flip: of_nat_diff)
  moreover have "(2 :: rat) ^ k = 2 ^ 52 * 2 ^ (k - 52)" using \<open>52 \<le> k\<close> by (subst power_add [symmetric]) simp
  ultimately show "2 ^ k / ulp (2 ^ k) = of_int (2 ^ 52)" by (simp only: of_int_power of_int_numeral) simp
qed

text \<open>Finite rewards can make a tree that is lost on restart: the sum of two accepted finite rewards
  can be infinite, and a persisted tree with an infinite sum is refused when it is loaded.\<close>

theorem overflowed_tree_is_refused:
  "case backpropagate_path D [''r''] (Fin (2 ^ 1023)) (fresh ''r'' c p) disk of
     (res, t, disk) \<Rightarrow> res = Ok () \<and>
       (case backpropagate_path D [''r''] (Fin (2 ^ 1023)) t disk of
          (res, t, disk) \<Rightarrow> res = Ok () \<and> map n_reward_sum (m_nodes t) = [PInf] \<and>
            from_persisted (to_persisted t) p = Err ''persisted MCTS node `r` had non-finite reward sum'')"
proof -
  have "rv (2 ^ 1024) = 2 ^ 1024" by (rule rv_pow2) simp
  then have r: "rnd (2 ^ 1023) = Fin (2 ^ 1023)" "rnd (2 ^ 1023 + 2 ^ 1023) = PInf"
    using rv_pow2 [of 1023] by (simp_all add: rnd_def)
  show ?thesis
    using r by (simp add: backpropagate_path_def fresh_def node_at_def node_new_def visit_def set_node_def
        from_persisted_def to_persisted_def from_node_def into_node_def)
qed

end
