(* ===== verification/Sdk_Util.thy ===== *)
theory Sdk_Util
  imports Utf8 "HOL-Library.Multiset"
begin

text \<open>
  The helpers the SDK gives to policies, \<^verbatim>\<open>mitb-sdk/src/lib.rs\<close>: exponential backoff, the environment,
  idle detection and the poll of a policy session, log levels, the deterministic shuffle, truncation
  of text, captures of regular expressions, URLs and requests, and running a process with a time
  limit. The clock, the environment, the terminal's transcript, the \<^verbatim>\<open>regex\<close> crate and the host's calls
  are arguments.
\<close>

section \<open>Exponential backoff\<close>

record exponential_backoff =
  initial_interval :: duration
  eb_current_interval :: duration
  max_interval :: duration
  multiplier :: nat

definition exponential_backoff_new :: "duration \<Rightarrow> duration \<Rightarrow> exponential_backoff" where
  "exponential_backoff_new i m =
     \<lparr>initial_interval = i, eb_current_interval = i, max_interval = m, multiplier = 2\<rparr>"

definition with_multiplier :: "nat \<Rightarrow> exponential_backoff \<Rightarrow> exponential_backoff" where
  "with_multiplier m b = b\<lparr>multiplier := max m 1\<rparr>"

text \<open>\<^verbatim>\<open>Duration::checked_mul\<close>.\<close>

definition checked_mul :: "duration \<Rightarrow> nat \<Rightarrow> duration option" where
  "checked_mul d n = (if d * n \<le> duration_max then Some (d * n) else None)"

definition next_backoff :: "exponential_backoff \<Rightarrow> duration \<times> exponential_backoff" where
  "next_backoff b =
     (let backoff = min (eb_current_interval b) (max_interval b);
          factor = max (multiplier b) 1;
          next = min (case checked_mul backoff factor of None \<Rightarrow> max_interval b | Some d \<Rightarrow> d) (max_interval b)
      in (backoff, b\<lparr>eb_current_interval := next\<rparr>))"

definition backoff_reset :: "exponential_backoff \<Rightarrow> exponential_backoff" where
  "backoff_reset b = b\<lparr>eb_current_interval := initial_interval b\<rparr>"

definition current_interval :: "exponential_backoff \<Rightarrow> duration" where
  "current_interval b = min (eb_current_interval b) (max_interval b)"

definition duration_to_nanos_u64 :: "duration \<Rightarrow> nat" where
  "duration_to_nanos_u64 d = min d u64_max"

section \<open>The environment\<close>

type_synonym environment = "(string \<times> string) list"

definition env_value :: "environment \<Rightarrow> string \<Rightarrow> string option" where
  "env_value env key = map_option snd (find (\<lambda>(k, v). k = key \<and> v \<noteq> []) env)"

definition MITB_HOME_DIR_ENV :: string where
  "MITB_HOME_DIR_ENV = ''MITB_HOME_DIR''"

definition MITB_ALIAS_ENV :: string where
  "MITB_ALIAS_ENV = ''MITB_ALIAS''"

definition home_dir_from_environment :: "environment \<Rightarrow> string + string" where
  "home_dir_from_environment env =
     (case env_value env MITB_HOME_DIR_ENV of
        Some home \<Rightarrow> Ok home
      | None \<Rightarrow>
     (case env_value env ''HOME'' of
        Some home \<Rightarrow> Ok home
      | None \<Rightarrow>
     (case env_value env ''USERPROFILE'' of
        Some profile \<Rightarrow> Ok profile
      | None \<Rightarrow>
     (case (env_value env ''HOMEDRIVE'', env_value env ''HOMEPATH'') of
        (Some drive, Some path) \<Rightarrow> Ok (drive @ path)
      | _ \<Rightarrow> Err ''could not determine home directory from MITB_HOME_DIR, HOME, USERPROFILE, or HOMEDRIVE/HOMEPATH''))))"

definition sdk_alias :: "environment \<Rightarrow> string option" where
  "sdk_alias env = env_value env MITB_ALIAS_ENV"

section \<open>Idle detection and the poll of a session\<close>

record idle_tracker =
  previous_contents :: "string option"
  startup_grace_until_ns :: "nat option"

definition idle_tracker_default :: idle_tracker where
  "idle_tracker_default = \<lparr>previous_contents = None, startup_grace_until_ns = None\<rparr>"

definition detect_idle_at :: "string \<Rightarrow> nat \<Rightarrow> nat \<Rightarrow> idle_tracker \<Rightarrow> bool \<times> idle_tracker" where
  "detect_idle_at contents now grace t =
     (let idle = (case previous_contents t of None \<Rightarrow> False | Some p \<Rightarrow> p = contents);
          t = t\<lparr>previous_contents := Some contents\<rparr>;
          t = (case startup_grace_until_ns t of
                 None \<Rightarrow> t\<lparr>startup_grace_until_ns := Some (sat_add now grace)\<rparr>
               | Some _ \<Rightarrow> t)
      in if \<not> idle then (False, t)
         else (case startup_grace_until_ns t of None \<Rightarrow> True | Some until \<Rightarrow> until \<le> now, t))"

definition detect_idle :: "string \<Rightarrow> nat \<Rightarrow> idle_tracker \<Rightarrow> bool \<times> idle_tracker" where
  "detect_idle contents now t = detect_idle_at contents now (duration_to_nanos_u64 (from_secs 5)) t"

record 'p policy_session =
  ps_idle :: idle_tracker
  ps_policy :: 'p

text \<open>\<^verbatim>\<open>__PolicySession::poll\<close>: \<open>snapshot\<close> is the terminal's transcript, \<open>act\<close> the policy.\<close>

definition session_poll ::
  "('p \<Rightarrow> string \<Rightarrow> (string + 'a) \<times> 'p) \<Rightarrow> 'a \<Rightarrow> (string + byte list) \<Rightarrow> nat \<Rightarrow> 'p policy_session \<Rightarrow>
     (string + 'a) \<times> 'p policy_session" where
  "session_poll act wait snapshot now s =
     (case snapshot of
        Inl e \<Rightarrow> (Err e, s)
      | Inr bytes \<Rightarrow>
          let contents = from_utf8_lossy bytes;
              (idle, t) = detect_idle contents now (ps_idle s);
              s = s\<lparr>ps_idle := t\<rparr>
          in if \<not> idle then (Ok wait, s)
             else let (res, p) = act (ps_policy s) contents in (res, s\<lparr>ps_policy := p\<rparr>))"

section \<open>Log levels\<close>

datatype log_level = LevelError | LevelWarn | LevelInfo | LevelDebug | LevelTrace

fun level_u8 :: "log_level \<Rightarrow> nat" where
  "level_u8 LevelError = 0"
| "level_u8 LevelWarn = 1"
| "level_u8 LevelInfo = 2"
| "level_u8 LevelDebug = 3"
| "level_u8 LevelTrace = 4"

text \<open>\<^verbatim>\<open>MAX_LOG_LEVEL\<close> is the state.\<close>

definition max_log_level_init :: nat where
  "max_log_level_init = level_u8 LevelInfo"

definition set_max_log_level :: "log_level \<Rightarrow> nat \<Rightarrow> nat" where
  "set_max_log_level level s = level_u8 level"

definition log_enabled :: "log_level \<Rightarrow> nat \<Rightarrow> bool" where
  "log_enabled level s \<longleftrightarrow> level_u8 level \<le> s"

fun level_str :: "log_level \<Rightarrow> string" where
  "level_str LevelError = ''ERROR''"
| "level_str LevelWarn = '' WARN''"
| "level_str LevelInfo = '' INFO''"
| "level_str LevelDebug = ''DEBUG''"
| "level_str LevelTrace = ''TRACE''"

text \<open>\<^verbatim>\<open>str::rsplit_once\<close> at a character: what follows its last occurrence.\<close>

definition after_last :: "char \<Rightarrow> string \<Rightarrow> string" where
  "after_last c s = rev (takeWhile (\<lambda>x. x \<noteq> c) (rev s))"

definition parse_log_level :: "string \<Rightarrow> log_level option" where
  "parse_log_level value =
     (let normalized = to_ascii_lowercase (trim (after_last (CHR ''='') value)) in
      if normalized = ''error'' then Some LevelError
      else if normalized \<in> {''warn'', ''warning''} then Some LevelWarn
      else if normalized = ''info'' then Some LevelInfo
      else if normalized = ''debug'' then Some LevelDebug
      else if normalized = ''trace'' then Some LevelTrace
      else None)"

fun init_logging :: "environment \<Rightarrow> nat \<Rightarrow> nat" where
  "init_logging [] s = s"
| "init_logging ((key, value) # env) s =
     (if key = ''RUST_LOG''
      then (case parse_log_level value of Some level \<Rightarrow> set_max_log_level level s | None \<Rightarrow> s)
      else init_logging env s)"

text \<open>The line \<^verbatim>\<open>_sdk_log\<close> writes to standard error, if its level is enabled.\<close>

definition sdk_log :: "nat \<Rightarrow> log_level \<Rightarrow> string \<Rightarrow> string \<Rightarrow> byte list option" where
  "sdk_log s level scope message =
     (if \<not> log_enabled level s then None
      else Some (as_bytes (level_str level @ '' ['' @ scope @ ''] '' @ message @ [CHR 0x0A])))"

section \<open>Shuffle\<close>

definition lcg_next :: "64 word \<Rightarrow> 64 word" where
  "lcg_next s = s * 6364136223846793005 + 1442695040888963407"

text \<open>\<^verbatim>\<open>slice::swap\<close>.\<close>

definition swap_at :: "nat \<Rightarrow> nat \<Rightarrow> 'a list \<Rightarrow> 'a list" where
  "swap_at i j xs = xs[i := xs ! j, j := xs ! i]"

text \<open>The loop from \<open>i\<close> down to one.\<close>

fun shuffle_from :: "nat \<Rightarrow> 64 word \<Rightarrow> 'a list \<Rightarrow> 'a list" where
  "shuffle_from 0 s xs = xs"
| "shuffle_from (Suc i) s xs =
     (let s = lcg_next s; j = unat (drop_bit 33 s) mod (Suc i + 1) in
      shuffle_from i s (swap_at (Suc i) j xs))"

definition pseudo_shuffle :: "'a list \<Rightarrow> 64 word \<Rightarrow> 'a list" where
  "pseudo_shuffle xs seed = (if length xs \<le> 1 then xs else shuffle_from (length xs - 1) seed xs)"

section \<open>Text\<close>

text \<open>\<^verbatim>\<open>str::is_char_boundary\<close>.\<close>

definition is_char_boundary :: "string \<Rightarrow> nat \<Rightarrow> bool" where
  "is_char_boundary s i \<longleftrightarrow>
     i = 0 \<or> i = length s \<or> i < length s \<and> \<not> is_cont (as_bytes s ! i)"

fun boundary_before :: "string \<Rightarrow> nat \<Rightarrow> nat" where
  "boundary_before s 0 = 0"
| "boundary_before s (Suc n) = (if is_char_boundary s (Suc n) then Suc n else boundary_before s n)"

definition truncate_text :: "string \<Rightarrow> nat \<Rightarrow> string" where
  "truncate_text s max_len =
     (if length s \<le> max_len then s else take (boundary_before s max_len) s @ ''...'')"

text \<open>The \<^verbatim>\<open>regex\<close> crate: compiling a pattern, and the matches in a text, each with its capture groups.\<close>

record 'x regex_ops =
  rx_new :: "string \<Rightarrow> string + 'x"
  rx_captures :: "'x \<Rightarrow> string \<Rightarrow> (nat \<Rightarrow> string option) list"

definition regex_captures :: "'x regex_ops \<Rightarrow> string \<Rightarrow> string \<Rightarrow> nat \<Rightarrow> string + string list" where
  "regex_captures R text' pattern index =
     (case rx_new R pattern of
        Inl e \<Rightarrow> Err (''invalid regex pattern `'' @ pattern @ ''`: '' @ e)
      | Inr x \<Rightarrow> Ok (List.map_filter (\<lambda>m. m index) (rx_captures R x text')))"

fun first_capture :: "(nat \<Rightarrow> string option) list \<Rightarrow> nat \<Rightarrow> string option" where
  "first_capture [] index = None"
| "first_capture (m # ms) index = (case m index of Some t \<Rightarrow> Some t | None \<Rightarrow> first_capture ms index)"

definition regex_capture_first :: "'x regex_ops \<Rightarrow> string \<Rightarrow> string \<Rightarrow> nat \<Rightarrow> string + string option" where
  "regex_capture_first R text' pattern index =
     (case rx_new R pattern of
        Inl e \<Rightarrow> Err (''invalid regex pattern `'' @ pattern @ ''`: '' @ e)
      | Inr x \<Rightarrow> Ok (first_capture (rx_captures R x text') index))"

definition regex_capture :: "'x regex_ops \<Rightarrow> string \<Rightarrow> string \<Rightarrow> nat \<Rightarrow> string + string option" where
  "regex_capture R text' pattern index =
     map_sum id (\<lambda>xs. if xs = [] then None else Some (last xs)) (regex_captures R text' pattern index)"

section \<open>Properties of the helpers\<close>

fun backoffs :: "nat \<Rightarrow> exponential_backoff \<Rightarrow> duration list" where
  "backoffs 0 b = []"
| "backoffs (Suc n) b = (case next_backoff b of (d, b) \<Rightarrow> d # backoffs n b)"

lemma next_backoff_min:
  assumes "max_interval b \<le> duration_max"
  shows "next_backoff b = (current_interval b,
    b\<lparr>eb_current_interval := min (current_interval b * max (multiplier b) 1) (max_interval b)\<rparr>)"
  using assms by (auto simp: next_backoff_def current_interval_def checked_mul_def Let_def min_def)

lemma min_mult_min:
  fixes a m k :: nat
  assumes "0 < k"
  shows "min (min a m * k) m = min (a * k) m"
proof (cases "a \<le> m")
  case False
  from assms have "m \<le> m * k" "a \<le> a * k" by simp_all
  moreover from this False have "m \<le> a * k" by linarith
  ultimately show ?thesis using False by (simp add: min_absorb2)
qed simp

lemma backoffs_from:
  assumes "max_interval b \<le> duration_max"
  shows "backoffs n b = map (\<lambda>k. min (eb_current_interval b * max (multiplier b) 1 ^ k) (max_interval b)) [0..<n]"
  using assms
proof (induction n arbitrary: b)
  case (Suc n)
  let ?m = "max (multiplier b) 1"
  have pos: "0 < ?m ^ k" for k by (simp add: less_max_iff_disj)
  let ?b = "b\<lparr>eb_current_interval := min (current_interval b * ?m) (max_interval b)\<rparr>"
  have e: "min (current_interval b * ?m) (max_interval b) = min (eb_current_interval b * ?m) (max_interval b)"
    unfolding current_interval_def by (rule min_mult_min) simp
  have "min (min (eb_current_interval b * ?m) (max_interval b) * ?m ^ k) (max_interval b) =
      min (eb_current_interval b * ?m ^ Suc k) (max_interval b)" for k
    using min_mult_min [OF pos [of k], of "eb_current_interval b * ?m" "max_interval b"] by (simp add: mult.assoc)
  then have "backoffs n ?b = map (\<lambda>k. min (eb_current_interval b * ?m ^ Suc k) (max_interval b)) [0..<n]"
    using Suc.IH [of ?b] Suc.prems by (simp add: e del: One_nat_def)
  then show ?case
    using Suc.prems
    by (simp add: next_backoff_min current_interval_def upt_conv_Cons map_Suc_upt [symmetric] del: upt_Suc)
qed simp

text \<open>Exponential backoff: the k-th pause of a backoff helper is its initial interval multiplied
  k times, and never more than its maximum; no product of durations overflows on the way.\<close>

theorem backoff_sequence:
  assumes "max_interval b \<le> duration_max" and "1 \<le> multiplier b"
  shows "backoffs n (backoff_reset b) =
    map (\<lambda>k. min (initial_interval b * multiplier b ^ k) (max_interval b)) [0..<n]"
  using backoffs_from [of "backoff_reset b" n] assms by (simp add: backoff_reset_def max_absorb1)

theorem backoff_sequence_witness:
  "backoffs 4 (backoff_reset (exponential_backoff_new 10 70)) = [10, 20, 40, 70]"
proof -
  have "max_interval (exponential_backoff_new 10 70) \<le> duration_max" "1 \<le> multiplier (exponential_backoff_new 10 70)"
    by (simp_all add: exponential_backoff_new_def duration_max_def u64_max_def)
  from backoff_sequence [OF this, of 4] show ?thesis
    by (simp add: exponential_backoff_new_def numeral_eq_Suc)
qed

lemma mset_swap_at: "i < length xs \<Longrightarrow> j < length xs \<Longrightarrow> mset (swap_at i j xs) = mset xs"
  by (simp add: swap_at_def mset_swap)

lemma length_swap_at [simp]: "length (swap_at i j xs) = length xs"
  by (simp add: swap_at_def)

lemma mset_shuffle_from: "i < length xs \<Longrightarrow> mset (shuffle_from i s xs) = mset xs"
proof (induction i arbitrary: s xs)
  case (Suc i)
  let ?j = "unat (drop_bit 33 (lcg_next s)) mod (Suc i + 1)"
  have "?j < length xs" using Suc.prems mod_less_divisor [of "Suc i + 1" "unat (drop_bit 33 (lcg_next s))"] by linarith
  with Suc show ?case by (simp add: Let_def mset_swap_at)
qed simp

text \<open>The shuffle only reorders: for every seed the result has the same elements with the same
  multiplicities, and no index of the loop is out of bounds.\<close>

theorem shuffle_permutes: "mset (pseudo_shuffle xs seed) = mset xs"
  by (simp add: pseudo_shuffle_def mset_shuffle_from)

lemma boundary_before_ok: "boundary_before s n \<le> n \<and> is_char_boundary s (boundary_before s n)"
  by (induction n) (auto simp: is_char_boundary_def)

lemma boundary_before_max: "k \<le> n \<Longrightarrow> is_char_boundary s k \<Longrightarrow> k \<le> boundary_before s n"
  by (induction n) (auto simp: le_Suc_eq)

lemma char_boundary_valid:
  assumes "valid_utf8 (as_bytes s)" and "is_char_boundary s i"
  shows "valid_utf8 (as_bytes (take i s))"
proof (cases "i = 0 \<or> i = length s")
  case False
  with assms(2) have "i < length s" "\<not> is_cont (as_bytes s ! i)" by (auto simp: is_char_boundary_def)
  then have "valid_utf8 (take i (as_bytes s))"
    by (intro valid_utf8_take [OF assms(1)]) (simp_all add: as_bytes_def)
  then show ?thesis by (simp add: as_bytes_def take_map)
qed (use assms(1) in \<open>auto simp: as_bytes_def\<close>)

text \<open>Truncating text never cuts a character: the result is well-formed UTF-8, at most three
  bytes longer than asked for, and either the whole text or its longest prefix that fits and ends
  between characters, followed by three dots.\<close>

theorem truncation_keeps_characters:
  assumes "valid_utf8 (as_bytes s)"
  shows "valid_utf8 (as_bytes (truncate_text s n)) \<and> length (truncate_text s n) \<le> n + 3 \<and>
    (truncate_text s n = s \<or>
     (\<exists>i \<le> n. truncate_text s n = take i s @ ''...'' \<and> is_char_boundary s i \<and>
        (\<forall>k \<le> n. is_char_boundary s k \<longrightarrow> k \<le> i)))"
proof (cases "length s \<le> n")
  case True
  with assms show ?thesis by (simp add: truncate_text_def)
next
  case False
  let ?i = "boundary_before s n"
  note i = boundary_before_ok [of s n]
  have dots: "valid_utf8 (as_bytes ''...'')" by code_simp
  have "valid_utf8 (as_bytes (take ?i s) @ as_bytes ''...'')"
    using char_boundary_valid [OF assms conjunct2 [OF i]] dots by (simp add: valid_utf8_append)
  then have "valid_utf8 (as_bytes (take ?i s @ ''...''))" by (simp add: as_bytes_def)
  with False i boundary_before_max show ?thesis
    by (simp add: truncate_text_def) (metis min.coboundedI2)
qed

theorem truncation_keeps_characters_witness:
  "let s = [CHR ''h'', CHR 0xC3, CHR 0xA9, CHR ''l''] in
   truncate_text s 2 = ''h...'' \<and> valid_utf8 (as_bytes (truncate_text s 2))"
proof -
  have v: "valid_utf8 (as_bytes [CHR ''h'', CHR 0xC3, CHR 0xA9, CHR ''l''])" by code_simp
  have t: "truncate_text [CHR ''h'', CHR 0xC3, CHR 0xA9, CHR ''l''] 2 = ''h...''" by code_simp
  from truncation_keeps_characters [OF v, of 2] t show ?thesis by (simp only: Let_def simp_thms)
qed

section \<open>When a policy acts\<close>

text \<open>Polls with a readable transcript: the state of the policy afterwards.\<close>

fun session_polls ::
  "('p \<Rightarrow> string \<Rightarrow> (string + 'a) \<times> 'p) \<Rightarrow> 'a \<Rightarrow> (byte list \<times> nat) list \<Rightarrow> 'p policy_session \<Rightarrow> 'p policy_session" where
  "session_polls act wait [] s = s"
| "session_polls act wait ((bytes, now) # ps) s =
     session_polls act wait ps (snd (session_poll act wait (Ok bytes) now s))"

definition session_start :: "'p \<Rightarrow> 'p policy_session" where
  "session_start p = \<lparr>ps_idle = idle_tracker_default, ps_policy = p\<rparr>"

text \<open>The screens a policy should act on: unchanged since the poll before, and not within five seconds of
  the first poll.\<close>

definition settled :: "(byte list \<times> nat) list \<Rightarrow> nat \<Rightarrow> bool" where
  "settled ps k \<longleftrightarrow> 0 < k \<and> from_utf8_lossy (fst (ps ! k)) = from_utf8_lossy (fst (ps ! (k - 1))) \<and>
     sat_add (snd (ps ! 0)) (from_secs 5) \<le> snd (ps ! k)"

definition settled_screens :: "(byte list \<times> nat) list \<Rightarrow> string list" where
  "settled_screens ps = map (\<lambda>k. from_utf8_lossy (fst (ps ! k))) (filter (settled ps) [0..<length ps])"

definition tracker_of :: "(byte list \<times> nat) list \<Rightarrow> idle_tracker" where
  "tracker_of ps =
     (if ps = [] then idle_tracker_default
      else \<lparr>previous_contents = Some (from_utf8_lossy (fst (last ps))),
            startup_grace_until_ns = Some (sat_add (snd (hd ps)) (from_secs 5))\<rparr>)"

lemma session_polls_append:
  "session_polls act wait (ps @ qs) s = session_polls act wait qs (session_polls act wait ps s)"
  by (induction ps arbitrary: s) auto

lemma five_seconds: "duration_to_nanos_u64 (from_secs 5) = from_secs 5"
  by (simp add: duration_to_nanos_u64_def from_secs_def u64_max_def)

lemma detect_idle_tracker:
  "detect_idle (from_utf8_lossy bs) now (tracker_of ps) =
     (settled (ps @ [(bs, now)]) (length ps), tracker_of (ps @ [(bs, now)]))"
proof (cases "ps = []")
  case False
  then have "(ps @ [(bs, now)]) ! (length ps - 1) = last ps" "(ps @ [(bs, now)]) ! 0 = hd ps"
    by (simp_all add: nth_append last_conv_nth hd_conv_nth)
  with False show ?thesis
    by (auto simp: detect_idle_def detect_idle_at_def tracker_of_def settled_def Let_def five_seconds)
qed (simp add: detect_idle_def detect_idle_at_def tracker_of_def idle_tracker_default_def settled_def Let_def five_seconds)

lemma settled_prefix: "k < length ps \<Longrightarrow> settled (ps @ qs) k = settled ps k"
  by (auto simp: settled_def nth_append)

lemma settled_screens_snoc:
  "settled_screens (ps @ [(bs, now)]) =
     settled_screens ps @ (if settled (ps @ [(bs, now)]) (length ps) then [from_utf8_lossy bs] else [])"
proof -
  have "filter (settled (ps @ [(bs, now)])) [0..<length ps] = filter (settled ps) [0..<length ps]"
    by (rule filter_cong) (simp_all add: settled_prefix)
  then show ?thesis by (auto simp: settled_screens_def nth_append)
qed

text \<open>C23. A policy acts on settled screens only: over any sequence of polls it is called, in order,
  exactly with the screens that are unchanged since the poll before and seen at least five seconds
  after the session's first poll; every other poll waits.\<close>

theorem policy_acts_on_settled_screens:
  "session_polls act wait ps (session_start p) =
     \<lparr>ps_idle = tracker_of ps, ps_policy = fold (\<lambda>screen q. snd (act q screen)) (settled_screens ps) p\<rparr>"
proof (induction ps rule: rev_induct)
  case Nil
  show ?case by (simp add: session_start_def tracker_of_def settled_screens_def)
next
  case (snoc x ps)
  obtain bs now where x: "x = (bs, now)" by (cases x)
  show ?case
    by (simp add: session_polls_append snoc x session_poll_def Let_def detect_idle_tracker settled_screens_snoc
        split: prod.splits)
qed

end
