(* ===== verification/Policy_Log.thy ===== *)
theory Policy_Log
  imports Sdk_Util
begin

text \<open>
  The host's capture of what a policy writes to its standard streams, \<^verbatim>\<open>mitb-host/src/policy_log.rs\<close>:
  bytes are collected, cut into lines, and each line becomes an event of the host's log, with the
  level its prefix names. The lines that the SDK's log functions write (theory \<open>Sdk_Util\<close>) arrive with
  their level and text.
\<close>

datatype policy_log_level = PolicyError | PolicyWarn | PolicyInfo | PolicyDebug | PolicyTrace

record log_event =
  le_level :: policy_log_level
  le_stream :: string
  le_message :: string

record policy_log_state =
  pls_stream :: string
  pls_pending :: "byte list"

definition policy_log_writer_new :: "string \<Rightarrow> policy_log_state" where
  "policy_log_writer_new stream = \<lparr>pls_stream = stream, pls_pending = []\<rparr>"

definition log_prefixes :: "(string \<times> policy_log_level) list" where
  "log_prefixes = [(''ERROR '', PolicyError), ('' WARN '', PolicyWarn), ('' INFO '', PolicyInfo),
     (''DEBUG '', PolicyDebug), (''TRACE '', PolicyTrace)]"

fun find_prefix :: "(string \<times> policy_log_level) list \<Rightarrow> string \<Rightarrow> (policy_log_level \<times> string) option" where
  "find_prefix [] line = None"
| "find_prefix ((p, level) # ps) line =
     (case strip_prefix p line of Some message \<Rightarrow> Some (level, message) | None \<Rightarrow> find_prefix ps line)"

definition parse_policy_log_line :: "string \<Rightarrow> (policy_log_level \<times> string) option" where
  "parse_policy_log_line line = find_prefix log_prefixes line"

definition emit_policy_log :: "string \<Rightarrow> string \<Rightarrow> log_event" where
  "emit_policy_log stream line =
     (case parse_policy_log_line line of
        Some (level, message) \<Rightarrow> \<lparr>le_level = level, le_stream = stream, le_message = message\<rparr>
      | None \<Rightarrow>
          \<lparr>le_level = (if stream = ''stderr'' then PolicyWarn else PolicyInfo), le_stream = stream, le_message = line\<rparr>)"

text \<open>\<^verbatim>\<open>Iterator::position\<close> of a newline.\<close>

fun newline_position :: "byte list \<Rightarrow> nat option" where
  "newline_position [] = None"
| "newline_position (b # bs) = (if b = 0x0A then Some 0 else map_option Suc (newline_position bs))"

lemma newline_position_less: "newline_position bs = Some i \<Longrightarrow> i < length bs"
  by (induction bs arbitrary: i) (auto split: if_splits)

definition pop_if :: "byte \<Rightarrow> byte list \<Rightarrow> byte list" where
  "pop_if b bs = (if bs \<noteq> [] \<and> last bs = b then butlast bs else bs)"

definition emit_line :: "string \<Rightarrow> byte list \<Rightarrow> log_event list" where
  "emit_line stream line =
     (let trimmed = trim_end (from_utf8_lossy line) in
      if trimmed \<noteq> [] then [emit_policy_log stream trimmed] else [])"

text \<open>\<^verbatim>\<open>flush_complete_lines\<close>: the events of the complete lines, and what stays pending.\<close>

function flush_complete_lines :: "string \<Rightarrow> byte list \<Rightarrow> log_event list \<times> byte list" where
  "flush_complete_lines stream pending =
     (case newline_position pending of
        None \<Rightarrow> ([], pending)
      | Some i \<Rightarrow>
          let line = pop_if 0x0D (pop_if 0x0A (take (Suc i) pending));
              (events, rest) = flush_complete_lines stream (drop (Suc i) pending)
          in (emit_line stream line @ events, rest))"
  by pat_completeness auto
termination
proof (relation "measure (length \<circ> snd)")
  fix stream :: string and pending :: "byte list" and i
  assume "newline_position pending = Some i"
  then show "((stream, drop (Suc i) pending), stream, pending) \<in> measure (length \<circ> snd)"
    using newline_position_less [of pending i] by simp
qed simp

declare flush_complete_lines.simps [simp del]

definition write_bytes :: "byte list \<Rightarrow> policy_log_state \<Rightarrow> log_event list \<times> policy_log_state" where
  "write_bytes bytes s =
     (if bytes = [] then ([], s)
      else case flush_complete_lines (pls_stream s) (pls_pending s @ bytes) of
             (events, rest) \<Rightarrow> (events, s\<lparr>pls_pending := rest\<rparr>))"

definition flush_pending :: "policy_log_state \<Rightarrow> log_event list \<times> policy_log_state" where
  "flush_pending s =
     (if pls_pending s = [] then ([], s)
      else (emit_line (pls_stream s) (pls_pending s), s\<lparr>pls_pending := []\<rparr>))"

text \<open>\<^verbatim>\<open>poll_write_vectored\<close>, and writing one buffer after the other.\<close>

fun write_all_bytes :: "byte list list \<Rightarrow> policy_log_state \<Rightarrow> log_event list \<times> policy_log_state" where
  "write_all_bytes [] s = ([], s)"
| "write_all_bytes (b # bs) s =
     (case write_bytes b s of (events, s) \<Rightarrow>
        (case write_all_bytes bs s of (events', s) \<Rightarrow> (events @ events', s)))"

definition poll_write_vectored :: "byte list list \<Rightarrow> policy_log_state \<Rightarrow> nat \<times> log_event list \<times> policy_log_state" where
  "poll_write_vectored bufs s = (sum_list (map length bufs), write_all_bytes bufs s)"

text \<open>The other operations of the writer, and of the stream \<^verbatim>\<open>PolicyStdoutStream\<close> that shares it: all succeed at once.\<close>

definition poll_write :: "byte list \<Rightarrow> policy_log_state \<Rightarrow> nat \<times> log_event list \<times> policy_log_state" where
  "poll_write buf s = (length buf, write_bytes buf s)"

definition poll_flush :: "policy_log_state \<Rightarrow> log_event list \<times> policy_log_state" where
  "poll_flush s = flush_pending s"

definition poll_shutdown :: "policy_log_state \<Rightarrow> log_event list \<times> policy_log_state" where
  "poll_shutdown s = flush_pending s"

definition p2_write :: "byte list \<Rightarrow> policy_log_state \<Rightarrow> log_event list \<times> policy_log_state" where
  "p2_write bytes s = write_bytes bytes s"

definition p2_flush :: "policy_log_state \<Rightarrow> log_event list \<times> policy_log_state" where
  "p2_flush s = flush_pending s"

definition p2_check_write :: nat where
  "p2_check_write = 1024 * 1024"

section \<open>Chunks\<close>

lemma newline_position_append:
  "newline_position (bs @ cs) =
     (case newline_position bs of Some i \<Rightarrow> Some i | None \<Rightarrow> map_option ((+) (length bs)) (newline_position cs))"
  by (induction bs; cases "newline_position cs") (auto split: option.splits)

lemma flush_append:
  "flush_complete_lines stream bs = (es, rest) \<Longrightarrow>
     flush_complete_lines stream (bs @ cs) = apfst ((@) es) (flush_complete_lines stream (rest @ cs))"
proof (induction stream bs arbitrary: es rest rule: flush_complete_lines.induct)
  case (1 stream bs)
  show ?case
  proof (cases "newline_position bs")
    case None
    with "1.prems" show ?thesis by (simp add: flush_complete_lines.simps [of stream bs] apfst_def map_prod_def split: prod.splits)
  next
    case (Some i)
    obtain es' where f: "flush_complete_lines stream (drop (Suc i) bs) = (es', rest)"
      and es: "es = emit_line stream (pop_if 0x0D (pop_if 0x0A (take (Suc i) bs))) @ es'"
      using "1.prems" Some by (subst (asm) flush_complete_lines.simps) (auto split: prod.splits)
    have "newline_position (bs @ cs) = Some i" by (simp add: newline_position_append Some)
    moreover have "i < length bs" by (rule newline_position_less [OF Some])
    ultimately show ?thesis
      using "1.IH" [OF Some refl f] by (subst flush_complete_lines.simps) (simp add: es apfst_def map_prod_def split: prod.splits)
  qed
qed

lemma flush_rest: "flush_complete_lines stream bs = (es, rest) \<Longrightarrow> newline_position rest = None"
proof (induction stream bs arbitrary: es rest rule: flush_complete_lines.induct)
  case (1 stream bs)
  then show ?case
    by (subst (asm) (2) flush_complete_lines.simps) (auto split: option.splits prod.splits)
qed

lemma write_all_bytes_flush:
  assumes "newline_position (pls_pending s) = None"
  shows "write_all_bytes chunks s =
    apsnd (\<lambda>rest. s\<lparr>pls_pending := rest\<rparr>) (flush_complete_lines (pls_stream s) (pls_pending s @ concat chunks))"
  using assms
proof (induction chunks arbitrary: s)
  case Nil
  then show ?case by (simp add: flush_complete_lines.simps)
next
  case (Cons c cs)
  obtain es rest where f: "flush_complete_lines (pls_stream s) (pls_pending s @ c) = (es, rest)" by fastforce
  have w: "write_bytes c s = (es, s\<lparr>pls_pending := rest\<rparr>)"
    using f Cons.prems by (cases "c = []") (auto simp: write_bytes_def flush_complete_lines.simps)
  show ?case
    using Cons.IH [of "s\<lparr>pls_pending := rest\<rparr>"] flush_rest [OF f] flush_append [OF f, of "concat cs"]
    by (simp add: w apfst_def apsnd_def map_prod_def split: prod.splits)
qed

lemma write_all_bytes_new:
  "write_all_bytes chunks (policy_log_writer_new stream) =
    apsnd (\<lambda>rest. (policy_log_writer_new stream)\<lparr>pls_pending := rest\<rparr>) (flush_complete_lines stream (concat chunks))"
  using write_all_bytes_flush [of "policy_log_writer_new stream" chunks] by (simp add: policy_log_writer_new_def)

text \<open>What is logged does not depend on how the policy's output is cut into writes: any sequence
  of writes logs the same events, and leaves the same pending bytes, as one write of all of it.\<close>

theorem log_independent_of_chunking:
  "write_all_bytes chunks (policy_log_writer_new stream) = write_bytes (concat chunks) (policy_log_writer_new stream)"
  using write_all_bytes_new [of chunks stream] write_all_bytes_new [of "[concat chunks]" stream]
  by (simp split: prod.splits)

section \<open>Lines of the SDK\<close>

fun host_level :: "log_level \<Rightarrow> policy_log_level" where
  "host_level LevelError = PolicyError"
| "host_level LevelWarn = PolicyWarn"
| "host_level LevelInfo = PolicyInfo"
| "host_level LevelDebug = PolicyDebug"
| "host_level LevelTrace = PolicyTrace"

lemma parse_level_str: "parse_policy_log_line (level_str level @ CHR '' '' # message) = Some (host_level level, message)"
  by (cases level) (simp_all add: parse_policy_log_line_def log_prefixes_def strip_prefix_def)

lemma newline_position_None: "newline_position bs = None \<longleftrightarrow> 0x0A \<notin> set bs"
  by (induction bs) auto

lemma as_bytes_inverse [simp]: "string_of_bytes (as_bytes s) = s"
proof -
  have "char_of (unat (of_char c :: byte)) = c" for c
  proof -
    have "unat (of_char c :: byte) = unat (of_nat (of_char c) :: byte)" by (simp only: of_nat_of_char)
    also have "\<dots> = of_char c" by (simp add: unat_of_nat)
    finally show ?thesis by simp
  qed
  then show ?thesis by (simp add: as_bytes_def string_of_bytes_def comp_def)
qed

lemma newline_not_in: "CHR 0x0A \<notin> set s \<Longrightarrow> 0x0A \<notin> set (as_bytes s)"
proof
  assume s: "CHR 0x0A \<notin> set s" and "0x0A \<in> set (as_bytes s)"
  then have "char_of (unat (0x0A :: byte)) \<in> set (string_of_bytes (as_bytes s))"
    unfolding string_of_bytes_def by (metis image_eqI set_map)
  moreover have "char_of (unat (0x0A :: byte)) = CHR 0x0A" by code_simp
  ultimately show False using s by simp
qed

lemma flush_one_line:
  assumes "0x0A \<notin> set line" and "line = [] \<or> last line \<noteq> 0x0D"
  shows "flush_complete_lines stream (line @ [0x0A]) = (emit_line stream line, [])"
proof -
  have "newline_position (line @ [0x0A]) = Some (length line)"
    using assms(1) by (simp add: newline_position_append newline_position_None [THEN iffD2])
  moreover have "pop_if 0x0D (pop_if 0x0A (line @ [0x0A])) = line" using assms(2) by (auto simp: pop_if_def)
  ultimately show ?thesis
    by (subst flush_complete_lines.simps) (simp add: flush_complete_lines.simps)
qed

text \<open>A message logged by a policy arrives in the host's log: the line the SDK writes for a
  message of one line, cut into writes in any way, becomes exactly one event, with the message's
  level and text, unless the line ends in white space, which is trimmed.\<close>

theorem logged_message_arrives:
  assumes "sdk_log s level scope message = Some (concat chunks)"
    and "line = level_str level @ '' ['' @ scope @ ''] '' @ message"
    and "CHR 0x0A \<notin> set scope" and "CHR 0x0A \<notin> set message"
    and "valid_utf8 (as_bytes line)" and "trim_end line = line" and "last (as_bytes line) \<noteq> 0x0D"
  shows "write_all_bytes chunks (policy_log_writer_new ''stderr'') =
    ([\<lparr>le_level = host_level level, le_stream = ''stderr'', le_message = ''['' @ scope @ ''] '' @ message\<rparr>],
     policy_log_writer_new ''stderr'')"
proof -
  have bytes: "concat chunks = as_bytes line @ [0x0A]"
    using assms(1,2) by (auto simp: sdk_log_def as_bytes_def split: if_splits)
  have "CHR 0x0A \<notin> set (level_str level)" by (cases level) simp_all
  then have "CHR 0x0A \<notin> set line" using assms(2-4) by simp
  note nl = newline_not_in [OF this]
  have line: "line \<noteq> []" using assms(2) by simp
  have "emit_line ''stderr'' (as_bytes line) =
      [\<lparr>le_level = host_level level, le_stream = ''stderr'', le_message = ''['' @ scope @ ''] '' @ message\<rparr>]"
    using parse_level_str [of level "''['' @ scope @ ''] '' @ message"] assms(2,5,6) line
    by (simp add: emit_line_def from_utf8_lossy_def utf8_lossy_valid emit_policy_log_def)
  with flush_one_line [OF nl, of "''stderr''"] assms(7) show ?thesis
    unfolding write_all_bytes_new bytes by (simp add: policy_log_writer_new_def)
qed

theorem logged_message_arrives_witness:
  "write_all_bytes (map (\<lambda>b. [b]) (as_bytes '' WARN [loop] busy'' @ [0x0A])) (policy_log_writer_new ''stderr'') =
    ([\<lparr>le_level = PolicyWarn, le_stream = ''stderr'', le_message = ''[loop] busy''\<rparr>], policy_log_writer_new ''stderr'')"
proof -
  have "write_all_bytes (map (\<lambda>b. [b]) (as_bytes '' WARN [loop] busy'' @ [0x0A])) (policy_log_writer_new ''stderr'') =
    ([\<lparr>le_level = host_level LevelWarn, le_stream = ''stderr'', le_message = ''['' @ ''loop'' @ ''] '' @ ''busy''\<rparr>],
     policy_log_writer_new ''stderr'')"
    by (rule logged_message_arrives [where line = "'' WARN [loop] busy''" and s = 3]) code_simp+
  then show ?thesis by simp
qed

end
