(* ===== verification/Sdk_Fs.thy ===== *)
theory Sdk_Fs
  imports Policy_Log
begin

text \<open>
  The SDK's file functions, \<^verbatim>\<open>mitb-sdk/src/fs.rs\<close>: finding paths with a glob pattern and the rules of
  \<^verbatim>\<open>.gitignore\<close> files, searching file contents, reading files and directories, counting lines.

  The file system is a tree, which holds for every node what its operations answer, errors (by the
  name of their \<^verbatim>\<open>wasi:filesystem\<close> code) included. The \<^verbatim>\<open>glob\<close> crate's patterns are a parameter. The main
  result is that the search with one shared, truncated vector of rules finds what the rules of each
  directory's own chain of ancestors allow.
\<close>

section \<open>Files and directories\<close>

datatype ignore_file = NoIgnoreFile | IgnoreOpenError string | IgnoreFile "string + byte list"

datatype fs_node =
    FsFile "string + byte list"
  | FsDirectory ignore_file "string option" "(string \<times> fs_node) list"
  | FsLockedDirectory string
  | FsSymlink
  | FsSpecial

text \<open>A directory holds what opening its \<^verbatim>\<open>.gitignore\<close> gives, the error of reading its entries, if any, and
  the entries. A locked directory cannot be opened.\<close>

fun is_directory :: "fs_node \<Rightarrow> bool" where
  "is_directory (FsDirectory _ _ _) = True"
| "is_directory (FsLockedDirectory _) = True"
| "is_directory _ = False"

fun is_regular :: "fs_node \<Rightarrow> bool" where
  "is_regular (FsFile _) = True"
| "is_regular _ = False"

datatype dir_entry_kind = EntryFile | EntryDirectory | EntrySymlink | EntryOther

fun descriptor_type_to_dir_entry_kind :: "fs_node \<Rightarrow> dir_entry_kind" where
  "descriptor_type_to_dir_entry_kind (FsDirectory _ _ _) = EntryDirectory"
| "descriptor_type_to_dir_entry_kind (FsLockedDirectory _) = EntryDirectory"
| "descriptor_type_to_dir_entry_kind (FsFile _) = EntryFile"
| "descriptor_type_to_dir_entry_kind FsSymlink = EntrySymlink"
| "descriptor_type_to_dir_entry_kind FsSpecial = EntryOther"

section \<open>Paths\<close>

definition join_relative_path :: "string \<Rightarrow> string \<Rightarrow> string" where
  "join_relative_path base child = (if base = [] then child else base @ ''/'' @ child)"

definition display_path :: "string \<Rightarrow> string" where
  "display_path path = (if path = [] then ''.'' else path)"

definition strip_dot :: "string \<Rightarrow> string" where
  "strip_dot path = (case strip_prefix ''./'' path of Some p \<Rightarrow> p | None \<Rightarrow> path)"

definition normalize_relative_path :: "string \<Rightarrow> string + string" where
  "normalize_relative_path path =
     (let path = trim path in
      if path = [] \<or> path = ''.'' then Err ''path must reference a file''
      else if hd path = CHR ''/'' then Err (''absolute paths are not supported in guest fs: `'' @ path @ ''`'')
      else Ok (strip_dot path))"

definition normalize_dir_path :: "string \<Rightarrow> string" where
  "normalize_dir_path path = (let path = trim path in if path = [] then ''.'' else strip_dot path)"

text \<open>\<^verbatim>\<open>str::rfind\<close> at a character, or 0.\<close>

definition rfind_or_0 :: "char \<Rightarrow> string \<Rightarrow> nat" where
  "rfind_or_0 c s = (if c \<in> set s then length s - 1 - length (takeWhile (\<lambda>x. x \<noteq> c) (rev s)) else 0)"

text \<open>The proper prefixes of a path that end before a slash, after what was read already.\<close>

fun slash_prefixes :: "string \<Rightarrow> string \<Rightarrow> string list" where
  "slash_prefixes done [] = []"
| "slash_prefixes done (c # cs) = (if c = CHR ''/'' then [done] else []) @ slash_prefixes (done @ [c]) cs"

definition directory_prefixes :: "string \<Rightarrow> bool \<Rightarrow> string list" where
  "directory_prefixes path is_dir =
     (let n = (if is_dir then length path else rfind_or_0 (CHR ''/'') path) in
      if n = 0 then [] else slash_prefixes [] (take n path) @ [take n path])"

section \<open>Rules\<close>

text \<open>Patterns: compiling one, its text, and matching with the fixed options of \<^verbatim>\<open>glob_matches_pattern\<close>.\<close>

record 'g glob_ops =
  gl_new :: "string \<Rightarrow> string + 'g"
  gl_as_str :: "'g \<Rightarrow> string"
  gl_matches :: "'g \<Rightarrow> string \<Rightarrow> bool"

record 'g gitignore_rule =
  gr_base_dir :: string
  gr_pattern :: 'g
  gr_negated :: bool
  gr_directory_only :: bool
  gr_anchored :: bool
  gr_has_slash :: bool

text \<open>\<^verbatim>\<open>str::lines\<close>: a line ends with a newline, before which one carriage return is dropped.\<close>

fun text_lines_from :: "string \<Rightarrow> string \<Rightarrow> string list" where
  "text_lines_from cur [] = (if cur = [] then [] else [cur])"
| "text_lines_from cur (c # cs) =
     (if c = CHR 0x0A
      then (if cur \<noteq> [] \<and> last cur = CHR 0x0D then butlast cur else cur) # text_lines_from [] cs
      else text_lines_from (cur @ [c]) cs)"

definition text_lines :: "string \<Rightarrow> string list" where
  "text_lines s = text_lines_from [] s"

text \<open>The prefix \<open>c\<close> of a line, if it is there, and what follows.\<close>

definition take_mark :: "char \<Rightarrow> string \<Rightarrow> bool \<times> string" where
  "take_mark c line = (if line \<noteq> [] \<and> hd line = c then (True, tl line) else (False, line))"

definition gitignore_line :: "'g glob_ops \<Rightarrow> string \<Rightarrow> string \<Rightarrow> string + 'g gitignore_rule option" where
  "gitignore_line G base_dir original_line =
     (let line = rev (dropWhile (\<lambda>c. c = CHR 0x0D) (rev original_line)) in
      if line = [] \<or> hd line = CHR ''#'' then Ok None
      else let (negated, line) = take_mark (CHR ''!'') line in
      if line = [] then Ok None
      else let (anchored, line) = take_mark (CHR ''/'') line in
      if line = [] then Ok None
      else let directory_only = (last line = CHR ''/''); line = (if directory_only then butlast line else line) in
      if line = [] then Ok None
      else case gl_new G (map (\<lambda>c. if c = CHR 0x5C then CHR ''/'' else c) line) of
             Inl e \<Rightarrow> Err (''invalid `.gitignore` pattern `'' @ line @ ''` under `'' @ display_path base_dir @ ''`: '' @ e)
           | Inr pattern \<Rightarrow>
               Ok (Some \<lparr>gr_base_dir = base_dir, gr_pattern = pattern, gr_negated = negated,
                 gr_directory_only = directory_only, gr_anchored = anchored, gr_has_slash = CHR ''/'' \<in> set line\<rparr>))"

fun parse_gitignore_lines ::
  "'g glob_ops \<Rightarrow> string \<Rightarrow> string list \<Rightarrow> 'g gitignore_rule list \<Rightarrow> string + 'g gitignore_rule list" where
  "parse_gitignore_lines G base_dir [] rules = Ok rules"
| "parse_gitignore_lines G base_dir (line # lines) rules =
     (case gitignore_line G base_dir line of
        Inl e \<Rightarrow> Err e
      | Inr None \<Rightarrow> parse_gitignore_lines G base_dir lines rules
      | Inr (Some rule) \<Rightarrow> parse_gitignore_lines G base_dir lines (rules @ [rule]))"

definition parse_gitignore_rules ::
  "'g glob_ops \<Rightarrow> string \<Rightarrow> string \<Rightarrow> 'g gitignore_rule list \<Rightarrow> string + 'g gitignore_rule list" where
  "parse_gitignore_rules G contents base_dir rules = parse_gitignore_lines G base_dir (text_lines contents) rules"

text \<open>What a rule sees of a path: the part below its directory, if the path is there and not the
  directory itself.\<close>

definition path_from_base :: "'g gitignore_rule \<Rightarrow> string \<Rightarrow> string option" where
  "path_from_base rule path =
     (let sub = (if gr_base_dir rule = [] then Some path else strip_prefix (gr_base_dir rule @ ''/'') path) in
      if sub = Some [] then None else sub)"

definition rule_matches :: "'g glob_ops \<Rightarrow> 'g gitignore_rule \<Rightarrow> string \<Rightarrow> bool \<Rightarrow> bool" where
  "rule_matches G rule path is_dir =
     (case path_from_base rule path of
        None \<Rightarrow> False
      | Some sub \<Rightarrow>
          if gr_directory_only rule
          then \<exists>d \<in> set (directory_prefixes sub is_dir).
                 gl_matches G (gr_pattern rule) (if gr_anchored rule \<or> gr_has_slash rule then d else after_last (CHR ''/'') d)
          else if gr_anchored rule \<or> gr_has_slash rule then gl_matches G (gr_pattern rule) sub
          else gl_matches G (gr_pattern rule) (after_last (CHR ''/'') path))"

fun path_is_ignored_from :: "'g glob_ops \<Rightarrow> bool \<Rightarrow> 'g gitignore_rule list \<Rightarrow> string \<Rightarrow> bool \<Rightarrow> bool" where
  "path_is_ignored_from G ignored [] path is_dir = ignored"
| "path_is_ignored_from G ignored (rule # rules) path is_dir =
     path_is_ignored_from G (if rule_matches G rule path is_dir then \<not> gr_negated rule else ignored) rules path is_dir"

definition path_is_ignored :: "'g glob_ops \<Rightarrow> 'g gitignore_rule list \<Rightarrow> string \<Rightarrow> bool \<Rightarrow> bool" where
  "path_is_ignored G rules path is_dir = path_is_ignored_from G False rules path is_dir"

definition matches_path_pattern :: "'g glob_ops \<Rightarrow> 'g \<Rightarrow> string \<Rightarrow> bool" where
  "matches_path_pattern G pattern path =
     (if CHR ''/'' \<in> set (gl_as_str G pattern) then gl_matches G pattern path
      else gl_matches G pattern (after_last (CHR ''/'') path))"

section \<open>Finding paths\<close>

record path_match =
  pm_path :: string
  pm_is_dir :: bool

record find_options =
  fo_include_files :: bool
  fo_include_directories :: bool
  fo_respect_gitignore :: bool

definition find_options_default :: find_options where
  "find_options_default = \<lparr>fo_include_files = True, fo_include_directories = False, fo_respect_gitignore = True\<rparr>"

text \<open>\<^verbatim>\<open>select_root_preopen\<close> over the preopened directories and their paths.\<close>

fun preopen_from :: "'d option \<Rightarrow> ('d \<times> string) list \<Rightarrow> string + 'd" where
  "preopen_from fallback [] =
     (case fallback of None \<Rightarrow> Err ''wasi preopens are empty; no guest filesystem root'' | Some d \<Rightarrow> Ok d)"
| "preopen_from fallback ((d, path) # ds) =
     (if path = ''.'' then Ok d else preopen_from (if fallback = None then Some d else fallback) ds)"

definition select_root_preopen :: "('d \<times> string) list \<Rightarrow> string + 'd" where
  "select_root_preopen ds = preopen_from None ds"

definition read_file_descriptor :: "string + byte list \<Rightarrow> string \<Rightarrow> string + byte list" where
  "read_file_descriptor contents path =
     map_sum (\<lambda>e. ''failed reading file `'' @ display_path path @ ''`: '' @ e) id contents"

text \<open>The rules with those of a directory's \<^verbatim>\<open>.gitignore\<close>.\<close>

fun load_gitignore_rules ::
  "'g glob_ops \<Rightarrow> fs_node \<Rightarrow> string \<Rightarrow> 'g gitignore_rule list \<Rightarrow> string + 'g gitignore_rule list" where
  "load_gitignore_rules G (FsDirectory (IgnoreOpenError e) _ _) base_dir rules =
     Err (''failed opening `'' @ display_path (join_relative_path base_dir ''.gitignore'') @ ''`: '' @ e)"
| "load_gitignore_rules G (FsDirectory (IgnoreFile contents) _ _) base_dir rules =
     (case read_file_descriptor contents (join_relative_path base_dir ''.gitignore'') of
        Inl e \<Rightarrow> Err e
      | Inr bytes \<Rightarrow> parse_gitignore_rules G (from_utf8_lossy bytes) base_dir rules)"
| "load_gitignore_rules G _ base_dir rules = Ok rules"

fun read_directory_entries :: "fs_node \<Rightarrow> string \<Rightarrow> string + (string \<times> fs_node) list" where
  "read_directory_entries (FsDirectory _ (Some e) _) path =
     Err (''failed reading directory `'' @ display_path path @ ''`: '' @ e)"
| "read_directory_entries (FsDirectory _ None entries) path = Ok entries"
| "read_directory_entries _ path = Err (''failed reading directory `'' @ display_path path @ ''`: not-directory'')"

definition opened_rules ::
  "'g glob_ops \<Rightarrow> find_options \<Rightarrow> fs_node \<Rightarrow> string \<Rightarrow> 'g gitignore_rule list \<Rightarrow> string + 'g gitignore_rule list" where
  "opened_rules G opts node path rules =
     (if fo_respect_gitignore opts then load_gitignore_rules G node path rules else Ok rules)"

text \<open>An entry that is passed over, and one that is reported.\<close>

definition skipped :: "'g glob_ops \<Rightarrow> find_options \<Rightarrow> 'g gitignore_rule list \<Rightarrow> string \<Rightarrow> string \<Rightarrow> fs_node \<Rightarrow> bool" where
  "skipped G opts rules path name node \<longleftrightarrow>
     fo_respect_gitignore opts \<and>
       (name = ''.git'' \<and> is_directory node \<or>
        path_is_ignored G rules (join_relative_path path name) (is_directory node))"

definition wanted :: "'g glob_ops \<Rightarrow> 'g \<Rightarrow> find_options \<Rightarrow> string \<Rightarrow> fs_node \<Rightarrow> bool" where
  "wanted G inc opts path node \<longleftrightarrow>
     (is_directory node \<and> fo_include_directories opts \<or> is_regular node \<and> fo_include_files opts) \<and>
       matches_path_pattern G inc path"

record pending_directory =
  pd_node :: fs_node
  pd_path :: string
  pd_inherited :: nat

text \<open>The entries of one directory: what is reported, and the directories to look into, the last one first.\<close>

fun scan_entries ::
  "'g glob_ops \<Rightarrow> 'g \<Rightarrow> find_options \<Rightarrow> 'g gitignore_rule list \<Rightarrow> string \<Rightarrow> (string \<times> fs_node) list \<Rightarrow>
     path_match list \<Rightarrow> pending_directory list \<Rightarrow> string + path_match list \<times> pending_directory list" where
  "scan_entries G inc opts rules path [] ms stack = Ok (ms, stack)"
| "scan_entries G inc opts rules path ((name, node) # entries) ms stack =
     (if skipped G opts rules path name node then scan_entries G inc opts rules path entries ms stack
      else
        let child = join_relative_path path name;
            ms = (if wanted G inc opts child node then ms @ [\<lparr>pm_path = child, pm_is_dir = is_directory node\<rparr>] else ms)
        in case node of
             FsLockedDirectory e \<Rightarrow> Err (''failed opening directory `'' @ display_path child @ ''`: '' @ e)
           | FsDirectory _ _ _ \<Rightarrow>
               scan_entries G inc opts rules path entries ms
                 (\<lparr>pd_node = node, pd_path = child, pd_inherited = length rules\<rparr> # stack)
           | _ \<Rightarrow> scan_entries G inc opts rules path entries ms stack)"

lemma scan_entries_size:
  "scan_entries G inc opts rules path entries ms stack = Ok (ms', stack') \<Longrightarrow>
     sum_list (map (size \<circ> pd_node) stack') \<le> sum_list (map (size \<circ> pd_node) stack) + sum_list (map (size \<circ> snd) entries)"
  by (induction entries arbitrary: ms stack) (fastforce simp: Let_def split: if_splits fs_node.splits)+

lemma entries_size: "sum_list (map (size \<circ> snd) entries) < Suc (size_list (size_prod (\<lambda>x. 0) size) entries)"
  for entries :: "(string \<times> fs_node) list"
  by (induction entries) auto

text \<open>The loop over the stack of directories, with the shared rules.\<close>

function find_loop ::
  "'g glob_ops \<Rightarrow> 'g \<Rightarrow> find_options \<Rightarrow> pending_directory list \<Rightarrow> 'g gitignore_rule list \<Rightarrow> path_match list \<Rightarrow>
     string + path_match list" where
  "find_loop G inc opts [] rules ms = Ok ms"
| "find_loop G inc opts (d # stack) rules ms =
     (case opened_rules G opts (pd_node d) (pd_path d) (take (pd_inherited d) rules) of
        Inl e \<Rightarrow> Err e
      | Inr rules \<Rightarrow>
     (case read_directory_entries (pd_node d) (pd_path d) of
        Inl e \<Rightarrow> Err e
      | Inr entries \<Rightarrow>
     (case scan_entries G inc opts rules (pd_path d) entries ms stack of
        Inl e \<Rightarrow> Err e
      | Inr (ms, stack) \<Rightarrow> find_loop G inc opts stack rules ms)))"
  by pat_completeness auto
termination
proof (relation "measure (\<lambda>(G, inc, opts, stack, rules, ms). sum_list (map (size \<circ> pd_node) stack))")
  fix G :: "'g glob_ops" and inc :: 'g and opts and d :: pending_directory and stack stack' :: "pending_directory list"
    and rules rules' :: "'g gitignore_rule list" and ms ms' entries and p
  assume e: "read_directory_entries (pd_node d) (pd_path d) = Inr entries"
    and s: "scan_entries G inc opts rules' (pd_path d) entries ms stack = Inr p" "(ms', stack') = p"
  have "sum_list (map (size \<circ> snd) entries) < size (pd_node d)"
    using e by (cases "(pd_node d, pd_path d)" rule: read_directory_entries.cases) (auto simp: entries_size)
  with scan_entries_size [of G inc opts rules' "pd_path d" entries ms stack ms' stack'] s
  show "((G, inc, opts, stack', rules', ms'), G, inc, opts, d # stack, rules, ms) \<in>
      measure (\<lambda>(G, inc, opts, stack, rules, ms). sum_list (map (size \<circ> pd_node) stack))"
    by simp
qed simp

definition fs_find :: "'g glob_ops \<Rightarrow> (fs_node \<times> string) list \<Rightarrow> string \<Rightarrow> find_options \<Rightarrow> string + path_match list" where
  "fs_find G preopens pattern opts =
     (case gl_new G pattern of
        Inl e \<Rightarrow> Err (''invalid include pattern `'' @ pattern @ ''`: '' @ e)
      | Inr inc \<Rightarrow>
     (case select_root_preopen preopens of
        Inl e \<Rightarrow> Err e
      | Inr root \<Rightarrow> find_loop G inc opts [\<lparr>pd_node = root, pd_path = [], pd_inherited = 0\<rparr>] [] []))"


section \<open>Searching and reading\<close>

record grep_options =
  go_path_pattern :: string
  go_case_sensitive :: bool
  go_literal :: bool
  go_respect_gitignore :: bool

definition grep_options_default :: grep_options where
  "grep_options_default = \<lparr>go_path_pattern = ''*'', go_case_sensitive = True, go_literal = False, go_respect_gitignore = True\<rparr>"

record grep_match =
  gm_path :: string
  gm_line_number :: nat
  gm_line :: string

text \<open>The world of a guest: the preopened directories, what opening a path below the selected one gives,
  what reading an opened node gives, and the engines for patterns and queries.\<close>

record ('g, 'x) fs_env =
  fe_preopens :: "(fs_node \<times> string) list"
  fe_open :: "string \<Rightarrow> string + fs_node"
  fe_read :: "fs_node \<Rightarrow> string + byte list"
  fe_glob :: "'g glob_ops"
  fe_escape :: "string \<Rightarrow> string"
  fe_regex :: "bool \<Rightarrow> string \<Rightarrow> string + 'x"
  fe_is_match :: "'x \<Rightarrow> string \<Rightarrow> bool"
  fe_utf8_error :: "byte list \<Rightarrow> string"

definition fs_read :: "('g, 'x) fs_env \<Rightarrow> string \<Rightarrow> string + byte list" where
  "fs_read F path =
     (case normalize_relative_path path of
        Inl e \<Rightarrow> Err e
      | Inr p \<Rightarrow>
     (case select_root_preopen (fe_preopens F) of
        Inl e \<Rightarrow> Err e
      | Inr _ \<Rightarrow>
     (case fe_open F p of
        Inl e \<Rightarrow> Err (''failed opening file `'' @ display_path p @ ''`: '' @ e)
      | Inr node \<Rightarrow> read_file_descriptor (fe_read F node) p)))"

definition fs_read_text :: "('g, 'x) fs_env \<Rightarrow> string \<Rightarrow> string + string" where
  "fs_read_text F path =
     (case fs_read F path of
        Inl e \<Rightarrow> Err e
      | Inr bytes \<Rightarrow>
          (case from_utf8 bytes of
             None \<Rightarrow> Err (''file `'' @ display_path path @ ''` is not valid utf-8: '' @ fe_utf8_error F bytes)
           | Some s \<Rightarrow> Ok s))"

definition open_directory :: "('g, 'x) fs_env \<Rightarrow> string \<Rightarrow> string + fs_node" where
  "open_directory F path =
     (case select_root_preopen (fe_preopens F) of
        Inl e \<Rightarrow> Err e
      | Inr root \<Rightarrow>
          if path = [] \<or> path = ''.'' then Ok root
          else map_sum (\<lambda>e. ''failed opening directory `'' @ display_path path @ ''`: '' @ e) id (fe_open F path))"

definition read_dir :: "('g, 'x) fs_env \<Rightarrow> string \<Rightarrow> string + (string \<times> dir_entry_kind) list" where
  "read_dir F path =
     (let p = normalize_dir_path path in
      case open_directory F p of
        Inl e \<Rightarrow> Err e
      | Inr dir \<Rightarrow>
          map_sum id (map (\<lambda>(name, node). (name, descriptor_type_to_dir_entry_kind node))) (read_directory_entries dir p))"

definition matching_lines :: "(string \<Rightarrow> bool) \<Rightarrow> string \<Rightarrow> string list \<Rightarrow> grep_match list" where
  "matching_lines matches path lines =
     map (\<lambda>(i, line). \<lparr>gm_path = path, gm_line_number = i + 1, gm_line = line\<rparr>)
       (filter (\<lambda>(i, line). matches line) (zip [0..<length lines] lines))"

fun grep_files ::
  "('g, 'x) fs_env \<Rightarrow> 'x \<Rightarrow> path_match list \<Rightarrow> grep_match list \<Rightarrow> string + grep_match list" where
  "grep_files F x [] ms = Ok ms"
| "grep_files F x (f # fs) ms =
     (case fs_read F (pm_path f) of
        Inl e \<Rightarrow> Err e
      | Inr bytes \<Rightarrow>
          grep_files F x fs (ms @ matching_lines (fe_is_match F x) (pm_path f) (text_lines (from_utf8_lossy bytes))))"

definition fs_grep :: "('g, 'x) fs_env \<Rightarrow> string \<Rightarrow> grep_options \<Rightarrow> string + grep_match list" where
  "fs_grep F query opts =
     (case fe_regex F (\<not> go_case_sensitive opts) (if go_literal opts then fe_escape F query else query) of
        Inl e \<Rightarrow> Err (''invalid grep query `'' @ query @ ''`: '' @ e)
      | Inr x \<Rightarrow>
     (case fs_find (fe_glob F) (fe_preopens F) (go_path_pattern opts)
         \<lparr>fo_include_files = True, fo_include_directories = False, fo_respect_gitignore = go_respect_gitignore opts\<rparr> of
        Inl e \<Rightarrow> Err e
      | Inr files \<Rightarrow> grep_files F x files []))"

definition count_lines_in_bytes :: "byte list \<Rightarrow> nat" where
  "count_lines_in_bytes bs =
     (if bs = [] then 0
      else let n = length (filter (\<lambda>b. b = 0x0A) bs) in if last bs = 0x0A then n else n + 1)"

fun count_files :: "('g, 'x) fs_env \<Rightarrow> path_match list \<Rightarrow> nat \<Rightarrow> string + nat" where
  "count_files F [] n = Ok n"
| "count_files F (f # fs) n =
     (case fs_read F (pm_path f) of
        Inl e \<Rightarrow> Err e
      | Inr bytes \<Rightarrow> count_files F fs (sat_add n (count_lines_in_bytes bytes)))"

definition fs_count_lines :: "('g, 'x) fs_env \<Rightarrow> string \<Rightarrow> string + nat" where
  "fs_count_lines F pattern =
     (case fs_find (fe_glob F) (fe_preopens F) pattern find_options_default of
        Inl e \<Rightarrow> Err e
      | Inr files \<Rightarrow> count_files F files 0)"

section \<open>The rules that apply\<close>

lemma find_snoc:
  "List.find P (xs @ [y]) = (case List.find P xs of None \<Rightarrow> if P y then Some y else None | Some z \<Rightarrow> Some z)"
  by (induction xs) auto

text \<open>The last rule that matches decides.\<close>

lemma path_is_ignored_from_last:
  "path_is_ignored_from G ignored rules path is_dir =
     (case List.find (\<lambda>rule. rule_matches G rule path is_dir) (rev rules) of
        None \<Rightarrow> ignored | Some rule \<Rightarrow> \<not> gr_negated rule)"
proof (induction rules arbitrary: ignored)
  case (Cons rule rules)
  then show ?case by (simp add: find_snoc split: option.splits)
qed simp

text \<open>The search, said for one directory at a time: with the rules of the directories above, what lies below
  a directory and is reported.\<close>

inductive reports ::
  "'g glob_ops \<Rightarrow> 'g \<Rightarrow> find_options \<Rightarrow> 'g gitignore_rule list \<Rightarrow> string \<Rightarrow> fs_node \<Rightarrow> path_match \<Rightarrow> bool"
  for G inc opts where
  here: "opened_rules G opts node path inherited = Ok rules \<Longrightarrow> read_directory_entries node path = Ok entries \<Longrightarrow>
    (name, child) \<in> set entries \<Longrightarrow> \<not> skipped G opts rules path name child \<Longrightarrow>
    wanted G inc opts (join_relative_path path name) child \<Longrightarrow>
    reports G inc opts inherited path node \<lparr>pm_path = join_relative_path path name, pm_is_dir = is_directory child\<rparr>"
| below: "opened_rules G opts node path inherited = Ok rules \<Longrightarrow> read_directory_entries node path = Ok entries \<Longrightarrow>
    (name, child) \<in> set entries \<Longrightarrow> \<not> skipped G opts rules path name child \<Longrightarrow>
    reports G inc opts rules (join_relative_path path name) child m \<Longrightarrow>
    reports G inc opts inherited path node m"

lemma reports_unfold:
  assumes "opened_rules G opts node path inherited = Ok rules" and "read_directory_entries node path = Ok entries"
  shows "reports G inc opts inherited path node m \<longleftrightarrow>
    (\<exists>name child. (name, child) \<in> set entries \<and> \<not> skipped G opts rules path name child \<and>
       (wanted G inc opts (join_relative_path path name) child \<and>
          m = \<lparr>pm_path = join_relative_path path name, pm_is_dir = is_directory child\<rparr> \<or>
        reports G inc opts rules (join_relative_path path name) child m))"
  by (subst reports.simps) (use assms in auto)

lemma reports_dir: "reports G inc opts inherited path node m \<Longrightarrow> \<exists>i entries. node = FsDirectory i None entries"
  by (induction rule: reports.induct) (auto elim: read_directory_entries.elims)


text \<open>What one directory pushes and reports.\<close>

definition scan_pushes ::
  "'g glob_ops \<Rightarrow> find_options \<Rightarrow> 'g gitignore_rule list \<Rightarrow> string \<Rightarrow> (string \<times> fs_node) list \<Rightarrow> pending_directory \<Rightarrow> bool" where
  "scan_pushes G opts rules path entries d \<longleftrightarrow>
     (\<exists>(name, child) \<in> set entries. \<not> skipped G opts rules path name child \<and> (\<exists>i e es. child = FsDirectory i e es) \<and>
        d = \<lparr>pd_node = child, pd_path = join_relative_path path name, pd_inherited = length rules\<rparr>)"

definition scan_reports ::
  "'g glob_ops \<Rightarrow> 'g \<Rightarrow> find_options \<Rightarrow> 'g gitignore_rule list \<Rightarrow> string \<Rightarrow> (string \<times> fs_node) list \<Rightarrow> path_match \<Rightarrow> bool" where
  "scan_reports G inc opts rules path entries m \<longleftrightarrow>
     (\<exists>(name, child) \<in> set entries. \<not> skipped G opts rules path name child \<and> wanted G inc opts (join_relative_path path name) child \<and>
        m = \<lparr>pm_path = join_relative_path path name, pm_is_dir = is_directory child\<rparr>)"

lemma scan_entries_spec:
  "scan_entries G inc opts rules path entries ms stack = Ok (ms', stack') \<Longrightarrow>
    \<exists>new. stack' = new @ stack \<and> (\<forall>d. d \<in> set new \<longleftrightarrow> scan_pushes G opts rules path entries d) \<and>
      (\<forall>m. m \<in> set ms' \<longleftrightarrow> m \<in> set ms \<or> scan_reports G inc opts rules path entries m)"
proof (induction entries arbitrary: ms stack)
  case (Cons x entries)
  obtain name node where x: "x = (name, node)" by fastforce
  let ?child = "join_relative_path path name"
  let ?own = "if skipped G opts rules path name node then []
    else case node of FsDirectory _ _ _ \<Rightarrow> [\<lparr>pd_node = node, pd_path = ?child, pd_inherited = length rules\<rparr>] | _ \<Rightarrow> []"
  let ?hit = "if \<not> skipped G opts rules path name node \<and> wanted G inc opts ?child node
    then [\<lparr>pm_path = ?child, pm_is_dir = is_directory node\<rparr>] else []"
  have own: "scan_pushes G opts rules path (x # entries) d \<longleftrightarrow> d \<in> set ?own \<or> scan_pushes G opts rules path entries d" for d
    by (cases node) (auto simp: scan_pushes_def x)
  have hit: "scan_reports G inc opts rules path (x # entries) m \<longleftrightarrow> m \<in> set ?hit \<or> scan_reports G inc opts rules path entries m" for m
    by (auto simp: scan_reports_def x)
  have "scan_entries G inc opts rules path entries (ms @ ?hit) (?own @ stack) = Ok (ms', stack')"
    using Cons.prems by (auto simp: x Let_def split: fs_node.splits if_splits)
  from Cons.IH [OF this] obtain new where new: "stack' = new @ ?own @ stack"
    "\<forall>d. d \<in> set new \<longleftrightarrow> scan_pushes G opts rules path entries d"
    "\<forall>m. m \<in> set ms' \<longleftrightarrow> m \<in> set (ms @ ?hit) \<or> scan_reports G inc opts rules path entries m" by blast
  show ?case
    by (rule exI [of _ "new @ ?own"]) (simp only: new own hit set_append Un_iff append_assoc simp_thms disj_commute disj_left_commute disj_assoc)
qed (simp add: scan_pushes_def scan_reports_def)

lemma parse_gitignore_lines_append: "parse_gitignore_lines G base ls rules = Ok rules' \<Longrightarrow> \<exists>own. rules' = rules @ own"
  by (induction ls arbitrary: rules) (fastforce split: sum.splits option.splits)+

lemma opened_rules_append: "opened_rules G opts node path rules = Ok rules' \<Longrightarrow> \<exists>own. rules' = rules @ own"
  by (cases "(G, node, path, rules)" rule: load_gitignore_rules.cases)
    (auto simp: opened_rules_def parse_gitignore_rules_def split: if_splits sum.splits dest: parse_gitignore_lines_append)

definition stack_ok :: "'g gitignore_rule list \<Rightarrow> pending_directory list \<Rightarrow> bool" where
  "stack_ok rules stack \<longleftrightarrow> sorted_wrt (\<lambda>d e. pd_inherited e \<le> pd_inherited d) stack \<and> (\<forall>d \<in> set stack. pd_inherited d \<le> length rules)"

lemma find_loop_spec:
  assumes "find_loop G inc opts stack rules ms = Ok res" and "stack_ok rules stack"
  shows "m \<in> set res \<longleftrightarrow>
    m \<in> set ms \<or> (\<exists>d \<in> set stack. reports G inc opts (take (pd_inherited d) rules) (pd_path d) (pd_node d) m)"
  using assms
proof (induction G inc opts stack rules ms rule: find_loop.induct)
  case (2 G inc opts d stack rules ms)
  obtain rules1 where r: "opened_rules G opts (pd_node d) (pd_path d) (take (pd_inherited d) rules) = Ok rules1"
    using "2.prems"(1) by (auto split: sum.splits)
  obtain entries where e: "read_directory_entries (pd_node d) (pd_path d) = Ok entries"
    using "2.prems"(1) r by (auto split: sum.splits)
  obtain ms1 stack1 where s: "scan_entries G inc opts rules1 (pd_path d) entries ms stack = Ok (ms1, stack1)"
    using "2.prems"(1) r e by (auto split: sum.splits)
  from scan_entries_spec [OF s] obtain new where new: "stack1 = new @ stack"
    "\<And>d'. d' \<in> set new \<longleftrightarrow> scan_pushes G opts rules1 (pd_path d) entries d'"
    "\<And>m. m \<in> set ms1 \<longleftrightarrow> m \<in> set ms \<or> scan_reports G inc opts rules1 (pd_path d) entries m" by blast
  obtain own where own: "rules1 = take (pd_inherited d) rules @ own" using opened_rules_append [OF r] by blast
  have le: "pd_inherited d \<le> length rules" "\<And>d'. d' \<in> set stack \<Longrightarrow> pd_inherited d' \<le> pd_inherited d"
    using "2.prems"(2) by (auto simp: stack_ok_def)
  have keep: "take (pd_inherited d') rules1 = take (pd_inherited d') rules" if "d' \<in> set stack" for d'
    using le(1) le(2) [OF that] by (simp add: own min_absorb2)
  have top: "pd_inherited d' = length rules1" if "d' \<in> set new" for d'
    using that by (auto simp: new(2) scan_pushes_def)
  have bound: "pd_inherited d' \<le> length rules1" if "d' \<in> set stack" for d' using le(1) le(2) [OF that] by (simp add: own)
  have "sorted_wrt (\<lambda>d e. pd_inherited e \<le> pd_inherited d) new" by (simp add: sorted_wrt_iff_nth_less top)
  then have ok: "stack_ok rules1 stack1"
    using "2.prems"(2) top bound by (auto simp: stack_ok_def new(1) sorted_wrt_append)
  have loop: "find_loop G inc opts stack1 rules1 ms1 = Ok res" using "2.prems"(1) r e s by simp
  have below: "(\<exists>d' \<in> set new. reports G inc opts (take (pd_inherited d') rules1) (pd_path d') (pd_node d') m) \<longleftrightarrow>
      (\<exists>name child. (name, child) \<in> set entries \<and> \<not> skipped G opts rules1 (pd_path d) name child \<and>
         reports G inc opts rules1 (join_relative_path (pd_path d) name) child m)" (is "?l \<longleftrightarrow> ?r")
  proof
    assume ?l
    then obtain d' where d': "scan_pushes G opts rules1 (pd_path d) entries d'"
      "reports G inc opts (take (pd_inherited d') rules1) (pd_path d') (pd_node d') m" using new(2) by blast
    from d'(1) obtain name child where c: "(name, child) \<in> set entries" "\<not> skipped G opts rules1 (pd_path d) name child"
      "d' = \<lparr>pd_node = child, pd_path = join_relative_path (pd_path d) name, pd_inherited = length rules1\<rparr>"
      unfolding scan_pushes_def by blast
    have "reports G inc opts rules1 (join_relative_path (pd_path d) name) child m" using d'(2) by (simp add: c(3))
    with c(1,2) show ?r by blast
  next
    assume ?r
    then obtain name child where c: "(name, child) \<in> set entries" "\<not> skipped G opts rules1 (pd_path d) name child"
      "reports G inc opts rules1 (join_relative_path (pd_path d) name) child m" by blast
    let ?d = "\<lparr>pd_node = child, pd_path = join_relative_path (pd_path d) name, pd_inherited = length rules1\<rparr>"
    have "?d \<in> set new" unfolding new(2) scan_pushes_def using c(1,2) reports_dir [OF c(3)] by blast
    then show ?l by (rule bexI [rotated]) (simp add: c(3))
  qed
  have rest: "(\<exists>d' \<in> set stack. reports G inc opts (take (pd_inherited d') rules1) (pd_path d') (pd_node d') m) \<longleftrightarrow>
      (\<exists>d' \<in> set stack. reports G inc opts (take (pd_inherited d') rules) (pd_path d') (pd_node d') m)"
    using keep by simp
  have "m \<in> set res \<longleftrightarrow> m \<in> set ms1 \<or> (\<exists>d' \<in> set stack1. reports G inc opts (take (pd_inherited d') rules1) (pd_path d') (pd_node d') m)"
    by (rule "2.IH" [OF r e s refl loop ok])
  also have "\<dots> \<longleftrightarrow> m \<in> set ms1 \<or>
      (\<exists>d' \<in> set new. reports G inc opts (take (pd_inherited d') rules1) (pd_path d') (pd_node d') m) \<or>
      (\<exists>d' \<in> set stack. reports G inc opts (take (pd_inherited d') rules) (pd_path d') (pd_node d') m)"
    unfolding rest [symmetric] new(1) by auto
  also have "\<dots> \<longleftrightarrow> m \<in> set ms \<or> reports G inc opts (take (pd_inherited d) rules) (pd_path d) (pd_node d) m \<or>
      (\<exists>d' \<in> set stack. reports G inc opts (take (pd_inherited d') rules) (pd_path d') (pd_node d') m)"
    unfolding below new(3) reports_unfold [OF r e] scan_reports_def by blast
  finally show ?case by auto
qed simp


text \<open>C15. Finding paths respects the rules of every directory. A search that succeeds reports exactly the
  entries that match the pattern, are not passed over by the rules of the directories on their own
  path, and lie in directories that are not: although the rules are kept in one vector, which is cut
  back when the search leaves a directory, no directory ever sees the rules of another branch.\<close>

theorem find_respects_rules:
  assumes "fs_find G preopens pattern opts = Ok ms" and "gl_new G pattern = Ok inc" and "select_root_preopen preopens = Ok root"
  shows "set ms = {m. reports G inc opts [] [] root m}"
proof -
  have "stack_ok [] [\<lparr>pd_node = root, pd_path = [], pd_inherited = 0\<rparr>]" by (simp add: stack_ok_def)
  moreover have "find_loop G inc opts [\<lparr>pd_node = root, pd_path = [], pd_inherited = 0\<rparr>] [] [] = Ok ms"
    using assms by (simp add: fs_find_def)
  ultimately show ?thesis using find_loop_spec by fastforce
qed

section \<open>Counting lines\<close>

lemma length_text_lines_from:
  "length (text_lines_from cur s) =
     length (filter (\<lambda>c. c = CHR 0x0A) s) + (if s = [] then (if cur = [] then 0 else 1) else if last s = CHR 0x0A then 0 else 1)"
  by (induction s arbitrary: cur) auto

lemma newline_byte: "of_char c = (0x0A :: byte) \<longleftrightarrow> c = CHR 0x0A"
proof
  assume "of_char c = (0x0A :: byte)"
  then have "string_of_bytes (as_bytes [c]) = string_of_bytes [0x0A]" by (simp add: as_bytes_def)
  moreover have "string_of_bytes [0x0A] = [CHR 0x0A]" by code_simp
  ultimately show "c = CHR 0x0A" by (simp add: as_bytes_inverse)
next
  have "of_char (CHR 0x0A) = (0x0A :: byte)" by code_simp
  then show "c = CHR 0x0A \<Longrightarrow> of_char c = (0x0A :: byte)" by simp
qed

text \<open>The two ways of counting lines agree: the number of lines counted in the bytes of a text, by its
  newlines, is the number of lines that searching it goes through.\<close>

theorem counted_lines_are_lines: "count_lines_in_bytes (as_bytes s) = length (text_lines s)"
  by (cases "s = []")
    (simp_all add: count_lines_in_bytes_def text_lines_def length_text_lines_from as_bytes_def filter_map comp_def newline_byte last_map Let_def)

section \<open>Corner cases\<close>

text \<open>The check for absolute paths comes before the leading dot is dropped.\<close>

lemma absolute_path_behind_dot: "normalize_relative_path ''.//etc/passwd'' = Ok ''/etc/passwd''"
  by code_simp

text \<open>A pattern language of exact names and of \<^verbatim>\<open>*\<close>, which matches names without a slash.\<close>

definition plain_glob :: "string glob_ops" where
  "plain_glob = \<lparr>gl_new = Ok, gl_as_str = id, gl_matches = (\<lambda>p t. p = t \<or> p = ''*'' \<and> CHR ''/'' \<notin> set t)\<rparr>"

text \<open>A negated rule for a directory also readmits the files below it that an earlier rule ignores.\<close>

lemma negated_directory_readmits_files:
  "(case parse_gitignore_rules plain_glob (''a.tmp'' @ [CHR 0x0A] @ ''!keep/'' @ [CHR 0x0A]) [] [] of
      Inl _ \<Rightarrow> False
    | Inr rules \<Rightarrow>
        path_is_ignored plain_glob rules ''a.tmp'' False \<and> path_is_ignored plain_glob rules ''src/a.tmp'' False \<and>
        \<not> path_is_ignored plain_glob rules ''keep/a.tmp'' False)"
  by code_simp

text \<open>A tree with rules of its own in a subdirectory, and a sibling that they do not reach.\<close>

definition demo_tree :: fs_node where
  "demo_tree = FsDirectory (IgnoreFile (Ok (as_bytes ''out''))) None
     [(''one'', FsDirectory (IgnoreFile (Ok (as_bytes ''a''))) None [(''a'', FsFile (Ok [])), (''b'', FsFile (Ok []))]),
      (''two'', FsDirectory NoIgnoreFile None [(''a'', FsFile (Ok [])), (''out'', FsFile (Ok []))])]"

lemma demo_find: "fs_find plain_glob [(demo_tree, ''.'')] ''*'' find_options_default =
    Ok [\<lparr>pm_path = ''two/a'', pm_is_dir = False\<rparr>, \<lparr>pm_path = ''one/b'', pm_is_dir = False\<rparr>]"
  by code_simp

theorem find_respects_rules_witness:
  "set [\<lparr>pm_path = ''two/a'', pm_is_dir = False\<rparr>, \<lparr>pm_path = ''one/b'', pm_is_dir = False\<rparr>] =
     {m. reports plain_glob ''*'' find_options_default [] [] demo_tree m}"
  by (rule find_respects_rules [OF demo_find]) (simp_all add: plain_glob_def select_root_preopen_def)

end
