(* ===== verification/Sdk_Http.thy ===== *)
theory Sdk_Http
  imports Sdk_Util
begin

text \<open>
  The SDK's HTTP client and process runner, \<^verbatim>\<open>mitb-sdk/src/lib.rs\<close>: building a request, taking its URL
  apart, the sequence of \<^verbatim>\<open>wasi:http\<close> calls that \<^verbatim>\<open>send\<close> makes with the error each failure becomes, and
  \<^verbatim>\<open>run_process\<close>. What the host's calls answer is an argument.
\<close>

section \<open>Requests\<close>

datatype http_method =
    HttpGet | HttpHead | HttpPost | HttpPut | HttpDelete | HttpConnect | HttpOptions | HttpTrace | HttpPatch
  | HttpOther string

record http_request =
  rq_method :: http_method
  rq_url :: string
  rq_headers :: "(string \<times> byte list) list"
  rq_body :: "byte list"
  rq_connect_timeout :: "duration option"
  rq_first_byte_timeout :: "duration option"
  rq_between_bytes_timeout :: "duration option"

record http_response =
  hr_status :: nat
  hr_headers :: "(string \<times> byte list) list"
  hr_body :: "byte list"

definition http_request_new :: "http_method \<Rightarrow> string \<Rightarrow> http_request" where
  "http_request_new m url =
     \<lparr>rq_method = m, rq_url = url, rq_headers = [], rq_body = [], rq_connect_timeout = None,
      rq_first_byte_timeout = None, rq_between_bytes_timeout = None\<rparr>"

definition http_request_get :: "string \<Rightarrow> http_request" where
  "http_request_get = http_request_new HttpGet"

definition http_request_post :: "string \<Rightarrow> http_request" where
  "http_request_post = http_request_new HttpPost"

definition with_header :: "string \<Rightarrow> byte list \<Rightarrow> http_request \<Rightarrow> http_request" where
  "with_header name value r = r\<lparr>rq_headers := rq_headers r @ [(name, value)]\<rparr>"

definition with_body :: "byte list \<Rightarrow> http_request \<Rightarrow> http_request" where
  "with_body b r = r\<lparr>rq_body := b\<rparr>"

definition with_connect_timeout :: "duration \<Rightarrow> http_request \<Rightarrow> http_request" where
  "with_connect_timeout d r = r\<lparr>rq_connect_timeout := Some d\<rparr>"

definition with_first_byte_timeout :: "duration \<Rightarrow> http_request \<Rightarrow> http_request" where
  "with_first_byte_timeout d r = r\<lparr>rq_first_byte_timeout := Some d\<rparr>"

definition with_between_bytes_timeout :: "duration \<Rightarrow> http_request \<Rightarrow> http_request" where
  "with_between_bytes_timeout d r = r\<lparr>rq_between_bytes_timeout := Some d\<rparr>"

text \<open>\<open>utf8_error\<close> is the \<^verbatim>\<open>Display\<close> of the error of \<^verbatim>\<open>String::from_utf8\<close>.\<close>

definition response_text :: "(byte list \<Rightarrow> string) \<Rightarrow> http_response \<Rightarrow> string + string" where
  "response_text utf8_error r =
     (case from_utf8 (hr_body r) of
        Some t \<Rightarrow> Ok t
      | None \<Rightarrow> Err (''response body was not valid utf-8: '' @ utf8_error (hr_body r)))"

definition response_header :: "string \<Rightarrow> http_response \<Rightarrow> byte list option" where
  "response_header name r =
     map_option snd (find (\<lambda>(n, v). to_ascii_lowercase n = to_ascii_lowercase name) (hr_headers r))"

fun format_method :: "http_method \<Rightarrow> string" where
  "format_method HttpGet = ''GET''"
| "format_method HttpHead = ''HEAD''"
| "format_method HttpPost = ''POST''"
| "format_method HttpPut = ''PUT''"
| "format_method HttpDelete = ''DELETE''"
| "format_method HttpConnect = ''CONNECT''"
| "format_method HttpOptions = ''OPTIONS''"
| "format_method HttpTrace = ''TRACE''"
| "format_method HttpPatch = ''PATCH''"
| "format_method (HttpOther m) = m"

definition format_request_label :: "http_request \<Rightarrow> string" where
  "format_request_label r = format_method (rq_method r) @ '' '' @ rq_url r"

section \<open>URLs\<close>

datatype url_scheme = SchemeHttp | SchemeHttps | SchemeOther string

record parsed_url =
  pu_scheme :: url_scheme
  pu_authority :: string
  pu_path_with_query :: string

definition url_delimiter :: "char \<Rightarrow> bool" where
  "url_delimiter c \<longleftrightarrow> c \<in> {CHR ''/'', CHR ''?'', CHR ''#''}"

definition parse_url :: "string \<Rightarrow> string + parsed_url" where
  "parse_url url =
     (case split_once ''://'' url of
        None \<Rightarrow> Err (''url `'' @ url @ ''` must be absolute and include a scheme'')
      | Some (scheme_text, remainder) \<Rightarrow>
          let scheme = (if scheme_text = ''http'' then SchemeHttp
                        else if scheme_text = ''https'' then SchemeHttps else SchemeOther scheme_text)
          in if remainder = [] then Err (''url `'' @ url @ ''` is missing an authority'')
             else
               let authority = takeWhile (\<lambda>c. \<not> url_delimiter c) remainder;
                   suffix = dropWhile (\<lambda>c. \<not> url_delimiter c) remainder
               in if authority = [] then Err (''url `'' @ url @ ''` is missing an authority'')
                  else if suffix = [] then Ok \<lparr>pu_scheme = scheme, pu_authority = authority, pu_path_with_query = ''/''\<rparr>
                  else if hd suffix = CHR ''/''
                  then Ok \<lparr>pu_scheme = scheme, pu_authority = authority, pu_path_with_query = suffix\<rparr>
                  else if hd suffix = CHR ''?''
                  then Ok \<lparr>pu_scheme = scheme, pu_authority = authority, pu_path_with_query = CHR ''/'' # suffix\<rparr>
                  else Err (''url `'' @ url @ ''` must not include a fragment''))"

section \<open>Sending\<close>

text \<open>The methods of the host's interface.\<close>

datatype wasi_method =
    WasiGet | WasiHead | WasiPost | WasiPut | WasiDelete | WasiConnect | WasiOptions | WasiTrace | WasiPatch
  | WasiOther string

fun into_wasi_method :: "http_method \<Rightarrow> wasi_method" where
  "into_wasi_method HttpGet = WasiGet"
| "into_wasi_method HttpHead = WasiHead"
| "into_wasi_method HttpPost = WasiPost"
| "into_wasi_method HttpPut = WasiPut"
| "into_wasi_method HttpDelete = WasiDelete"
| "into_wasi_method HttpConnect = WasiConnect"
| "into_wasi_method HttpOptions = WasiOptions"
| "into_wasi_method HttpTrace = WasiTrace"
| "into_wasi_method HttpPatch = WasiPatch"
| "into_wasi_method (HttpOther other) = WasiOther other"

lemma into_wasi_method_inject: "into_wasi_method m = into_wasi_method n \<longleftrightarrow> m = n"
  by (cases m; cases n) simp_all

text \<open>What the host answers: setting up headers and options (errors as their \<^verbatim>\<open>Debug\<close> text), accepting
  the parts of the request, how much of the body was not written, and the response.\<close>

record http_host =
  hh_fields :: "(string \<times> byte list) list \<Rightarrow> string + unit"
  hh_connect_timeout :: "nat option \<Rightarrow> string + unit"
  hh_first_byte_timeout :: "nat option \<Rightarrow> string + unit"
  hh_between_bytes_timeout :: "nat option \<Rightarrow> string + unit"
  hh_set_method :: "wasi_method \<Rightarrow> bool"
  hh_set_scheme :: "url_scheme \<Rightarrow> bool"
  hh_set_authority :: "string \<Rightarrow> bool"
  hh_set_path_with_query :: "string \<Rightarrow> bool"
  hh_body_remaining :: "byte list \<Rightarrow> nat"
  hh_send :: "string + http_response"
  hh_trailers :: "string + unit"
  hh_request_result :: "string + unit"

definition build_request_options :: "http_host \<Rightarrow> http_request \<Rightarrow> string + bool" where
  "build_request_options H r =
     (if rq_connect_timeout r = None \<and> rq_first_byte_timeout r = None \<and> rq_between_bytes_timeout r = None
      then Ok False
      else case hh_connect_timeout H (map_option duration_to_nanos_u64 (rq_connect_timeout r)) of
             Inl e \<Rightarrow> Err (''request options were rejected: '' @ e)
           | Inr _ \<Rightarrow>
          (case hh_first_byte_timeout H (map_option duration_to_nanos_u64 (rq_first_byte_timeout r)) of
             Inl e \<Rightarrow> Err (''request options were rejected: '' @ e)
           | Inr _ \<Rightarrow>
          (case hh_between_bytes_timeout H (map_option duration_to_nanos_u64 (rq_between_bytes_timeout r)) of
             Inl e \<Rightarrow> Err (''request options were rejected: '' @ e)
           | Inr _ \<Rightarrow> Ok True)))"

text \<open>The sending of the request with its body, and what follows it.\<close>

definition send_body :: "http_host \<Rightarrow> http_request \<Rightarrow> string + http_response" where
  "send_body H r =
     (let failed = (\<lambda>e. Err (''HTTP request `'' @ format_request_label r @ ''` failed: wasi:http request failed: '' @ e)) in
      if rq_body r \<noteq> [] \<and> hh_body_remaining H (rq_body r) > 0
      then Err (''request body stream stopped before all bytes were written ('' @
             dec_of_nat (hh_body_remaining H (rq_body r)) @ '' bytes remaining)'')
      else case hh_send H of Inl e \<Rightarrow> failed e | Inr response \<Rightarrow> Ok response)"

definition http_send :: "http_host \<Rightarrow> http_request \<Rightarrow> string + http_response" where
  "http_send H r =
     (let label = format_request_label r in
      case parse_url (rq_url r) of
        Inl e \<Rightarrow> Err e
      | Inr u \<Rightarrow>
     (case hh_fields H (rq_headers r) of
        Inl e \<Rightarrow> Err (''failed constructing HTTP request `'' @ label @ ''`: invalid HTTP headers: '' @ e)
      | Inr _ \<Rightarrow>
     (case build_request_options H r of
        Inl e \<Rightarrow> Err (''failed configuring HTTP request `'' @ label @ ''`: '' @ e)
      | Inr _ \<Rightarrow>
      if \<not> hh_set_method H (into_wasi_method (rq_method r)) then Err ''request method was rejected by wasi:http''
      else if \<not> hh_set_scheme H (pu_scheme u) then Err ''request scheme was rejected by wasi:http''
      else if \<not> hh_set_authority H (pu_authority u) then Err ''request authority was rejected by wasi:http''
      else if \<not> hh_set_path_with_query H (pu_path_with_query u) then Err ''request path/query was rejected by wasi:http''
      else (case send_body H r of
              Inl e \<Rightarrow> Err e
            | Inr response \<Rightarrow>
           (case hh_trailers H of
              Inl e \<Rightarrow> Err (''HTTP response trailers for `'' @ label @ ''` failed: wasi:http request failed: '' @ e)
            | Inr _ \<Rightarrow>
           (case hh_request_result H of
              Inl e \<Rightarrow> Err (''HTTP request finalization for `'' @ label @ ''` failed: wasi:http request failed: '' @ e)
            | Inr _ \<Rightarrow> Ok response))))))"

section \<open>Processes\<close>

datatype 'a timeout_outcome = TimeoutCompleted 'a | TimedOut

text \<open>\<^verbatim>\<open>with_timeout\<close>: \<^verbatim>\<open>select\<close> polls the future first, so it wins when both are ready.\<close>

definition with_timeout :: "'a option \<Rightarrow> bool \<Rightarrow> 'a timeout_outcome option" where
  "with_timeout future timer =
     (case future of
        Some v \<Rightarrow> Some (TimeoutCompleted v)
      | None \<Rightarrow> if timer then Some TimedOut else None)"

record guest_exit_status =
  ge_success :: bool
  ge_code :: "nat option"

definition DEFAULT_PROCESS_TIMEOUT :: duration where
  "DEFAULT_PROCESS_TIMEOUT = from_secs (5 * 60)"

text \<open>\<^verbatim>\<open>run_process_with_timeout\<close>, given what spawning, waiting with the limit, and reading the two
  streams of the child gave. The kill that follows an expired limit is fire and forget.\<close>

definition run_process_with_timeout ::
  "string \<Rightarrow> string + unit \<Rightarrow> string + guest_exit_status option \<Rightarrow> string + byte list \<Rightarrow> string + byte list \<Rightarrow>
     string + byte list timeout_outcome" where
  "run_process_with_timeout name spawned waited stdout stderr =
     (case spawned of
        Inl e \<Rightarrow> Err e
      | Inr _ \<Rightarrow>
     (case waited of
        Inl e \<Rightarrow> Err e
      | Inr None \<Rightarrow> Ok TimedOut
      | Inr (Some status) \<Rightarrow>
     (case stdout of
        Inl e \<Rightarrow> Err e
      | Inr stdout_bytes \<Rightarrow>
     (case stderr of
        Inl e \<Rightarrow> Err e
      | Inr stderr_bytes \<Rightarrow>
          if \<not> ge_success status
          then Err (''process `'' @ name @ ''` exited with status '' @
                 (case ge_code status of Some code \<Rightarrow> dec_of_nat code | None \<Rightarrow> ''terminated by signal'') @ '': '' @
                 from_utf8_lossy stderr_bytes)
          else Ok (TimeoutCompleted stdout_bytes)))))"

definition run_process ::
  "string \<Rightarrow> string + unit \<Rightarrow> string + guest_exit_status option \<Rightarrow> string + byte list \<Rightarrow> string + byte list \<Rightarrow>
     string + byte list" where
  "run_process name spawned waited stdout stderr =
     (case run_process_with_timeout name spawned waited stdout stderr of
        Inl e \<Rightarrow> Err e
      | Inr (TimeoutCompleted bytes) \<Rightarrow> Ok bytes
      | Inr TimedOut \<Rightarrow>
          Err (''process `'' @ name @ ''` timed out after '' @
            dec_of_nat (DEFAULT_PROCESS_TIMEOUT div 1000000000) @ '' seconds''))"

section \<open>Properties\<close>

lemma takeWhile_url: "authority = takeWhile (\<lambda>c. \<not> url_delimiter c) s \<Longrightarrow> list_all (\<lambda>c. \<not> url_delimiter c) authority"
  by (auto simp: list_all_iff dest: set_takeWhileD)

text \<open>A URL that is accepted is taken apart without loss: the authority is not empty and has no
  delimiter in it, the path starts with a slash, and the parts put together again give the URL, up
  to the slash added for a missing path.\<close>

theorem parsed_url_is_the_url:
  assumes "parse_url url = Ok u"
  shows "pu_authority u \<noteq> [] \<and> list_all (\<lambda>c. \<not> url_delimiter c) (pu_authority u) \<and>
    (\<exists>scheme. pu_scheme u = (if scheme = ''http'' then SchemeHttp
        else if scheme = ''https'' then SchemeHttps else SchemeOther scheme) \<and>
      (\<exists>path. pu_path_with_query u \<in> {path, CHR ''/'' # path} \<and> hd (pu_path_with_query u) = CHR ''/'' \<and>
         url = scheme @ ''://'' @ pu_authority u @ path))"
proof -
  obtain scheme rest where s: "split_once ''://'' url = Some (scheme, rest)"
    using assms by (auto simp: parse_url_def split: option.splits)
  have url: "url = scheme @ ''://'' @ rest" using split_once_Some [OF s] .
  let ?a = "takeWhile (\<lambda>c. \<not> url_delimiter c) rest" and ?p = "dropWhile (\<lambda>c. \<not> url_delimiter c) rest"
  have rest: "rest = ?a @ ?p" by simp
  have a: "pu_authority u = ?a" "?a \<noteq> []"
    and sch: "pu_scheme u = (if scheme = ''http'' then SchemeHttp
        else if scheme = ''https'' then SchemeHttps else SchemeOther scheme)"
    and p: "pu_path_with_query u \<in> {?p, CHR ''/'' # ?p}" "hd (pu_path_with_query u) = CHR ''/''"
    using assms s by (auto simp: parse_url_def Let_def simp del: dropWhile_eq_Nil_conv split: if_splits)
  have l: "list_all (\<lambda>c. \<not> url_delimiter c) (pu_authority u)" using takeWhile_url [OF a(1)] .
  have "url = scheme @ ''://'' @ pu_authority u @ ?p" using url rest a(1) by simp
  with sch p have "\<exists>path. pu_path_with_query u \<in> {path, CHR ''/'' # path} \<and> hd (pu_path_with_query u) = CHR ''/'' \<and>
      url = scheme @ ''://'' @ pu_authority u @ path" by blast
  with l a sch show ?thesis by metis
qed

theorem parsed_url_is_the_url_witness:
  "\<exists>u. parse_url ''https://host:8080?q=1'' = Ok u \<and> pu_path_with_query u = ''/?q=1'' \<and> pu_authority u \<noteq> []"
proof -
  have "parse_url ''https://host:8080?q=1'' =
      Ok \<lparr>pu_scheme = SchemeHttps, pu_authority = ''host:8080'', pu_path_with_query = ''/?q=1''\<rparr>"
    by code_simp
  from parsed_url_is_the_url [OF this] this show ?thesis by simp
qed

text \<open>The check for fragments only sees one that follows the authority; behind a path it is kept.\<close>

lemma fragment_behind_a_path_is_kept:
  "parse_url ''http://h#f'' = Err ''url `http://h#f` must not include a fragment''"
  "parse_url ''http://h/p#f'' = Ok \<lparr>pu_scheme = SchemeHttp, pu_authority = ''h'', pu_path_with_query = ''/p#f''\<rparr>"
  by code_simp+

end
