(* ===== verification/Sdk_Git.thy ===== *)
theory Sdk_Git
  imports Sdk_Http
begin

text \<open>
  The SDK's git functions, \<^verbatim>\<open>mitb-sdk/src/git.rs\<close>, over a process runner that is passed in: a function of
  the command and its arguments that changes a state, the world, and gives the output or an error.
\<close>

section \<open>Operations\<close>

record git_repo =
  gt_repo_dir :: string

record git_snapshot =
  gs_sha :: string
  gs_branch :: "string option"

definition git_repo_new :: "string \<Rightarrow> git_repo" where
  "git_repo_new dir = \<lparr>gt_repo_dir = dir\<rparr>"

type_synonym 's process_runner = "string \<Rightarrow> string list \<Rightarrow> 's \<Rightarrow> (string + byte list) \<times> 's"

definition git_run :: "git_repo \<Rightarrow> 's process_runner \<Rightarrow> string list \<Rightarrow> 's \<Rightarrow> (string + byte list) \<times> 's" where
  "git_run r run args s = run ''git'' ([''-C'', gt_repo_dir r] @ args) s"

text \<open>\<open>utf8_error\<close> is the text of the error of decoding.\<close>

definition parse_optional_utf8 :: "(byte list \<Rightarrow> string) \<Rightarrow> byte list \<Rightarrow> string \<Rightarrow> string + string option" where
  "parse_optional_utf8 utf8_error bytes label =
     (case from_utf8 bytes of
        None \<Rightarrow> Err (label @ '' output was not utf-8: '' @ utf8_error bytes)
      | Some t \<Rightarrow> Ok (if trim t = [] then None else Some (trim t)))"

definition parse_non_empty_utf8 :: "(byte list \<Rightarrow> string) \<Rightarrow> byte list \<Rightarrow> string \<Rightarrow> string + string" where
  "parse_non_empty_utf8 utf8_error bytes label =
     (case from_utf8 bytes of
        None \<Rightarrow> Err (label @ '' output was not utf-8: '' @ utf8_error bytes)
      | Some t \<Rightarrow> if trim t = [] then Err (label @ '' returned an empty string'') else Ok (trim t))"

definition head_sha :: "(byte list \<Rightarrow> string) \<Rightarrow> git_repo \<Rightarrow> 's process_runner \<Rightarrow> 's \<Rightarrow> (string + string) \<times> 's" where
  "head_sha utf8_error r run s =
     (case git_run r run [''rev-parse'', ''HEAD''] s of
        (Inl e, s) \<Rightarrow> (Err e, s)
      | (Inr bytes, s) \<Rightarrow> (parse_non_empty_utf8 utf8_error bytes ''git rev-parse HEAD'', s))"

definition current_branch :: "(byte list \<Rightarrow> string) \<Rightarrow> git_repo \<Rightarrow> 's process_runner \<Rightarrow> 's \<Rightarrow> (string + string option) \<times> 's" where
  "current_branch utf8_error r run s =
     (case git_run r run [''branch'', ''--show-current''] s of
        (Inl e, s) \<Rightarrow> (Err e, s)
      | (Inr bytes, s) \<Rightarrow> (parse_optional_utf8 utf8_error bytes ''git branch --show-current'', s))"

definition snapshot :: "(byte list \<Rightarrow> string) \<Rightarrow> git_repo \<Rightarrow> 's process_runner \<Rightarrow> 's \<Rightarrow> (string + git_snapshot) \<times> 's" where
  "snapshot utf8_error r run s =
     (case head_sha utf8_error r run s of
        (Inl e, s) \<Rightarrow> (Err e, s)
      | (Inr sha, s) \<Rightarrow>
          (case current_branch utf8_error r run s of
             (Inl e, s) \<Rightarrow> (Err e, s)
           | (Inr branch, s) \<Rightarrow> (Ok \<lparr>gs_sha = sha, gs_branch = branch\<rparr>, s)))"

definition checkout_force :: "git_repo \<Rightarrow> 's process_runner \<Rightarrow> string \<Rightarrow> 's \<Rightarrow> (string + unit) \<times> 's" where
  "checkout_force r run revision s = apfst (map_sum id (\<lambda>_. ())) (git_run r run [''checkout'', ''--force'', revision] s)"

definition switch_create_or_reset :: "git_repo \<Rightarrow> 's process_runner \<Rightarrow> string \<Rightarrow> string \<Rightarrow> 's \<Rightarrow> (string + unit) \<times> 's" where
  "switch_create_or_reset r run branch start_point s =
     apfst (map_sum id (\<lambda>_. ())) (git_run r run [''checkout'', ''--force'', ''-B'', branch, start_point] s)"

definition add_all :: "git_repo \<Rightarrow> 's process_runner \<Rightarrow> 's \<Rightarrow> (string + unit) \<times> 's" where
  "add_all r run s = apfst (map_sum id (\<lambda>_. ())) (git_run r run [''add'', ''-A''] s)"

definition commit_args :: "string \<Rightarrow> bool \<Rightarrow> string list" where
  "commit_args message allow_empty =
     [''-c'', ''commit.gpgsign=false'', ''commit''] @ (if allow_empty then [''--allow-empty''] else []) @ [''-m'', message]"

definition commit_all ::
  "(byte list \<Rightarrow> string) \<Rightarrow> git_repo \<Rightarrow> 's process_runner \<Rightarrow> string \<Rightarrow> bool \<Rightarrow> 's \<Rightarrow> (string + string) \<times> 's" where
  "commit_all utf8_error r run message allow_empty s =
     (case git_run r run (commit_args message allow_empty) s of
        (Inl e, s) \<Rightarrow> (Err e, s)
      | (Inr _, s) \<Rightarrow> head_sha utf8_error r run s)"

section \<open>The commands that are run\<close>

text \<open>A runner that keeps a record of its calls.\<close>

definition recording :: "'s process_runner \<Rightarrow> ((string \<times> string list) list \<times> 's) process_runner" where
  "recording run name args cs = (case run name args (snd cs) of (res, s) \<Rightarrow> (res, fst cs @ [(name, args)], s))"

definition in_repo :: "git_repo \<Rightarrow> string list \<Rightarrow> string \<times> string list" where
  "in_repo r args = (''git'', [''-C'', gt_repo_dir r] @ args)"

lemma git_run_recorded:
  "git_run r (recording run) args (cs, s) = (case git_run r run args s of (res, s) \<Rightarrow> (res, cs @ [in_repo r args], s))"
  by (simp add: git_run_def recording_def in_repo_def split: prod.splits)

text \<open>Every command runs in the repository, nothing follows a command that failed, and a commit is followed
  by asking for the new head, which is what it returns.\<close>

lemma commit_returns_the_head:
  "commit_all utf8_error r (recording run) message allow_empty (cs, s) =
     (case git_run r run (commit_args message allow_empty) s of
        (Inl e, s) \<Rightarrow> (Err e, cs @ [in_repo r (commit_args message allow_empty)], s)
      | (Inr _, s) \<Rightarrow>
          (case head_sha utf8_error r run s of
             (res, s) \<Rightarrow> (res, cs @ [in_repo r (commit_args message allow_empty), in_repo r [''rev-parse'', ''HEAD'']], s)))"
  by (simp add: commit_all_def head_sha_def git_run_recorded split: prod.splits sum.splits)

lemma snapshot_commands:
  "fst (snd (snapshot utf8_error r (recording run) (cs, s))) \<in>
     {cs @ [in_repo r [''rev-parse'', ''HEAD'']], cs @ [in_repo r [''rev-parse'', ''HEAD''], in_repo r [''branch'', ''--show-current'']]}"
  by (auto simp: snapshot_def head_sha_def current_branch_def git_run_recorded split: prod.splits sum.splits)

end
