(* ===== verification/Stream_Bridge.thy ===== *)
theory Stream_Bridge
  imports Prelude
begin

text \<open>
  The streams between a policy and a child process, \<^verbatim>\<open>mitb-host/src/stream_bridge.rs\<close> and the reader
  and writer tasks of \<^verbatim>\<open>mitb-host/src/lib.rs\<close>: a stream of the guest is read into a bounded channel
  (\<^verbatim>\<open>MpscStreamConsumer\<close>) which a task writes to the child's standard input; another task reads the
  child's output into a channel which a stream of the guest is fed from (\<^verbatim>\<open>MpscStreamProducer\<close>).

  tokio's \<^verbatim>\<open>mpsc\<close> channel is a parameter: a record of its operations, with the locale \<open>byte_channel\<close> for
  what they promise.
\<close>

section \<open>Channels\<close>

datatype push_result = Pushed | ChannelFull | ChannelClosed

datatype 'a poll = PollPending | PollReady 'a

record ('t, 'c) mpsc =
  mc_try_send :: "'t \<Rightarrow> 'c \<Rightarrow> push_result \<times> 'c"
  mc_poll_recv :: "'c \<Rightarrow> 't option poll \<times> 'c"
  mc_contents :: "'c \<Rightarrow> 't list"

text \<open>The contract of the channel: sending appends or changes nothing, receiving takes the oldest item,
  and only an empty channel has none to give.\<close>

locale byte_channel =
  fixes M :: "('t, 'c) mpsc"
  assumes try_send_law: "\<And>x c r c'. mc_try_send M x c = (r, c') \<Longrightarrow>
      mc_contents M c' = mc_contents M c @ (if r = Pushed then [x] else [])"
    and poll_recv_item: "\<And>c x c'. mc_poll_recv M c = (PollReady (Some x), c') \<Longrightarrow>
      mc_contents M c = x # mc_contents M c'"
    and poll_recv_none: "\<And>c r c'. mc_poll_recv M c = (r, c') \<Longrightarrow> r = PollPending \<or> r = PollReady None \<Longrightarrow>
      mc_contents M c = [] \<and> mc_contents M c' = []"

section \<open>From a guest stream into a channel\<close>

datatype stream_result = StreamCompleted | StreamDropped | StreamCancelled

text \<open>Sending items until the channel refuses one: why it stopped, and what is left, the refused item first.\<close>

fun push_items :: "('t, 'c) mpsc \<Rightarrow> 't list \<Rightarrow> 'c \<Rightarrow> push_result \<times> 't list \<times> 'c" where
  "push_items M [] c = (Pushed, [], c)"
| "push_items M (x # xs) c =
     (case mc_try_send M x c of
        (Pushed, c) \<Rightarrow> push_items M xs c
      | (r, c) \<Rightarrow> (r, x # xs, c))"

record 't guest_source =
  gs_items :: "'t list"
  gs_read_error :: "string option"

record ('t, 'c) consumer =
  co_tx :: 'c
  co_pending :: "'t list"

text \<open>\<^verbatim>\<open>poll_consume\<close>. The source is read as a whole. A closed channel loses the item it refused.\<close>

definition poll_consume ::
  "('t, 'c) mpsc \<Rightarrow> bool \<Rightarrow> ('t, 'c) consumer \<Rightarrow> 't guest_source \<Rightarrow>
     (string + stream_result) poll \<times> ('t, 'c) consumer \<times> 't guest_source" where
  "poll_consume M finish k src =
     (case push_items M (co_pending k) (co_tx k) of
        (ChannelFull, rest, c) \<Rightarrow> (PollPending, k\<lparr>co_tx := c, co_pending := rest\<rparr>, src)
      | (ChannelClosed, rest, c) \<Rightarrow> (PollReady (Ok StreamDropped), k\<lparr>co_tx := c, co_pending := tl rest\<rparr>, src)
      | (Pushed, rest, c) \<Rightarrow>
          let k = k\<lparr>co_tx := c, co_pending := []\<rparr> in
          if gs_items src \<noteq> [] then
            (case gs_read_error src of
               Some e \<Rightarrow> (PollReady (Err e), k, src)
             | None \<Rightarrow>
                 (case push_items M (gs_items src) c of
                    (ChannelFull, rest, c) \<Rightarrow>
                      (PollPending, k\<lparr>co_tx := c, co_pending := rest\<rparr>, src\<lparr>gs_items := []\<rparr>)
                  | (ChannelClosed, rest, c) \<Rightarrow>
                      (PollReady (Ok StreamDropped), k\<lparr>co_tx := c\<rparr>, src\<lparr>gs_items := []\<rparr>)
                  | (Pushed, rest, c) \<Rightarrow>
                      (PollReady (Ok StreamCompleted), k\<lparr>co_tx := c\<rparr>, src\<lparr>gs_items := []\<rparr>)))
          else if finish then (PollReady (Ok StreamCancelled), k, src)
          else (PollReady (Ok StreamCompleted), k, src))"

section \<open>From a channel into a guest stream\<close>

text \<open>The loop of \<^verbatim>\<open>poll_produce\<close> while \<open>Suc n\<close> more items are wanted; the result carries the buffer
  handed to the destination, if any.\<close>

fun produce_loop ::
  "('t, 'c) mpsc \<Rightarrow> nat \<Rightarrow> 't list \<Rightarrow> 'c \<Rightarrow> stream_result poll \<times> 't list option \<times> 'c" where
  "produce_loop M n buf c =
     (case mc_poll_recv M c of
        (PollReady (Some x), c) \<Rightarrow>
          (case n of
             0 \<Rightarrow> (PollReady StreamCompleted, Some (buf @ [x]), c)
           | Suc n \<Rightarrow> produce_loop M n (buf @ [x]) c)
      | (PollReady None, c) \<Rightarrow>
          (PollReady StreamDropped, if buf = [] then None else Some buf, c)
      | (PollPending, c) \<Rightarrow>
          if buf = [] then (PollPending, None, c) else (PollReady StreamCompleted, Some buf, c))"

definition poll_produce ::
  "('t, 'c) mpsc \<Rightarrow> nat option \<Rightarrow> 'c \<Rightarrow> stream_result poll \<times> 't list option \<times> 'c" where
  "poll_produce M remaining c =
     (let count = (case remaining of None \<Rightarrow> 32 | Some n \<Rightarrow> n) in
      case count of
        0 \<Rightarrow> (PollReady StreamCompleted, None, c)
      | Suc n \<Rightarrow> produce_loop M n [] c)"

section \<open>The tasks of a child process\<close>

text \<open>\<^verbatim>\<open>spawn_output_reader\<close>: every read is an error, the end of the output, or bytes that are sent one by
  one. Sending waits for room, so it fails only when the receiver is gone; \<open>gone\<close> is the number of
  bytes after which it is. The result is that of the task, if it has ended, and what was sent.\<close>

datatype output_read = OutputError string | OutputBytes "byte list"

fun output_reader ::
  "string \<Rightarrow> output_read list \<Rightarrow> nat option \<Rightarrow> byte list \<Rightarrow> (string + unit) option \<times> byte list" where
  "output_reader name [] gone sent = (None, sent)"
| "output_reader name (OutputError e # rs) gone sent =
     (Some (Err (''failed reading child '' @ name @ '': '' @ e)), sent)"
| "output_reader name (OutputBytes bs # rs) gone sent =
     (if bs = [] then (Some (Ok ()), sent)
      else case gone of
             Some n \<Rightarrow>
               if n < length bs then (Some (Ok ()), sent @ take n bs)
               else output_reader name rs (Some (n - length bs)) (sent @ bs)
           | None \<Rightarrow> output_reader name rs None (sent @ bs))"

text \<open>\<^verbatim>\<open>wait_for_stream_completion\<close>: the values the watch channel shows, then its end.\<close>

fun wait_for_stream_completion :: "(string + unit) option list \<Rightarrow> string + unit" where
  "wait_for_stream_completion [] = Ok ()"
| "wait_for_stream_completion (Some r # vs) = r"
| "wait_for_stream_completion (None # vs) = wait_for_stream_completion vs"

text \<open>\<^verbatim>\<open>spawn_stdin_writer\<close>: one batch is what the channel gives at once, up to 4096 bytes.\<close>

definition STDIN_BATCH :: nat where
  "STDIN_BATCH = 4096"

fun fill_batch :: "('t, 'c) mpsc \<Rightarrow> nat \<Rightarrow> 't list \<Rightarrow> 'c \<Rightarrow> 't list \<times> 'c" where
  "fill_batch M 0 buf c = (buf, c)"
| "fill_batch M (Suc n) buf c =
     (case mc_poll_recv M c of
        (PollReady (Some x), c) \<Rightarrow> fill_batch M n (buf @ [x]) c
      | (_, c) \<Rightarrow> (buf, c))"

text \<open>One turn of the task: it waits for a byte, fills the batch and writes it; \<open>None\<close> as the result
  means that the task has ended, because the channel is closed or writing failed.\<close>

definition stdin_writer_turn ::
  "('t, 'c) mpsc \<Rightarrow> ('t list \<Rightarrow> bool) \<Rightarrow> 'c \<Rightarrow> 't list poll option \<times> 'c" where
  "stdin_writer_turn M write_ok c =
     (case mc_poll_recv M c of
        (PollPending, c) \<Rightarrow> (Some PollPending, c)
      | (PollReady None, c) \<Rightarrow> (None, c)
      | (PollReady (Some first), c) \<Rightarrow>
          (case fill_batch M (STDIN_BATCH - 1) [first] c of
             (batch, c) \<Rightarrow> if write_ok batch then (Some (PollReady batch), c) else (None, c)))"

section \<open>Laws\<close>

context byte_channel
begin

lemma push_items_keeps:
  "push_items M xs c = (r, rest, c') \<Longrightarrow> mc_contents M c' @ rest = mc_contents M c @ xs"
proof (induction xs arbitrary: c)
  case (Cons x xs)
  obtain r1 c1 where t: "mc_try_send M x c = (r1, c1)" by fastforce
  show ?case
    using Cons.prems Cons.IH [of c1] try_send_law [OF t] t by (cases r1) auto
qed simp

lemma push_items_rest: "push_items M xs c = (r, rest, c') \<Longrightarrow> r = Pushed \<longleftrightarrow> rest = []"
proof (induction xs arbitrary: c)
  case (Cons x xs)
  obtain r1 c1 where t: "mc_try_send M x c = (r1, c1)" by fastforce
  show ?case using Cons.prems Cons.IH [of c1] t by (cases r1) auto
qed simp

text \<open>Nothing is lost or reordered by consuming, unless the channel is closed.\<close>

lemma poll_consume_keeps:
  assumes "poll_consume M finish k src = (res, k', src')" and "res \<noteq> PollReady (Ok StreamDropped)"
  shows "mc_contents M (co_tx k') @ co_pending k' @ gs_items src' =
    mc_contents M (co_tx k) @ co_pending k @ gs_items src"
proof -
  obtain r1 rest1 c1 where p1: "push_items M (co_pending k) (co_tx k) = (r1, rest1, c1)" by (metis prod_cases3)
  obtain r2 rest2 c2 where p2: "push_items M (gs_items src) c1 = (r2, rest2, c2)" by (metis prod_cases3)
  note k1 = push_items_keeps [OF p1] push_items_rest [OF p1]
  note k2 = push_items_keeps [OF p2] push_items_rest [OF p2]
  show ?thesis
  proof (cases r1)
    case Pushed
    have "mc_contents M c1 = mc_contents M (co_tx k) @ co_pending k" using k1 Pushed by simp
    with assms p1 p2 Pushed k2 show ?thesis
      by (cases r2) (auto simp: poll_consume_def Let_def split: if_splits option.splits)
  qed (use assms p1 k1 in \<open>auto simp: poll_consume_def\<close>)
qed


text \<open>Producing hands out the oldest items, at most as many as were asked for.\<close>

lemma produce_loop_keeps:
  "produce_loop M n buf c = (res, given, c') \<Longrightarrow>
     (case given of None \<Rightarrow> [] | Some b \<Rightarrow> b) @ mc_contents M c' = buf @ mc_contents M c \<and>
     (case given of None \<Rightarrow> 0 | Some b \<Rightarrow> length b) \<le> length buf + Suc n"
proof (induction n arbitrary: buf c)
  case 0
  obtain r c1 where r: "mc_poll_recv M c = (r, c1)" by fastforce
  show ?case
    using 0 poll_recv_item [of c _ c1] poll_recv_none [OF r] r
    by (cases r; cases buf) (auto split: option.splits)
next
  case (Suc n)
  obtain r c1 where r: "mc_poll_recv M c = (r, c1)" by fastforce
  show ?case
    using Suc.prems Suc.IH [of "buf @ [x]" c1 for x] poll_recv_item [of c _ c1] poll_recv_none [OF r] r
    by (cases r; cases buf) (auto split: option.splits)
qed

lemma poll_produce_keeps:
  assumes "poll_produce M remaining c = (res, given, c')"
  shows "(case given of None \<Rightarrow> [] | Some b \<Rightarrow> b) @ mc_contents M c' = mc_contents M c"
proof (cases "case remaining of None \<Rightarrow> 32 | Some n \<Rightarrow> n")
  case 0
  with assms show ?thesis by (simp add: poll_produce_def)
next
  case (Suc n)
  with assms have "produce_loop M n [] c = (res, given, c')" by (simp add: poll_produce_def)
  from produce_loop_keeps [OF this] show ?thesis by simp
qed

lemma fill_batch_keeps:
  "fill_batch M n buf c = (batch, c') \<Longrightarrow> batch @ mc_contents M c' = buf @ mc_contents M c"
proof (induction n arbitrary: buf c)
  case (Suc n)
  obtain r c1 where r: "mc_poll_recv M c = (r, c1)" by fastforce
  show ?case
    using Suc.prems Suc.IH [of "buf @ [x]" c1 for x] poll_recv_item [of c _ c1] poll_recv_none [OF r] r
    by (cases r) (auto split: option.splits)
qed simp

lemma stdin_writer_turn_keeps:
  assumes "stdin_writer_turn M write_ok c = (Some r, c')"
  shows "(case r of PollPending \<Rightarrow> [] | PollReady b \<Rightarrow> b) @ mc_contents M c' = mc_contents M c"
proof -
  obtain r1 c1 where r: "mc_poll_recv M c = (r1, c1)" by fastforce
  have "batch @ mc_contents M c2 = x # mc_contents M c1" if "fill_batch M (STDIN_BATCH - 1) [x] c1 = (batch, c2)" for x batch c2
    using fill_batch_keeps [OF that] by simp
  then show ?thesis
    using assms poll_recv_item [of c _ c1] poll_recv_none [OF r] r
    by (auto simp: stdin_writer_turn_def split: poll.splits option.splits prod.splits if_splits)
qed

end

section \<open>The pipe to a child's standard input\<close>

text \<open>The whole pipe while its tasks live: what the guest has given so far, the part of it not yet read,
  the consumer with its channel, and what the child has been written.\<close>

record ('t, 'c) stdin_pipe =
  sp_given :: "'t list"
  sp_source :: "'t guest_source"
  sp_consumer :: "('t, 'c) consumer"
  sp_written :: "'t list"

inductive pipe_step :: "('t, 'c) mpsc \<Rightarrow> ('t, 'c) stdin_pipe \<Rightarrow> ('t, 'c) stdin_pipe \<Rightarrow> bool" for M where
  GuestGives: "pipe_step M p (p\<lparr>sp_given := sp_given p @ xs,
      sp_source := (sp_source p)\<lparr>gs_items := gs_items (sp_source p) @ xs\<rparr>\<rparr>)"
| Consumes: "poll_consume M finish (sp_consumer p) (sp_source p) = (res, k, src) \<Longrightarrow>
    res \<noteq> PollReady (Ok StreamDropped) \<Longrightarrow> pipe_step M p (p\<lparr>sp_consumer := k, sp_source := src\<rparr>)"
| Writes: "stdin_writer_turn M write_ok (co_tx (sp_consumer p)) = (Some r, c) \<Longrightarrow>
    pipe_step M p (p\<lparr>sp_consumer := (sp_consumer p)\<lparr>co_tx := c\<rparr>,
      sp_written := sp_written p @ (case r of PollPending \<Rightarrow> [] | PollReady batch \<Rightarrow> batch)\<rparr>)"

inductive pipe_reaches :: "('t, 'c) mpsc \<Rightarrow> ('t, 'c) stdin_pipe \<Rightarrow> ('t, 'c) stdin_pipe \<Rightarrow> bool" for M where
  pipe_start: "pipe_reaches M p p"
| pipe_next: "pipe_reaches M p q \<Longrightarrow> pipe_step M q r \<Longrightarrow> pipe_reaches M p r"

definition pipe_init :: "'c \<Rightarrow> ('t, 'c) stdin_pipe" where
  "pipe_init c = \<lparr>sp_given = [], sp_source = \<lparr>gs_items = [], gs_read_error = None\<rparr>,
     sp_consumer = \<lparr>co_tx = c, co_pending = []\<rparr>, sp_written = []\<rparr>"

definition in_pipe :: "('t, 'c) mpsc \<Rightarrow> ('t, 'c) stdin_pipe \<Rightarrow> 't list" where
  "in_pipe M p = mc_contents M (co_tx (sp_consumer p)) @ co_pending (sp_consumer p) @ gs_items (sp_source p)"

context byte_channel
begin

lemma pipe_step_fifo:
  assumes "pipe_step M p q" and "sp_written p @ in_pipe M p = sp_given p"
  shows "sp_written q @ in_pipe M q = sp_given q"
  using assms(1)
proof cases
  case (GuestGives xs)
  with assms(2) show ?thesis by (simp add: in_pipe_def)
next
  case (Consumes finish res k src)
  with assms(2) poll_consume_keeps [OF Consumes(2,3)] show ?thesis by (simp add: in_pipe_def)
next
  case (Writes write_ok r c)
  with assms(2) stdin_writer_turn_keeps [OF Writes(2), symmetric] show ?thesis by (simp add: in_pipe_def)
qed

lemma pipe_fifo:
  assumes "pipe_reaches M p q" and "p = pipe_init c" and "mc_contents M c = []"
  shows "sp_written q @ in_pipe M q = sp_given q"
  using assms
proof (induction rule: pipe_reaches.induct)
  case (pipe_start p)
  then show ?case by (simp add: pipe_init_def in_pipe_def)
next
  case (pipe_next p q r)
  then show ?case using pipe_step_fifo by blast
qed

end


section \<open>A bounded channel\<close>

text \<open>The channel the host creates for a standard stream holds 8192 items: a queue with a flag for the
  other end being gone.\<close>

record 't bounded =
  bq_items :: "'t list"
  bq_closed :: bool

definition bounded_channel :: "nat \<Rightarrow> ('t, 't bounded) mpsc" where
  "bounded_channel cap =
     \<lparr>mc_try_send = (\<lambda>x c. if bq_closed c then (ChannelClosed, c)
        else if length (bq_items c) \<ge> cap then (ChannelFull, c)
        else (Pushed, c\<lparr>bq_items := bq_items c @ [x]\<rparr>)),
      mc_poll_recv = (\<lambda>c. case bq_items c of
          x # xs \<Rightarrow> (PollReady (Some x), c\<lparr>bq_items := xs\<rparr>)
        | [] \<Rightarrow> (if bq_closed c then PollReady None else PollPending, c)),
      mc_contents = bq_items\<rparr>"

interpretation std_stream: byte_channel "bounded_channel cap"
  by unfold_locales (auto simp: bounded_channel_def split: if_splits list.splits)

definition small_channel :: "nat bounded" where
  "small_channel = \<lparr>bq_items = [], bq_closed = False\<rparr>"


end
