(* ===== verification/Child_Process.thy ===== *)
theory Child_Process
  imports Stream_Bridge
begin

text \<open>
  The child processes a policy starts, \<^verbatim>\<open>mitb-host/src/lib.rs\<close>: spawning one and the errors of that,
  taking its output streams, and the concurrent calls of \<^verbatim>\<open>wait\<close>, \<^verbatim>\<open>wait_timeout\<close> and \<^verbatim>\<open>kill\<close> on it.

  The process itself is a parameter: what polling its exit status and killing it answer. Calls in
  progress are tasks, cut at the points where they wait for a lock, a notification or a timer, and
  any sequence of steps of the tasks, of expiring time limits and of the process itself is a run.
\<close>

section \<open>Spawning\<close>

datatype spawn_error_kind = SpawnNotFound | SpawnPermissionDenied | SpawnInvalidCommand | SpawnOther | SpawnIo

record spawn_error =
  se_kind :: spawn_error_kind
  se_message :: string

text \<open>The kinds of \<^verbatim>\<open>std::io::ErrorKind\<close> the code tells apart; every other one by its name.\<close>

datatype io_error_kind = IoNotFound | IoPermissionDenied | IoInvalidInput | IoOther | IoKind string

definition spawn_disabled_error :: spawn_error where
  "spawn_disabled_error =
     \<lparr>se_kind = SpawnPermissionDenied, se_message = ''process spawning disabled by host configuration''\<rparr>"

fun spawn_error_kind_for_io :: "io_error_kind \<Rightarrow> spawn_error_kind" where
  "spawn_error_kind_for_io IoNotFound = SpawnNotFound"
| "spawn_error_kind_for_io IoPermissionDenied = SpawnPermissionDenied"
| "spawn_error_kind_for_io IoInvalidInput = SpawnInvalidCommand"
| "spawn_error_kind_for_io IoOther = SpawnOther"
| "spawn_error_kind_for_io (IoKind _) = SpawnIo"

text \<open>What a process reports on exit, and what the guest is told: the code, an \<^verbatim>\<open>i32\<close>, as a \<^verbatim>\<open>u32\<close>.\<close>

record os_exit =
  oe_success :: bool
  oe_code :: "int option"

record exit_status =
  es_success :: bool
  es_code :: "32 word option"

definition exit_status_from_std :: "os_exit \<Rightarrow> exit_status" where
  "exit_status_from_std s = \<lparr>es_success = oe_success s, es_code = map_option word_of_int (oe_code s)\<rparr>"

text \<open>A receiver behind a lock, which may be poisoned, and may have been taken.\<close>

datatype 'r stream_slot = SlotPoisoned | Slot "'r option"

fun take_stream_receiver :: "string \<Rightarrow> 'r stream_slot \<Rightarrow> (string + 'r) \<times> 'r stream_slot" where
  "take_stream_receiver name SlotPoisoned = (Err (name @ '' stream lock poisoned''), SlotPoisoned)"
| "take_stream_receiver name (Slot None) = (Err (name @ '' stream already taken''), Slot None)"
| "take_stream_receiver name (Slot (Some r)) = (Ok r, Slot None)"

record 'p child_control =
  cc_child :: 'p
  cc_exit :: "(string + exit_status) option"

definition child_control_new :: "'p \<Rightarrow> 'p child_control" where
  "child_control_new p = \<lparr>cc_child = p, cc_exit = None\<rparr>"

record ('p, 'i, 'r) process_child =
  pc_stdin_tx :: 'i
  pc_stdout :: "'r stream_slot"
  pc_stderr :: "'r stream_slot"
  pc_control :: "'p child_control"

text \<open>What \<^verbatim>\<open>Command::spawn\<close> gives: an error of a kind and with a text, or the process with its pipes.\<close>

record ('p, 'i, 'o) spawned =
  sp_process :: 'p
  sp_stdin :: "'i option"
  sp_stdout :: "'o option"
  sp_stderr :: "'o option"

definition no_pipe :: "string \<Rightarrow> string \<Rightarrow> spawn_error" where
  "no_pipe name pipe = \<lparr>se_kind = SpawnOther, se_message = ''process `'' @ name @ ''` did not expose '' @ pipe\<rparr>"

text \<open>\<^verbatim>\<open>spawn_process_child\<close>: \<open>command\<close> is the operating system, \<open>writer\<close> and \<open>reader\<close> start the tasks of
  the pipes (theory \<open>Stream_Bridge\<close>).\<close>

definition spawn_process_child ::
  "(string \<Rightarrow> string list \<Rightarrow> (io_error_kind \<times> string) + ('p, 'i, 'o) spawned) \<Rightarrow> ('i \<Rightarrow> 't) \<Rightarrow> (string \<Rightarrow> 'o \<Rightarrow> 'r) \<Rightarrow>
     string \<Rightarrow> string list \<Rightarrow> spawn_error + ('p, 't, 'r) process_child" where
  "spawn_process_child command writer reader name args =
     (if trim name = [] then Err \<lparr>se_kind = SpawnInvalidCommand, se_message = ''process name cannot be empty''\<rparr>
      else case command name args of
        Inl (kind, e) \<Rightarrow>
          Err \<lparr>se_kind = spawn_error_kind_for_io kind, se_message = ''failed spawning process `'' @ name @ ''`: '' @ e\<rparr>
      | Inr child \<Rightarrow>
     (case sp_stdin child of
        None \<Rightarrow> Err (no_pipe name ''stdin'')
      | Some stdin \<Rightarrow>
     (case sp_stdout child of
        None \<Rightarrow> Err (no_pipe name ''stdout'')
      | Some stdout \<Rightarrow>
     (case sp_stderr child of
        None \<Rightarrow> Err (no_pipe name ''stderr'')
      | Some stderr \<Rightarrow>
          Ok \<lparr>pc_stdin_tx = writer stdin, pc_stdout = Slot (Some (reader ''stdout'' stdout)),
              pc_stderr = Slot (Some (reader ''stderr'' stderr)), pc_control = child_control_new (sp_process child)\<rparr>))))"

section \<open>The interface to the policy\<close>

text \<open>The resource table of the component runtime holds the children under the guest's handles. A handle
  that is not there, and a stream that cannot be taken, is a trap (\<^verbatim>\<open>wasmtime::Error\<close>); \<open>missing\<close> is the table's text for the
  former.\<close>

type_synonym ('p, 'i, 'r) child_table = "(nat, ('p, 'i, 'r) process_child) hashmap"

text \<open>\<^verbatim>\<open>process::spawn\<close>; \<open>push\<close> is the table's choice of a handle, or its refusal. Nothing is started
  when spawning is disabled, so the operating system is asked only in the second branch.\<close>

definition host_spawn ::
  "bool \<Rightarrow> (string + nat) \<Rightarrow> (string \<Rightarrow> string list \<Rightarrow> (io_error_kind \<times> string) + ('p, 'i, 'o) spawned) \<Rightarrow>
     ('i \<Rightarrow> 't) \<Rightarrow> (string \<Rightarrow> 'o \<Rightarrow> 'r) \<Rightarrow> string \<Rightarrow> string list \<Rightarrow> ('p, 't, 'r) child_table \<Rightarrow>
     (string + spawn_error + nat) \<times> ('p, 't, 'r) child_table" where
  "host_spawn disabled push command writer reader name args table =
     (if disabled then (Ok (Err spawn_disabled_error), table)
      else case spawn_process_child command writer reader name args of
             Inl e \<Rightarrow> (Ok (Err e), table)
           | Inr child \<Rightarrow>
               (case push of
                  Inl e \<Rightarrow> (Err e, table)
                | Inr handle \<Rightarrow> (Ok (Ok handle), hm_insert handle child table)))"

definition on_child ::
  "string \<Rightarrow> nat \<Rightarrow> ('p, 'i, 'r) child_table \<Rightarrow> (('p, 'i, 'r) process_child \<Rightarrow> (string + 'a) \<times> ('p, 'i, 'r) process_child) \<Rightarrow>
     (string + 'a) \<times> ('p, 'i, 'r) child_table" where
  "on_child missing handle table f =
     (case hm_get table handle of
        None \<Rightarrow> (Err missing, table)
      | Some child \<Rightarrow> (case f child of (res, child) \<Rightarrow> (res, hm_insert handle child table)))"

definition host_read_stdout :: "string \<Rightarrow> nat \<Rightarrow> ('p, 'i, 'r) child_table \<Rightarrow> (string + 'r) \<times> ('p, 'i, 'r) child_table" where
  "host_read_stdout missing handle table =
     on_child missing handle table (\<lambda>child.
       case take_stream_receiver ''stdout'' (pc_stdout child) of (res, slot) \<Rightarrow> (res, child\<lparr>pc_stdout := slot\<rparr>))"

definition host_read_stderr :: "string \<Rightarrow> nat \<Rightarrow> ('p, 'i, 'r) child_table \<Rightarrow> (string + 'r) \<times> ('p, 'i, 'r) child_table" where
  "host_read_stderr missing handle table =
     on_child missing handle table (\<lambda>child.
       case take_stream_receiver ''stderr'' (pc_stderr child) of (res, slot) \<Rightarrow> (res, child\<lparr>pc_stderr := slot\<rparr>))"

definition host_write_stdin :: "string \<Rightarrow> nat \<Rightarrow> ('p, 'i, 'r) child_table \<Rightarrow> (string + 'i) \<times> ('p, 'i, 'r) child_table" where
  "host_write_stdin missing handle table = on_child missing handle table (\<lambda>child. (Ok (pc_stdin_tx child), child))"

text \<open>Dropping the handle removes the child and hands its control to a task that kills it.\<close>

definition host_drop_child :: "string \<Rightarrow> nat \<Rightarrow> ('p, 'i, 'r) child_table \<Rightarrow> (string + 'p child_control) \<times> ('p, 'i, 'r) child_table" where
  "host_drop_child missing handle table =
     (case hm_get table handle of
        None \<Rightarrow> (Err missing, table)
      | Some child \<Rightarrow> (Ok (pc_control child), hm_remove handle table))"

section \<open>Waiting and killing\<close>

record 'p process_ops =
  po_try_wait :: "'p \<Rightarrow> (string + os_exit option) \<times> 'p"
  po_start_kill :: "'p \<Rightarrow> (string + unit) \<times> 'p"

definition store_child_exit ::
  "string + exit_status \<Rightarrow> 'p child_control \<Rightarrow> (string + exit_status) \<times> 'p child_control" where
  "store_child_exit res c =
     (case cc_exit c of
        Some existing \<Rightarrow> (existing, c)
      | None \<Rightarrow> (res, c\<lparr>cc_exit := Some res\<rparr>))"

text \<open>The points at which a call of \<^verbatim>\<open>wait_for_child\<close> or \<^verbatim>\<open>kill_child\<close> can be interrupted: before it looks
  at the recorded exit, before it polls the process, before it records an exit, while it sleeps.\<close>

datatype child_task =
    WaitCheck | WaitPoll | WaitStore "string + exit_status" | WaitSleep | WaitDone "string + exit_status"
  | WaitTimedOut
  | KillCheck | KillPoll | KillDone "string + unit"

fun wait_for_child :: "'p process_ops \<Rightarrow> child_task \<Rightarrow> 'p child_control \<Rightarrow> child_task \<times> 'p child_control" where
  "wait_for_child P WaitCheck c = (case cc_exit c of Some res \<Rightarrow> (WaitDone res, c) | None \<Rightarrow> (WaitPoll, c))"
| "wait_for_child P WaitPoll c =
     (case po_try_wait P (cc_child c) of
        (Inl e, p) \<Rightarrow> (WaitDone (Err (''failed polling child exit status: '' @ e)), c\<lparr>cc_child := p\<rparr>)
      | (Inr (Some status), p) \<Rightarrow> (WaitStore (Ok (exit_status_from_std status)), c\<lparr>cc_child := p\<rparr>)
      | (Inr None, p) \<Rightarrow> (WaitSleep, c\<lparr>cc_child := p\<rparr>))"
| "wait_for_child P (WaitStore res) c = apfst WaitDone (store_child_exit res c)"
| "wait_for_child P WaitSleep c = (WaitCheck, c)"
| "wait_for_child P task c = (task, c)"

fun kill_child :: "'p process_ops \<Rightarrow> child_task \<Rightarrow> 'p child_control \<Rightarrow> child_task \<times> 'p child_control" where
  "kill_child P KillCheck c = (if cc_exit c \<noteq> None then (KillDone (Ok ()), c) else (KillPoll, c))"
| "kill_child P KillPoll c =
     (case po_try_wait P (cc_child c) of
        (Inl e, p) \<Rightarrow> (KillDone (Err (''failed polling child before kill: '' @ e)), c\<lparr>cc_child := p\<rparr>)
      | (Inr (Some _), p) \<Rightarrow> (KillDone (Ok ()), c\<lparr>cc_child := p\<rparr>)
      | (Inr None, p) \<Rightarrow>
          (case po_start_kill P p of
             (Inl e, p) \<Rightarrow> (KillDone (Err (''failed killing child process: '' @ e)), c\<lparr>cc_child := p\<rparr>)
           | (Inr _, p) \<Rightarrow> (KillDone (Ok ()), c\<lparr>cc_child := p\<rparr>)))"
| "kill_child P task c = (task, c)"

fun is_waiting :: "child_task \<Rightarrow> bool" where
  "is_waiting WaitCheck = True"
| "is_waiting WaitPoll = True"
| "is_waiting (WaitStore _) = True"
| "is_waiting WaitSleep = True"
| "is_waiting _ = False"

text \<open>\<^verbatim>\<open>wait_for_child_timeout\<close>: when its time is over, a wait that has not returned is dropped where it is.\<close>

definition wait_for_child_timeout :: "child_task \<Rightarrow> child_task" where
  "wait_for_child_timeout task = (if is_waiting task then WaitTimedOut else task)"

definition task_step :: "'p process_ops \<Rightarrow> child_task \<Rightarrow> 'p child_control \<Rightarrow> child_task \<times> 'p child_control" where
  "task_step P task c = (if task \<in> {KillCheck, KillPoll} then kill_child P task c else wait_for_child P task c)"

text \<open>A schedule: new calls, steps of calls, expiring limits, and changes of the process by itself.\<close>

datatype 'p child_action = StartWait | StartKill | RunTask nat | Expire nat | World 'p

fun child_exec1 ::
  "'p process_ops \<Rightarrow> 'p child_action \<Rightarrow> 'p child_control \<times> child_task list \<Rightarrow> 'p child_control \<times> child_task list" where
  "child_exec1 P StartWait (c, ts) = (c, ts @ [WaitCheck])"
| "child_exec1 P StartKill (c, ts) = (c, ts @ [KillCheck])"
| "child_exec1 P (RunTask i) (c, ts) =
     (if i < length ts then (case task_step P (ts ! i) c of (t, c) \<Rightarrow> (c, ts[i := t])) else (c, ts))"
| "child_exec1 P (Expire i) (c, ts) = (if i < length ts then (c, ts[i := wait_for_child_timeout (ts ! i)]) else (c, ts))"
| "child_exec1 P (World p) (c, ts) = (c\<lparr>cc_child := p\<rparr>, ts)"

definition child_exec ::
  "'p process_ops \<Rightarrow> 'p child_action list \<Rightarrow> 'p child_control \<times> child_task list \<Rightarrow> 'p child_control \<times> child_task list" where
  "child_exec P acts s = fold (child_exec1 P) acts s"

section \<open>Everyone gets the same answer\<close>

text \<open>What is recorded is an exit that polling reported, and a wait that returned a status returned the
  recorded one; a wait that failed, failed because polling did.\<close>

definition reported :: "'p process_ops \<Rightarrow> exit_status \<Rightarrow> bool" where
  "reported P s \<longleftrightarrow> (\<exists>p p' status. po_try_wait P p = (Ok (Some status), p') \<and> s = exit_status_from_std status)"

lemma reportedI: "po_try_wait P p = (Ok (Some status), p') \<Longrightarrow> reported P (exit_status_from_std status)"
  by (auto simp: reported_def)

fun task_ok :: "'p process_ops \<Rightarrow> 'p child_control \<Rightarrow> child_task \<Rightarrow> bool" where
  "task_ok P c (WaitStore res) = (\<exists>s. res = Ok s \<and> reported P s)"
| "task_ok P c (WaitDone (Inr s)) = (cc_exit c = Some (Ok s))"
| "task_ok P c (WaitDone (Inl e)) =
     (\<exists>p p' e'. po_try_wait P p = (Err e', p') \<and> e = ''failed polling child exit status: '' @ e')"
| "task_ok P c _ = True"

definition child_ok :: "'p process_ops \<Rightarrow> 'p child_control \<times> child_task list \<Rightarrow> bool" where
  "child_ok P s \<longleftrightarrow> (\<forall>res. cc_exit (fst s) = Some res \<longrightarrow> (\<exists>x. res = Ok x \<and> reported P x)) \<and> list_all (task_ok P (fst s)) (snd s)"

lemma task_ok_mono:
  assumes "task_ok P c t" and "\<And>res. cc_exit c = Some res \<Longrightarrow> cc_exit c' = Some res"
  shows "task_ok P c' t"
  using assms by (cases "(P, c, t)" rule: task_ok.cases) auto

lemma task_step_ok:
  assumes "task_step P t c = (t', c')" and "task_ok P c t"
    and "\<forall>res. cc_exit c = Some res \<longrightarrow> (\<exists>x. res = Ok x \<and> reported P x)"
  shows "task_ok P c' t' \<and> (\<forall>res. cc_exit c = Some res \<longrightarrow> cc_exit c' = Some res) \<and>
    (\<forall>res. cc_exit c' = Some res \<longrightarrow> (\<exists>x. res = Ok x \<and> reported P x))"
  using assms
  by (cases t)
    (fastforce simp: task_step_def store_child_exit_def intro: reportedI split: option.splits prod.splits sum.splits if_splits)+

lemma child_exec1_ok:
  assumes "child_ok P s"
  shows "child_ok P (child_exec1 P a s) \<and> (\<forall>res. cc_exit (fst s) = Some res \<longrightarrow> cc_exit (fst (child_exec1 P a s)) = Some res)"
proof -
  obtain c ts where s: "s = (c, ts)" by fastforce
  have ok: "\<forall>res. cc_exit c = Some res \<longrightarrow> (\<exists>x. res = Ok x \<and> reported P x)" "\<And>i. i < length ts \<Longrightarrow> task_ok P c (ts ! i)"
    using assms by (auto simp: s child_ok_def list_all_length)
  show ?thesis
  proof (cases a)
    case (RunTask i)
    show ?thesis
    proof (cases "i < length ts")
      case True
      obtain t c' where st: "task_step P (ts ! i) c = (t, c')" by fastforce
      note n = task_step_ok [OF st ok(2) [OF True] ok(1)]
      have "task_ok P c' (ts[i := t] ! j)" if "j < length ts" for j
        using n that task_ok_mono [OF ok(2) [OF that]] by (cases "i = j") auto
      with n show ?thesis by (simp add: s RunTask True st child_ok_def list_all_length)
    qed (use assms in \<open>simp add: s RunTask\<close>)
  next
    case (Expire i)
    have "task_ok P c (wait_for_child_timeout (ts ! i))" if "i < length ts"
      using ok(2) [OF that] by (simp add: wait_for_child_timeout_def)
    with ok show ?thesis by (auto simp: s Expire child_ok_def list_all_length nth_list_update)
  next
    case (World p)
    have "task_ok P (c\<lparr>cc_child := p\<rparr>) t" if "task_ok P c t" for t
      using that by (rule task_ok_mono) simp
    with assms show ?thesis by (auto simp: s World child_ok_def list_all_iff)
  qed (use assms in \<open>auto simp: s child_ok_def\<close>)
qed

lemma child_exec_ok:
  assumes "child_ok P s"
  shows "child_ok P (child_exec P acts s) \<and> (\<forall>res. cc_exit (fst s) = Some res \<longrightarrow> cc_exit (fst (child_exec P acts s)) = Some res)"
  using assms
proof (induction acts arbitrary: s)
  case (Cons a acts)
  from child_exec1_ok [OF Cons.prems, of a] Cons.IH [of "child_exec1 P a s"] show ?case by (simp add: child_exec_def)
qed (simp add: child_exec_def)

lemma child_ok_init: "child_ok P (child_control_new p, [])"
  by (simp add: child_ok_def child_control_new_def)


text \<open>C14. All who wait for a child are told the same exit status. In every interleaving of waits, waits
  with a limit, kills and whatever the process does, a wait that returned a status returned one that
  polling the process reported, and every other wait that returned a status then or returns one
  later returns the same.\<close>

theorem waiters_agree:
  assumes "child_exec P acts (child_control_new p, []) = (c, ts)" and "i < length ts" and "ts ! i = WaitDone (Ok s)"
    and "child_exec P acts' (c, ts) = (c', ts')" and "j < length ts'" and "ts' ! j = WaitDone (Ok s')"
  shows "s' = s \<and> reported P s \<and> cc_exit c' = Some (Ok s)"
proof -
  have ok: "child_ok P (c, ts)" using child_exec_ok [OF child_ok_init, of P acts p] assms(1) by simp
  then have c: "cc_exit c = Some (Ok s)" using assms(2,3) by (auto simp: child_ok_def list_all_length)
  with ok have "reported P s" by (auto simp: child_ok_def)
  moreover from child_exec_ok [OF ok, of acts'] c assms(4)
  have ok': "child_ok P (c', ts')" and c': "cc_exit c' = Some (Ok s)" by auto
  moreover from ok' assms(5,6) have "cc_exit c' = Some (Ok s')" by (auto simp: child_ok_def list_all_length)
  ultimately show ?thesis by simp
qed

section \<open>Waits return\<close>

text \<open>A set of states of a process that has ended: polling reports its exit, and nothing leads out of it.\<close>

definition ended :: "'p process_ops \<Rightarrow> os_exit \<Rightarrow> 'p set \<Rightarrow> bool" where
  "ended P status Q \<longleftrightarrow>
     (\<forall>p \<in> Q. fst (po_try_wait P p) = Ok (Some status) \<and> snd (po_try_wait P p) \<in> Q)"

fun steps_left :: "child_task \<Rightarrow> nat" where
  "steps_left WaitSleep = 4"
| "steps_left WaitCheck = 3"
| "steps_left WaitPoll = 2"
| "steps_left (WaitStore _) = 1"
| "steps_left _ = 0"

text \<open>A wait under way, or one that has returned a status.\<close>

definition waits_well :: "child_task \<Rightarrow> bool" where
  "waits_well t \<longleftrightarrow> is_waiting t \<or> (\<exists>s. t = WaitDone (Ok s))"

lemma waits_well_done: "waits_well t \<Longrightarrow> steps_left t = 0 \<Longrightarrow> \<exists>s. t = WaitDone (Ok s)"
  by (cases t) (auto simp: waits_well_def)

lemma ended_step:
  assumes "ended P status Q" and "cc_child c \<in> Q" and "child_ok P (c, ts)" and "i < length ts"
    and "task_step P (ts ! i) c = (t, c')"
  shows "cc_child c' \<in> Q \<and> (waits_well (ts ! i) \<longrightarrow> waits_well t \<and> steps_left t \<le> steps_left (ts ! i) - 1)"
proof -
  have poll: "fst (po_try_wait P (cc_child c)) = Ok (Some status)" "snd (po_try_wait P (cc_child c)) \<in> Q"
    using assms(1,2) by (auto simp: ended_def)
  have "cc_exit c = Some res \<Longrightarrow> \<exists>s. res = Ok s" for res using assms(3) by (auto simp: child_ok_def)
  moreover have "task_ok P c u \<Longrightarrow> task_step P u c = (t, c') \<Longrightarrow>
      cc_child c' \<in> Q \<and> (waits_well u \<longrightarrow> waits_well t \<and> steps_left t \<le> steps_left u - 1)" for u
    using calculation assms(2) poll
    by (cases u)
      (auto simp: waits_well_def task_step_def store_child_exit_def split: option.splits prod.splits sum.splits if_splits)
  moreover have "task_ok P c (ts ! i)" using assms(3,4) by (auto simp: child_ok_def list_all_length)
  ultimately show ?thesis using assms(5) by blast
qed

lemma ended_exec:
  assumes "ended P status Q" and "child_ok P (c, ts)" and "cc_child c \<in> Q" and "\<forall>p. World p \<in> set acts \<longrightarrow> p \<in> Q"
    and "i < length ts" and "Expire i \<notin> set acts" and "waits_well (ts ! i)"
    and "steps_left (ts ! i) \<le> count_list acts (RunTask i)"
  shows "\<exists>s. snd (child_exec P acts (c, ts)) ! i = WaitDone (Ok s)"
  using assms(2-)
proof (induction acts arbitrary: c ts)
  case Nil
  then show ?case using waits_well_done by (simp add: child_exec_def)
next
  case (Cons a acts)
  obtain c1 ts1 where e: "child_exec1 P a (c, ts) = (c1, ts1)" by fastforce
  have ok: "child_ok P (c1, ts1)" using child_exec1_ok [OF Cons.prems(1), of a] e by simp
  have "cc_child c1 \<in> Q \<and> i < length ts1 \<and> waits_well (ts1 ! i) \<and> steps_left (ts1 ! i) \<le> count_list acts (RunTask i)"
  proof (cases a)
    case (RunTask j)
    show ?thesis
    proof (cases "j < length ts")
      case True
      obtain t c' where st: "task_step P (ts ! j) c = (t, c')" by fastforce
      note n = ended_step [OF assms(1) Cons.prems(2,1) True st]
      show ?thesis using e n Cons.prems(4,6,7) by (cases "i = j") (auto simp: RunTask True st)
    qed (use e Cons.prems in \<open>auto simp: RunTask\<close>)
  qed (use e Cons.prems in \<open>auto simp: nth_append split: if_splits\<close>)
  with Cons.IH [OF ok] Cons.prems(3,5) e show ?case by (simp add: child_exec_def)
qed

text \<open>C22. Waiting for a process that has ended returns. At any point of any run at which the process has
  ended, in whatever way the other calls are interleaved from then on, a wait under way whose limit
  does not expire returns a status once it has taken four steps.\<close>

theorem waits_return:
  assumes "child_exec P acts (child_control_new p, []) = (c, ts)" and "i < length ts" and "is_waiting (ts ! i)"
    and "ended P status Q" and "cc_child c \<in> Q" and "\<forall>p. World p \<in> set acts' \<longrightarrow> p \<in> Q"
    and "Expire i \<notin> set acts'" and "count_list acts' (RunTask i) \<ge> 4"
  shows "\<exists>s. snd (child_exec P acts' (c, ts)) ! i = WaitDone (Ok s)"
proof (rule ended_exec [OF assms(4) _ assms(5,6,2,7)])
  show "child_ok P (c, ts)" using child_exec_ok [OF child_ok_init, of P acts p] assms(1) by simp
  show "waits_well (ts ! i)" using assms(3) by (simp add: waits_well_def)
  show "steps_left (ts ! i) \<le> count_list acts' (RunTask i)" using assms(8) by (cases "ts ! i") auto
qed

section \<open>A process with two waiters\<close>

text \<open>A process that runs until it is killed or, as \<^verbatim>\<open>World\<close>, ends by itself.\<close>

definition demo_process :: "os_exit option process_ops" where
  "demo_process = \<lparr>po_try_wait = (\<lambda>p. (Ok p, p)),
     po_start_kill = (\<lambda>p. (Ok (), case p of None \<Rightarrow> Some \<lparr>oe_success = False, oe_code = None\<rparr> | Some s \<Rightarrow> Some s))\<rparr>"

definition demo_exit :: os_exit where
  "demo_exit = \<lparr>oe_success = False, oe_code = Some (- 1)\<rparr>"

theorem waiters_agree_witness:
  "\<exists>c ts. child_exec demo_process [StartWait, StartWait, RunTask 0, RunTask 1, World (Some demo_exit), RunTask 1, RunTask 0, RunTask 1]
       (child_control_new None, []) = (c, ts) \<and>
     ts ! 1 = WaitDone (Ok \<lparr>es_success = False, es_code = Some 0xFFFFFFFF\<rparr>) \<and>
     snd (child_exec demo_process [RunTask 0] (c, ts)) ! 0 = WaitDone (Ok \<lparr>es_success = False, es_code = Some 0xFFFFFFFF\<rparr>)"
proof -
  let ?s = "\<lparr>es_success = False, es_code = Some 0xFFFFFFFF\<rparr>"
  let ?acts = "[StartWait, StartWait, RunTask 0, RunTask 1, World (Some demo_exit), RunTask 1, RunTask 0, RunTask 1]"
  have r: "child_exec demo_process ?acts (child_control_new None, []) =
      (\<lparr>cc_child = Some demo_exit, cc_exit = Some (Ok ?s)\<rparr>, [WaitStore (Ok ?s), WaitDone (Ok ?s)])"
    by code_simp
  have r': "child_exec demo_process [RunTask 0] (\<lparr>cc_child = Some demo_exit, cc_exit = Some (Ok ?s)\<rparr>, [WaitStore (Ok ?s), WaitDone (Ok ?s)]) =
      (\<lparr>cc_child = Some demo_exit, cc_exit = Some (Ok ?s)\<rparr>, [WaitDone (Ok ?s), WaitDone (Ok ?s)])"
    by code_simp
  have "?s = ?s \<and> reported demo_process ?s \<and> cc_exit \<lparr>cc_child = Some demo_exit, cc_exit = Some (Ok ?s)\<rparr> = Some (Ok ?s)"
    by (rule waiters_agree [OF r _ _ r', of 1 ?s 0]) simp_all
  with r r' show ?thesis by simp
qed

theorem waits_return_witness:
  "\<exists>s. snd (child_exec demo_process [StartKill, RunTask 0, RunTask 0, RunTask 1, RunTask 0, RunTask 0]
     (\<lparr>cc_child = Some demo_exit, cc_exit = None\<rparr>, [WaitSleep])) ! 0 = WaitDone (Ok s)"
proof -
  have r: "child_exec demo_process [StartWait, RunTask 0, RunTask 0, World (Some demo_exit)] (child_control_new None, []) =
      (\<lparr>cc_child = Some demo_exit, cc_exit = None\<rparr>, [WaitSleep])"
    by code_simp
  show ?thesis
    by (rule waits_return [OF r, where Q = "{Some demo_exit}" and status = demo_exit])
      (simp_all add: ended_def demo_process_def)
qed

end
