(* ===== verification/Host_Runtime.thy ===== *)
theory Host_Runtime
  imports Transcript Policy_Log Child_Process
begin

text \<open>
  The host's main loop, \<^verbatim>\<open>mitb-host/src/runtime.rs\<close>, with the session of the pseudo terminal and the
  options of \<^verbatim>\<open>mitb-host/src/lib.rs\<close>. On every tick the loop looks at the agent, at the shutdown flag
  and at the child, polls the policy and writes the inputs it asks for. The policy is a parameter,
  any component that answers polls; \<open>sdk_guest\<close> is one built with the SDK's macro (theory \<open>Sdk_Util\<close>).
\<close>

section \<open>Options and capabilities\<close>

record host_options =
  ho_policy_component :: string
  ho_command :: string
  ho_command_args :: "string list"
  ho_disable_spawn :: bool
  ho_disable_networking :: bool
  ho_disable_filesystem :: bool
  ho_alias :: "string option"
  ho_poll_interval :: duration
  ho_max_transcript_bytes :: nat
  ho_listening :: bool
  ho_agent :: bool

text \<open>\<^verbatim>\<open>event_sender\<close> and \<^verbatim>\<open>agent\<close> count as present or not; the flag \<^verbatim>\<open>shutdown\<close> is part of the state.\<close>

definition host_options_new :: "string \<Rightarrow> string \<Rightarrow> string list \<Rightarrow> host_options" where
  "host_options_new policy command args =
     \<lparr>ho_policy_component = policy, ho_command = command, ho_command_args = args, ho_disable_spawn = False,
      ho_disable_networking = False, ho_disable_filesystem = False, ho_alias = None,
      ho_poll_interval = from_secs 5, ho_max_transcript_bytes = 512 * 1024, ho_listening = False, ho_agent = False\<rparr>"

datatype uri_scheme = UriHttp | UriHttps | UriOther string

definition is_supported_scheme :: "bool \<Rightarrow> uri_scheme \<Rightarrow> bool" where
  "is_supported_scheme disable_networking scheme =
     (if disable_networking then False else scheme = UriHttp \<or> scheme = UriHttps)"

definition default_scheme :: "bool \<Rightarrow> uri_scheme option" where
  "default_scheme disable_networking = (if disable_networking then None else Some UriHttps)"

text \<open>The calls that configure the policy's WASI context, in order.\<close>

datatype wasi_call =
    InheritStdin | StdoutTo policy_log_state | StderrTo policy_log_state | InheritEnv
  | AllowTcp bool | AllowUdp bool | AllowIpNameLookup bool | SocketAddrCheck bool
  | SetEnv string string | PreopenedDir string string

text \<open>\<^verbatim>\<open>instantiate_policy\<close> up to the context: \<open>home\<close> is the host's home directory, \<open>cwd\<close> the working
  directory or the error of asking for it, \<open>preopen\<close> what opening a directory for the guest answers.\<close>

definition wasi_calls ::
  "string option \<Rightarrow> (string + string) \<Rightarrow> (string \<Rightarrow> string + unit) \<Rightarrow> host_options \<Rightarrow> host_error + wasi_call list" where
  "wasi_calls home cwd preopen opts =
     (let calls = [InheritStdin, StdoutTo (policy_log_writer_new ''stdout''),
                   StderrTo (policy_log_writer_new ''stderr''), InheritEnv];
          calls = calls @ (if ho_disable_networking opts
                           then [AllowTcp False, AllowUdp False, AllowIpNameLookup False, SocketAddrCheck False] else []);
          calls = calls @ (if ho_disable_filesystem opts then []
                           else case home of Some h \<Rightarrow> [SetEnv MITB_HOME_DIR_ENV h] | None \<Rightarrow> []);
          calls = calls @ (case ho_alias opts of Some a \<Rightarrow> [SetEnv MITB_ALIAS_ENV a] | None \<Rightarrow> [])
      in if ho_disable_filesystem opts then Ok calls
         else case cwd of
           Inl e \<Rightarrow> Err (HostIo e)
         | Inr dir \<Rightarrow>
             (case preopen dir of
                Inl e \<Rightarrow> Err (HostWasmtime e)
              | Inr _ \<Rightarrow> Ok (calls @ [PreopenedDir dir ''.''])))"

section \<open>The pseudo terminal's session\<close>

definition PTY_COLS :: nat where "PTY_COLS = 72"
definition PTY_ROWS :: nat where "PTY_ROWS = 27"

text \<open>The terminal library: opening a pair of the given size, and what is done with it.\<close>

record 'w pty_system =
  py_openpty :: "nat \<Rightarrow> nat \<Rightarrow> string + unit"
  py_cwd :: "string + string"
  py_spawn :: "string \<Rightarrow> string list \<Rightarrow> string \<Rightarrow> string + unit"
  py_clone_reader :: "string + unit"
  py_take_writer :: "string + 'w"

definition pty_spawn :: "'w pty_system \<Rightarrow> host_options \<Rightarrow> host_error + 'w pty_writer" where
  "pty_spawn Y opts =
     (case py_openpty Y PTY_ROWS PTY_COLS of
        Inl e \<Rightarrow> Err (HostWasmtime e)
      | Inr _ \<Rightarrow>
     (case py_cwd Y of
        Inl e \<Rightarrow> Err (HostIo e)
      | Inr cwd \<Rightarrow>
     (case py_spawn Y (ho_command opts) (ho_command_args opts) cwd of
        Inl e \<Rightarrow> Err (HostWasmtime e)
      | Inr _ \<Rightarrow>
     (case py_clone_reader Y of
        Inl e \<Rightarrow> Err (HostWasmtime e)
      | Inr _ \<Rightarrow> map_sum HostWasmtime Some (py_take_writer Y)))))"

text \<open>\<^verbatim>\<open>child_exited\<close>: the child is behind a lock, which may be poisoned, and polling it may fail.\<close>

definition child_exited :: "bool \<Rightarrow> string + bool \<Rightarrow> host_error + bool" where
  "child_exited poisoned try_wait =
     (if poisoned then Err (PoisonedLock ''child'') else map_sum HostIo id try_wait)"

record pty_end =
  pe_poisoned :: bool
  pe_try_wait :: "string + bool"
  pe_kill :: "string + unit"
  pe_wait :: "string + unit"
  pe_reader :: "host_error + unit"

text \<open>\<^verbatim>\<open>terminate\<close>: its result, and whether the child had exited or was killed and waited for.\<close>

definition pty_terminate :: "pty_end \<Rightarrow> (host_error + unit) \<times> bool" where
  "pty_terminate e =
     (if pe_poisoned e then (Err (PoisonedLock ''child''), False)
      else case pe_try_wait e of
        Inl x \<Rightarrow> (Err (HostIo x), False)
      | Inr True \<Rightarrow> (pe_reader e, True)
      | Inr False \<Rightarrow>
          (case pe_kill e of
             Inl x \<Rightarrow> (Err (HostIo x), False)
           | Inr _ \<Rightarrow>
               (case pe_wait e of
                  Inl x \<Rightarrow> (Err (HostIo x), False)
                | Inr _ \<Rightarrow> (pe_reader e, True))))"

section \<open>The loop\<close>

datatype policy_action = Perturb "pty_input list" | ActionWait

text \<open>A guest answers a poll, seeing the transcript and the clock, or traps.\<close>

type_synonym 'g guest = "shared_transcript \<Rightarrow> nat \<Rightarrow> 'g \<Rightarrow> (host_error + string + policy_action) \<times> 'g"

text \<open>What a tick finds: a fatal event of the agent, the application's request to stop, the child, the
  transcript and the time.\<close>

record host_tick =
  tk_fatal :: "string option"
  tk_shutdown :: bool
  tk_poisoned :: bool
  tk_try_wait :: "string + bool"
  tk_transcript :: shared_transcript
  tk_now :: nat

record ('g, 'w) host_state =
  hx_guest :: 'g
  hx_writer :: "'w pty_writer"
  hx_effects :: "pty_effect list"
  hx_events :: "host_event list"
  hx_shutdown :: bool

datatype tick_end = TickNext | TickBreak | TickReturn host_error

definition host_send :: "host_options \<Rightarrow> host_event \<Rightarrow> ('g, 'w) host_state \<Rightarrow> ('g, 'w) host_state" where
  "host_send opts e s = (if ho_listening opts then s\<lparr>hx_events := hx_events s @ [e]\<rparr> else s)"

definition host_poll ::
  "host_options \<Rightarrow> 'w writer_ops \<Rightarrow> 'g guest \<Rightarrow> host_tick \<Rightarrow> ('g, 'w) host_state \<Rightarrow> tick_end \<times> ('g, 'w) host_state" where
  "host_poll opts W guest tk s =
     (case guest (tk_transcript tk) (tk_now tk) (hx_guest s) of
        (Inl e, g) \<Rightarrow> (TickReturn e, s\<lparr>hx_guest := g\<rparr>)
      | (Inr (Inl e), g) \<Rightarrow>
          (TickReturn (HostPolicy e), host_send opts (SessionEnded (''policy error: '' @ e)) (s\<lparr>hx_guest := g\<rparr>))
      | (Inr (Inr ActionWait), g) \<Rightarrow> (TickNext, s\<lparr>hx_guest := g\<rparr>)
      | (Inr (Inr (Perturb inputs)), g) \<Rightarrow>
          (case write_inputs W inputs (hx_writer s) of
             (res, w, fx) \<Rightarrow>
               (case res of Inl e \<Rightarrow> TickReturn e | Inr _ \<Rightarrow> TickNext,
                s\<lparr>hx_guest := g, hx_writer := w, hx_effects := hx_effects s @ fx\<rparr>)))"

definition host_tick ::
  "host_options \<Rightarrow> 'w writer_ops \<Rightarrow> 'g guest \<Rightarrow> host_tick \<Rightarrow> ('g, 'w) host_state \<Rightarrow> tick_end \<times> ('g, 'w) host_state" where
  "host_tick opts W guest tk s =
     (let s = s\<lparr>hx_shutdown := hx_shutdown s \<or> tk_shutdown tk\<rparr> in
      case (if ho_agent opts then tk_fatal tk else None) of
        Some message \<Rightarrow> (TickReturn (HostAgent message), s\<lparr>hx_shutdown := True\<rparr>)
      | None \<Rightarrow>
          if hx_shutdown s
          then (TickBreak, host_send opts (SessionEnded ''shutdown requested by application'') s)
          else case child_exited (tk_poisoned tk) (tk_try_wait tk) of
                 Inl e \<Rightarrow> (TickReturn e, s)
               | Inr True \<Rightarrow> (TickBreak, host_send opts (SessionEnded ''child process exited'') s)
               | Inr False \<Rightarrow> host_poll opts W guest tk s)"

text \<open>The loop over the ticks that have passed.\<close>

fun host_loop ::
  "host_options \<Rightarrow> 'w writer_ops \<Rightarrow> 'g guest \<Rightarrow> host_tick list \<Rightarrow> ('g, 'w) host_state \<Rightarrow> tick_end \<times> ('g, 'w) host_state" where
  "host_loop opts W guest [] s = (TickNext, s)"
| "host_loop opts W guest (tk # tks) s =
     (case host_tick opts W guest tk s of
        (TickNext, s) \<Rightarrow> host_loop opts W guest tks s
      | (r, s) \<Rightarrow> (r, s))"

text \<open>How a run stands: its result, if it has returned, what it did to the terminal's child, and the state.\<close>

record ('g, 'w) host_run_result =
  hr_result :: "(host_error + unit) option"
  hr_child_down :: bool
  hr_state :: "('g, 'w) host_state option"

definition host_run ::
  "host_options \<Rightarrow> 'w writer_ops \<Rightarrow> 'g guest \<Rightarrow> host_error + 'g \<Rightarrow> 'w pty_system \<Rightarrow> host_tick list \<Rightarrow> pty_end \<Rightarrow>
     ('g, 'w) host_run_result" where
  "host_run opts W guest instantiate Y ticks e =
     (case instantiate of
        Inl x \<Rightarrow> \<lparr>hr_result = Some (Err x), hr_child_down = False, hr_state = None\<rparr>
      | Inr g \<Rightarrow>
     (case pty_spawn Y opts of
        Inl x \<Rightarrow> \<lparr>hr_result = Some (Err x), hr_child_down = False, hr_state = None\<rparr>
      | Inr w \<Rightarrow>
     (case host_loop opts W guest ticks
         \<lparr>hx_guest = g, hx_writer = w, hx_effects = [], hx_events = [], hx_shutdown = False\<rparr> of
        (TickNext, s) \<Rightarrow> \<lparr>hr_result = None, hr_child_down = False, hr_state = Some s\<rparr>
      | (TickReturn x, s) \<Rightarrow> \<lparr>hr_result = Some (Err x), hr_child_down = False, hr_state = Some s\<rparr>
      | (TickBreak, s) \<Rightarrow>
          (case pty_terminate e of
             (res, down) \<Rightarrow>
               \<lparr>hr_result = Some res, hr_child_down = down,
                hr_state = Some (host_send opts Disconnected (s\<lparr>hx_shutdown := True\<rparr>))\<rparr>))))"

section \<open>A guest built with the SDK\<close>

fun host_error_text :: "host_error \<Rightarrow> string" where
  "host_error_text (HostIo e) = ''I/O error: '' @ e"
| "host_error_text (HostWasmtime e) = ''component runtime error: '' @ e"
| "host_error_text (HostJoin e) = ''task join error: '' @ e"
| "host_error_text (HostPolicy e) = ''policy error: '' @ e"
| "host_error_text (HostAgent e) = ''agent transport error: '' @ e"
| "host_error_text (PoisonedLock n) = ''mutex for `'' @ n @ ''` is poisoned''"
| "host_error_text (MissingExport n) = ''missing generated export: '' @ n"

definition DEFAULT_TERMINAL_MAX_BYTES :: nat where
  "DEFAULT_TERMINAL_MAX_BYTES = 512 * 1024"

text \<open>\<^verbatim>\<open>terminal::snapshot\<close> of the host, and the poll of a session over it.\<close>

definition terminal_snapshot :: "shared_transcript \<Rightarrow> nat \<Rightarrow> string + byte list" where
  "terminal_snapshot t max_bytes = map_sum host_error_text id (transcript_snapshot_bytes t max_bytes)"

definition sdk_guest :: "('p \<Rightarrow> string \<Rightarrow> (string + policy_action) \<times> 'p) \<Rightarrow> 'p policy_session guest" where
  "sdk_guest act t now s =
     apfst Ok (session_poll act ActionWait (terminal_snapshot t DEFAULT_TERMINAL_MAX_BYTES) now s)"


section \<open>How a run ends\<close>

lemma host_poll_end:
  assumes "host_poll opts W guest tk s = (r, s')"
  shows "hx_shutdown s' = hx_shutdown s \<and> r \<noteq> TickBreak \<and>
    (hx_events s' = hx_events s \<or>
     (\<exists>e. r = TickReturn (HostPolicy e) \<and> hx_events s' = hx_events s @ [SessionEnded (''policy error: '' @ e)]))"
  using assms
  by (auto simp: host_poll_def host_send_def split: prod.splits sum.splits policy_action.splits if_splits)

lemma host_tick_end:
  assumes "host_tick opts W guest tk s = (r, s')"
  shows "(r = TickNext \<longrightarrow> hx_events s' = hx_events s \<and> \<not> hx_shutdown s') \<and>
    (r = TickBreak \<longrightarrow> (\<exists>reason. hx_events s' = hx_events s @ (if ho_listening opts then [SessionEnded reason] else []))) \<and>
    (\<forall>x. r = TickReturn x \<longrightarrow>
       hx_events s' = hx_events s \<or>
       (\<exists>e. x = HostPolicy e \<and> hx_events s' = hx_events s @ [SessionEnded (''policy error: '' @ e)]))"
proof -
  let ?s = "s\<lparr>hx_shutdown := hx_shutdown s \<or> tk_shutdown tk\<rparr>"
  show ?thesis
  proof (cases "(if ho_agent opts then tk_fatal tk else None) = None \<and> \<not> hx_shutdown ?s \<and>
      child_exited (tk_poisoned tk) (tk_try_wait tk) = Inr False")
    case True
    then have "host_poll opts W guest tk ?s = (r, s')" "\<not> hx_shutdown ?s"
      using assms by (auto simp: host_tick_def Let_def split: if_splits)
    with host_poll_end [OF this(1)] show ?thesis
      by (auto simp: host_poll_def split: prod.splits sum.splits policy_action.splits)
  next
    case False
    with assms show ?thesis
      by (auto simp: host_tick_def host_send_def Let_def split: option.splits if_splits sum.splits bool.splits)
  qed
qed


text \<open>The terms in which a run that has started can end, or still go on.\<close>

definition run_goes_on :: "('g, 'w) host_run_result \<Rightarrow> ('g, 'w) host_state \<Rightarrow> bool" where
  "run_goes_on r s \<longleftrightarrow> hr_result r = None \<and> hx_events s = [] \<and> \<not> hr_child_down r"

definition run_ended :: "pty_end \<Rightarrow> ('g, 'w) host_run_result \<Rightarrow> ('g, 'w) host_state \<Rightarrow> bool" where
  "run_ended e r s \<longleftrightarrow> hr_result r = Some (fst (pty_terminate e)) \<and> hr_child_down r = snd (pty_terminate e) \<and>
     hx_shutdown s \<and> (\<exists>reason. hx_events s = [SessionEnded reason, Disconnected])"

definition run_failed :: "('g, 'w) host_run_result \<Rightarrow> ('g, 'w) host_state \<Rightarrow> bool" where
  "run_failed r s \<longleftrightarrow> \<not> hr_child_down r \<and>
     (\<exists>x. hr_result r = Some (Err x) \<and>
        (hx_events s = [] \<or> (\<exists>m. x = HostPolicy m \<and> hx_events s = [SessionEnded (''policy error: '' @ m)])))"

lemma host_loop_end:
  assumes "host_loop opts W guest tks s = (r, s')" and "ho_listening opts"
  shows "(r = TickNext \<longrightarrow> hx_events s' = hx_events s) \<and>
    (r = TickBreak \<longrightarrow> (\<exists>reason. hx_events s' = hx_events s @ [SessionEnded reason])) \<and>
    (\<forall>x. r = TickReturn x \<longrightarrow>
       hx_events s' = hx_events s \<or>
       (\<exists>e. x = HostPolicy e \<and> hx_events s' = hx_events s @ [SessionEnded (''policy error: '' @ e)]))"
  using assms(1)
proof (induction tks arbitrary: s)
  case (Cons tk tks)
  obtain r1 s1 where t: "host_tick opts W guest tk s = (r1, s1)" by fastforce
  note e = host_tick_end [OF t]
  show ?case
  proof (cases r1)
    case TickNext
    with t Cons.prems have "host_loop opts W guest tks s1 = (r, s')" by simp
    from Cons.IH [OF this] e TickNext show ?thesis by simp
  qed (use e t Cons.prems assms(2) in auto)
qed simp


section \<open>From the child's screen to the child's input\<close>

text \<open>What a policy answers to a sequence of screens, and the bytes an answer stands for.\<close>

fun acted :: "('p \<Rightarrow> string \<Rightarrow> (string + policy_action) \<times> 'p) \<Rightarrow> string list \<Rightarrow> 'p \<Rightarrow> (string + policy_action) list" where
  "acted act [] q = []"
| "acted act (contents # screens) q = fst (act q contents) # acted act screens (snd (act q contents))"

fun action_bytes :: "string + policy_action \<Rightarrow> byte list" where
  "action_bytes (Inr (Perturb is)) = concat (map input_payload is)"
| "action_bytes _ = []"

definition quiet :: "host_tick \<Rightarrow> bool" where
  "quiet tk \<longleftrightarrow> tk_fatal tk = None \<and> \<not> tk_shutdown tk \<and> \<not> tk_poisoned tk \<and> tk_try_wait tk = Ok False \<and>
     tk_transcript tk \<noteq> None"

definition seen :: "host_tick \<Rightarrow> byte list \<times> nat" where
  "seen tk = (case tk_transcript tk of
     None \<Rightarrow> ([], tk_now tk)
   | Some t \<Rightarrow> (drop (length (tr_bytes t) - DEFAULT_TERMINAL_MAX_BYTES) (tr_bytes t), tk_now tk))"

lemma snapshot_seen: "quiet tk \<Longrightarrow> terminal_snapshot (tk_transcript tk) DEFAULT_TERMINAL_MAX_BYTES = Ok (fst (seen tk))"
  by (auto simp: quiet_def seen_def terminal_snapshot_def transcript_snapshot_bytes_def Let_def min_def)

lemma snd_seen: "snd (seen tk) = tk_now tk"
  by (simp add: seen_def split: option.splits)

lemma settled_screens_append: "\<exists>zs. settled_screens (ps @ qs) = settled_screens ps @ zs"
proof (induction qs rule: rev_induct)
  case (snoc x qs)
  then obtain zs where "settled_screens (ps @ qs) = settled_screens ps @ zs" by blast
  with settled_screens_snoc [of "ps @ qs" "fst x" "snd x"] show ?case by simp
qed simp

lemma quiet_tick:
  assumes "device_works W received" and "quiet tk" and "\<forall>q contents. \<not> isl (fst (act q contents))"
    and "hx_guest s = \<lparr>ps_idle = tracker_of ps, ps_policy = q\<rparr>" and "hx_writer s = Some d" and "\<not> hx_shutdown s"
    and "screens = (if settled (ps @ [seen tk]) (length ps) then [from_utf8_lossy (fst (seen tk))] else [])"
  shows "\<exists>s' d'. host_tick opts W (sdk_guest act) tk s = (TickNext, s') \<and>
    hx_guest s' = \<lparr>ps_idle = tracker_of (ps @ [seen tk]), ps_policy = fold (\<lambda>contents q. snd (act q contents)) screens q\<rparr> \<and>
    hx_writer s' = Some d' \<and> received d' = received d @ concat (map action_bytes (acted act screens q)) \<and> \<not> hx_shutdown s'"
proof -
  obtain bs where bs: "seen tk = (bs, tk_now tk)" using snd_seen [of tk] by (cases "seen tk") auto
  have tick: "host_tick opts W (sdk_guest act) tk s = host_poll opts W (sdk_guest act) tk (s\<lparr>hx_shutdown := False\<rparr>)"
    using assms(2,6) by (simp add: host_tick_def quiet_def child_exited_def)
  note snap = snapshot_seen [OF assms(2), unfolded bs fst_conv]
  show ?thesis
  proof (cases "settled (ps @ [seen tk]) (length ps)")
    case False
    then show ?thesis unfolding tick using assms(4-7)
      by (simp add: host_poll_def sdk_guest_def snap session_poll_def detect_idle_tracker bs Let_def)
  next
    case True
    obtain a q' where a: "act q (from_utf8_lossy bs) = (Inr a, q')"
      using assms(3) by (metis prod.collapse sum.collapse(2))
    show ?thesis
    proof (cases a)
      case ActionWait
      with True show ?thesis unfolding tick using assms(4-7)
        by (simp add: host_poll_def sdk_guest_def snap session_poll_def detect_idle_tracker bs Let_def a)
    next
      case (Perturb inputs)
      obtain d' where "write_inputs W inputs (Some d) = (Ok (), Some d', inputs_effects None inputs)"
        and "received d' = received d @ concat (map input_payload inputs)"
        using write_inputs_from_works [OF assms(1), of None inputs d] by (auto simp: write_inputs_def)
      with Perturb True show ?thesis unfolding tick using assms(4-7)
        by (simp add: host_poll_def sdk_guest_def snap session_poll_def detect_idle_tracker bs Let_def a)
    qed
  qed
qed


lemma fold_acted: "acted act (xs @ ys) q = acted act xs q @ acted act ys (fold (\<lambda>contents q. snd (act q contents)) xs q)"
  by (induction xs arbitrary: q) auto

lemma quiet_loop:
  assumes "device_works W received" and "\<forall>q contents. \<not> isl (fst (act q contents))" and "\<forall>tk \<in> set ticks. quiet tk"
    and "hx_guest s = \<lparr>ps_idle = tracker_of ps, ps_policy = q\<rparr>" and "hx_writer s = Some d" and "\<not> hx_shutdown s"
    and "settled_screens (ps @ map seen ticks) = settled_screens ps @ screens"
  shows "\<exists>s' d'. host_loop opts W (sdk_guest act) ticks s = (TickNext, s') \<and> hx_writer s' = Some d' \<and>
    received d' = received d @ concat (map action_bytes (acted act screens q))"
  using assms(3-)
proof (induction ticks arbitrary: s ps q d screens)
  case (Cons tk ticks)
  obtain bs now where bs: "seen tk = (bs, now)" by fastforce
  define now_screens where "now_screens = (if settled (ps @ [seen tk]) (length ps) then [from_utf8_lossy (fst (seen tk))] else [])"
  obtain s1 d1 where t: "host_tick opts W (sdk_guest act) tk s = (TickNext, s1)"
    and g: "hx_guest s1 = \<lparr>ps_idle = tracker_of (ps @ [seen tk]), ps_policy = fold (\<lambda>contents q. snd (act q contents)) now_screens q\<rparr>"
    and w: "hx_writer s1 = Some d1" "received d1 = received d @ concat (map action_bytes (acted act now_screens q))"
    and sh: "\<not> hx_shutdown s1"
    using quiet_tick [OF assms(1) _ assms(2) Cons.prems(2-4) now_screens_def, of opts] Cons.prems(1) by auto
  obtain zs where zs: "settled_screens ((ps @ [seen tk]) @ map seen ticks) = settled_screens (ps @ [seen tk]) @ zs"
    using settled_screens_append by blast
  moreover have "settled_screens (ps @ [seen tk]) = settled_screens ps @ now_screens"
    by (simp add: bs settled_screens_snoc now_screens_def)
  ultimately have "screens = now_screens @ zs" using Cons.prems(5) by simp
  with Cons.IH [OF _ g w(1) sh zs] Cons.prems(1) t w(2) show ?case by (auto simp: fold_acted)
qed (simp_all add: acted.simps)


section \<open>Concrete runs\<close>

definition demo_tick :: "byte list \<Rightarrow> nat \<Rightarrow> host_tick" where
  "demo_tick bs now = \<lparr>tk_fatal = None, tk_shutdown = False, tk_poisoned = False, tk_try_wait = Ok False,
     tk_transcript = Some \<lparr>tr_start = 0, tr_bytes = bs\<rparr>, tk_now = now\<rparr>"

text \<open>A policy that counts its turns and answers each with the screen and Enter.\<close>

definition demo_policy :: "nat \<Rightarrow> string \<Rightarrow> (string + policy_action) \<times> nat" where
  "demo_policy n contents = (Ok (Perturb [InputText contents, InputKey Enter]), Suc n)"

definition demo_ticks :: "host_tick list" where
  "demo_ticks = [demo_tick [97] 0, demo_tick [97] 2000000000, demo_tick [97] 6000000000, demo_tick [98] 8000000000,
     demo_tick [98] 10000000000]"

definition demo_host_state :: "(nat policy_session, byte list) host_state" where
  "demo_host_state = \<lparr>hx_guest = session_start 0, hx_writer = Some [], hx_effects = [], hx_events = [], hx_shutdown = False\<rparr>"



end
