(* ===== verification/Sdk_Terminal.thy ===== *)
theory Sdk_Terminal
  imports Host_Runtime
begin

text \<open>
  The functions the SDK's prelude gives a policy for the terminal and for its standard streams,
  \<^verbatim>\<open>mitb-sdk/src/lib.rs\<close>, and the imports behind them, \<^verbatim>\<open>mitb-host/src/lib.rs\<close>: reading what the child wrote since a
  cursor, as bytes and as text, and printing and logging lines.
\<close>

section \<open>The imports of the host\<close>

text \<open>\<^verbatim>\<open>terminal::head\<close> traps on a poisoned lock; \<^verbatim>\<open>terminal::read_since\<close> returns an error.\<close>

definition import_head :: "shared_transcript \<Rightarrow> string + nat" where
  "import_head t = map_sum host_error_text id (transcript_head t)"

definition import_read_since :: "shared_transcript \<Rightarrow> nat \<Rightarrow> nat \<Rightarrow> string + nat \<times> byte list" where
  "import_read_since t cursor max_bytes = map_sum host_error_text id (transcript_bytes_since t cursor max_bytes)"

text \<open>A call on a child: the control of the child, shared with the table, and the task it starts; a handle that
  is not there traps.\<close>

definition import_control :: "string \<Rightarrow> nat \<Rightarrow> ('p, 'i, 'r) child_table \<Rightarrow> string + 'p child_control" where
  "import_control missing handle table =
     (case hm_get table handle of None \<Rightarrow> Err missing | Some child \<Rightarrow> Ok (pc_control child))"

definition import_wait :: "string \<Rightarrow> nat \<Rightarrow> ('p, 'i, 'r) child_table \<Rightarrow> string + 'p child_control \<times> child_task" where
  "import_wait missing handle table = map_sum id (\<lambda>control. (control, WaitCheck)) (import_control missing handle table)"

text \<open>The same task with a limit, in nanoseconds, at which the schedule drops it.\<close>

definition import_wait_timeout ::
  "string \<Rightarrow> nat \<Rightarrow> 64 word \<Rightarrow> ('p, 'i, 'r) child_table \<Rightarrow> string + 'p child_control \<times> child_task \<times> duration" where
  "import_wait_timeout missing handle timeout_ns table =
     map_sum id (\<lambda>control. (control, WaitCheck, unat timeout_ns)) (import_control missing handle table)"

definition import_kill :: "string \<Rightarrow> nat \<Rightarrow> ('p, 'i, 'r) child_table \<Rightarrow> string + 'p child_control \<times> child_task" where
  "import_kill missing handle table = map_sum id (\<lambda>control. (control, KillCheck)) (import_control missing handle table)"

section \<open>Reading the terminal\<close>

definition terminal_read_since_text :: "shared_transcript \<Rightarrow> nat \<Rightarrow> nat \<Rightarrow> string + nat \<times> string" where
  "terminal_read_since_text t cursor max_bytes =
     (case import_read_since t cursor max_bytes of
        Inl e \<Rightarrow> Err e
      | Inr (next_cursor, bytes) \<Rightarrow> Ok (next_cursor, from_utf8_lossy bytes))"

definition terminal_snapshot_text :: "shared_transcript \<Rightarrow> nat \<Rightarrow> string + string" where
  "terminal_snapshot_text t max_bytes =
     (case terminal_snapshot t max_bytes of Inl e \<Rightarrow> Err e | Inr bytes \<Rightarrow> Ok (from_utf8_lossy bytes))"

text \<open>A policy that reads on from the cursor of its last read, while the child writes.\<close>

fun text_loop :: "nat \<Rightarrow> byte list \<Rightarrow> nat \<Rightarrow> (byte list \<times> nat) list \<Rightarrow> string list \<times> nat" where
  "text_loop m T cursor [] = ([], cursor)"
| "text_loop m T cursor ((written, k) # ps) =
     (case terminal_read_since_text (Some (window m (T @ written))) cursor k of
        Inl e \<Rightarrow> ([], cursor)
      | Inr (c, s) \<Rightarrow> (case text_loop m (T @ written) c ps of (rest, c) \<Rightarrow> (s # rest, c)))"

section \<open>Writing to the standard streams\<close>

text \<open>Handing a stream of bytes to a standard stream: whether that failed, and the bytes that were not taken.\<close>

type_synonym 'w via_stream = "byte list \<Rightarrow> 'w \<Rightarrow> (bool \<times> byte list) \<times> 'w"

record 'w std_streams =
  ss_stdout :: "'w via_stream"
  ss_stderr :: "'w via_stream"

definition stream_write :: "'w via_stream \<Rightarrow> byte list \<Rightarrow> 'w \<Rightarrow> (unit + unit) \<times> 'w" where
  "stream_write via bytes w =
     (case via bytes w of ((failed, rest), w) \<Rightarrow> (if failed \<or> rest \<noteq> [] then Inl () else Inr (), w))"

definition write_stdout :: "'w std_streams \<Rightarrow> byte list \<Rightarrow> 'w \<Rightarrow> (unit + unit) \<times> 'w" where
  "write_stdout S bytes w = stream_write (ss_stdout S) bytes w"

definition write_stderr :: "'w std_streams \<Rightarrow> byte list \<Rightarrow> 'w \<Rightarrow> (unit + unit) \<times> 'w" where
  "write_stderr S bytes w = stream_write (ss_stderr S) bytes w"

definition print_line :: "'w std_streams \<Rightarrow> string \<Rightarrow> 'w \<Rightarrow> (unit + unit) \<times> 'w" where
  "print_line S message w = write_stdout S (as_bytes (message @ [CHR 0x0A])) w"

text \<open>\<^verbatim>\<open>log_error\<close> to \<^verbatim>\<open>log_trace\<close>, by their level.\<close>

definition log_line :: "'w std_streams \<Rightarrow> nat \<Rightarrow> log_level \<Rightarrow> string \<Rightarrow> string \<Rightarrow> 'w \<Rightarrow> (unit + unit) \<times> 'w" where
  "log_line S max_level level scope message w =
     (case sdk_log max_level level scope message of None \<Rightarrow> (Ok (), w) | Some bytes \<Rightarrow> write_stderr S bytes w)"

text \<open>The macros of the module \<^verbatim>\<open>log\<close> use the policy's scope and ignore failures.\<close>

definition log_macro :: "'w std_streams \<Rightarrow> nat \<Rightarrow> string \<Rightarrow> log_level \<Rightarrow> string \<Rightarrow> 'w \<Rightarrow> 'w" where
  "log_macro S max_level scope level message w = snd (log_line S max_level level scope message w)"

section \<open>Text in pieces\<close>

lemma cont_head: "is_cont b \<Longrightarrow> utf8_head (b # bs) = Inl 1"
proof -
  assume b: "is_cont b"
  then have "\<not> lead1 b" "\<not> lead2 b" "\<not> lead3 b" "\<not> lead4 b"
    by (auto simp: is_cont_def lead1_def lead2_def lead3_def lead4_def word_le_nat_alt)
  then show ?thesis by simp
qed

lemma utf8_head_Inl_le: "utf8_head bs = Inl n \<Longrightarrow> n \<le> 3"
  by (cases bs) (auto split: if_splits list.splits)

lemma lossy_length: "length bs \<le> length (utf8_lossy bs)"
proof (induction bs rule: utf8_lossy.induct)
  case (1 bs)
  show ?case
  proof (cases "bs = []")
    case False
    show ?thesis
    proof (cases "utf8_head bs")
      case (Inl n)
      with False 1(1) [OF False Inl] utf8_head_Inl_le [OF Inl] show ?thesis
        by (subst utf8_lossy.simps) (simp add: replacement_def)
    next
      case (Inr n)
      with False 1(2) [OF False Inr] utf8_head_Inr [OF Inr, of "[]"] show ?thesis
        by (subst utf8_lossy.simps) simp
    qed
  qed simp
qed

lemma lossy_length_cont:
  assumes "is_cont b"
  shows "length (b # bs) < length (utf8_lossy (b # bs))"
  using lossy_length [of bs] cont_head [OF assms, of bs] by (subst utf8_lossy.simps) (simp add: replacement_def)

lemma lossy_concat_length: "length (concat cs) \<le> length (concat (map utf8_lossy cs))"
  by (induction cs) (simp_all add: add_mono lossy_length)

lemma lossy_concat_cont:
  assumes "concat cs \<noteq> []" and "is_cont (hd (concat cs))"
  shows "length (concat cs) < length (concat (map utf8_lossy cs))"
  using assms
proof (induction cs)
  case (Cons c cs)
  show ?case
  proof (cases c)
    case Nil
    with Cons show ?thesis by (simp add: utf8_lossy.simps [of "[]"])
  next
    case (Cons b bs)
    with \<open>is_cont (hd (concat (c # cs)))\<close> have "length c < length (utf8_lossy c)" using lossy_length_cont [of b bs] by simp
    with lossy_concat_length [of cs] show ?thesis by simp
  qed
qed simp

text \<open>A cut of well-formed text in a place where its front is not well formed is inside a character.\<close>

lemma cut_inside:
  assumes "valid_utf8 (a @ b)" and "\<not> valid_utf8 a"
  shows "b \<noteq> [] \<and> is_cont (hd b)"
proof -
  have "b \<noteq> []" using assms by auto
  moreover have "is_cont (hd b)"
  proof (rule ccontr)
    assume "\<not> is_cont (hd b)"
    with valid_utf8_take [OF assms(1), of "length a"] \<open>b \<noteq> []\<close> assms(2) show False by (simp add: nth_append hd_conv_nth)
  qed
  ultimately show ?thesis ..
qed

lemma lossy_pieces:
  assumes "valid_utf8 (concat cs)"
  shows "concat (map utf8_lossy cs) = concat cs \<longleftrightarrow> list_all valid_utf8 cs"
  using assms
proof (induction cs)
  case (Cons c cs)
  show ?case
  proof (cases "valid_utf8 c")
    case True
    with Cons show ?thesis by (simp add: utf8_lossy_valid valid_utf8_append)
  next
    case False
    with Cons.prems cut_inside [of c "concat cs"] have "concat cs \<noteq> []" "is_cont (hd (concat cs))" by auto
    from lossy_concat_cont [OF this] lossy_length [of c]
    have "length (concat (map utf8_lossy (c # cs))) > length (concat (c # cs))" by simp
    then have "concat (map utf8_lossy (c # cs)) \<noteq> concat (c # cs)" by (metis less_irrefl)
    with False show ?thesis by simp
  qed
qed simp

lemma string_of_bytes_concat: "concat (map string_of_bytes xss) = string_of_bytes (concat xss)"
  by (induction xss) (simp_all add: string_of_bytes_def)

lemma string_of_bytes_inject [simp]: "string_of_bytes a = string_of_bytes b \<longleftrightarrow> a = b"
  by (metis as_bytes_string_of_bytes)

lemma text_loop_polls:
  assumes "list_all (\<lambda>(written, k). length written \<le> m \<and> length written \<le> k) ps"
    and "length T + length (concat (map fst ps)) \<le> u64_max"
  shows "text_loop m T (length T) ps = (map (\<lambda>p. from_utf8_lossy (fst p)) ps, length (T @ concat (map fst ps)))"
  using assms
proof (induction ps arbitrary: T)
  case (Cons p ps)
  obtain written k where p: "p = (written, k)" by (cases p)
  have "min (max (length T) (length (T @ written) - m)) (length (T @ written)) = length T"
    using Cons.prems(1) p by auto
  then have "transcript_bytes_since (Some (window m (T @ written))) (length T) k = Ok (length (T @ written), written)"
    using Cons.prems p by (subst transcript_bytes_since_window) (auto simp: Let_def)
  then have "terminal_read_since_text (Some (window m (T @ written))) (length T) k =
      Ok (length (T @ written), from_utf8_lossy written)"
    by (simp add: terminal_read_since_text_def import_read_since_def)
  moreover have "text_loop m (T @ written) (length (T @ written)) ps =
      (map (\<lambda>p. from_utf8_lossy (fst p)) ps, length ((T @ written) @ concat (map fst ps)))"
    using Cons.prems p by (intro Cons.IH) auto
  ultimately show ?case by (simp add: p)
qed simp



section \<open>Lines on the standard streams\<close>

text \<open>The host's standard streams: its writers, which take the bytes in pieces, and the events they emit.\<close>

record log_world =
  lw_stdout :: policy_log_state
  lw_stderr :: policy_log_state
  lw_events :: "log_event list"

definition host_streams :: "(byte list \<Rightarrow> byte list list) \<Rightarrow> log_world std_streams" where
  "host_streams pieces =
     \<lparr>ss_stdout = (\<lambda>bytes w. case write_all_bytes (pieces bytes) (lw_stdout w) of
        (events, s) \<Rightarrow> ((False, []), w\<lparr>lw_stdout := s, lw_events := lw_events w @ events\<rparr>)),
      ss_stderr = (\<lambda>bytes w. case write_all_bytes (pieces bytes) (lw_stderr w) of
        (events, s) \<Rightarrow> ((False, []), w\<lparr>lw_stderr := s, lw_events := lw_events w @ events\<rparr>))\<rparr>"

text \<open>What a policy says: a printed line, or a message of the log.\<close>

datatype utterance = Say string | Log log_level string

definition utter :: "'w std_streams \<Rightarrow> nat \<Rightarrow> string \<Rightarrow> utterance \<Rightarrow> 'w \<Rightarrow> 'w" where
  "utter S max_level scope u w =
     (case u of Say message \<Rightarrow> snd (print_line S message w) | Log level message \<Rightarrow> log_macro S max_level scope level message w)"

definition line_events :: "string \<Rightarrow> string \<Rightarrow> log_event list" where
  "line_events stream line = (let t = trim_end line in if t = [] then [] else [emit_policy_log stream t])"

definition utterance_events :: "nat \<Rightarrow> string \<Rightarrow> utterance \<Rightarrow> log_event list" where
  "utterance_events max_level scope u =
     (case u of
        Say message \<Rightarrow> line_events ''stdout'' message
      | Log level message \<Rightarrow>
          if log_enabled level max_level
          then [\<lparr>le_level = host_level level, le_stream = ''stderr'', le_message = trim_end (''['' @ scope @ ''] '' @ message)\<rparr>]
          else [])"

text \<open>Trimming stops at a character that no white space contains.\<close>

lemma starts_with_stop: "c \<notin> set p \<Longrightarrow> starts_with p (x @ c # y) = starts_with p x"
proof (cases "length p \<le> length x")
  case False
  assume c: "c \<notin> set p"
  have "c \<in> set (take (length p - length x) (c # y))"
    using False by (cases "length p - length x") simp_all
  then have "c \<in> set (take (length p) (x @ c # y))" by simp
  with c have "take (length p) (x @ c # y) \<noteq> p" by metis
  then show ?thesis using False by (auto simp: starts_with_def)
qed (simp add: starts_with_def)

lemma strip_pats_stop:
  "\<forall>p \<in> set ps. c \<notin> set p \<Longrightarrow> strip_pats ps (x @ c # y) = strip_pats ps x @ c # y"
proof (induction ps x rule: strip_pats.induct)
  case (1 ps x)
  have l: "leading_pat ps (x @ c # y) = leading_pat ps x"
    unfolding leading_pat_def by (rule find_cong) (use 1(2) starts_with_stop in auto)
  show ?case
  proof (cases "leading_pat ps x")
    case None
    then show ?thesis using l by (simp add: strip_pats_id)
  next
    case (Some p)
    then have "length p \<le> length x" using leading_pat_Some [OF Some] by (auto simp: starts_with_def) (metis length_take min.cobounded1)
    with 1(1) [OF Some 1(2)] Some l show ?thesis by (simp add: strip_pats.simps [of ps x] strip_pats.simps [of ps "x @ c # y"])
  qed
qed

lemma trim_end_stop:
  assumes "\<forall>p \<in> set unicode_ws. c \<notin> set p"
  shows "trim_end (a @ c # b) = a @ c # trim_end b"
  using strip_pats_stop [of "map rev unicode_ws" c "rev b" "rev a"] assms by (simp add: trim_end_def)

lemma bracket_stops: "\<forall>p \<in> set unicode_ws. CHR ''['' \<notin> set p"
  by code_simp

lemma trim_end_CR: "trim_end (s @ [CHR 0x0D]) = trim_end s"
proof -
  have "leading_pat (map rev unicode_ws) (CHR 0x0D # rev s) = Some [CHR 0x0D]"
    by (simp add: leading_pat_def unicode_ws_def starts_with_def)
  then show ?thesis by (simp add: trim_end_def strip_pats.simps [of "map rev unicode_ws" "CHR 0x0D # rev s"])
qed

lemma emit_line_text:
  assumes "valid_utf8 (as_bytes s)"
  shows "emit_line stream (pop_if 0x0D (as_bytes s)) = line_events stream s"
proof (cases "as_bytes s \<noteq> [] \<and> last (as_bytes s) = 0x0D")
  case True
  then obtain s' c where s: "s = s' @ [c]" by (cases s rule: rev_exhaust) auto
  have "char_of (13 :: nat) = CHR 0x0D" by code_simp
  with True s have c: "c = CHR 0x0D" using as_bytes_inverse [of "[c]"] by (simp add: as_bytes_def string_of_bytes_def)
  have "valid_utf8 (take (length s') (as_bytes s))"
    using assms by (rule valid_utf8_take) (simp_all add: s c as_bytes_def nth_append is_cont_def word_le_nat_alt)
  then have "valid_utf8 (as_bytes s')" by (simp add: s as_bytes_def)
  then have "trim_end (from_utf8_lossy (as_bytes s')) = trim_end s" by (simp add: from_utf8_lossy_def utf8_lossy_valid s c trim_end_CR)
  moreover have "pop_if 0x0D (as_bytes s) = as_bytes s'" using True by (simp add: pop_if_def s as_bytes_def)
  ultimately show ?thesis by (simp add: emit_line_def line_events_def Let_def)
next
  case False
  then have "pop_if 0x0D (as_bytes s) = as_bytes s" by (auto simp: pop_if_def)
  with assms show ?thesis by (simp add: emit_line_def line_events_def from_utf8_lossy_def utf8_lossy_valid Let_def)
qed

lemma flush_line:
  assumes "0x0A \<notin> set line"
  shows "flush_complete_lines stream (line @ [0x0A]) = (emit_line stream (pop_if 0x0D line), [])"
proof -
  have "newline_position (line @ [0x0A]) = Some (length line)"
    using assms by (simp add: newline_position_append newline_position_None [THEN iffD2])
  moreover have "pop_if 0x0A (line @ [0x0A]) = line" by (simp add: pop_if_def)
  ultimately show ?thesis by (subst flush_complete_lines.simps) (simp add: flush_complete_lines.simps)
qed

lemma write_line:
  assumes "concat cs = as_bytes (line @ [CHR 0x0A])" and "CHR 0x0A \<notin> set line" and "valid_utf8 (as_bytes line)"
  shows "write_all_bytes cs (policy_log_writer_new stream) = (line_events stream line, policy_log_writer_new stream)"
proof -
  have "as_bytes (line @ [CHR 0x0A]) = as_bytes line @ [0x0A]" by (simp add: as_bytes_def)
  then show ?thesis
    using flush_line [OF newline_not_in [OF assms(2)], of stream] emit_line_text [OF assms(3), of stream]
    unfolding write_all_bytes_new assms(1) by (simp add: policy_log_writer_new_def)
qed

definition new_log_world :: log_world where
  "new_log_world = \<lparr>lw_stdout = policy_log_writer_new ''stdout'', lw_stderr = policy_log_writer_new ''stderr'', lw_events = []\<rparr>"

definition one_line :: "string \<Rightarrow> bool" where
  "one_line s \<longleftrightarrow> CHR 0x0A \<notin> set s \<and> valid_utf8 (as_bytes s)"

fun message_of :: "utterance \<Rightarrow> string" where
  "message_of (Say message) = message"
| "message_of (Log _ message) = message"

lemma as_bytes_append: "as_bytes (a @ b) = as_bytes a @ as_bytes b"
  by (simp add: as_bytes_def)

lemma one_line_append: "one_line a \<Longrightarrow> one_line b \<Longrightarrow> one_line (a @ b)"
  by (simp add: one_line_def as_bytes_append valid_utf8_append)

lemma one_line_level: "one_line (level_str level @ '' ['')" "one_line ''] ''"
  by (cases level; simp add: one_line_def; code_simp) code_simp

lemma log_line_event:
  "line_events ''stderr'' (level_str level @ '' ['' @ scope @ ''] '' @ message) =
     [\<lparr>le_level = host_level level, le_stream = ''stderr'', le_message = trim_end (''['' @ scope @ ''] '' @ message)\<rparr>]"
proof -
  have "trim_end ((level_str level @ '' '') @ CHR ''['' # scope @ ''] '' @ message) =
      (level_str level @ '' '') @ CHR ''['' # trim_end (scope @ ''] '' @ message)"
    and "trim_end ([] @ CHR ''['' # scope @ ''] '' @ message) = [] @ CHR ''['' # trim_end (scope @ ''] '' @ message)"
    by (rule trim_end_stop [OF bracket_stops])+
  then show ?thesis
    using parse_level_str [of level "CHR ''['' # trim_end (scope @ ''] '' @ message)"]
    by (simp add: line_events_def emit_policy_log_def)
qed

lemma utter_event:
  assumes "\<And>bytes. concat (pieces bytes) = bytes" and "one_line scope" and "one_line (message_of u)"
    and "lw_stdout w = policy_log_writer_new ''stdout''" and "lw_stderr w = policy_log_writer_new ''stderr''"
  shows "utter (host_streams pieces) max_level scope u w = w\<lparr>lw_events := lw_events w @ utterance_events max_level scope u\<rparr>"
proof (cases u)
  case (Say message)
  have "write_all_bytes (pieces (as_bytes (message @ [CHR 0x0A]))) (policy_log_writer_new ''stdout'') =
      (line_events ''stdout'' message, policy_log_writer_new ''stdout'')"
    using assms(1,3) Say by (intro write_line) (simp_all add: one_line_def)
  then show ?thesis using assms(4)
    by (simp add: Say utter_def print_line_def write_stdout_def stream_write_def host_streams_def utterance_events_def)
next
  case (Log level message)
  let ?line = "level_str level @ '' ['' @ scope @ ''] '' @ message"
  have "one_line ((level_str level @ '' ['') @ scope @ ''] '' @ message)"
    using assms(2,3) Log by (intro one_line_append one_line_level) simp_all
  then have "write_all_bytes (pieces (as_bytes (?line @ [CHR 0x0A]))) (policy_log_writer_new ''stderr'') =
      (line_events ''stderr'' ?line, policy_log_writer_new ''stderr'')"
    using assms(1) by (intro write_line) (simp_all add: one_line_def)
  then show ?thesis using assms(5) log_line_event [of level scope message]
    by (simp add: Log utter_def log_macro_def log_line_def sdk_log_def write_stderr_def stream_write_def host_streams_def utterance_events_def)
qed



end
