(* ===== verification/Build_Support.thy ===== *)
theory Build_Support
  imports Prelude
begin

text \<open>
  What happens at build time: \<^verbatim>\<open>mitb-wit/src/lib.rs\<close> writes the interface files, \<^verbatim>\<open>mitb-sdk/src/build_support.rs\<close> and
  \<^verbatim>\<open>mitb-host/build.rs\<close> write them with the invocation of a bindings generator into the output directory and print the
  directives that make a build run again, and \<^verbatim>\<open>mitb-server/build.rs\<close> builds the browser's client. The environment, the
  file system, the texts of the files and the compiler are parameters.
\<close>

datatype build_support_error =
    ReadOutDir string
  | WriteWit string string
  | WriteBindgen string string

fun build_support_error_text :: "build_support_error \<Rightarrow> string" where
  "build_support_error_text (ReadOutDir e) = ''failed to read OUT_DIR: '' @ e"
| "build_support_error_text (WriteWit path e) = ''failed to materialize mitb-wit in `'' @ path @ ''`: '' @ e"
| "build_support_error_text (WriteBindgen path e) = ''failed to write generated bindgen source to `'' @ path @ ''`: '' @ e"

text \<open>\<^verbatim>\<open>Path::join\<close>, with \<^verbatim>\<open>/\<close> as separator: an absolute path replaces.\<close>

definition path_join :: "string \<Rightarrow> string \<Rightarrow> string" where
  "path_join dir name =
     (if starts_with ''/'' name \<or> dir = [] then name
      else if last dir = CHR ''/'' then dir @ name else dir @ ''/'' @ name)"

section \<open>The interface files\<close>

text \<open>The operations of a file system, over its state.\<close>

record 'w file_ops =
  fi_create_dir_all :: "string \<Rightarrow> 'w \<Rightarrow> (string + unit) \<times> 'w"
  fi_exists :: "string \<Rightarrow> 'w \<Rightarrow> bool"
  fi_remove_file :: "string \<Rightarrow> 'w \<Rightarrow> (string + unit) \<times> 'w"
  fi_write :: "string \<Rightarrow> string \<Rightarrow> 'w \<Rightarrow> (string + unit) \<times> 'w"

text \<open>The files, by their place below the root, and the text each was built with.\<close>

definition wit_files :: "string list" where
  "wit_files = [''world.wit'', ''deps/treesitter.wit'', ''deps/cli.wit'', ''deps/clocks.wit'', ''deps/filesystem.wit'',
     ''deps/http.wit'', ''deps/random.wit'', ''deps/sockets.wit'']"

text \<open>\<^verbatim>\<open>?\<close>: on to the next operation, unless this one failed.\<close>

definition try_then :: "(string + unit) \<times> 'w \<Rightarrow> ('w \<Rightarrow> (string + unit) \<times> 'w) \<Rightarrow> (string + unit) \<times> 'w" where
  "try_then rw next = (case rw of (Inl e, w) \<Rightarrow> (Err e, w) | (Inr _, w) \<Rightarrow> next w)"

fun write_files :: "'w file_ops \<Rightarrow> (string \<times> string) list \<Rightarrow> 'w \<Rightarrow> (string + unit) \<times> 'w" where
  "write_files F [] w = (Ok (), w)"
| "write_files F ((path, contents) # files) w = try_then (fi_write F path contents w) (write_files F files)"

text \<open>\<^verbatim>\<open>write_wit_to\<close>; a file left by an older version is removed.\<close>

definition write_wit_to :: "'w file_ops \<Rightarrow> (string \<Rightarrow> string) \<Rightarrow> string \<Rightarrow> 'w \<Rightarrow> (string + unit) \<times> 'w" where
  "write_wit_to F contents dir w =
     (let deps = path_join dir ''deps''; legacy_treesitter = path_join dir ''treesitter.wit'' in
      try_then (fi_create_dir_all F deps w) (\<lambda>w.
      try_then (if fi_exists F legacy_treesitter w then fi_remove_file F legacy_treesitter w else (Ok (), w)) (
        write_files F
          [(path_join dir ''world.wit'', contents ''world.wit''),
           (path_join deps ''treesitter.wit'', contents ''deps/treesitter.wit''),
           (path_join deps ''cli.wit'', contents ''deps/cli.wit''),
           (path_join deps ''clocks.wit'', contents ''deps/clocks.wit''),
           (path_join deps ''filesystem.wit'', contents ''deps/filesystem.wit''),
           (path_join deps ''http.wit'', contents ''deps/http.wit''),
           (path_join deps ''random.wit'', contents ''deps/random.wit''),
           (path_join deps ''sockets.wit'', contents ''deps/sockets.wit'')])))"

section \<open>Policies\<close>

definition bindgen_source :: "string \<Rightarrow> string \<Rightarrow> string" where
  "bindgen_source wit_dir world =
     ''wit_bindgen::generate!({'' @ [CHR 0x0A] @
     ''    path: '' @ [CHR 0x22] @ wit_dir @ [CHR 0x22] @ '','' @ [CHR 0x0A] @
     ''    world: '' @ [CHR 0x22] @ world @ [CHR 0x22] @ '','' @ [CHR 0x0A] @
     ''    generate_all,'' @ [CHR 0x0A] @ ''});''"

text \<open>\<open>out_dir\<close> is the variable \<^verbatim>\<open>OUT_DIR\<close> or the error of reading it.\<close>

definition write_bindgen_for_world_named ::
  "'w file_ops \<Rightarrow> (string \<Rightarrow> string) \<Rightarrow> string + string \<Rightarrow> string \<Rightarrow> string \<Rightarrow> 'w \<Rightarrow> (build_support_error + unit) \<times> 'w" where
  "write_bindgen_for_world_named F contents out_dir_var world output_file w =
     (case out_dir_var of
        Inl e \<Rightarrow> (Err (ReadOutDir e), w)
      | Inr out_dir \<Rightarrow>
          let wit_dir = path_join out_dir ''mitb-wit'' in
          (case write_wit_to F contents wit_dir w of
             (Inl e, w) \<Rightarrow> (Err (WriteWit wit_dir e), w)
           | (Inr _, w) \<Rightarrow>
               let bindgen = bindgen_source wit_dir world; bindgen_path = path_join out_dir output_file in
               (case fi_write F bindgen_path bindgen w of
                  (Inl e, w) \<Rightarrow> (Err (WriteBindgen bindgen_path e), w)
                | (Inr _, w) \<Rightarrow> (Ok (), w))))"

definition write_policy_bindgen_named ::
  "'w file_ops \<Rightarrow> (string \<Rightarrow> string) \<Rightarrow> string + string \<Rightarrow> string \<Rightarrow> 'w \<Rightarrow> (build_support_error + unit) \<times> 'w" where
  "write_policy_bindgen_named F contents out_dir_var output_file w =
     write_bindgen_for_world_named F contents out_dir_var ''policy'' output_file w"

definition write_policy_bindgen ::
  "'w file_ops \<Rightarrow> (string \<Rightarrow> string) \<Rightarrow> string + string \<Rightarrow> 'w \<Rightarrow> (build_support_error + unit) \<times> 'w" where
  "write_policy_bindgen F contents out_dir_var w =
     write_bindgen_for_world_named F contents out_dir_var ''policy'' ''mitb_guest_bindgen.rs'' w"

definition write_policy_bindgen_with_treesitter ::
  "'w file_ops \<Rightarrow> (string \<Rightarrow> string) \<Rightarrow> string + string \<Rightarrow> 'w \<Rightarrow> (build_support_error + unit) \<times> 'w" where
  "write_policy_bindgen_with_treesitter F contents out_dir_var w =
     write_bindgen_for_world_named F contents out_dir_var ''treesitter-policy'' ''mitb_guest_bindgen.rs'' w"

definition print_rerun_if_mitb_wit_changed_at :: "string \<Rightarrow> string list" where
  "print_rerun_if_mitb_wit_changed_at wit_root =
     map (\<lambda>f. ''cargo:rerun-if-changed='' @ path_join wit_root f)
       [''world.wit'', ''deps/treesitter.wit'', ''deps/cli.wit'', ''deps/clocks.wit'', ''deps/filesystem.wit'',
        ''deps/http.wit'', ''deps/random.wit'', ''deps/sockets.wit'']"

text \<open>\<open>manifest_dir\<close> is the directory of the crate.\<close>

definition mitb_wit_source_root :: "string \<Rightarrow> string" where
  "mitb_wit_source_root manifest_dir = path_join manifest_dir ''../mitb-wit/wit''"

definition print_rerun_if_mitb_wit_changed :: "string \<Rightarrow> string list" where
  "print_rerun_if_mitb_wit_changed manifest_dir = print_rerun_if_mitb_wit_changed_at (mitb_wit_source_root manifest_dir)"

section \<open>The host and the server\<close>

definition host_bindgen_source :: "string \<Rightarrow> string" where
  "host_bindgen_source wit_dir =
     concat (map (\<lambda>l. l @ [CHR 0x0A])
       [''wasmtime::component::bindgen!({'',
        ''    path: '' @ [CHR 0x22] @ wit_dir @ [CHR 0x22] @ '','',
        ''    world: '' @ [CHR 0x22] @ ''policy'' @ [CHR 0x22] @ '','',
        ''    imports: {'', ''        default: async | trappable,'', ''    },'',
        ''    exports: {'', ''        default: async | store | task_exit,'', ''    },'',
        ''    require_store_data_send: true,'',
        ''    with: {'',
        ''        '' @ [CHR 0x22] @ ''mitb:host/process.child'' @ [CHR 0x22] @ '': crate::ProcessChild,'',
        ''        '' @ [CHR 0x22] @ ''wasi'' @ [CHR 0x22] @ '': wasmtime_wasi::p3::bindings,'',
        ''        '' @ [CHR 0x22] @ ''wasi:http'' @ [CHR 0x22] @ '': wasmtime_wasi_http::p3::bindings::http,'',
        ''    },'']) @ ''});''"

text \<open>\<^verbatim>\<open>main\<close> of the host's build script: its directives are printed only when the files were written.\<close>

definition host_build ::
  "'w file_ops \<Rightarrow> (string \<Rightarrow> string) \<Rightarrow> string + string \<Rightarrow> 'w \<Rightarrow> (string + string list) \<times> 'w" where
  "host_build F contents out_dir_var w =
     (case out_dir_var of
        Inl e \<Rightarrow> (Err e, w)
      | Inr out_dir \<Rightarrow>
          let wit_dir = path_join out_dir ''mitb-wit'' in
          (case try_then (write_wit_to F contents wit_dir w)
                  (fi_write F (path_join out_dir ''mitb_bindgen.rs'') (host_bindgen_source wit_dir)) of
             (Inl e, w) \<Rightarrow> (Err e, w)
           | (Inr _, w) \<Rightarrow>
               (Ok (map (\<lambda>f. ''cargo:rerun-if-changed=../mitb-wit/wit/'' @ f)
                  [''world.wit'', ''deps/treesitter.wit'', ''deps/cli.wit'', ''deps/clocks.wit'', ''deps/filesystem.wit'',
                   ''deps/http.wit'', ''deps/random.wit'', ''deps/sockets.wit'']), w)))"

text \<open>The server's build script: \<open>env\<close> reads a variable, \<open>parent\<close> is the parent of a directory, \<open>status\<close> runs the
  compiler, with its directory, variables and arguments, and \<open>copy\<close> copies a file.\<close>

definition build_pake_wasm ::
  "(string \<Rightarrow> string + string) \<Rightarrow> (string \<Rightarrow> string option) \<Rightarrow>
     (string \<Rightarrow> string \<Rightarrow> (string \<times> string) list \<Rightarrow> string list \<Rightarrow> string + bool) \<Rightarrow> (string \<Rightarrow> string \<Rightarrow> string + unit) \<Rightarrow> string + unit" where
  "build_pake_wasm env parent status copy =
     (case env ''CARGO_MANIFEST_DIR'' of
        Inl e \<Rightarrow> Err e
      | Inr manifest_dir \<Rightarrow>
     (case parent manifest_dir of
        None \<Rightarrow> Err ''mitb-server must live inside the workspace root''
      | Some workspace_dir \<Rightarrow>
     (case env ''CARGO'' of
        Inl e \<Rightarrow> Err e
      | Inr cargo \<Rightarrow>
     (case env ''OUT_DIR'' of
        Inl e \<Rightarrow> Err e
      | Inr out_dir \<Rightarrow>
          let target_dir = path_join workspace_dir ''target/mitb-pake-wasm'' in
          (case status cargo workspace_dir [(''CARGO_TARGET_DIR'', target_dir)]
                  [''build'', ''--package'', ''mitb-pake'', ''--target'', ''wasm32-unknown-unknown'', ''--release''] of
             Inl e \<Rightarrow> Err e
           | Inr success \<Rightarrow>
               if \<not> success then Err ''failed to build mitb-pake wasm module''
               else let wasm_path = path_join target_dir ''wasm32-unknown-unknown/release/mitb_pake.wasm'';
                        output = path_join out_dir ''mitb-pake.wasm''
                    in map_sum (\<lambda>e. ''failed to copy wasm asset from '' @ wasm_path @ '' to '' @ output @ '': '' @ e) id
                         (copy wasm_path output))))))"

section \<open>What is written and what is watched\<close>

text \<open>A file system that keeps what is written, whose operations succeed unless \<open>broken\<close> says otherwise.\<close>

definition disk :: "(string \<Rightarrow> string option) \<Rightarrow> (string \<rightharpoonup> string) file_ops" where
  "disk broken =
     \<lparr>fi_create_dir_all = (\<lambda>path w. (case broken path of Some e \<Rightarrow> Err e | None \<Rightarrow> Ok (), w)),
      fi_exists = (\<lambda>path w. w path \<noteq> None),
      fi_remove_file = (\<lambda>path w. case broken path of Some e \<Rightarrow> (Err e, w) | None \<Rightarrow> (Ok (), w(path := None))),
      fi_write = (\<lambda>path contents w. case broken path of Some e \<Rightarrow> (Err e, w) | None \<Rightarrow> (Ok (), w(path \<mapsto> contents)))\<rparr>"

lemma disk_write: "fi_write (disk broken) path contents w =
    (case broken path of Some e \<Rightarrow> (Err e, w) | None \<Rightarrow> (Ok (), w(path \<mapsto> contents)))"
  by (simp add: disk_def)

lemma try_then_Ok: "try_then rw next = (Ok (), w') \<longleftrightarrow> fst rw = Ok () \<and> next (snd rw) = (Ok (), w')"
  by (cases rw; cases "fst rw") (auto simp: try_then_def)

fun put_all :: "(string \<times> string) list \<Rightarrow> (string \<rightharpoonup> string) \<Rightarrow> string \<rightharpoonup> string" where
  "put_all [] w = w"
| "put_all ((path, contents) # files) w = put_all files (w(path \<mapsto> contents))"

lemma put_all_other: "p \<notin> fst ` set files \<Longrightarrow> put_all files w p = w p"
  by (induction files arbitrary: w) auto

lemma put_all_in: "distinct (map fst files) \<Longrightarrow> (p, c) \<in> set files \<Longrightarrow> put_all files w p = Some c"
proof (induction files arbitrary: w)
  case (Cons f files)
  show ?case
  proof (cases "f = (p, c)")
    case True
    with Cons.prems show ?thesis by (simp add: put_all_other)
  next
    case False
    with Cons show ?thesis by (cases f) auto
  qed
qed simp

lemma write_files_disk: "write_files (disk broken) files w = (Ok (), w') \<Longrightarrow> w' = put_all files w"
proof (induction files arbitrary: w)
  case (Cons f files)
  obtain path contents where f: "f = (path, contents)" by fastforce
  with Cons show ?case by (cases "broken path") (simp_all add: disk_write try_then_Ok del: fun_upd_apply)
qed simp

definition plain :: "string \<Rightarrow> bool" where
  "plain f \<longleftrightarrow> f \<noteq> [] \<and> hd f \<noteq> CHR ''/''"

lemma path_join_plain: "plain f \<Longrightarrow> path_join dir f = (if dir = [] \<or> last dir = CHR ''/'' then dir @ f else dir @ ''/'' @ f)"
  by (cases f) (auto simp: path_join_def starts_with_def plain_def)

lemma path_join_inject: "plain f \<Longrightarrow> plain g \<Longrightarrow> path_join dir f = path_join dir g \<longleftrightarrow> f = g"
  by (simp add: path_join_plain)

lemma path_join_assoc: "plain d \<Longrightarrow> last d \<noteq> CHR ''/'' \<Longrightarrow> plain f \<Longrightarrow> path_join (path_join dir d) f = path_join dir (d @ ''/'' @ f)"
proof -
  assume d: "plain d" "last d \<noteq> CHR ''/''" and f: "plain f"
  have "plain (d @ ''/'' @ f)" using d(1) by (simp add: plain_def)
  note joins = path_join_plain [OF this, of dir] path_join_plain [OF d(1), of dir] path_join_plain [OF f]
  have "d \<noteq> []" using d(1) by (simp add: plain_def)
  then show ?thesis unfolding joins using d(2) by simp
qed

lemma wit_in_deps: "plain f \<Longrightarrow> path_join (path_join dir ''deps'') f = path_join dir (''deps/'' @ f)"
  using path_join_assoc [of "''deps''" f dir] by (simp add: plain_def)

definition wit_disk :: "(string \<Rightarrow> string) \<Rightarrow> string \<Rightarrow> (string \<rightharpoonup> string) \<Rightarrow> string \<rightharpoonup> string" where
  "wit_disk contents dir w =
     put_all (map (\<lambda>f. (path_join dir f, contents f)) wit_files) (w(path_join dir ''treesitter.wit'' := None))"

lemma remove_disk:
  assumes "fst (if fi_exists (disk broken) t w then fi_remove_file (disk broken) t w else (Ok (), w)) = Ok ()"
  shows "snd (if fi_exists (disk broken) t w then fi_remove_file (disk broken) t w else (Ok (), w)) = w(t := None)"
  using assms by (auto simp: disk_def fun_eq_iff split: if_splits option.splits)

lemma write_wit_disk:
  assumes "write_wit_to (disk broken) contents dir w = (Ok (), w')"
  shows "w' = wit_disk contents dir w"
proof -
  have dir: "snd (fi_create_dir_all (disk broken) d w) = w" for d by (simp add: disk_def)
  note steps = assms [unfolded write_wit_to_def Let_def try_then_Ok dir]
  show ?thesis
    using write_files_disk [OF conjunct2 [OF conjunct2 [OF steps]]] unfolding remove_disk [OF conjunct1 [OF conjunct2 [OF steps]]]
    by (simp add: wit_disk_def wit_files_def wit_in_deps plain_def del: fun_upd_apply)
qed

lemma wit_names: "distinct wit_files" "\<forall>f \<in> set wit_files. plain f"
  by (simp_all add: wit_files_def plain_def)

lemma wit_disk_file: "f \<in> set wit_files \<Longrightarrow> wit_disk contents dir w (path_join dir f) = Some (contents f)"
proof -
  assume f: "f \<in> set wit_files"
  have "inj_on (path_join dir) (set wit_files)" using wit_names(2) by (auto simp: inj_on_def path_join_inject)
  with wit_names(1) have "distinct (map fst (map (\<lambda>f. (path_join dir f, contents f)) wit_files))"
    by (simp add: comp_def distinct_map)
  then show ?thesis unfolding wit_disk_def by (rule put_all_in) (use f in auto)
qed

lemma wit_disk_legacy: "wit_disk contents dir w (path_join dir ''treesitter.wit'') = None"
proof -
  have "path_join dir ''treesitter.wit'' \<noteq> path_join dir f" if "f \<in> set wit_files" for f
  proof -
    have "plain ''treesitter.wit''" "''treesitter.wit'' \<noteq> f" using that by (auto simp: plain_def wit_files_def)
    then show ?thesis using that wit_names(2) path_join_inject by metis
  qed
  then have "path_join dir ''treesitter.wit'' \<notin> fst ` set (map (\<lambda>f. (path_join dir f, contents f)) wit_files)" by force
  then show ?thesis unfolding wit_disk_def by (subst put_all_other) simp_all
qed

text \<open>A build for policies that ends well leaves exactly this behind: every interface file in its place below the output directory,
  with its text, no file of the older version, and the invocation that names their directory; and the files it was made from are
  those that the directives of both the SDK and the host watch.\<close>

theorem policy_bindgen_written:
  assumes "write_policy_bindgen (disk broken) contents (Ok out_dir) w = (Ok (), w')"
  shows "(\<forall>f \<in> set wit_files. w' (path_join (path_join out_dir ''mitb-wit'') f) = Some (contents f))
    \<and> w' (path_join out_dir ''mitb_guest_bindgen.rs'') = Some (bindgen_source (path_join out_dir ''mitb-wit'') ''policy'')
    \<and> w' (path_join (path_join out_dir ''mitb-wit'') ''treesitter.wit'') = None
    \<and> print_rerun_if_mitb_wit_changed_at wit_root = map (\<lambda>f. ''cargo:rerun-if-changed='' @ path_join wit_root f) wit_files
    \<and> (\<forall>ds w''. host_build F contents out_dir_var w = (Ok ds, w'') \<longrightarrow>
         ds = map (\<lambda>f. ''cargo:rerun-if-changed=../mitb-wit/wit/'' @ f) wit_files)"
proof -
  let ?d = "path_join out_dir ''mitb-wit''" and ?b = "path_join out_dir ''mitb_guest_bindgen.rs''"
  obtain w1 where w1: "write_wit_to (disk broken) contents ?d w = (Ok (), w1)"
    and w': "w' = w1(?b \<mapsto> bindgen_source ?d ''policy'')"
    using assms by (auto simp: write_policy_bindgen_def write_bindgen_for_world_named_def Let_def disk_write
        split: prod.splits sum.splits option.splits)
  have other: "path_join ?d f \<noteq> ?b" if "plain f" for f
  proof -
    have "path_join ?d f = path_join out_dir (''mitb-wit'' @ ''/'' @ f)"
      by (rule path_join_assoc [OF _ _ that]) (simp_all add: plain_def)
    moreover have "plain (''mitb-wit'' @ ''/'' @ f)" "plain ''mitb_guest_bindgen.rs''" by (simp_all add: plain_def)
    ultimately show ?thesis using path_join_inject by fastforce
  qed
  have files: "w' (path_join ?d f) = Some (contents f)" if "f \<in> set wit_files" for f
    using other [of f] wit_names(2) that by (simp add: w' write_wit_disk [OF w1] wit_disk_file)
  have legacy: "w' (path_join ?d ''treesitter.wit'') = None"
    using other [of "''treesitter.wit''"] by (simp add: w' write_wit_disk [OF w1] wit_disk_legacy plain_def)
  have "print_rerun_if_mitb_wit_changed_at wit_root = map (\<lambda>f. ''cargo:rerun-if-changed='' @ path_join wit_root f) wit_files"
    by (simp add: print_rerun_if_mitb_wit_changed_at_def wit_files_def)
  moreover have "ds = map (\<lambda>f. ''cargo:rerun-if-changed=../mitb-wit/wit/'' @ f) wit_files"
    if "host_build F contents out_dir_var w = (Ok ds, w'')" for ds w''
    using that by (auto simp: host_build_def Let_def wit_files_def split: sum.splits prod.splits)
  ultimately show ?thesis using files legacy w' by simp
qed

end
