(* ===== verification/Cli.thy ===== *)
theory Cli
  imports Host_Runtime Agent_Auth
begin

text \<open>
  The command line, \<^verbatim>\<open>src/src/main.rs\<close>: checking what the argument parser matched, the agent's options
  from the environment, the options handed to the host, and how the results of the host's thread and
  of the window are combined. The argument parser and the environment are parameters.
\<close>

section \<open>Options\<close>

record cli_options =
  cl_policy_component :: string
  cl_command :: string
  cl_command_args :: "string list"
  cl_disable_spawn :: bool
  cl_disable_networking :: bool
  cl_disable_filesystem :: bool
  cl_alias :: "string option"
  cl_interval_ms :: nat
  cl_max_transcript_bytes :: nat
  cl_headless :: bool

datatype cli_error =
    MissingArgument string
  | InvalidArgument string string
  | CliHost host_error
  | CliBoxUi string
  | RuntimeInit string
  | HostThreadPanic

text \<open>What the argument parser matched; the arguments \<^verbatim>\<open>cli\<close> declares, with their defaults applied.\<close>

record arg_matches =
  am_policy :: "string option"
  am_command :: "string option"
  am_cmd :: "string option"
  am_command_args :: "string list option"
  am_alias :: "string option"
  am_disable_spawn :: bool
  am_disable_networking :: bool
  am_disable_filesystem :: bool
  am_interval_ms :: "nat option"
  am_max_transcript_bytes :: "nat option"
  am_headless :: bool

text \<open>An environment variable, trimmed, and not empty.\<close>

definition env_trimmed :: "(string \<Rightarrow> string option) \<Rightarrow> string \<Rightarrow> string option" where
  "env_trimmed env name =
     (case env name of
        None \<Rightarrow> None
      | Some value \<Rightarrow> if trim value = [] then None else Some (trim value))"

definition command_line ::
  "(string \<Rightarrow> string option) \<Rightarrow> string option \<Rightarrow> string option \<Rightarrow> string list \<Rightarrow> cli_error + string \<times> string list" where
  "command_line env command shell_command args =
     (case (command, shell_command) of
        (Some c, None) \<Rightarrow> Ok (c, args)
      | (None, Some sc) \<Rightarrow>
          if trim sc = [] then Err (InvalidArgument ''cmd'' ''must not be empty'')
          else if args \<noteq> [] then Err (InvalidArgument ''command_args'' ''cannot be used with `--cmd`'')
          else (case env_trimmed env ''SHELL'' of
                  None \<Rightarrow> Err (InvalidArgument ''cmd'' ''requires `$SHELL` to be set to a shell executable'')
                | Some shell \<Rightarrow> Ok (shell, [''-ic'', sc]))
      | (Some _, Some _) \<Rightarrow> Err (InvalidArgument ''command'' ''cannot be used with `--cmd`'')
      | (None, None) \<Rightarrow> Err (MissingArgument ''command or --cmd''))"

definition parse_options :: "(string \<Rightarrow> string option) \<Rightarrow> arg_matches \<Rightarrow> cli_error + cli_options" where
  "parse_options env m =
     (let alias_arg = map_option trim (am_alias m);
          args = (case am_command_args m of None \<Rightarrow> [] | Some xs \<Rightarrow> xs) in
      case am_policy m of
        None \<Rightarrow> Err (MissingArgument ''policy'')
      | Some policy \<Rightarrow>
     (case am_interval_ms m of
        None \<Rightarrow> Err (MissingArgument ''interval_ms'')
      | Some interval_ms \<Rightarrow>
     (case am_max_transcript_bytes m of
        None \<Rightarrow> Err (MissingArgument ''max_transcript_bytes'')
      | Some max_bytes \<Rightarrow>
          if interval_ms = 0 then Err (InvalidArgument ''interval_ms'' ''must be greater than zero'')
          else if max_bytes = 0 then Err (InvalidArgument ''max_transcript_bytes'' ''must be greater than zero'')
          else if alias_arg = Some [] then Err (InvalidArgument ''alias'' ''must not be empty'')
          else (case command_line env (am_command m) (am_cmd m) args of
                  Inl e \<Rightarrow> Err e
                | Inr (command, args) \<Rightarrow>
                    Ok \<lparr>cl_policy_component = policy, cl_command = command, cl_command_args = args,
                        cl_disable_spawn = am_disable_spawn m, cl_disable_networking = am_disable_networking m,
                        cl_disable_filesystem = am_disable_filesystem m, cl_alias = alias_arg,
                        cl_interval_ms = interval_ms, cl_max_transcript_bytes = max_bytes,
                        cl_headless = am_headless m\<rparr>))))"

section \<open>Running\<close>

text \<open>The agent runs if both its variables are set; the options carry its address, code and alias.\<close>

definition agent_options_from_env :: "(string \<Rightarrow> string option) \<Rightarrow> string option \<Rightarrow> agent_options option" where
  "agent_options_from_env env agent_alias =
     (case (env_trimmed env ''MITB_SERVER_ADDR'', env_trimmed env ''MITB_SECRET_CODE'') of
        (Some addr, Some code) \<Rightarrow> Some \<lparr>server_addr = addr, opt_secret_code = code, opt_alias = agent_alias\<rparr>
      | _ \<Rightarrow> None)"

text \<open>The host's options; with a window they carry the sender of events.\<close>

definition host_options_of :: "(string \<Rightarrow> string option) \<Rightarrow> cli_options \<Rightarrow> host_options" where
  "host_options_of env o' =
     (host_options_new (cl_policy_component o') (cl_command o') (cl_command_args o'))
       \<lparr>ho_disable_spawn := cl_disable_spawn o', ho_disable_networking := cl_disable_networking o',
        ho_disable_filesystem := cl_disable_filesystem o', ho_alias := cl_alias o',
        ho_poll_interval := from_millis (cl_interval_ms o'), ho_max_transcript_bytes := cl_max_transcript_bytes o',
        ho_agent := agent_options_from_env env (cl_alias o') \<noteq> None, ho_listening := \<not> cl_headless o'\<rparr>"

text \<open>\<^verbatim>\<open>run_host_blocking\<close>: building the runtime may fail.\<close>

definition run_host_blocking :: "string + unit \<Rightarrow> host_error + unit \<Rightarrow> cli_error + unit" where
  "run_host_blocking build host_result =
     (case build of Inl e \<Rightarrow> Err (RuntimeInit e) | Inr _ \<Rightarrow> map_sum CliHost id host_result)"

text \<open>The result of the program, from those of the host (\<open>None\<close> if its thread panicked) and of the window,
  which is looked at first.\<close>

definition cli_main ::
  "(string \<Rightarrow> string option) \<Rightarrow> arg_matches \<Rightarrow> (host_options \<Rightarrow> (cli_error + unit) option) \<Rightarrow> string + unit \<Rightarrow>
     (cli_error + unit) option" where
  "cli_main env m host_thread box_result =
     (case parse_options env m of
        Inl e \<Rightarrow> Some (Err e)
      | Inr opts \<Rightarrow>
          let host_result = host_thread (host_options_of env opts) in
          if cl_headless opts then host_result
          else case box_result of
                 Inl e \<Rightarrow> Some (Err (CliBoxUi e))
               | Inr _ \<Rightarrow> Some (case host_result of None \<Rightarrow> Err HostThreadPanic | Some r \<Rightarrow> r))"

section \<open>What is accepted\<close>

text \<open>The command line is checked completely. Options are accepted exactly when a policy, a positive
  interval and a positive transcript size are given, the alias is not blank, and there is either a
  command, or a shell command that is not blank without arguments while the shell is known; the host
  then runs the command, or the shell on the command, with an interval its timer accepts.\<close>

theorem accepted_options:
  "parse_options env m = Ok opts \<longleftrightarrow>
     (\<exists>policy ms bytes command args.
        am_policy m = Some policy \<and> am_interval_ms m = Some ms \<and> am_max_transcript_bytes m = Some bytes \<and>
        0 < ms \<and> 0 < bytes \<and> map_option trim (am_alias m) \<noteq> Some [] \<and>
        (am_command m = Some command \<and> am_cmd m = None \<and>
           args = (case am_command_args m of None \<Rightarrow> [] | Some xs \<Rightarrow> xs) \<or>
         am_command m = None \<and> am_command_args m \<in> {None, Some []} \<and> env_trimmed env ''SHELL'' = Some command \<and>
           (\<exists>sc. am_cmd m = Some sc \<and> trim sc \<noteq> [] \<and> args = [''-ic'', sc])) \<and>
        opts = \<lparr>cl_policy_component = policy, cl_command = command, cl_command_args = args,
          cl_disable_spawn = am_disable_spawn m, cl_disable_networking = am_disable_networking m,
          cl_disable_filesystem = am_disable_filesystem m, cl_alias = map_option trim (am_alias m),
          cl_interval_ms = ms, cl_max_transcript_bytes = bytes, cl_headless = am_headless m\<rparr> \<and>
        0 < ho_poll_interval (host_options_of env opts) \<and>
        ho_command (host_options_of env opts) = command \<and> ho_command_args (host_options_of env opts) = args)"
  by (cases "am_policy m"; cases "am_interval_ms m"; cases "am_max_transcript_bytes m"; cases "am_command m"; cases "am_cmd m";
      cases "am_command_args m")
    (auto simp: parse_options_def command_line_def host_options_of_def host_options_new_def from_millis_def Let_def
      split: option.splits if_splits)

end
