(* ===== verification/Cli_Args.thy ===== *)
theory Cli_Args
  imports Cli
begin

text \<open>
  The arguments the program declares, \<^verbatim>\<open>cli\<close> of \<^verbatim>\<open>src/src/main.rs\<close>, as the table given to the argument parser, and which of the
  errors that \<open>parse_options\<close> knows are left for matches that obey the table.
\<close>

section \<open>The table\<close>

datatype arg_kind = ArgText | ArgU64 | ArgUsize | ArgFlag

text \<open>An argument: a name, an option \<^verbatim>\<open>--long\<close> or else a position, and what is declared of it.\<close>

record arg_spec =
  as_id :: string
  as_long :: "string option"
  as_value_name :: "string option"
  as_kind :: arg_kind
  as_required :: bool
  as_conflicts_with :: "string option"
  as_default_value :: "string option"
  as_trailing :: bool
  as_help :: string

definition arg_new :: "string \<Rightarrow> string \<Rightarrow> arg_spec" where
  "arg_new id' help = \<lparr>as_id = id', as_long = None, as_value_name = None, as_kind = ArgText, as_required = False,
     as_conflicts_with = None, as_default_value = None, as_trailing = False, as_help = help\<rparr>"

definition arg_flag :: "string \<Rightarrow> string \<Rightarrow> string \<Rightarrow> arg_spec" where
  "arg_flag id' long help = (arg_new id' help)\<lparr>as_long := Some long, as_kind := ArgFlag\<rparr>"

definition cli_args :: "arg_spec list" where
  "cli_args =
     [(arg_new ''policy'' ''Path to the policy component (.wasm)'')
        \<lparr>as_value_name := Some ''POLICY_WASM'', as_required := True\<rparr>,
      (arg_new ''command'' ''Command to launch directly inside the PTY'')
        \<lparr>as_value_name := Some ''COMMAND'', as_conflicts_with := Some ''cmd''\<rparr>,
      (arg_new ''command_args'' ''Arguments forwarded to COMMAND'')
        \<lparr>as_value_name := Some ''COMMAND_ARGS'', as_trailing := True\<rparr>,
      (arg_new ''cmd'' ''Run BASH_COMMAND through `$SHELL -ic` inside the PTY'')
        \<lparr>as_long := Some ''cmd'', as_value_name := Some ''BASH_COMMAND'', as_conflicts_with := Some ''command''\<rparr>,
      (arg_new ''alias'' ''Optional agent identifier shown in remote reports'')
        \<lparr>as_long := Some ''alias'', as_value_name := Some ''ALIAS''\<rparr>,
      arg_flag ''disable_spawn'' ''disable-spawn'' ''Disable guest process spawning through host process APIs'',
      arg_flag ''disable_networking'' ''disable-networking'' ''Disable guest networking capabilities, including WASI HTTP'',
      arg_flag ''disable_filesystem'' ''disable-filesystem'' ''Disable guest filesystem access by removing host preopens'',
      (arg_new ''interval_ms'' ''Polling interval for policy evaluation'')
        \<lparr>as_long := Some ''interval-ms'', as_value_name := Some ''MILLISECONDS'', as_default_value := Some ''2000'', as_kind := ArgU64\<rparr>,
      (arg_new ''max_transcript_bytes'' ''Maximum PTY transcript retained for policy input'')
        \<lparr>as_long := Some ''max-transcript-bytes'', as_value_name := Some ''BYTES'', as_default_value := Some ''524288'',
         as_kind := ArgUsize\<rparr>,
      arg_flag ''headless'' ''headless'' ''Disable the Man in the Box PTY window'']"

section \<open>Matches that obey it\<close>

text \<open>The text given for an argument on the command line, if any, as the parser reports it.\<close>

type_synonym given = "string \<Rightarrow> string option"

text \<open>The number an argument has: of the text given, else of the default. A text that is no number of its width, a missing
  required argument and a conflict are refused by the parser.\<close>

definition number_of :: "given \<Rightarrow> arg_spec \<Rightarrow> nat option" where
  "number_of given' a =
     (case given' (as_id a) of
        Some v \<Rightarrow> parse_unsigned 64 v
      | None \<Rightarrow> Option.bind (as_default_value a) (parse_unsigned 64))"

definition accepts :: "arg_spec list \<Rightarrow> given \<Rightarrow> bool" where
  "accepts specs given' \<longleftrightarrow>
     list_all (\<lambda>a. (as_required a \<longrightarrow> given' (as_id a) \<noteq> None) \<and>
        (given' (as_id a) \<noteq> None \<longrightarrow> (case as_conflicts_with a of None \<Rightarrow> True | Some b \<Rightarrow> given' b = None)) \<and>
        (as_kind a \<in> {ArgU64, ArgUsize} \<longrightarrow> given' (as_id a) \<noteq> None \<longrightarrow> number_of given' a \<noteq> None)) specs"

definition spec_of :: "string \<Rightarrow> arg_spec" where
  "spec_of i = hd (filter (\<lambda>a. as_id a = i) cli_args)"

text \<open>What is matched: \<open>trailing\<close> are the arguments behind the command.\<close>

definition get_matches :: "given \<Rightarrow> string list option \<Rightarrow> arg_matches" where
  "get_matches given' trailing =
     \<lparr>am_policy = given' ''policy'', am_command = given' ''command'', am_cmd = given' ''cmd'', am_command_args = trailing,
      am_alias = given' ''alias'', am_disable_spawn = (given' ''disable_spawn'' \<noteq> None),
      am_disable_networking = (given' ''disable_networking'' \<noteq> None), am_disable_filesystem = (given' ''disable_filesystem'' \<noteq> None),
      am_interval_ms = number_of given' (spec_of ''interval_ms''),
      am_max_transcript_bytes = number_of given' (spec_of ''max_transcript_bytes''), am_headless = (given' ''headless'' \<noteq> None)\<rparr>"

section \<open>Errors that are left\<close>

lemma spec_numbers:
  "spec_of ''interval_ms'' \<in> set cli_args" "as_id (spec_of ''interval_ms'') = ''interval_ms''"
  "as_default_value (spec_of ''interval_ms'') = Some ''2000''" "as_kind (spec_of ''interval_ms'') = ArgU64"
  "spec_of ''max_transcript_bytes'' \<in> set cli_args" "as_id (spec_of ''max_transcript_bytes'') = ''max_transcript_bytes''"
  "as_default_value (spec_of ''max_transcript_bytes'') = Some ''524288''" "as_kind (spec_of ''max_transcript_bytes'') = ArgUsize"
  by (simp_all add: spec_of_def cli_args_def arg_new_def arg_flag_def)

lemma default_numbers: "parse_unsigned 64 ''2000'' = Some 2000" "parse_unsigned 64 ''524288'' = Some 524288"
  by (simp_all add: parse_unsigned_def is_ascii_digit_def byte_of_def nat_of_dec_def digit_val_def)

lemma accepted_numbers:
  assumes "accepts cli_args given'"
  shows "number_of given' (spec_of ''interval_ms'') \<noteq> None" and "number_of given' (spec_of ''max_transcript_bytes'') \<noteq> None"
proof -
  have "number_of given' a \<noteq> None" if "a \<in> set cli_args" "as_kind a \<in> {ArgU64, ArgUsize}" "as_default_value a = Some v"
    "parse_unsigned 64 v \<noteq> None" for a v
    using assms that by (cases "given' (as_id a)") (auto simp: accepts_def list_all_iff number_of_def)
  from this [OF spec_numbers(1) _ spec_numbers(3)] this [OF spec_numbers(5) _ spec_numbers(7)]
  show "number_of given' (spec_of ''interval_ms'') \<noteq> None" "number_of given' (spec_of ''max_transcript_bytes'') \<noteq> None"
    by (simp_all add: spec_numbers default_numbers)
qed

lemma accepted_policy: "accepts cli_args given' \<Longrightarrow> given' ''policy'' \<noteq> None \<and> (given' ''command'' = None \<or> given' ''cmd'' = None)"
  by (auto simp: accepts_def cli_args_def arg_new_def)



end
