(* ===== verification/Box_Terminal.thy ===== *)
theory Box_Terminal
  imports F64 Vte
begin

text \<open>
  The terminal emulator of the viewer, \<^verbatim>\<open>mitb-box/src/terminal.rs\<close>: a grid of styled cells driven by
  the events of the \<^verbatim>\<open>vte\<close> parser. An index out of bounds is a panic, the value \<open>None\<close>. Sizes and
  cursor positions are natural numbers: a position is at most the size of the grid plus a 16-bit
  parameter, far below the range of \<^verbatim>\<open>usize\<close>. The width of a character is that of the crate
  \<^verbatim>\<open>unicode-width\<close>, the parameter \<open>W\<close>.
\<close>

section \<open>Colours\<close>

text \<open>\<^verbatim>\<open>f32\<close> numbers as rationals: the nearest number with 24 significant bits.\<close>

definition f32 :: "rat \<Rightarrow> rat" where
  "f32 x = (if x = 0 then 0 else let u = 2 powi (max (expo x) (- 126) - 23) in of_int (rne (x / u)) * u)"

record color =
  c_r :: rat
  c_g :: rat
  c_b :: rat
  c_a :: rat

text \<open>\<^verbatim>\<open>Color::from_rgb\<close>, its arguments rounded to \<^verbatim>\<open>f32\<close>.\<close>

definition from_rgb :: "rat \<Rightarrow> rat \<Rightarrow> rat \<Rightarrow> color" where
  "from_rgb r g b = \<lparr>c_r = f32 r, c_g = f32 g, c_b = f32 b, c_a = 1\<rparr>"

definition WHITE :: color where
  "WHITE = from_rgb 1 1 1"

definition BLACK :: color where
  "BLACK = from_rgb 0 0 0"

definition cube_level :: "nat \<Rightarrow> rat" where
  "cube_level n = (if n = 0 then 0 else (of_nat n * 40 + 55) / 255)"

definition palette :: "color list" where
  "palette = [BLACK, from_rgb (8/10) 0 0, from_rgb 0 (8/10) 0, from_rgb (8/10) (8/10) 0, from_rgb 0 0 (8/10),
     from_rgb (8/10) 0 (8/10), from_rgb 0 (8/10) (8/10), from_rgb (75/100) (75/100) (75/100),
     from_rgb (5/10) (5/10) (5/10), from_rgb 1 0 0, from_rgb 0 1 0, from_rgb 1 1 0, from_rgb 0 0 1,
     from_rgb 1 0 1, from_rgb 0 1 1, WHITE]"

definition color_256 :: "nat \<Rightarrow> color" where
  "color_256 index =
     (if index < 16 then palette ! index
      else if index \<le> 231
      then let n = index - 16
           in from_rgb (cube_level (n div 36 mod 6)) (cube_level (n div 6 mod 6)) (cube_level (n mod 6))
      else if index \<le> 255
      then let gray = of_nat ((index - 232) * 10 + 8) / 255 in from_rgb gray gray gray
      else WHITE)"

definition color_true :: "nat \<Rightarrow> nat \<Rightarrow> nat \<Rightarrow> color" where
  "color_true r g b =
     from_rgb (of_nat (min r 255) / 255) (of_nat (min g 255) / 255) (of_nat (min b 255) / 255)"

section \<open>Cells and lines\<close>

record style =
  s_fg :: color
  s_bg :: "color option"
  s_bold :: bool
  s_italic :: bool

definition style_default :: style where
  "style_default = \<lparr>s_fg = WHITE, s_bg = None, s_bold = False, s_italic = False\<rparr>"

record cell =
  ce_text :: "uchar list"
  ce_style :: style
  ce_cont :: bool

definition blank_with_style :: "style \<Rightarrow> cell" where
  "blank_with_style st = \<lparr>ce_text = [32], ce_style = st, ce_cont = False\<rparr>"

definition blank :: cell where
  "blank = blank_with_style style_default"

definition continuation :: "style \<Rightarrow> cell" where
  "continuation st = \<lparr>ce_text = [32], ce_style = st, ce_cont = True\<rparr>"

definition blank_row :: "nat \<Rightarrow> cell list" where
  "blank_row cols = replicate cols blank"

type_synonym width_of = "uchar \<Rightarrow> nat option"

definition is_wide_lead :: "width_of \<Rightarrow> cell \<Rightarrow> bool" where
  "is_wide_lead W c =
     (if ce_cont c then False
      else case ce_text c of
             [] \<Rightarrow> False
           | ch # _ \<Rightarrow> (case W ch of Some w \<Rightarrow> w | None \<Rightarrow> 1) \<ge> 2)"

definition char_width :: "width_of \<Rightarrow> uchar \<Rightarrow> nat" where
  "char_width W c =
     (let width = (case W c of Some w \<Rightarrow> w | None \<Rightarrow> 0) in if width = 0 then 0 else min width 2)"

record span =
  sp_text :: "uchar list"
  sp_fg :: color
  sp_bg :: "color option"
  sp_bold :: bool
  sp_italic :: bool

definition span_default :: span where
  "span_default = \<lparr>sp_text = [], sp_fg = WHITE, sp_bg = None, sp_bold = False, sp_italic = False\<rparr>"

type_synonym line = "span list"

definition span_of :: "style \<Rightarrow> span" where
  "span_of st = \<lparr>sp_text = [], sp_fg = s_fg st, sp_bg = s_bg st, sp_bold = s_bold st, sp_italic = s_italic st\<rparr>"

definition differs :: "span \<Rightarrow> style \<Rightarrow> bool" where
  "differs sp st \<longleftrightarrow> sp_fg sp \<noteq> s_fg st \<or> sp_bg sp \<noteq> s_bg st \<or> sp_bold sp \<noteq> s_bold st \<or> sp_italic sp \<noteq> s_italic st"

definition push_cell :: "cell \<Rightarrow> line \<Rightarrow> line" where
  "push_cell c l =
     (if ce_cont c then l
      else let should_create_new = (l = [] \<or> differs (last l) (ce_style c));
               l = (if should_create_new then l @ [span_of (ce_style c)] else l);
               sp = last l
           in butlast l @ [sp\<lparr>sp_text := sp_text sp @ ce_text c\<rparr>])"

section \<open>The terminal\<close>

record saved_screen =
  sv_buffer :: "cell list list"
  sv_cursor_row :: nat
  sv_cursor_col :: nat
  sv_style :: style
  sv_saved_cursor :: "nat \<times> nat"
  sv_scroll_top :: nat
  sv_scroll_bottom :: nat

record terminal =
  t_buffer :: "cell list list"
  t_row :: nat
  t_col :: nat
  t_cols :: nat
  t_rows :: nat
  t_style :: style
  t_saved_cursor :: "nat \<times> nat"
  t_scroll_top :: nat
  t_scroll_bottom :: nat
  t_alternate :: bool
  t_saved_main :: "saved_screen option"

definition terminal_new :: "nat \<Rightarrow> nat \<Rightarrow> terminal" where
  "terminal_new cols rows =
     (let cols = max cols 1; rows = max rows 1 in
      \<lparr>t_buffer = replicate rows (blank_row cols), t_row = 0, t_col = 0, t_cols = cols, t_rows = rows,
       t_style = style_default, t_saved_cursor = (0, 0), t_scroll_top = 0, t_scroll_bottom = rows - 1,
       t_alternate = False, t_saved_main = None\<rparr>)"

definition lines :: "terminal \<Rightarrow> line list" where
  "lines t =
     map (\<lambda>row. let l = fold push_cell row [] in if l = [] then [span_default] else l) (t_buffer t)"

text \<open>A change of one row of the grid.\<close>

definition on_row :: "nat \<Rightarrow> (cell list \<Rightarrow> cell list option) \<Rightarrow> terminal \<Rightarrow> terminal option" where
  "on_row r f t =
     do { row \<leftarrow> get_at (t_buffer t) r;
          row' \<leftarrow> f row;
          b \<leftarrow> put_at r row' (t_buffer t);
          Some (t\<lparr>t_buffer := b\<rparr>) }"

definition clamp_cursor :: "terminal \<Rightarrow> terminal" where
  "clamp_cursor t = t\<lparr>t_row := min (t_row t) (t_rows t - 1), t_col := min (t_col t) (t_cols t - 1)\<rparr>"

subsection \<open>Scrolling\<close>

definition scroll_up_once :: "nat \<Rightarrow> nat \<Rightarrow> nat \<Rightarrow> cell list list \<Rightarrow> cell list list option" where
  "scroll_up_once cols lo hi b = do { b \<leftarrow> move_down 1 lo hi b; put_at hi (blank_row cols) b }"

definition scroll_down_once :: "nat \<Rightarrow> nat \<Rightarrow> nat \<Rightarrow> cell list list \<Rightarrow> cell list list option" where
  "scroll_down_once cols lo hi b = do { b \<leftarrow> move_up 1 lo hi b; put_at lo (blank_row cols) b }"

definition scroll_up_region :: "nat \<Rightarrow> nat \<Rightarrow> nat \<Rightarrow> terminal \<Rightarrow> terminal option" where
  "scroll_up_region lo hi count t =
     (if lo \<ge> t_rows t \<or> hi \<ge> t_rows t \<or> lo > hi then Some t
      else let lines = hi - lo + 1; count = min count lines in
        do { b \<leftarrow> each (\<lambda>_. scroll_up_once (t_cols t) lo hi) [0..<count] (t_buffer t);
             Some (t\<lparr>t_buffer := b\<rparr>) })"

definition scroll_down_region :: "nat \<Rightarrow> nat \<Rightarrow> nat \<Rightarrow> terminal \<Rightarrow> terminal option" where
  "scroll_down_region lo hi count t =
     (if lo \<ge> t_rows t \<or> hi \<ge> t_rows t \<or> lo > hi then Some t
      else let lines = hi - lo + 1; count = min count lines in
        do { b \<leftarrow> each (\<lambda>_. scroll_down_once (t_cols t) lo hi) [0..<count] (t_buffer t);
             Some (t\<lparr>t_buffer := b\<rparr>) })"

definition linefeed :: "terminal \<Rightarrow> terminal option" where
  "linefeed t =
     (if t_row t = t_scroll_bottom t then scroll_up_region (t_scroll_top t) (t_scroll_bottom t) 1 t
      else if t_row t < t_rows t - 1 then Some (t\<lparr>t_row := t_row t + 1\<rparr>)
      else scroll_up_region 0 (t_rows t - 1) 1 t)"

definition reverse_index :: "terminal \<Rightarrow> terminal option" where
  "reverse_index t =
     (if t_row t = t_scroll_top t then scroll_down_region (t_scroll_top t) (t_scroll_bottom t) 1 t
      else if t_row t > 0 then Some (t\<lparr>t_row := t_row t - 1\<rparr>)
      else Some t)"

definition set_scroll_region :: "nat \<Rightarrow> nat \<Rightarrow> terminal \<Rightarrow> terminal" where
  "set_scroll_region lo hi t =
     (let t = (if lo < hi \<and> hi < t_rows t then t\<lparr>t_scroll_top := lo, t_scroll_bottom := hi\<rparr>
               else t\<lparr>t_scroll_top := 0, t_scroll_bottom := t_rows t - 1\<rparr>)
      in t\<lparr>t_row := t_scroll_top t, t_col := 0\<rparr>)"

definition insert_lines :: "nat \<Rightarrow> terminal \<Rightarrow> terminal option" where
  "insert_lines count t =
     (let row = min (t_row t) (t_rows t - 1) in
      if row < t_scroll_top t \<or> row > t_scroll_bottom t then Some t
      else let available = t_scroll_bottom t - row + 1; count = min count available in
        do { b \<leftarrow> each (\<lambda>_. scroll_down_once (t_cols t) row (t_scroll_bottom t)) [0..<count] (t_buffer t);
             Some (t\<lparr>t_buffer := b\<rparr>) })"

definition delete_lines :: "nat \<Rightarrow> terminal \<Rightarrow> terminal option" where
  "delete_lines count t =
     (let row = min (t_row t) (t_rows t - 1) in
      if row < t_scroll_top t \<or> row > t_scroll_bottom t then Some t
      else let available = t_scroll_bottom t - row + 1; count = min count available in
        do { b \<leftarrow> each (\<lambda>_. scroll_up_once (t_cols t) row (t_scroll_bottom t)) [0..<count] (t_buffer t);
             Some (t\<lparr>t_buffer := b\<rparr>) })"

subsection \<open>Cells of a row\<close>

definition clear_overlapped :: "width_of \<Rightarrow> nat \<Rightarrow> nat \<Rightarrow> cell list \<Rightarrow> cell list option" where
  "clear_overlapped W cols col row =
     (if col \<ge> cols then Some row
      else do {
        c \<leftarrow> get_at row col;
        if ce_cont c
        then do {
          row \<leftarrow> put_at col blank row;
          if col > 0
          then do {
            l \<leftarrow> get_at row (col - 1);
            if is_wide_lead W l then put_at (col - 1) blank row else Some row }
          else Some row }
        else do {
          row \<leftarrow> (if is_wide_lead W c \<and> col + 1 < cols
                 then do {
                   r \<leftarrow> get_at row (col + 1);
                   if ce_cont r then put_at (col + 1) blank row else Some row }
                 else Some row);
          put_at col blank row } })"

text \<open>The writing of one character of the given width by \<^verbatim>\<open>put_char\<close>.\<close>

definition put_glyph :: "width_of \<Rightarrow> nat \<Rightarrow> nat \<Rightarrow> nat \<Rightarrow> uchar \<Rightarrow> style \<Rightarrow> cell list \<Rightarrow> cell list option" where
  "put_glyph W cols width col c st row =
     do {
       row \<leftarrow> clear_overlapped W cols col row;
       row \<leftarrow> put_at col \<lparr>ce_text = [c], ce_style = st, ce_cont = False\<rparr> row;
       if width = 2
       then do {
         row \<leftarrow> clear_overlapped W cols (col + 1) row;
         put_at (col + 1) (continuation st) row }
       else Some row }"

definition sanitize_at :: "width_of \<Rightarrow> nat \<Rightarrow> nat \<Rightarrow> cell list \<Rightarrow> cell list option" where
  "sanitize_at W cols col row =
     do {
       c \<leftarrow> get_at row col;
       if ce_cont c
       then do {
         orphan \<leftarrow> (if col = 0 then Some True else do { l \<leftarrow> get_at row (col - 1); Some (\<not> is_wide_lead W l) });
         if orphan then put_at col blank row else Some row }
       else if is_wide_lead W c
       then (if col + 1 \<ge> cols then put_at col blank row
             else do {
               r \<leftarrow> get_at row (col + 1);
               if \<not> ce_cont r then put_at (col + 1) (continuation (ce_style c)) row else Some row })
       else Some row }"

definition sanitize_cells :: "width_of \<Rightarrow> nat \<Rightarrow> cell list \<Rightarrow> cell list option" where
  "sanitize_cells W cols row = each (sanitize_at W cols) [0..<cols] row"

definition sanitize_row :: "width_of \<Rightarrow> nat \<Rightarrow> terminal \<Rightarrow> terminal option" where
  "sanitize_row W row t = (if row \<ge> t_rows t then Some t else on_row row (sanitize_cells W (t_cols t)) t)"

definition clear_row_range :: "width_of \<Rightarrow> nat \<Rightarrow> nat \<Rightarrow> nat \<Rightarrow> style \<Rightarrow> terminal \<Rightarrow> terminal option" where
  "clear_row_range W row start_col end_col st t =
     (if row \<ge> t_rows t then Some t
      else let start = min start_col (t_cols t); stop = min end_col (t_cols t) in
        if start \<ge> stop then Some t
        else do { t \<leftarrow> on_row row (fill start stop (blank_with_style st)) t; sanitize_row W row t })"

definition clear_rows :: "width_of \<Rightarrow> nat list \<Rightarrow> style \<Rightarrow> terminal \<Rightarrow> terminal option" where
  "clear_rows W rs st t = each (\<lambda>r t. clear_row_range W r 0 (t_cols t) st t) rs t"

definition clear_screen_all :: "width_of \<Rightarrow> style \<Rightarrow> terminal \<Rightarrow> terminal option" where
  "clear_screen_all W st t = clear_rows W [0..<t_rows t] st t"

definition clear_to_end_of_screen :: "width_of \<Rightarrow> style \<Rightarrow> terminal \<Rightarrow> terminal option" where
  "clear_to_end_of_screen W st t =
     (let row = min (t_row t) (t_rows t - 1); col = min (t_col t) (t_cols t - 1) in
      do { t \<leftarrow> clear_row_range W row col (t_cols t) st t;
           clear_rows W [row + 1..<t_rows t] st t })"

definition clear_to_start_of_screen :: "width_of \<Rightarrow> style \<Rightarrow> terminal \<Rightarrow> terminal option" where
  "clear_to_start_of_screen W st t =
     (let row = min (t_row t) (t_rows t - 1); col = min (t_col t) (t_cols t - 1) in
      do { t \<leftarrow> clear_rows W [0..<row] st t;
           clear_row_range W row 0 (col + 1) st t })"

definition insert_blank_chars :: "width_of \<Rightarrow> nat \<Rightarrow> terminal \<Rightarrow> terminal option" where
  "insert_blank_chars W count t =
     (let row = min (t_row t) (t_rows t - 1); col = min (t_col t) (t_cols t - 1) in
      if col \<ge> t_cols t then Some t
      else let count = min count (t_cols t - col) in
        if count = 0 then Some t
        else do {
          t \<leftarrow> on_row row (\<lambda>r. do { r \<leftarrow> move_up count col (t_cols t - count) r;
                                   fill col (col + count) (blank_with_style (t_style t)) r }) t;
          sanitize_row W row t })"

definition delete_chars :: "width_of \<Rightarrow> nat \<Rightarrow> terminal \<Rightarrow> terminal option" where
  "delete_chars W count t =
     (let row = min (t_row t) (t_rows t - 1); col = min (t_col t) (t_cols t - 1) in
      if col \<ge> t_cols t then Some t
      else let count = min count (t_cols t - col) in
        if count = 0 then Some t
        else do {
          t \<leftarrow> on_row row (\<lambda>r. do { r \<leftarrow> move_down count col (t_cols t - count) r;
                                   fill (t_cols t - count) (t_cols t) (blank_with_style (t_style t)) r }) t;
          sanitize_row W row t })"

definition erase_chars :: "width_of \<Rightarrow> nat \<Rightarrow> terminal \<Rightarrow> terminal option" where
  "erase_chars W count t =
     (let row = min (t_row t) (t_rows t - 1); col = min (t_col t) (t_cols t - 1) in
      if col \<ge> t_cols t then Some t
      else let stop = min (col + count) (t_cols t) in
        do { t \<leftarrow> on_row row (fill col stop (blank_with_style (t_style t))) t; sanitize_row W row t })"

subsection \<open>Printing\<close>

fun push_on_first :: "uchar \<Rightarrow> nat list \<Rightarrow> cell list \<Rightarrow> cell list option" where
  "push_on_first c [] row = Some row"
| "push_on_first c (col # cols) row =
     do {
       x \<leftarrow> get_at row col;
       if \<not> ce_cont x then put_at col (x\<lparr>ce_text := ce_text x @ [c]\<rparr>) row
       else push_on_first c cols row }"

text \<open>The column before the cursor that a combining character joins, if there is one.\<close>

definition base_column :: "nat \<Rightarrow> cell list \<Rightarrow> nat option option" where
  "base_column cursor_col row =
     do {
       x \<leftarrow> get_at row (cursor_col - 1);
       let col = (if ce_cont x \<and> cursor_col - 1 > 0 then cursor_col - 1 - 1 else cursor_col - 1);
       y \<leftarrow> get_at row col;
       Some (if \<not> ce_cont y then Some col else None) }"

definition append_combining_char :: "uchar \<Rightarrow> terminal \<Rightarrow> terminal option" where
  "append_combining_char c t =
     (let t = clamp_cursor t; row = t_row t in
      do {
        base \<leftarrow> (if t_col t > 0 then do { cells \<leftarrow> get_at (t_buffer t) row; base_column (t_col t) cells }
                else Some None);
        case base of
          Some col \<Rightarrow> on_row row (push_on_first c [col]) t
        | None \<Rightarrow>
            if row > 0 then on_row (row - 1) (push_on_first c (rev [0..<t_cols t])) t else Some t })"

definition wrap :: "bool \<Rightarrow> terminal \<Rightarrow> terminal option" where
  "wrap now t = (if now then linefeed (t\<lparr>t_col := 0\<rparr>) else Some t)"

definition put_char :: "width_of \<Rightarrow> uchar \<Rightarrow> terminal \<Rightarrow> terminal option" where
  "put_char W c t =
     (let width = char_width W c in
      if width = 0 then append_combining_char c t
      else let t = clamp_cursor t in
        do {
          t \<leftarrow> wrap (t_col t \<ge> t_cols t) t;
          t \<leftarrow> wrap (width = 2 \<and> t_col t = t_cols t - 1) t;
          t \<leftarrow> on_row (t_row t) (put_glyph W (t_cols t) width (t_col t) c (t_style t)) t;
          let t = t\<lparr>t_col := t_col t + width\<rparr>;
          wrap (t_col t \<ge> t_cols t) t })"

subsection \<open>Screens\<close>

definition enter_alternate_screen :: "terminal \<Rightarrow> terminal option" where
  "enter_alternate_screen t =
     (if t_alternate t then Some t
      else let snapshot = \<lparr>sv_buffer = t_buffer t, sv_cursor_row = t_row t, sv_cursor_col = t_col t,
                           sv_style = t_style t, sv_saved_cursor = t_saved_cursor t,
                           sv_scroll_top = t_scroll_top t, sv_scroll_bottom = t_scroll_bottom t\<rparr>
           in do {
             b \<leftarrow> fill 0 (t_rows t) (blank_row (t_cols t)) (t_buffer t);
             Some (t\<lparr>t_buffer := b, t_row := 0, t_col := 0, t_saved_cursor := (0, 0), t_scroll_top := 0,
                     t_scroll_bottom := t_rows t - 1, t_alternate := True, t_saved_main := Some snapshot\<rparr>) })"

definition leave_alternate_screen :: "terminal \<Rightarrow> terminal" where
  "leave_alternate_screen t =
     (if \<not> t_alternate t then t
      else let t = (case t_saved_main t of
                      None \<Rightarrow> t
                    | Some s \<Rightarrow>
                        let t = t\<lparr>t_saved_main := None, t_buffer := sv_buffer s,
                                  t_row := min (sv_cursor_row s) (t_rows t - 1),
                                  t_col := min (sv_cursor_col s) (t_cols t - 1), t_style := sv_style s,
                                  t_saved_cursor := sv_saved_cursor s,
                                  t_scroll_top := min (sv_scroll_top s) (t_rows t - 1),
                                  t_scroll_bottom := min (sv_scroll_bottom s) (t_rows t - 1)\<rparr>
                        in if t_scroll_top t \<ge> t_scroll_bottom t
                           then t\<lparr>t_scroll_top := 0, t_scroll_bottom := t_rows t - 1\<rparr> else t)
           in t\<lparr>t_alternate := False\<rparr>)"

definition handle_private_mode :: "bool \<Rightarrow> nat \<Rightarrow> terminal \<Rightarrow> terminal option" where
  "handle_private_mode set_mode mode t =
     (if mode = 1049
      then if set_mode then enter_alternate_screen t else Some (leave_alternate_screen t)
      else Some t)"

definition reset_terminal :: "terminal \<Rightarrow> terminal option" where
  "reset_terminal t =
     do {
       b \<leftarrow> fill 0 (t_rows t) (blank_row (t_cols t)) (t_buffer t);
       Some (t\<lparr>t_buffer := b, t_row := 0, t_col := 0, t_style := style_default, t_saved_cursor := (0, 0),
               t_scroll_top := 0, t_scroll_bottom := t_rows t - 1\<rparr>) }"

section \<open>Events\<close>

definition execute :: "nat \<Rightarrow> terminal \<Rightarrow> terminal option" where
  "execute b t =
     (if b = 10 then linefeed t
      else if b = 13 then Some (t\<lparr>t_col := 0\<rparr>)
      else if b = 9 then Some (t\<lparr>t_col := min ((t_col t + 8) div 8 * 8) (t_cols t - 1)\<rparr>)
      else if b = 8 then Some (if t_col t > 0 then t\<lparr>t_col := t_col t - 1\<rparr> else t)
      else Some t)"

definition base_colors :: "color list" where
  "base_colors = [BLACK, from_rgb (8/10) (2/10) (2/10), from_rgb (2/10) (8/10) (2/10), from_rgb (8/10) (8/10) (2/10),
     from_rgb (2/10) (2/10) (8/10), from_rgb (8/10) (2/10) (8/10), from_rgb (2/10) (8/10) (8/10), WHITE]"

definition bright_colors :: "color list" where
  "bright_colors = [from_rgb (5/10) (5/10) (5/10), from_rgb 1 (3/10) (3/10), from_rgb (3/10) 1 (3/10),
     from_rgb 1 1 (3/10), from_rgb (3/10) (3/10) 1, from_rgb 1 (3/10) 1, from_rgb (3/10) 1 1, WHITE]"

text \<open>The codes without arguments.\<close>

definition sgr_code :: "nat \<Rightarrow> style \<Rightarrow> style" where
  "sgr_code v st =
     (if v = 0 then style_default
      else if v = 1 then st\<lparr>s_bold := True\<rparr>
      else if v = 3 then st\<lparr>s_italic := True\<rparr>
      else if v = 22 then st\<lparr>s_bold := False\<rparr>
      else if v = 23 then st\<lparr>s_italic := False\<rparr>
      else if 30 \<le> v \<and> v \<le> 37 then st\<lparr>s_fg := base_colors ! (v - 30)\<rparr>
      else if v = 39 then st\<lparr>s_fg := WHITE\<rparr>
      else if 40 \<le> v \<and> v \<le> 47 then st\<lparr>s_bg := Some (base_colors ! (v - 40))\<rparr>
      else if v = 49 then st\<lparr>s_bg := None\<rparr>
      else if 90 \<le> v \<and> v \<le> 97 then st\<lparr>s_fg := bright_colors ! (v - 90)\<rparr>
      else if 100 \<le> v \<and> v \<le> 107 then st\<lparr>s_bg := Some (bright_colors ! (v - 100))\<rparr>
      else st)"

text \<open>The arguments of 38 and 48: the colour, and how many values it took.\<close>

fun sgr_color :: "nat list \<Rightarrow> (color \<times> nat) option" where
  "sgr_color (k # vs) =
     (if k = 5 \<and> vs \<noteq> [] then Some (color_256 (vs ! 0), 2)
      else if k = 2 \<and> length vs \<ge> 3 then Some (color_true (vs ! 0) (vs ! 1) (vs ! 2), 4)
      else None)"
| "sgr_color [] = None"

function sgr_loop :: "nat list \<Rightarrow> style \<Rightarrow> style" where
  "sgr_loop [] st = st"
| "sgr_loop (v # vs) st =
     (if v = 38 \<or> v = 48
      then (case sgr_color vs of
              Some (col, n) \<Rightarrow>
                sgr_loop (drop n vs) (if v = 38 then st\<lparr>s_fg := col\<rparr> else st\<lparr>s_bg := Some col\<rparr>)
            | None \<Rightarrow> sgr_loop vs st)
      else sgr_loop vs (sgr_code v st))"
  by pat_completeness auto
termination by (relation "measure (\<lambda>(vs, st). length vs)") auto

definition select_graphic_rendition :: "params \<Rightarrow> terminal \<Rightarrow> terminal" where
  "select_graphic_rendition ps t =
     (let values = concat ps in
      if values = [] then t\<lparr>t_style := style_default\<rparr> else t\<lparr>t_style := sgr_loop values (t_style t)\<rparr>)"

definition erase_in_display :: "width_of \<Rightarrow> nat \<Rightarrow> terminal \<Rightarrow> terminal option" where
  "erase_in_display W p t =
     (if p = 0 then clear_to_end_of_screen W (t_style t) t
      else if p = 1 then clear_to_start_of_screen W (t_style t) t
      else if p = 2 \<or> p = 3 then clear_screen_all W (t_style t) t
      else Some t)"

definition erase_in_line :: "width_of \<Rightarrow> nat \<Rightarrow> terminal \<Rightarrow> terminal option" where
  "erase_in_line W p t =
     (let row = min (t_row t) (t_rows t - 1); col = min (t_col t) (t_cols t - 1) in
      if p = 0 then clear_row_range W row col (t_cols t) (t_style t) t
      else if p = 1 then clear_row_range W row 0 (col + 1) (t_style t) t
      else if p = 2 then clear_row_range W row 0 (t_cols t) (t_style t) t
      else Some t)"

definition save_cursor :: "terminal \<Rightarrow> terminal" where
  "save_cursor t = t\<lparr>t_saved_cursor := (t_row t, t_col t)\<rparr>"

definition restore_cursor :: "terminal \<Rightarrow> terminal" where
  "restore_cursor t =
     t\<lparr>t_row := min (fst (t_saved_cursor t)) (t_rows t - 1), t_col := min (snd (t_saved_cursor t)) (t_cols t - 1)\<rparr>"

text \<open>The movements of the cursor; \<open>None\<close> for any other final character.\<close>

definition csi_cursor :: "params \<Rightarrow> char \<Rightarrow> terminal \<Rightarrow> terminal option" where
  "csi_cursor ps action t =
     (let n = param_count ps 1; last_row = t_rows t - 1; last_col = t_cols t - 1 in
      if action = CHR ''H'' \<or> action = CHR ''f''
      then Some (t\<lparr>t_row := min (param_at ps 0 1 - 1) last_row, t_col := min (param_at ps 1 1 - 1) last_col\<rparr>)
      else if action = CHR ''A'' then Some (t\<lparr>t_row := t_row t - n\<rparr>)
      else if action = CHR ''B'' then Some (t\<lparr>t_row := min (t_row t + n) last_row\<rparr>)
      else if action = CHR ''C'' then Some (t\<lparr>t_col := min (t_col t + n) last_col\<rparr>)
      else if action = CHR ''D'' then Some (t\<lparr>t_col := t_col t - n\<rparr>)
      else if action = CHR ''E'' then Some (t\<lparr>t_row := min (t_row t + n) last_row, t_col := 0\<rparr>)
      else if action = CHR ''F'' then Some (t\<lparr>t_row := t_row t - n, t_col := 0\<rparr>)
      else if action = CHR ''G'' then Some (t\<lparr>t_col := min (param_at ps 0 1 - 1) last_col\<rparr>)
      else if action = CHR ''d'' then Some (t\<lparr>t_row := min (param_at ps 0 1 - 1) last_row\<rparr>)
      else None)"

definition csi_edit :: "width_of \<Rightarrow> params \<Rightarrow> char list \<Rightarrow> char \<Rightarrow> terminal \<Rightarrow> terminal option" where
  "csi_edit W ps im action t =
     (let n = param_count ps 1 in
      if action = CHR ''m'' then Some (select_graphic_rendition ps t)
      else if action = CHR ''J'' then erase_in_display W (param_at ps 0 0) t
      else if action = CHR ''K'' then erase_in_line W (param_at ps 0 0) t
      else if action = CHR ''@'' then insert_blank_chars W n t
      else if action = CHR ''P'' then delete_chars W n t
      else if action = CHR ''X'' then erase_chars W n t
      else if action = CHR ''L'' then insert_lines n t
      else if action = CHR ''M'' then delete_lines n t
      else if action = CHR ''S'' then scroll_up_region (t_scroll_top t) (t_scroll_bottom t) n t
      else if action = CHR ''T'' then scroll_down_region (t_scroll_top t) (t_scroll_bottom t) n t
      else if action = CHR ''r''
      then Some (set_scroll_region (param_at ps 0 1 - 1) (param_at ps 1 (t_rows t mod 2 ^ 16) - 1) t)
      else if action = CHR ''s'' then Some (save_cursor t)
      else if action = CHR ''u'' then Some (restore_cursor t)
      else if (action = CHR ''h'' \<or> action = CHR ''l'') \<and> CHR ''?'' \<in> set im
      then each (handle_private_mode (action = CHR ''h'')) (concat ps) t
      else Some t)"

definition csi_dispatch :: "width_of \<Rightarrow> params \<Rightarrow> char list \<Rightarrow> char \<Rightarrow> terminal \<Rightarrow> terminal option" where
  "csi_dispatch W ps im action t =
     (case csi_cursor ps action t of Some t' \<Rightarrow> Some t' | None \<Rightarrow> csi_edit W ps im action t)"

definition esc_dispatch :: "char list \<Rightarrow> char \<Rightarrow> terminal \<Rightarrow> terminal option" where
  "esc_dispatch im b t =
     (if im \<noteq> [] then Some t
      else if b = CHR ''7'' then Some (save_cursor t)
      else if b = CHR ''8'' then Some (restore_cursor t)
      else if b = CHR ''D'' then linefeed t
      else if b = CHR ''E'' then map_option (\<lambda>t. t\<lparr>t_col := 0\<rparr>) (linefeed t)
      else if b = CHR ''M'' then reverse_index t
      else if b = CHR ''c'' then reset_terminal t
      else Some t)"

fun box_perform :: "width_of \<Rightarrow> vte_event \<Rightarrow> terminal \<Rightarrow> terminal option" where
  "box_perform W (VtePrint c) t = put_char W c t"
| "box_perform W (VteExecute b) t = execute b t"
| "box_perform W (VteCsi ps im ignore action) t = csi_dispatch W ps im action t"
| "box_perform W (VteEsc im ignore b) t = esc_dispatch im b t"
| "box_perform W _ t = Some t"

definition feed :: "width_of \<Rightarrow> 'p vte_parser \<Rightarrow> byte list \<Rightarrow> 'p \<times> terminal \<Rightarrow> ('p \<times> terminal) option" where
  "feed W parser bytes pt =
     (let (es, p) = parser (fst pt) bytes in map_option (Pair p) (perform_all (box_perform W) es (snd pt)))"

end
