(* ===== verification/Box_Terminal_Inv.thy ===== *)
theory Box_Terminal_Inv
  imports Box_Terminal
begin

text \<open>
  The terminal emulator never panics on two or more columns and keeps its grid well formed: every
  row has the same length, a double-width character always occupies two cells, and the cursor and
  the scroll region stay on the screen. The rows are treated first, then the whole grid.
\<close>

section \<open>Rows\<close>

text \<open>What is assumed of the width function: a space is one column wide.\<close>

definition width_law :: "width_of \<Rightarrow> bool" where
  "width_law W \<longleftrightarrow> W 32 = Some 1"

text \<open>Every double-width character is followed by its continuation, and there is no other.\<close>

definition paired :: "width_of \<Rightarrow> cell list \<Rightarrow> bool" where
  "paired W row \<longleftrightarrow>
     (\<forall>i < length row. (ce_cont (row ! i) \<longrightarrow> 0 < i \<and> is_wide_lead W (row ! (i - 1))) \<and>
        (is_wide_lead W (row ! i) \<longrightarrow> i + 1 < length row \<and> ce_cont (row ! (i + 1))))"

definition row_ok :: "width_of \<Rightarrow> nat \<Rightarrow> cell list \<Rightarrow> bool" where
  "row_ok W cols row \<longleftrightarrow> length row = cols \<and> paired W row"

text \<open>A cell that is neither half of a double-width character.\<close>

definition narrow :: "width_of \<Rightarrow> cell \<Rightarrow> bool" where
  "narrow W c \<longleftrightarrow> \<not> ce_cont c \<and> \<not> is_wide_lead W c"

lemma lead_not_cont: "is_wide_lead W c \<Longrightarrow> \<not> ce_cont c"
  by (simp add: is_wide_lead_def split: if_splits)

lemma narrow_blank [simp]: "width_law W \<Longrightarrow> narrow W (blank_with_style st)" "width_law W \<Longrightarrow> narrow W blank"
  by (simp_all add: narrow_def is_wide_lead_def blank_def blank_with_style_def width_law_def)

lemma cont_continuation [simp]: "ce_cont (continuation st)" "\<not> is_wide_lead W (continuation st)"
  by (simp_all add: continuation_def is_wide_lead_def)

lemma blank_row_ok: "width_law W \<Longrightarrow> row_ok W cols (blank_row cols)"
  using narrow_blank(2) [of W] by (auto simp: row_ok_def blank_row_def paired_def narrow_def)

lemma paired_cont: "paired W row \<Longrightarrow> i < length row \<Longrightarrow> ce_cont (row ! i) \<Longrightarrow> 0 < i \<and> is_wide_lead W (row ! (i - 1))"
  by (simp add: paired_def)

lemma paired_lead: "paired W row \<Longrightarrow> i < length row \<Longrightarrow> is_wide_lead W (row ! i) \<Longrightarrow>
    i + 1 < length row \<and> ce_cont (row ! (i + 1))"
  by (simp add: paired_def)

lemma pairedI:
  assumes "\<And>i. i < length row \<Longrightarrow> ce_cont (row ! i) \<Longrightarrow> 0 < i \<and> is_wide_lead W (row ! (i - 1))"
    and "\<And>i. i < length row \<Longrightarrow> is_wide_lead W (row ! i) \<Longrightarrow> i + 1 < length row \<and> ce_cont (row ! (i + 1))"
  shows "paired W row"
  using assms by (simp add: paired_def)

lemma paired_put_narrow:
  assumes "paired W row" and "i < length row" and "narrow W (row ! i)" and "narrow W c"
  shows "paired W (row[i := c])"
proof (rule pairedI)
  fix j assume "j < length (row[i := c])" and "ce_cont (row[i := c] ! j)"
  then have j: "j < length row" "j \<noteq> i" "ce_cont (row ! j)"
    using assms(2,4) by (auto simp: nth_list_update narrow_def split: if_splits)
  from paired_cont [OF assms(1) j(1,3)] have "0 < j" "is_wide_lead W (row ! (j - 1))" by auto
  moreover from this have "j - 1 \<noteq> i" using assms(3) by (auto simp: narrow_def)
  ultimately show "0 < j \<and> is_wide_lead W (row[i := c] ! (j - 1))" by simp
next
  fix j assume "j < length (row[i := c])" and "is_wide_lead W (row[i := c] ! j)"
  then have j: "j < length row" "j \<noteq> i" "is_wide_lead W (row ! j)"
    using assms(2,4) by (auto simp: nth_list_update narrow_def split: if_splits)
  from paired_lead [OF assms(1) j(1,3)] have "j + 1 < length row" "ce_cont (row ! (j + 1))" by auto
  moreover from this have "j + 1 \<noteq> i" using assms(3) by (auto simp: narrow_def)
  ultimately show "j + 1 < length (row[i := c]) \<and> ce_cont (row[i := c] ! (j + 1))" by simp
qed

lemma paired_break:
  assumes "paired W row" and "i < length row" and "is_wide_lead W (row ! i)" and "narrow W b"
  shows "paired W (row[i := b, i + 1 := b])"
proof (rule pairedI)
  let ?r = "row[i := b, i + 1 := b]"
  have i: "i + 1 < length row" "ce_cont (row ! (i + 1))" using paired_lead [OF assms(1-3)] by auto
  fix j assume "j < length ?r" and "ce_cont (?r ! j)"
  then have j: "j < length row" "j \<noteq> i" "j \<noteq> i + 1" "ce_cont (row ! j)"
    using assms(2,4) i by (auto simp: nth_list_update narrow_def split: if_splits)
  from paired_cont [OF assms(1) j(1,4)] have "0 < j" "is_wide_lead W (row ! (j - 1))" by auto
  moreover have "j - 1 \<noteq> i" using j(3) \<open>0 < j\<close> by auto
  moreover have "j - 1 \<noteq> i + 1" using calculation(2) i(2) lead_not_cont by metis
  ultimately show "0 < j \<and> is_wide_lead W (?r ! (j - 1))" by simp
next
  let ?r = "row[i := b, i + 1 := b]"
  have i: "i + 1 < length row" "ce_cont (row ! (i + 1))" using paired_lead [OF assms(1-3)] by auto
  fix j assume "j < length ?r" and "is_wide_lead W (?r ! j)"
  then have j: "j < length row" "j \<noteq> i" "j \<noteq> i + 1" "is_wide_lead W (row ! j)"
    using assms(2,4) i by (auto simp: nth_list_update narrow_def split: if_splits)
  from paired_lead [OF assms(1) j(1,4)] have "j + 1 < length row" "ce_cont (row ! (j + 1))" by auto
  moreover have "j + 1 \<noteq> i" using calculation(2) assms(3) lead_not_cont by metis
  ultimately show "j + 1 < length ?r \<and> ce_cont (?r ! (j + 1))" using j(2,3) by simp
qed

lemma clear_overlapped_spec:
  assumes W: "width_law W" and ok: "row_ok W cols row" and col: "col < cols"
  shows "\<exists>row'. clear_overlapped W cols col row = Some row' \<and> row_ok W cols row' \<and> row' ! col = blank"
proof -
  have len: "length row = cols" and p: "paired W row" using ok by (simp_all add: row_ok_def)
  consider "ce_cont (row ! col)" | "is_wide_lead W (row ! col)" | "narrow W (row ! col)"
    by (auto simp: narrow_def)
  then show ?thesis
  proof cases
    case 1
    then have l: "0 < col" "is_wide_lead W (row ! (col - 1))" using paired_cont [OF p] col len by auto
    then have "clear_overlapped W cols col row = Some (row[col - 1 := blank, col := blank])"
      using 1 col len by (simp add: clear_overlapped_def list_update_swap)
    moreover have "paired W (row[col - 1 := blank, col := blank])"
      using paired_break [OF p _ l(2) narrow_blank(2) [OF W]] l(1) col len by simp
    ultimately show ?thesis using len col by (simp add: row_ok_def)
  next
    case 2
    then have r: "col + 1 < cols" "ce_cont (row ! (col + 1))" using paired_lead [OF p] col len by auto
    then have "clear_overlapped W cols col row = Some (row[col := blank, col + 1 := blank])"
      using 2 col len lead_not_cont [OF 2] by (simp add: clear_overlapped_def list_update_swap)
    moreover have "paired W (row[col := blank, col + 1 := blank])"
      using paired_break [OF p _ 2 narrow_blank(2) [OF W]] col len by simp
    ultimately show ?thesis using len col by (simp add: row_ok_def)
  next
    case 3
    then have "clear_overlapped W cols col row = Some (row[col := blank])"
      using col len by (simp add: clear_overlapped_def narrow_def)
    moreover have "paired W (row[col := blank])"
      using paired_put_narrow [OF p _ 3 narrow_blank(2) [OF W]] col len by simp
    ultimately show ?thesis using len col by (simp add: row_ok_def)
  qed
qed

lemma paired_put_pair:
  assumes "paired W row" and "i + 1 < length row" and "narrow W (row ! i)" and "narrow W (row ! (i + 1))"
    and "is_wide_lead W a" and "ce_cont b"
  shows "paired W (row[i := a, i + 1 := b])"
proof (rule pairedI)
  let ?r = "row[i := a, i + 1 := b]"
  fix j assume "j < length ?r" and "ce_cont (?r ! j)"
  then consider "j = i + 1" | "j < length row" "j \<noteq> i" "j \<noteq> i + 1" "ce_cont (row ! j)"
    using assms(2) lead_not_cont [OF assms(5)] by (cases "j = i + 1"; cases "j = i") (auto simp: nth_list_update)
  then show "0 < j \<and> is_wide_lead W (?r ! (j - 1))"
  proof cases
    case 2
    from paired_cont [OF assms(1) 2(1,4)] have "0 < j" "is_wide_lead W (row ! (j - 1))" by auto
    moreover from this have "j - 1 \<noteq> i" "j - 1 \<noteq> i + 1" using assms(3,4) by (auto simp: narrow_def)
    ultimately show ?thesis by simp
  qed (use assms(2,5) in simp)
next
  let ?r = "row[i := a, i + 1 := b]"
  fix j assume "j < length ?r" and "is_wide_lead W (?r ! j)"
  then consider "j = i" | "j < length row" "j \<noteq> i" "j \<noteq> i + 1" "is_wide_lead W (row ! j)"
    using assms(2,6) lead_not_cont [of W b] by (cases "j = i + 1"; cases "j = i") (auto simp: nth_list_update)
  then show "j + 1 < length ?r \<and> ce_cont (?r ! (j + 1))"
  proof cases
    case 2
    from paired_lead [OF assms(1) 2(1,4)] have "j + 1 < length row" "ce_cont (row ! (j + 1))" by auto
    moreover from this have "j + 1 \<noteq> i" "j + 1 \<noteq> i + 1" using assms(3,4) by (auto simp: narrow_def)
    ultimately show ?thesis by simp
  qed (use assms(2,6) in simp)
qed

lemma glyph_lead:
  "char_width W c = 2 \<Longrightarrow> is_wide_lead W \<lparr>ce_text = [c], ce_style = st, ce_cont = False\<rparr>"
  "char_width W c = 1 \<Longrightarrow> narrow W \<lparr>ce_text = [c], ce_style = st, ce_cont = False\<rparr>"
  by (auto simp: char_width_def is_wide_lead_def narrow_def Let_def split: option.splits if_splits)

lemma char_width_cases: "char_width W c = 0 \<or> char_width W c = 1 \<or> char_width W c = 2"
  by (auto simp: char_width_def Let_def split: option.splits)

text \<open>Clearing the cell right of a cell that is about to change.\<close>

lemma clear_overlapped_right:
  assumes "col + 1 < cols" and "length row = cols" and "\<not> ce_cont (row ! (col + 1))"
  shows "clear_overlapped W cols (col + 1) (row[col := x]) =
    map_option (\<lambda>r. r[col := x]) (clear_overlapped W cols (col + 1) row) \<and>
    (\<forall>r. clear_overlapped W cols (col + 1) row = Some r \<longrightarrow> r ! col = row ! col)"
  using assms by (auto simp: clear_overlapped_def list_update_swap)

lemma put_glyph_spec:
  assumes W: "width_law W" and ok: "row_ok W cols row" and w: "width = char_width W c" "width \<noteq> 0"
    and col: "col + width \<le> cols"
  shows "\<exists>row'. put_glyph W cols width col c st row = Some row' \<and> row_ok W cols row'"
proof -
  let ?g = "\<lparr>ce_text = [c], ce_style = st, ce_cont = False\<rparr>"
  obtain r1 where r1: "clear_overlapped W cols col row = Some r1" "row_ok W cols r1" "r1 ! col = blank"
    using clear_overlapped_spec [OF W ok, of col] col w by auto
  have len: "length r1 = cols" and p: "paired W r1" using r1(2) by (simp_all add: row_ok_def)
  have c: "col < cols" using col w(2) by simp
  have n: "narrow W (r1 ! col)" using r1(3) W by simp
  show ?thesis
  proof (cases "width = 2")
    case False
    then have "narrow W ?g" using char_width_cases [of W c] w by (intro glyph_lead(2)) auto
    then have "paired W (r1[col := ?g])" using paired_put_narrow [OF p _ n] c len by simp
    with r1(1) False c len show ?thesis by (simp add: put_glyph_def row_ok_def)
  next
    case True
    then have c1: "col + 1 < cols" using col by simp
    have nc: "\<not> ce_cont (r1 ! (col + 1))" using paired_cont [OF p, of "col + 1"] c1 len n by (auto simp: narrow_def)
    obtain r2 where r2: "clear_overlapped W cols (col + 1) r1 = Some r2" "row_ok W cols r2" "r2 ! (col + 1) = blank"
      using clear_overlapped_spec [OF W r1(2) c1] by blast
    note cr = clear_overlapped_right [OF c1 len nc, of W ?g]
    have "narrow W (r2 ! col)" "narrow W (r2 ! (col + 1))" using cr r2(1,3) n W by simp_all
    then have "paired W (r2[col := ?g, col + 1 := continuation st])"
      using paired_put_pair [of W r2 col ?g "continuation st"] r2(2) c1 True w(1) glyph_lead(1)
      by (simp add: row_ok_def)
    with r1(1) r2 cr True c c1 len show ?thesis by (simp add: put_glyph_def row_ok_def)
  qed
qed

lemma sanitize_cells_spec:
  assumes W: "width_law W" and len: "length row = cols"
  shows "\<exists>row'. sanitize_cells W cols row = Some row' \<and> row_ok W cols row'"
proof -
  define P where "P k r \<longleftrightarrow> length r = cols \<and>
    (\<forall>i < k. (ce_cont (r ! i) \<longrightarrow> 0 < i \<and> is_wide_lead W (r ! (i - 1))) \<and>
       (is_wide_lead W (r ! i) \<longrightarrow> i + 1 < cols \<and> ce_cont (r ! (i + 1))))" for k r
  have step: "\<exists>r'. sanitize_at W cols k r = Some r' \<and> P (Suc k) r'" if k: "k < cols" and p: "P k r" for k r
  proof -
    have l: "length r = cols" using p by (simp add: P_def)
    have nb: "narrow W blank" using W by simp
    consider "ce_cont (r ! k)" "k = 0 \<or> \<not> is_wide_lead W (r ! (k - 1))" | "ce_cont (r ! k)" "0 < k" "is_wide_lead W (r ! (k - 1))"
      | "\<not> ce_cont (r ! k)" "is_wide_lead W (r ! k)" "cols \<le> k + 1"
      | "\<not> ce_cont (r ! k)" "is_wide_lead W (r ! k)" "k + 1 < cols" | "\<not> ce_cont (r ! k)" "\<not> is_wide_lead W (r ! k)"
      by force
    then show ?thesis
    proof cases
      case 1
      then have "sanitize_at W cols k r = Some (r[k := blank])" using k l by (auto simp: sanitize_at_def)
      moreover have "P (Suc k) (r[k := blank])"
        using p nb 1(2) k l unfolding P_def narrow_def
        by (auto simp: nth_list_update less_Suc_eq)
      ultimately show ?thesis by blast
    next
      case 2
      then have "sanitize_at W cols k r = Some r" using k l by (simp add: sanitize_at_def)
      moreover have "P (Suc k) r" using p 2 lead_not_cont [of W "r ! k"] unfolding P_def by (auto simp: less_Suc_eq)
      ultimately show ?thesis by blast
    next
      case 3
      then have "sanitize_at W cols k r = Some (r[k := blank])" using k l by (simp add: sanitize_at_def)
      moreover have "P (Suc k) (r[k := blank])"
        using p nb 3(1) k l unfolding P_def narrow_def
        by (auto simp: nth_list_update less_Suc_eq)
      ultimately show ?thesis by blast
    next
      case 4
      let ?r = "if ce_cont (r ! (k + 1)) then r else r[k + 1 := continuation (ce_style (r ! k))]"
      have "sanitize_at W cols k r = Some ?r" using 4 k l by (simp add: sanitize_at_def)
      moreover have "P (Suc k) ?r"
        using p 4 k l unfolding P_def by (auto simp: nth_list_update less_Suc_eq)
      ultimately show ?thesis by blast
    next
      case 5
      then have "sanitize_at W cols k r = Some r" using k l by (simp add: sanitize_at_def)
      moreover have "P (Suc k) r" using p 5 unfolding P_def by (auto simp: less_Suc_eq)
      ultimately show ?thesis by blast
    qed
  qed
  have "\<exists>r'. each (sanitize_at W cols) [0..<cols] row = Some r' \<and> P cols r'"
    by (rule each_upt_inv [of P]) (use len step in \<open>auto simp: P_def\<close>)
  then show ?thesis by (auto simp: sanitize_cells_def row_ok_def paired_def P_def)
qed

lemma paired_cong:
  assumes "paired W row" and "length row' = length row"
    and "\<And>i. i < length row \<Longrightarrow> ce_cont (row' ! i) = ce_cont (row ! i) \<and> is_wide_lead W (row' ! i) = is_wide_lead W (row ! i)"
  shows "paired W row'"
  using assms by (fastforce simp: paired_def)

lemma push_on_first_spec:
  assumes "row_ok W cols row" and "\<forall>c \<in> set cs. c < cols" and "char_width W ch = 0"
  shows "\<exists>row'. push_on_first ch cs row = Some row' \<and> row_ok W cols row'"
  using assms(2)
proof (induction cs)
  case (Cons c cs)
  have len: "length row = cols" and p: "paired W row" using assms(1) by (simp_all add: row_ok_def)
  show ?case
  proof (cases "ce_cont (row ! c)")
    case False
    let ?x = "(row ! c)\<lparr>ce_text := ce_text (row ! c) @ [ch]\<rparr>"
    have same: "is_wide_lead W ?x = is_wide_lead W (row ! c)" "ce_cont ?x = ce_cont (row ! c)"
      using assms(3) by (auto simp: is_wide_lead_def char_width_def Let_def split: list.splits option.splits if_splits)
    have "paired W (row[c := ?x])"
      by (rule paired_cong [OF p]) (use same Cons.prems len in \<open>auto simp: nth_list_update\<close>)
    then show ?thesis using Cons.prems False len by (auto simp: row_ok_def)
  qed (use Cons len in auto)
qed (use assms in auto)

section \<open>The grid\<close>

definition rows_ok :: "width_of \<Rightarrow> nat \<Rightarrow> nat \<Rightarrow> cell list list \<Rightarrow> bool" where
  "rows_ok W cols rows b \<longleftrightarrow> length b = rows \<and> (\<forall>row \<in> set b. row_ok W cols row)"

definition term_ok :: "width_of \<Rightarrow> terminal \<Rightarrow> bool" where
  "term_ok W t \<longleftrightarrow>
     rows_ok W (t_cols t) (t_rows t) (t_buffer t) \<and> t_row t < t_rows t \<and> t_col t < t_cols t \<and>
     t_scroll_top t \<le> t_scroll_bottom t \<and> t_scroll_bottom t < t_rows t \<and>
     (\<forall>s. t_saved_main t = Some s \<longrightarrow> rows_ok W (t_cols t) (t_rows t) (sv_buffer s) \<and>
        sv_scroll_top s \<le> sv_scroll_bottom s)"

text \<open>What every operation promises: it succeeds, and the grid is as good as before and of the same size.\<close>

definition keeps :: "width_of \<Rightarrow> terminal \<Rightarrow> terminal option \<Rightarrow> bool" where
  "keeps W t r \<longleftrightarrow> (\<exists>t'. r = Some t' \<and> term_ok W t' \<and> t_cols t' = t_cols t \<and> t_rows t' = t_rows t)"

lemma keeps_refl [simp]: "term_ok W t \<Longrightarrow> keeps W t (Some t)"
  by (simp add: keeps_def)

lemma keeps_bind:
  assumes "keeps W t r" and "\<And>t'. r = Some t' \<Longrightarrow> term_ok W t' \<Longrightarrow> t_cols t' = t_cols t \<Longrightarrow> t_rows t' = t_rows t \<Longrightarrow> keeps W t' (f t')"
  shows "keeps W t (Option.bind r f)"
  using assms by (fastforce simp: keeps_def)

lemma keeps_each:
  assumes "term_ok W t" and "\<And>x t. x \<in> set xs \<Longrightarrow> term_ok W t \<Longrightarrow> keeps W t (f x t)"
  shows "keeps W t (each f xs t)"
  unfolding keeps_def
proof (rule each_inv [of "\<lambda>t'. term_ok W t' \<and> t_cols t' = t_cols t \<and> t_rows t' = t_rows t"])
  fix x t' assume "x \<in> set xs" and "term_ok W t' \<and> t_cols t' = t_cols t \<and> t_rows t' = t_rows t"
  with assms(2) [of x t'] show "\<exists>s. f x t' = Some s \<and> term_ok W s \<and> t_cols s = t_cols t \<and> t_rows s = t_rows t"
    by (simp add: keeps_def)
qed (use assms(1) in simp)

lemma keeps_map: "keeps W t r \<Longrightarrow> (\<And>t'. term_ok W t' \<Longrightarrow> keeps W t' (Some (f t'))) \<Longrightarrow> keeps W t (map_option f r)"
  by (fastforce simp: keeps_def)

text \<open>Changes that leave the buffers alone.\<close>

lemma term_ok_move:
  assumes "term_ok W t"
  shows "row < t_rows t \<Longrightarrow> keeps W t (Some (t\<lparr>t_row := row\<rparr>))"
    and "col < t_cols t \<Longrightarrow> keeps W t (Some (t\<lparr>t_col := col\<rparr>))"
    and "row < t_rows t \<Longrightarrow> col < t_cols t \<Longrightarrow> keeps W t (Some (t\<lparr>t_row := row, t_col := col\<rparr>))"
    and "keeps W t (Some (t\<lparr>t_saved_cursor := p\<rparr>))" and "keeps W t (Some (t\<lparr>t_style := st\<rparr>))"
  using assms by (simp_all add: keeps_def term_ok_def)

lemma term_ok_bounds:
  assumes "term_ok W t"
  shows "min x (t_rows t - 1) < t_rows t" "min x (t_cols t - 1) < t_cols t" "min x (t_rows t - Suc 0) < t_rows t"
    "min x (t_cols t - Suc 0) < t_cols t" "t_row t - n < t_rows t" "t_col t - n < t_cols t" "0 < t_cols t" "0 < t_rows t"
    "min (t_row t) (t_rows t - 1) = t_row t" "min (t_col t) (t_cols t - 1) = t_col t"
  using assms by (auto simp: term_ok_def)

lemma term_ok_clamp:
  assumes "term_ok W t"
  shows "min (t_row t) (t_rows t - Suc 0) = t_row t" "min (t_col t) (t_cols t - Suc 0) = t_col t"
    "t_row t < t_rows t" "t_col t < t_cols t"
  using assms by (auto simp: term_ok_def)

lemma clamp_cursor_id: "term_ok W t \<Longrightarrow> clamp_cursor t = t"
  using term_ok_bounds(9,10) [of W t] by (simp add: clamp_cursor_def)

lemma rows_ok_update: "rows_ok W cols rows b \<Longrightarrow> row_ok W cols row \<Longrightarrow> rows_ok W cols rows (b[i := row])"
  by (auto simp: rows_ok_def dest!: set_update_subset_insert [THEN subsetD])

lemma term_ok_buffer: "term_ok W t \<Longrightarrow> rows_ok W (t_cols t) (t_rows t) b \<Longrightarrow> keeps W t (Some (t\<lparr>t_buffer := b\<rparr>))"
  by (simp add: keeps_def term_ok_def)

lemma keeps_on_row:
  assumes "term_ok W t" and "r < t_rows t"
    and "\<And>row. row_ok W (t_cols t) row \<Longrightarrow> \<exists>row'. f row = Some row' \<and> row_ok W (t_cols t) row'"
  shows "keeps W t (on_row r f t)"
proof -
  have b: "rows_ok W (t_cols t) (t_rows t) (t_buffer t)" using assms(1) by (simp add: term_ok_def)
  then have r: "r < length (t_buffer t)" "row_ok W (t_cols t) (t_buffer t ! r)" using assms(2) by (simp_all add: rows_ok_def)
  obtain row' where "f (t_buffer t ! r) = Some row'" "row_ok W (t_cols t) row'" using assms(3) [OF r(2)] by blast
  with r term_ok_buffer [OF assms(1) rows_ok_update [OF b]] show ?thesis by (simp add: on_row_def)
qed

text \<open>Rows rearranged by a loop, with blanks put in: any list of good rows of the right length will do.\<close>

lemma scroll_once_ok:
  assumes "width_law W" and "rows_ok W cols rows b" and "lo \<le> hi" and "hi < rows"
  shows "\<exists>b'. scroll_up_once cols lo hi b = Some b' \<and> rows_ok W cols rows b'"
    and "\<exists>b'. scroll_down_once cols lo hi b = Some b' \<and> rows_ok W cols rows b'"
proof -
  have len: "length b = rows" using assms(2) by (simp add: rows_ok_def)
  have sub: "rows_ok W cols rows ys" if "length ys = length b" "\<And>i. i < length b \<Longrightarrow> \<exists>j < length b. ys ! i = b ! j" for ys
    using assms(2) that unfolding rows_ok_def by (metis in_set_conv_nth)
  obtain ys where ys: "move_down 1 lo hi b = Some ys" "length ys = length b"
      "\<forall>i < length b. ys ! i = (if lo \<le> i \<and> i < hi then b ! (i + 1) else b ! i)"
    using move_down_spec [of hi 1 b lo] assms(4) len by auto
  have "rows_ok W cols rows ys"
    by (rule sub, rule ys(2)) (metis ys(3) assms(4) len add.commute less_trans_Suc plus_1_eq_Suc)
  with ys(1,2) assms(4) len show "\<exists>b'. scroll_up_once cols lo hi b = Some b' \<and> rows_ok W cols rows b'"
    using blank_row_ok [OF assms(1)] by (simp add: scroll_up_once_def rows_ok_update)
  obtain zs where zs: "move_up 1 lo hi b = Some zs" "length zs = length b"
      "\<forall>i < length b. zs ! i = (if lo + 1 \<le> i \<and> i < hi + 1 then b ! (i - 1) else b ! i)"
    using move_up_spec [of hi 1 b lo] assms(4) len by auto
  have "rows_ok W cols rows zs"
    by (rule sub, rule zs(2)) (metis zs(3) less_imp_diff_less)
  with zs(1,2) assms(3,4) len show "\<exists>b'. scroll_down_once cols lo hi b = Some b' \<and> rows_ok W cols rows b'"
    using blank_row_ok [OF assms(1)] by (simp add: scroll_down_once_def rows_ok_update)
qed

lemma keeps_scroll_loop:
  assumes "width_law W" and "term_ok W t" and "lo \<le> hi" and "hi < t_rows t"
    and "f = scroll_up_once (t_cols t) lo hi \<or> f = scroll_down_once (t_cols t) lo hi"
  shows "keeps W t (Option.bind (each (\<lambda>_. f) xs (t_buffer t)) (\<lambda>b. Some (t\<lparr>t_buffer := b\<rparr>)))"
proof -
  have "\<exists>b'. each (\<lambda>_. f) xs (t_buffer t) = Some b' \<and> rows_ok W (t_cols t) (t_rows t) b'"
    by (rule each_inv) (use assms scroll_once_ok in \<open>auto simp: term_ok_def\<close>)
  with term_ok_buffer [OF assms(2)] show ?thesis by auto
qed

lemma keeps_scroll [intro]:
  assumes "width_law W" and "term_ok W t"
  shows "keeps W t (scroll_up_region lo hi n t)" "keeps W t (scroll_down_region lo hi n t)"
    "keeps W t (insert_lines n t)" "keeps W t (delete_lines n t)"
proof -
  note up = keeps_scroll_loop [OF assms _ _ disjI1 [OF refl]] and down = keeps_scroll_loop [OF assms _ _ disjI2 [OF refl]]
  have b: "t_scroll_bottom t < t_rows t" using assms(2) by (simp add: term_ok_def)
  show "keeps W t (scroll_up_region lo hi n t)" "keeps W t (scroll_down_region lo hi n t)"
    "keeps W t (insert_lines n t)" "keeps W t (delete_lines n t)"
    using assms(2) b
    by (simp_all add: scroll_up_region_def scroll_down_region_def insert_lines_def delete_lines_def Let_def up down
        term_ok_clamp [OF assms(2)])
qed

lemma keeps_linefeed: "width_law W \<Longrightarrow> term_ok W t \<Longrightarrow> keeps W t (linefeed t)"
  by (auto simp: linefeed_def intro!: keeps_scroll term_ok_move)

lemma keeps_reverse_index: "width_law W \<Longrightarrow> term_ok W t \<Longrightarrow> keeps W t (reverse_index t)"
  by (auto simp: reverse_index_def intro!: keeps_scroll term_ok_move term_ok_bounds)


subsection \<open>Editing\<close>

lemma keeps_sanitize_row: "width_law W \<Longrightarrow> term_ok W t \<Longrightarrow> keeps W t (sanitize_row W r t)"
  using sanitize_cells_spec by (auto simp: sanitize_row_def row_ok_def intro!: keeps_on_row)

text \<open>A change of a row that only keeps its length is repaired by sanitising the row.\<close>

lemma on_row_then_sanitize:
  assumes "width_law W" and ok: "term_ok W t" and r: "r < t_rows t"
    and f: "\<And>row. length row = t_cols t \<Longrightarrow> \<exists>row'. f row = Some row' \<and> length row' = t_cols t"
  shows "keeps W t (Option.bind (on_row r f t) (sanitize_row W r))"
proof -
  have b: "rows_ok W (t_cols t) (t_rows t) (t_buffer t)" using ok by (simp add: term_ok_def)
  have len: "r < length (t_buffer t)" "length (t_buffer t ! r) = t_cols t"
    using b r by (simp_all add: rows_ok_def row_ok_def)
  obtain r1 where r1: "f (t_buffer t ! r) = Some r1" "length r1 = t_cols t" using f [OF len(2)] by blast
  obtain r2 where r2: "sanitize_cells W (t_cols t) r1 = Some r2" "row_ok W (t_cols t) r2"
    using sanitize_cells_spec [OF assms(1) r1(2)] by blast
  have "Option.bind (on_row r f t) (sanitize_row W r) = Some (t\<lparr>t_buffer := (t_buffer t)[r := r2]\<rparr>)"
    using len(1) r r1(1) r2(1) by (simp add: on_row_def sanitize_row_def)
  then show ?thesis using term_ok_buffer [OF ok rows_ok_update [OF b r2(2)]] by simp
qed

lemma fill_length: "length xs = n \<Longrightarrow> hi \<le> n \<Longrightarrow> \<exists>ys. fill lo hi v xs = Some ys \<and> length ys = n"
  using fill_spec [of hi xs lo v] by blast

lemma move_length:
  assumes "hi + k \<le> length xs"
  shows "\<exists>ys. move_down k lo hi xs = Some ys \<and> length ys = length xs"
    and "\<exists>ys. move_up k lo hi xs = Some ys \<and> length ys = length xs"
  using move_down_spec [OF assms, of lo] move_up_spec [OF assms, of lo] by blast+

lemma keeps_clear_row_range:
  assumes "width_law W" and "term_ok W t"
  shows "keeps W t (clear_row_range W r a b st t)"
  using assms by (auto simp: clear_row_range_def Let_def intro!: on_row_then_sanitize fill_length)

lemma keeps_clear_rows: "width_law W \<Longrightarrow> term_ok W t \<Longrightarrow> keeps W t (clear_rows W rs st t)"
  unfolding clear_rows_def by (rule keeps_each) (simp_all add: keeps_clear_row_range)

lemma keeps_erase:
  assumes "width_law W" and "term_ok W t"
  shows "keeps W t (erase_in_display W p t)" "keeps W t (erase_in_line W p t)"
  using assms
  by (auto simp: erase_in_display_def erase_in_line_def clear_to_end_of_screen_def clear_to_start_of_screen_def
      clear_screen_all_def Let_def intro!: keeps_bind keeps_clear_rows keeps_clear_row_range)

lemma keeps_edit:
  assumes "width_law W" and "term_ok W t"
  shows "keeps W t (insert_blank_chars W n t)" "keeps W t (delete_chars W n t)" "keeps W t (erase_chars W n t)"
proof -
  note c = term_ok_clamp [OF assms(2)]
  show "keeps W t (erase_chars W n t)"
    using assms c by (auto simp: erase_chars_def Let_def intro!: on_row_then_sanitize fill_length)
  let ?k = "min n (t_cols t - t_col t)"
  have "\<exists>row'. Option.bind (move_up ?k (t_col t) (t_cols t - ?k) row) (fill (t_col t) (t_col t + ?k) v) = Some row' \<and>
      length row' = t_cols t" if "length row = t_cols t" for row v
    using move_length(2) [of "t_cols t - ?k" ?k row "t_col t"] fill_length [of _ "t_cols t" "t_col t + ?k" "t_col t" v] that c
    by fastforce
  then show "keeps W t (insert_blank_chars W n t)"
    using assms c by (auto simp: insert_blank_chars_def Let_def intro!: on_row_then_sanitize)
  have "\<exists>row'. Option.bind (move_down ?k (t_col t) (t_cols t - ?k) row) (fill (t_cols t - ?k) (t_cols t) v) = Some row' \<and>
      length row' = t_cols t" if "length row = t_cols t" for row v
    using move_length(1) [of "t_cols t - ?k" ?k row "t_col t"] fill_length [of _ "t_cols t" "t_cols t" "t_cols t - ?k" v] that c
    by fastforce
  then show "keeps W t (delete_chars W n t)"
    using assms c by (auto simp: delete_chars_def Let_def intro!: on_row_then_sanitize)
qed

subsection \<open>Printing\<close>

lemma linefeed_col: "linefeed t = Some t' \<Longrightarrow> t_col t' = t_col t"
  by (auto simp: linefeed_def scroll_up_region_def Let_def split: if_splits bind_splits)

lemma keeps_trans: "keeps W t (Some t1) \<Longrightarrow> keeps W t1 r \<Longrightarrow> keeps W t r"
  by (auto simp: keeps_def)

lemma keeps_wrap:
  assumes "width_law W" and "term_ok W t"
  shows "keeps W t (wrap now t)" and "wrap now t = Some t' \<Longrightarrow> t_col t' = (if now then 0 else t_col t)"
proof -
  have "keeps W t (Some (t\<lparr>t_col := 0\<rparr>))" using term_ok_move(2) [OF assms(2)] term_ok_bounds(7) [OF assms(2)] by blast
  then have "keeps W t (linefeed (t\<lparr>t_col := 0\<rparr>))"
    by (rule keeps_trans) (use keeps_linefeed [OF assms(1)] assms(2) term_ok_bounds(7) [OF assms(2)] in \<open>simp add: term_ok_def\<close>)
  then show "keeps W t (wrap now t)" using assms(2) by (simp add: wrap_def)
  show "wrap now t = Some t' \<Longrightarrow> t_col t' = (if now then 0 else t_col t)"
    using linefeed_col [of "t\<lparr>t_col := 0\<rparr>" t'] by (simp add: wrap_def split: if_splits)
qed

lemma base_column_ok:
  assumes "col < length row"
  shows "\<exists>base. base_column col row = Some base \<and> (\<forall>c. base = Some c \<longrightarrow> c < length row)"
proof -
  let ?c = "if ce_cont (row ! (col - 1)) \<and> col - 1 > 0 then col - 1 - 1 else col - 1"
  have "col - 1 < length row" "?c < length row" using assms by auto
  then show ?thesis by (auto simp: base_column_def Let_def simp del: One_nat_def)
qed

lemma keeps_combining:
  assumes "width_law W" and ok: "term_ok W t" and w: "char_width W c = 0"
  shows "keeps W t (append_combining_char c t)"
proof -
  note b = term_ok_clamp [OF ok]
  have prev: "keeps W t (if t_row t > 0 then on_row (t_row t - 1) (push_on_first c (rev [0..<t_cols t])) t else Some t)"
    using ok b w by (auto intro!: keeps_on_row push_on_first_spec)
  show ?thesis
  proof (cases "t_col t > 0")
    case True
    have len: "t_row t < length (t_buffer t)" "length (t_buffer t ! t_row t) = t_cols t"
      using ok by (auto simp: term_ok_def rows_ok_def row_ok_def)
    obtain base where base: "base_column (t_col t) (t_buffer t ! t_row t) = Some base"
        "\<forall>col. base = Some col \<longrightarrow> col < t_cols t"
      using base_column_ok [of "t_col t" "t_buffer t ! t_row t"] len(2) b(4) by auto
    have "keeps W t (on_row (t_row t) (push_on_first c [col]) t)" if "base = Some col" for col
      using ok b base(2) w that by (intro keeps_on_row push_on_first_spec) auto
    with base(1) prev True len show ?thesis
      by (cases base) (simp_all add: append_combining_char_def clamp_cursor_id [OF ok] Let_def)
  qed (use prev in \<open>simp add: append_combining_char_def clamp_cursor_id [OF ok] Let_def\<close>)
qed

lemma keeps_put_char:
  assumes W: "width_law W" and ok: "term_ok W t" and cols: "2 \<le> t_cols t"
  shows "keeps W t (put_char W c t)"
proof (cases "char_width W c = 0")
  case True
  with keeps_combining [OF W ok] show ?thesis by (simp add: put_char_def)
next
  case False
  let ?w = "char_width W c"
  have w: "?w = 1 \<or> ?w = 2" using char_width_cases [of W c] False by auto
  have nowrap: "wrap (t_cols t \<le> t_col t) t = Some t" using ok by (simp add: wrap_def term_ok_def)
  obtain t1 where t1: "wrap (?w = 2 \<and> t_col t = t_cols t - 1) t = Some t1" "keeps W t (Some t1)"
    using keeps_wrap(1) [OF W ok, of "?w = 2 \<and> t_col t = t_cols t - 1"] by (auto simp: keeps_def)
  have ok1: "term_ok W t1" and c1: "t_cols t1 = t_cols t" using t1(2) by (auto simp: keeps_def)
  have fit: "t_col t1 + ?w \<le> t_cols t1"
    using keeps_wrap(2) [OF W ok t1(1)] w c1 cols ok ok1 by (auto simp: term_ok_def split: if_splits)
  obtain t2 where t2: "on_row (t_row t1) (put_glyph W (t_cols t1) ?w (t_col t1) c (t_style t1)) t1 = Some t2"
      "keeps W t1 (Some t2)"
    using keeps_on_row [OF ok1, of "t_row t1" "put_glyph W (t_cols t1) ?w (t_col t1) c (t_style t1)"]
      put_glyph_spec [OF W _ refl False fit] ok1 by (auto simp: keeps_def term_ok_def)
  have ok2: "term_ok W t2" using t2(2) by (auto simp: keeps_def)
  have "t_col t2 = t_col t1" using t2(1) by (auto simp: on_row_def split: bind_splits)
  then have "keeps W t2 (wrap (t_cols t2 \<le> t_col t2 + ?w) (t2\<lparr>t_col := t_col t2 + ?w\<rparr>))"
    using keeps_wrap(1) [OF W ok2, of True] term_ok_move(2) [OF ok2, of "t_col t2 + ?w"] by (auto simp: wrap_def)
  then have "keeps W t (wrap (t_cols t2 \<le> t_col t2 + ?w) (t2\<lparr>t_col := t_col t2 + ?w\<rparr>))"
    using t1(2) t2(2) by (blast intro: keeps_trans)
  then show ?thesis
    using False nowrap t1(1) t2(1) by (simp add: put_char_def clamp_cursor_id [OF ok] Let_def)
qed

subsection \<open>Screens and events\<close>

lemma fill_blank:
  assumes "width_law W" and "rows_ok W cols rows b"
  shows "\<exists>b'. fill 0 rows (blank_row cols) b = Some b' \<and> rows_ok W cols rows b'"
proof -
  have "length b = rows" using assms(2) by (simp add: rows_ok_def)
  then obtain b' where "fill 0 rows (blank_row cols) b = Some b'" "length b' = rows" "\<forall>i < rows. b' ! i = blank_row cols"
    using fill_spec [of rows b 0 "blank_row cols"] by auto
  then show ?thesis using blank_row_ok [OF assms(1)] by (auto simp: rows_ok_def in_set_conv_nth)
qed

lemma keeps_screens:
  assumes "width_law W" and "term_ok W t"
  shows "keeps W t (enter_alternate_screen t)" "keeps W t (Some (leave_alternate_screen t))" "keeps W t (reset_terminal t)"
proof -
  have b: "rows_ok W (t_cols t) (t_rows t) (t_buffer t)" using assms(2) by (simp add: term_ok_def)
  obtain b' where "fill 0 (t_rows t) (blank_row (t_cols t)) (t_buffer t) = Some b'" "rows_ok W (t_cols t) (t_rows t) b'"
    using fill_blank [OF assms(1) b] by blast
  then show "keeps W t (enter_alternate_screen t)" "keeps W t (reset_terminal t)"
    using assms(2) b by (auto simp: enter_alternate_screen_def reset_terminal_def keeps_def term_ok_def Let_def)
  show "keeps W t (Some (leave_alternate_screen t))"
    using assms(2) by (auto simp: leave_alternate_screen_def keeps_def term_ok_def Let_def split: option.splits)
qed

lemma keeps_set_scroll_region: "term_ok W t \<Longrightarrow> keeps W t (Some (set_scroll_region lo hi t))"
  by (auto simp: set_scroll_region_def keeps_def term_ok_def Let_def)

lemma keeps_cursor_slot:
  assumes "term_ok W t"
  shows "keeps W t (Some (save_cursor t))" "keeps W t (Some (restore_cursor t))"
  using assms by (auto simp: save_cursor_def restore_cursor_def keeps_def term_ok_def)

lemma keeps_execute: "width_law W \<Longrightarrow> term_ok W t \<Longrightarrow> keeps W t (execute b t)"
  by (simp add: execute_def keeps_linefeed term_ok_move term_ok_bounds)

lemma csi_cursor_keeps: "term_ok W t \<Longrightarrow> csi_cursor ps a t = Some t' \<Longrightarrow> keeps W t (Some t')"
  unfolding csi_cursor_def Let_def
  by (auto simp: term_ok_move term_ok_bounds split: if_splits)

lemma keeps_csi_edit:
  assumes "width_law W" and "term_ok W t"
  shows "keeps W t (csi_edit W ps im a t)"
proof -
  have "keeps W t (each (handle_private_mode on) vs t)" for on vs
    by (rule keeps_each [OF assms(2)]) (use keeps_screens [OF assms(1)] in \<open>simp add: handle_private_mode_def\<close>)
  then show ?thesis
    using assms
    by (simp add: csi_edit_def Let_def select_graphic_rendition_def term_ok_move keeps_erase keeps_edit keeps_scroll
        keeps_set_scroll_region keeps_cursor_slot)
qed

lemma keeps_esc: "width_law W \<Longrightarrow> term_ok W t \<Longrightarrow> keeps W t (esc_dispatch im b t)"
  by (auto simp: esc_dispatch_def keeps_cursor_slot keeps_linefeed keeps_reverse_index keeps_screens term_ok_move
      term_ok_bounds intro!: keeps_map)

lemma keeps_perform:
  assumes "width_law W" and "term_ok W t" and "2 \<le> t_cols t"
  shows "keeps W t (box_perform W e t)"
  using assms csi_cursor_keeps [OF assms(2)]
  by (cases e) (auto simp: keeps_put_char keeps_execute keeps_esc csi_dispatch_def keeps_csi_edit split: option.splits)

interpretation box: screen "box_perform W" "\<lambda>t. width_law W \<and> term_ok W t \<and> 2 \<le> t_cols t"
  "\<lambda>t. (t_row t, t_col t)" "\<lambda>t. (t_rows t, t_cols t)" for W
proof
  show "\<exists>s'. box_perform W e s = Some s' \<and> width_law W \<and> term_ok W s' \<and> 2 \<le> t_cols s'"
    if "width_law W \<and> term_ok W s \<and> 2 \<le> t_cols s" for s e
    using keeps_perform [of W s e] that by (auto simp: keeps_def)
  show "(t_rows s', t_cols s') = (t_rows s, t_cols s)"
    if "width_law W \<and> term_ok W s \<and> 2 \<le> t_cols s" and "box_perform W e s = Some s'" for s e s'
    using keeps_perform [of W s e] that by (auto simp: keeps_def)
qed (auto simp: term_ok_def)

end
