(* ===== verification/Box_Terminal_Props.thy ===== *)
theory Box_Terminal_Props
  imports Box_Terminal_Inv Pty_Terminal
begin

text \<open>
  What the terminal emulator of the viewer guarantees as a whole: it survives any output, shows
  exactly the text of its cells, scrolls like a list, comes back unchanged from the alternate
  screen, and has its cursor where the tracker of the host reports it.
\<close>

section \<open>Any output\<close>

lemma terminal_new_ok: "width_law W \<Longrightarrow> term_ok W (terminal_new cols rows)"
  using blank_row_ok [of W "max cols 1"]
  by (auto simp: terminal_new_def term_ok_def rows_ok_def Let_def less_max_iff_disj)

lemma feed_keeps:
  assumes "width_law W" and "term_ok W (snd pt)" and "2 \<le> t_cols (snd pt)"
  shows "\<exists>pt'. feed W parser bytes pt = Some pt' \<and> term_ok W (snd pt') \<and> t_cols (snd pt') = t_cols (snd pt) \<and>
    t_rows (snd pt') = t_rows (snd pt)"
proof -
  obtain es p where e: "parser (fst pt) bytes = (es, p)" by (metis prod.collapse)
  obtain t' where t': "perform_all (box_perform W) es (snd pt) = Some t'" "term_ok W t'"
    using box.perform_all_ok [of W "snd pt" es] assms by auto
  with box.perform_all_cursor [OF _ t'(1)] assms e show ?thesis by (auto simp: feed_def)
qed

text \<open>C9. The emulator survives any output: on two or more columns, whatever chunks of bytes arrive and
  whatever events the parser makes of them, no operation indexes outside the grid, every row keeps
  its length, every double-width character keeps its two cells, and the cursor and the scroll
  region stay on a screen of unchanged size.\<close>

theorem box_terminal_never_panics:
  assumes "width_law W" and "2 \<le> cols"
  shows "\<exists>p t. each (feed W parser) chunks (p0, terminal_new cols rows) = Some (p, t) \<and>
    term_ok W t \<and> t_cols t = cols \<and> t_rows t = max rows 1"
proof -
  let ?P = "\<lambda>pt. term_ok W (snd pt) \<and> t_cols (snd pt) = cols \<and> t_rows (snd pt) = max rows 1"
  have "\<exists>pt. each (feed W parser) chunks (p0, terminal_new cols rows) = Some pt \<and> ?P pt"
  proof (rule each_inv)
    show "?P (p0, terminal_new cols rows)"
      using terminal_new_ok [OF assms(1), of cols rows] assms(2) by (simp add: terminal_new_def Let_def)
    fix bytes and pt :: "'a \<times> terminal" assume P: "?P pt"
    from feed_keeps [OF assms(1), of pt parser bytes] P assms(2) show "\<exists>pt'. feed W parser bytes pt = Some pt' \<and> ?P pt'" by auto
  qed
  then show ?thesis by auto
qed

definition demo_width :: width_of where
  "demo_width c = (if c < 32 then None else if c < 768 then Some 1 else Some 2)"

definition demo_parser :: "unit vte_parser" where
  "demo_parser p bytes = (map (\<lambda>b. if unat b < 32 then VteExecute (unat b) else VtePrint (unat b + 1000)) bytes, p)"

lemma demo_width_law: "width_law demo_width"
  by (simp add: width_law_def demo_width_def)

theorem box_terminal_never_panics_witness:
  "\<exists>p t. each (feed demo_width demo_parser) [[65, 66], [10, 67]] ((), terminal_new 3 2) = Some (p, t) \<and>
    term_ok demo_width t \<and> t_cols t = 3 \<and> t_rows t = 2"
  using box_terminal_never_panics [OF demo_width_law, of 3 demo_parser "[[65, 66], [10, 67]]" "()" 2]
  by (simp del: each.simps add: numeral_2_eq_2)

text \<open>A single column is too narrow: printing a double-width character on a terminal of one column
  indexes the cell to its right, which does not exist, and panics.\<close>

theorem one_column_panics:
  assumes "char_width W c = 2" and "width_law W"
  shows "box_perform W (VtePrint c) (terminal_new 1 rows) = None"
proof -
  let ?t = "terminal_new 1 rows"
  have ok: "term_ok W ?t" using assms(2) by (rule terminal_new_ok)
  have c: "t_cols ?t = 1" "t_col ?t = 0" by (simp_all add: terminal_new_def Let_def)
  note clamp = clamp_cursor_id [OF ok]
  obtain t1 where t1: "wrap True ?t = Some t1" "keeps W ?t (Some t1)"
    using keeps_wrap(1) [OF assms(2) ok, of True] by (auto simp: keeps_def)
  have t1': "t_cols t1 = 1" "t_col t1 = 0" "term_ok W t1"
    using t1 keeps_wrap(2) [OF assms(2) ok t1(1)] c by (auto simp: keeps_def)
  have "put_glyph W 1 2 0 ch st row = None" if r: "row_ok W 1 row" for ch st row
  proof -
    obtain r1 where "clear_overlapped W 1 0 row = Some r1" "row_ok W 1 r1"
      using clear_overlapped_spec [OF assms(2) r, of 0] by auto
    then show ?thesis by (simp add: put_glyph_def row_ok_def clear_overlapped_def put_at_def)
  qed
  moreover have "row_ok W 1 (t_buffer t1 ! t_row t1)" using t1' by (auto simp: term_ok_def rows_ok_def)
  ultimately have "on_row (t_row t1) (put_glyph W (t_cols t1) 2 (t_col t1) c (t_style t1)) t1 = None"
    using t1' by (simp add: on_row_def get_at_def)
  moreover have "wrap False ?t = Some ?t" by (simp add: wrap_def)
  ultimately show ?thesis
    using assms(1) c t1(1) clamp by (simp del: One_nat_def add: put_char_def Let_def)
qed

theorem one_column_panics_witness:
  "box_perform demo_width (VtePrint 20013) (terminal_new 1 5) = None"
  by (rule one_column_panics) (simp_all add: demo_width_law, simp add: char_width_def demo_width_def)

section \<open>Lines\<close>

definition span_style :: "span \<Rightarrow> style" where
  "span_style sp = \<lparr>s_fg = sp_fg sp, s_bg = sp_bg sp, s_bold = sp_bold sp, s_italic = sp_italic sp\<rparr>"

text \<open>The text of a line with the style of every character.\<close>

definition styled :: "line \<Rightarrow> (uchar \<times> style) list" where
  "styled l = concat (map (\<lambda>sp. map (\<lambda>ch. (ch, span_style sp)) (sp_text sp)) l)"

definition styled_cells :: "cell list \<Rightarrow> (uchar \<times> style) list" where
  "styled_cells row = concat (map (\<lambda>c. if ce_cont c then [] else map (\<lambda>ch. (ch, ce_style c)) (ce_text c)) row)"

definition merged :: "line \<Rightarrow> bool" where
  "merged l \<longleftrightarrow> (\<forall>i. Suc i < length l \<longrightarrow> span_style (l ! i) \<noteq> span_style (l ! Suc i))"

lemma differs_iff: "differs sp st \<longleftrightarrow> span_style sp \<noteq> st"
  by (cases st) (auto simp: differs_def span_style_def)

lemma push_cell_spec:
  assumes "merged l"
  shows "styled (push_cell c l) = styled l @ styled_cells [c] \<and> merged (push_cell c l)"
proof (cases "ce_cont c")
  case False
  have sp: "span_style (span_of (ce_style c)) = ce_style c" "sp_text (span_of (ce_style c)) = []"
    by (simp_all add: span_style_def span_of_def)
  have lst: "last l = l ! i" if "Suc i = length l" for i using that by (cases l rule: rev_cases) auto
  have upd: "span_style (sp\<lparr>sp_text := x\<rparr>) = span_style sp" for sp x by (simp add: span_style_def)
  show ?thesis
  proof (cases "l = [] \<or> differs (last l) (ce_style c)")
    case True
    then have "push_cell c l = l @ [(span_of (ce_style c))\<lparr>sp_text := ce_text c\<rparr>]"
      using False sp(2) by (simp add: push_cell_def)
    moreover have "merged (l @ [(span_of (ce_style c))\<lparr>sp_text := ce_text c\<rparr>])"
      using assms True upd sp(1) lst by (auto simp: merged_def nth_append differs_iff less_Suc_eq)
    ultimately show ?thesis using False by (simp add: styled_def styled_cells_def upd sp)
  next
    case same: False
    then obtain xs sp' where l: "l = xs @ [sp']" by (metis rev_exhaust)
    then have st: "span_style sp' = ce_style c" using same by (simp add: differs_iff)
    have "push_cell c l = xs @ [sp'\<lparr>sp_text := sp_text sp' @ ce_text c\<rparr>]"
      using False same l by (simp add: push_cell_def)
    moreover have "merged (xs @ [sp'\<lparr>sp_text := sp_text sp' @ ce_text c\<rparr>])"
      using assms l upd by (auto simp: merged_def nth_append less_Suc_eq split: if_splits)
    ultimately show ?thesis using False l st by (simp add: styled_def styled_cells_def upd)
  qed
qed (use assms in \<open>simp add: push_cell_def styled_cells_def\<close>)

lemma fold_push_cell:
  "merged l \<Longrightarrow> styled (fold push_cell row l) = styled l @ styled_cells row \<and> merged (fold push_cell row l)"
proof (induction row arbitrary: l)
  case (Cons c row)
  have "styled_cells (c # row) = styled_cells [c] @ styled_cells row" by (simp add: styled_cells_def)
  with Cons.IH [of "push_cell c l"] push_cell_spec [OF Cons.prems, of c] show ?case by simp
qed (simp add: styled_cells_def)

text \<open>What is drawn is what is stored: there is one line per row, whose spans hold every character of
  the row's cells in order and in its style, continuations left out, with no two neighbouring
  spans of the same style and never an empty line.\<close>

theorem lines_show_the_cells:
  "length (lines t) = length (t_buffer t) \<and>
   list_all2 (\<lambda>row l. styled l = styled_cells row \<and> merged l \<and> l \<noteq> []) (t_buffer t) (lines t)"
proof -
  have "styled l = styled_cells row \<and> merged l \<and> l \<noteq> []"
    if "l = (let l = fold push_cell row [] in if l = [] then [span_default] else l)" for l row
  proof (cases "fold push_cell row [] = []")
    case True
    with that have "l = [span_default]" by simp
    moreover have "styled_cells row = []" using fold_push_cell [of "[]" row] True by (simp add: merged_def styled_def)
    ultimately show ?thesis by (simp add: styled_def span_default_def merged_def)
  next
    case False
    with that have "l = fold push_cell row []" by simp
    then show ?thesis using fold_push_cell [of "[]" row] False by (simp add: merged_def styled_def)
  qed
  then show ?thesis by (simp add: lines_def list_all2_map2 list_all2_same)
qed

section \<open>Scrolling\<close>

lemma scroll_up_once_list:
  assumes "lo = length A" and "hi = length A + length M" and "M' = m # M"
  shows "scroll_up_once cols lo hi (A @ M' @ C) = Some (A @ M @ [blank_row cols] @ C)"
proof -
  let ?b = "A @ M' @ C"
  obtain ys where ys: "move_down 1 lo hi ?b = Some ys" "length ys = length ?b"
      "\<forall>i < length ?b. ys ! i = (if lo \<le> i \<and> i < hi then ?b ! (i + 1) else ?b ! i)"
    using move_down_spec [of hi 1 ?b lo] assms by auto
  have "ys[hi := blank_row cols] = A @ M @ [blank_row cols] @ C"
  proof (rule nth_equalityI)
    fix i assume "i < length (ys[hi := blank_row cols])"
    then have i: "i < length ?b" using ys(2) by simp
    consider "i < length A" | j where "i = length A + j" "j \<le> length M" | j where "i = length A + length M + 1 + j"
      by (metis Suc_eq_plus1 add.assoc le_Suc_ex linorder_not_le not_less_eq_eq nat_add_left_cancel_le)
    then show "ys[hi := blank_row cols] ! i = (A @ M @ [blank_row cols] @ C) ! i"
      using ys(2,3) i assms by cases (auto simp: nth_list_update nth_append nth_Cons')
  qed (use ys assms in simp)
  with ys assms show ?thesis by (simp add: scroll_up_once_def)
qed

lemma scroll_down_once_list:
  assumes "lo = length A" and "hi = length A + length M" and "M' = M @ [m]"
  shows "scroll_down_once cols lo hi (A @ M' @ C) = Some (A @ [blank_row cols] @ M @ C)"
proof -
  let ?b = "A @ M' @ C"
  obtain ys where ys: "move_up 1 lo hi ?b = Some ys" "length ys = length ?b"
      "\<forall>i < length ?b. ys ! i = (if lo + 1 \<le> i \<and> i < hi + 1 then ?b ! (i - 1) else ?b ! i)"
    using move_up_spec [of hi 1 ?b lo] assms by auto
  have "ys[lo := blank_row cols] = A @ [blank_row cols] @ M @ C"
  proof (rule nth_equalityI)
    fix i assume "i < length (ys[lo := blank_row cols])"
    then have i: "i < length ?b" using ys(2) by simp
    consider "i < length A" | j where "i = length A + j" "j \<le> length M" | j where "i = length A + length M + 1 + j"
      by (metis Suc_eq_plus1 add.assoc le_Suc_ex linorder_not_le not_less_eq_eq nat_add_left_cancel_le)
    then show "ys[lo := blank_row cols] ! i = (A @ [blank_row cols] @ M @ C) ! i"
      using ys(2,3) i assms by cases (auto simp: nth_list_update nth_append nth_Cons')
  qed (use ys assms in simp)
  with ys assms show ?thesis by (simp add: scroll_down_once_def)
qed

lemma scroll_up_loop:
  assumes "n \<le> length M"
  shows "each (\<lambda>_. scroll_up_once cols (length A) (length A + length M - 1)) [0..<n] (A @ M @ C) =
    Some (A @ drop n M @ replicate n (blank_row cols) @ C)"
  using assms
proof (induction n)
  case (Suc n)
  let ?h = "length A + length M - 1"
  obtain m M2 where m: "drop n M = m # M2" using Suc.prems by (metis Suc_le_eq Cons_nth_drop_Suc)
  then have M2: "M2 = drop (Suc n) M" by (metis drop_Suc tl_drop list.sel(3))
  have "scroll_up_once cols (length A) ?h (A @ (m # M2 @ replicate n (blank_row cols)) @ C) =
      Some (A @ (M2 @ replicate n (blank_row cols)) @ [blank_row cols] @ C)"
    using Suc.prems by (intro scroll_up_once_list) (simp_all add: M2)
  moreover have "replicate n x @ x # xs = x # replicate n x @ xs" for x :: "cell list" and xs
    by (metis append_Cons replicate_app_Cons_same)
  ultimately show ?case using Suc by (simp add: each_append m M2)
qed simp

lemma scroll_down_loop:
  assumes "n \<le> length M"
  shows "each (\<lambda>_. scroll_down_once cols (length A) (length A + length M - 1)) [0..<n] (A @ M @ C) =
    Some (A @ replicate n (blank_row cols) @ take (length M - n) M @ C)"
  using assms
proof (induction n)
  case (Suc n)
  let ?h = "length A + length M - 1" and ?k = "length M - Suc n"
  have t: "take (length M - n) M = take ?k M @ [M ! ?k]"
    using Suc.prems by (metis Suc_diff_le diff_Suc_Suc diff_less_mono2 Suc_le_eq diff_less less_le_trans take_Suc_conv_app_nth zero_less_Suc)
  have "scroll_down_once cols (length A) ?h (A @ (replicate n (blank_row cols) @ take ?k M @ [M ! ?k]) @ C) =
      Some (A @ [blank_row cols] @ (replicate n (blank_row cols) @ take ?k M) @ C)"
    using Suc.prems by (intro scroll_down_once_list) simp_all
  then show ?case using Suc by (simp add: each_append t)
qed simp

text \<open>Scrolling is a shift of the list of rows: moving a region of the screen up or down, which the code
  does one row at a time, drops rows at one end of the region and adds as many blank ones at the
  other, and leaves the rest of the screen alone.\<close>

theorem scrolling_shifts_rows:
  assumes "t_buffer t = A @ M @ C" and "length (t_buffer t) = t_rows t" and "M \<noteq> []"
  shows "scroll_up_region (length A) (length A + length M - 1) n t =
      Some (t\<lparr>t_buffer := A @ drop n M @ replicate (min n (length M)) (blank_row (t_cols t)) @ C\<rparr>) \<and>
    scroll_down_region (length A) (length A + length M - 1) n t =
      Some (t\<lparr>t_buffer := A @ replicate (min n (length M)) (blank_row (t_cols t)) @ take (length M - n) M @ C\<rparr>)"
proof -
  define h k where hk: "h = length A + length M - 1" "k = min n (length M)"
  have M: "0 < length M" using assms(3) by simp
  have h: "length A < t_rows t" "h < t_rows t" "h - length A + 1 = length M" "\<not> h < length A"
    unfolding assms(2) [symmetric] assms(1) length_append hk using M by linarith+
  have k: "drop n M = drop k M" "take (length M - n) M = take (length M - k) M" "k \<le> length M"
    by (auto simp: hk min_def)
  show ?thesis
    using scroll_up_loop [OF k(3), of "t_cols t" A C] scroll_down_loop [OF k(3), of "t_cols t" A C] h
    unfolding hk(1) [symmetric] hk(2) [symmetric] k(1,2)
    by (simp only: scroll_up_region_def scroll_down_region_def Let_def assms(1) hk(2) [symmetric] linorder_not_le [symmetric] simp_thms if_False bind.simps)
qed

theorem scrolling_shifts_rows_witness:
  "scroll_up_region 0 3 1 (terminal_new 3 4) = Some (terminal_new 3 4)"
proof -
  have "scroll_up_region (length []) (length [] + length (replicate 4 (blank_row 3)) - 1) 1 (terminal_new 3 4) =
      Some ((terminal_new 3 4)\<lparr>t_buffer := [] @ drop 1 (replicate 4 (blank_row 3)) @
        replicate (min 1 (length (replicate 4 (blank_row 3)))) (blank_row (t_cols (terminal_new 3 4))) @ []\<rparr>)"
    using scrolling_shifts_rows [of "terminal_new 3 4" "[]" "replicate 4 (blank_row 3)" "[]" 1]
    by (simp add: terminal_new_def Let_def)
  then show ?thesis by (simp add: terminal_new_def Let_def numeral_eq_Suc)
qed

section \<open>The alternate screen\<close>

text \<open>What an operation leaves unchanged, as a relation between the states before and after.\<close>

definition post :: "(terminal \<Rightarrow> terminal \<Rightarrow> bool) \<Rightarrow> terminal \<Rightarrow> terminal option \<Rightarrow> bool" where
  "post R t r \<longleftrightarrow> (\<forall>t'. r = Some t' \<longrightarrow> R t t')"

definition only_buffer :: "terminal \<Rightarrow> terminal \<Rightarrow> bool" where
  "only_buffer t t' \<longleftrightarrow> (\<exists>b. t' = t\<lparr>t_buffer := b\<rparr>)"

definition calm :: "terminal \<Rightarrow> terminal \<Rightarrow> bool" where
  "calm t t' \<longleftrightarrow> t_saved_main t' = t_saved_main t \<and> t_alternate t' = t_alternate t \<and>
     t_rows t' = t_rows t \<and> t_cols t' = t_cols t"

lemma only_buffer_refl [simp]: "only_buffer t t"
  unfolding only_buffer_def by (rule exI [of _ "t_buffer t"]) simp

lemma only_buffer_trans: "only_buffer a b \<Longrightarrow> only_buffer b c \<Longrightarrow> only_buffer a c"
  by (auto simp: only_buffer_def)

lemma post_bind:
  "post only_buffer t r \<Longrightarrow> (\<And>t'. post only_buffer t' (f t')) \<Longrightarrow> post only_buffer t (Option.bind r f)"
  by (cases r) (auto simp: post_def intro: only_buffer_trans)

lemma post_Some [simp]: "post R t (Some t') \<longleftrightarrow> R t t'"
  by (simp add: post_def)

lemma post_each: "(\<And>x t. post only_buffer t (f x t)) \<Longrightarrow> post only_buffer t (each f xs t)"
proof (induction xs arbitrary: t)
  case (Cons x xs)
  show ?case
  proof (cases "f x t")
    case (Some a)
    then have "only_buffer t a" using Cons.prems [of t x] by (simp add: post_def)
    moreover have "post only_buffer a (each f xs a)" using Cons.IH Cons.prems by blast
    ultimately show ?thesis using Some by (auto simp: post_def intro: only_buffer_trans)
  qed (simp add: post_def)
qed simp

lemma only_buffer_upd: "post only_buffer t (Option.bind r (\<lambda>b. Some (t\<lparr>t_buffer := b\<rparr>)))"
  by (cases r) (auto simp: post_def only_buffer_def)

lemma only_buffer_on_row: "post only_buffer t (on_row i f t)"
  by (auto simp: on_row_def post_def only_buffer_def split: bind_splits)

lemma only_buffer_ops:
  "post only_buffer t (scroll_up_region lo hi n t)" "post only_buffer t (scroll_down_region lo hi n t)"
  "post only_buffer t (insert_lines n t)" "post only_buffer t (delete_lines n t)" "post only_buffer t (sanitize_row W i t)"
  by (simp_all add: scroll_up_region_def scroll_down_region_def insert_lines_def delete_lines_def sanitize_row_def
      Let_def only_buffer_upd only_buffer_on_row)

lemma only_buffer_clear: "post only_buffer t (clear_row_range W i a b st t)"
  by (simp add: clear_row_range_def Let_def post_bind only_buffer_ops only_buffer_on_row)

lemma only_buffer_clear_rows: "post only_buffer t (clear_rows W rs st t)"
  unfolding clear_rows_def by (rule post_each) (rule only_buffer_clear)

lemma only_buffer_edits:
  "post only_buffer t (erase_in_display W p t)" "post only_buffer t (erase_in_line W p t)"
  "post only_buffer t (insert_blank_chars W n t)" "post only_buffer t (delete_chars W n t)"
  "post only_buffer t (erase_chars W n t)"
  by (simp_all add: erase_in_display_def erase_in_line_def clear_to_end_of_screen_def clear_to_start_of_screen_def
      clear_screen_all_def insert_blank_chars_def delete_chars_def erase_chars_def Let_def post_bind only_buffer_ops only_buffer_on_row
      only_buffer_clear only_buffer_clear_rows)

text \<open>Everything but the switch between the screens leaves the stored screen alone.\<close>

lemma calm_refl [simp]: "calm t t"
  by (simp add: calm_def)

lemma calm_trans: "calm a b \<Longrightarrow> calm b c \<Longrightarrow> calm a c"
  by (simp add: calm_def)

lemma calm_only_buffer: "post only_buffer t r \<Longrightarrow> post calm t r"
  by (auto simp: post_def only_buffer_def calm_def)

lemma calm_bind: "post calm t r \<Longrightarrow> (\<And>t'. post calm t' (f t')) \<Longrightarrow> post calm t (Option.bind r f)"
  by (cases r) (auto simp: post_def intro: calm_trans)

lemma calm_bind_any: "(\<And>x. post calm t (f x)) \<Longrightarrow> post calm t (Option.bind r f)"
  by (cases r) (auto simp: post_def)

lemma calm_from: "calm t t1 \<Longrightarrow> post calm t1 r \<Longrightarrow> post calm t r"
  by (auto simp: post_def intro: calm_trans)

lemma calm_each: "(\<And>x t. x \<in> set xs \<Longrightarrow> post calm t (f x t)) \<Longrightarrow> post calm t (each f xs t)"
proof (induction xs arbitrary: t)
  case (Cons x xs)
  show ?case
  proof (cases "f x t")
    case (Some a)
    then have "calm t a" using Cons.prems [of x t] by (simp add: post_def)
    moreover have "post calm a (each f xs a)" using Cons.IH Cons.prems by simp
    ultimately show ?thesis using Some by (auto simp: post_def intro: calm_trans)
  qed (simp add: post_def)
qed simp

lemma calm_linefeed: "post calm t (linefeed t)" "post calm t (reverse_index t)"
  by (simp_all add: linefeed_def reverse_index_def calm_only_buffer only_buffer_ops calm_def)

lemma calm_wrap: "post calm t (wrap now t)"
  using calm_from [of t "t\<lparr>t_col := 0\<rparr>" "linefeed (t\<lparr>t_col := 0\<rparr>)"] calm_linefeed
  by (simp add: wrap_def calm_def)

lemma calm_combining: "post calm t (append_combining_char c t)"
proof -
  have "post calm (clamp_cursor t) (case base of Some col \<Rightarrow> on_row r (push_on_first c [col]) (clamp_cursor t)
      | None \<Rightarrow> if r > 0 then on_row (r - 1) (push_on_first c cs) (clamp_cursor t) else Some (clamp_cursor t))" for base r cs
    by (cases base) (simp_all add: calm_only_buffer only_buffer_on_row)
  moreover have "calm t (clamp_cursor t)" by (simp add: clamp_cursor_def calm_def)
  ultimately show ?thesis
    unfolding append_combining_char_def Let_def by (intro calm_bind_any) (rule calm_from)
qed

lemma calm_put_char: "post calm t (put_char W c t)"
proof -
  have last_step: "post calm t (wrap b (t\<lparr>t_col := n\<rparr>))" for t b n
    by (rule calm_from [OF _ calm_wrap]) (simp add: calm_def)
  have "calm t (clamp_cursor t)" by (simp add: clamp_cursor_def calm_def)
  then show ?thesis
    by (simp add: put_char_def Let_def calm_combining)
      (intro impI calm_from [of t "clamp_cursor t"] calm_bind calm_wrap last_step calm_only_buffer only_buffer_on_row)
qed

text \<open>Events that switch between the screens.\<close>

fun switches_screen :: "vte_event \<Rightarrow> bool" where
  "switches_screen (VteCsi ps im ignore a) \<longleftrightarrow>
     (a = CHR ''h'' \<or> a = CHR ''l'') \<and> CHR ''?'' \<in> set im \<and> 1049 \<in> set (concat ps)"
| "switches_screen _ \<longleftrightarrow> False"

lemma calm_private: "1049 \<notin> set vs \<Longrightarrow> post calm t (each (handle_private_mode on) vs t)"
  by (rule calm_each) (auto simp: handle_private_mode_def)

lemma calm_csi:
  assumes "\<not> switches_screen (VteCsi ps im ignore a)"
  shows "post calm t (csi_dispatch W ps im a t)"
proof (cases "csi_cursor ps a t")
  case None
  note edits = only_buffer_edits [THEN calm_only_buffer] only_buffer_ops [THEN calm_only_buffer]
  have "calm t (select_graphic_rendition ps t)" "calm t (set_scroll_region x y t)" "calm t (save_cursor t)"
    "calm t (restore_cursor t)" for x y
    by (simp_all add: select_graphic_rendition_def set_scroll_region_def save_cursor_def restore_cursor_def calm_def Let_def)
  moreover have "(a = CHR ''h'' \<or> a = CHR ''l'') \<and> CHR ''?'' \<in> set im \<Longrightarrow>
      post calm t (each (handle_private_mode (a = CHR ''h'')) (concat ps) t)"
    using assms by (intro calm_private) auto
  ultimately show ?thesis
    using None by (simp add: csi_dispatch_def csi_edit_def Let_def edits)
next
  case (Some t')
  then have "calm t t'" by (auto simp: csi_cursor_def Let_def calm_def split: if_splits)
  with Some show ?thesis by (simp add: csi_dispatch_def)
qed

lemma calm_esc: "post calm t (esc_dispatch im b t)"
proof -
  have "post calm t (map_option (\<lambda>t. t\<lparr>t_col := 0\<rparr>) (linefeed t))"
    using calm_linefeed(1) [of t] by (auto simp: post_def calm_def)
  moreover have "post calm t (reset_terminal t)"
    by (auto simp: reset_terminal_def post_def calm_def split: bind_splits)
  ultimately show ?thesis
    by (simp add: esc_dispatch_def calm_linefeed save_cursor_def restore_cursor_def calm_def)
qed

lemma calm_perform:
  assumes "\<not> switches_screen e"
  shows "post calm t (box_perform W e t)"
proof (cases e)
  case (VteExecute b)
  have "post calm t (execute b t)" by (simp add: execute_def calm_linefeed calm_def)
  with VteExecute show ?thesis by simp
qed (use assms calm_put_char calm_csi calm_esc in auto)

definition enter_event :: vte_event where
  "enter_event = VteCsi [[1049]] ''?'' False CHR ''h''"

definition leave_event :: vte_event where
  "leave_event = VteCsi [[1049]] ''?'' False CHR ''l''"

lemma switch_events:
  "box_perform W enter_event t = enter_alternate_screen t"
  "box_perform W leave_event t = Some (leave_alternate_screen t)"
  by (simp_all add: enter_event_def leave_event_def csi_dispatch_def csi_cursor_def csi_edit_def handle_private_mode_def
      split: option.splits)

lemma enter_leave:
  assumes "term_ok W t" and "\<not> t_alternate t" and "enter_alternate_screen t = Some t1" and "calm t1 t2"
    and "t_scroll_top t < t_scroll_bottom t \<or> t_scroll_top t = 0 \<and> t_scroll_bottom t = t_rows t - 1"
  shows "leave_alternate_screen t2 = t\<lparr>t_saved_main := None\<rparr>"
  using assms
  by (auto simp: enter_alternate_screen_def leave_alternate_screen_def calm_def term_ok_def Let_def
      split: bind_splits intro!: terminal.equality)

text \<open>C39. The alternate screen leaves no trace: whatever a program draws between entering and leaving the
  alternate screen, the main screen comes back exactly as it was, with its cells, cursor, style,
  saved cursor and scroll region.\<close>

theorem alternate_screen_leaves_no_trace:
  assumes "width_law W" and "term_ok W t" and "2 \<le> t_cols t" and "\<not> t_alternate t" and "list_all (\<lambda>e. \<not> switches_screen e) es"
    and "t_scroll_top t < t_scroll_bottom t \<or> t_scroll_top t = 0 \<and> t_scroll_bottom t = t_rows t - 1"
  shows "perform_all (box_perform W) ([enter_event] @ es @ [leave_event]) t = Some (t\<lparr>t_saved_main := None\<rparr>)"
proof -
  obtain t1 where t1: "enter_alternate_screen t = Some t1" "term_ok W t1" "t_cols t1 = t_cols t"
    using keeps_screens(1) [OF assms(1,2)] by (auto simp: keeps_def)
  obtain t2 where t2: "each (box_perform W) es t1 = Some t2"
    using box.perform_all_ok [of W t1 es] t1 assms(1,3) by (auto simp: perform_all_def)
  have "post calm t1 (each (box_perform W) es t1)"
    using assms(5) calm_perform by (intro calm_each) (auto simp: list_all_iff)
  then have "calm t1 t2" using t2 by (simp add: post_def)
  with enter_leave [OF assms(2,4) t1(1)] assms(6) t1(1) t2 show ?thesis
    by (simp add: perform_all_def each_append switch_events)
qed

theorem alternate_screen_leaves_no_trace_witness:
  "perform_all (box_perform demo_width) ([enter_event] @ [VtePrint 65, VteEsc [] False CHR ''c''] @ [leave_event])
     (terminal_new 5 4) = Some (terminal_new 5 4)"
  using alternate_screen_leaves_no_trace [OF demo_width_law terminal_new_ok [OF demo_width_law], of 5 4
      "[VtePrint 65, VteEsc [] False CHR ''c'']"]
  by (simp add: terminal_new_def Let_def)

section \<open>The cursor of the host's tracker\<close>

definition tracks :: "pty_terminal \<Rightarrow> terminal \<Rightarrow> bool" where
  "tracks s t \<longleftrightarrow> pt_rows s = t_rows t \<and> pt_cols s = t_cols t \<and> pt_cursor_row s = t_row t \<and> pt_cursor_col s = t_col t \<and>
     pt_saved_cursor s = t_saved_cursor t \<and> t_scroll_top t = 0 \<and> t_scroll_bottom t = t_rows t - 1"

text \<open>The events both sides treat alike: printable ASCII characters, control characters, and every
  sequence but those for the scroll region, the alternate screen, the reverse index and the reset.\<close>

fun common_event :: "width_of \<Rightarrow> vte_event \<Rightarrow> bool" where
  "common_event W (VtePrint c) \<longleftrightarrow> 32 \<le> c \<and> c < 127 \<and> W c = Some 1"
| "common_event W (VteCsi ps im ignore a) \<longleftrightarrow> a \<noteq> CHR ''r'' \<and> \<not> switches_screen (VteCsi ps im ignore a)"
| "common_event W (VteEsc im ignore b) \<longleftrightarrow> im \<noteq> [] \<or> (b \<noteq> CHR ''M'' \<and> b \<noteq> CHR ''c'')"
| "common_event W _ \<longleftrightarrow> True"

lemma tracks_only_buffer: "tracks s t \<Longrightarrow> only_buffer t t' \<Longrightarrow> tracks s t'"
  by (auto simp: tracks_def only_buffer_def)

lemma tracks_linefeed:
  assumes "tracks s t" and "t_row t < t_rows t" and "linefeed t = Some t'"
  shows "tracks (pt_linefeed s) t'"
proof (cases "t_row t = t_rows t - 1")
  case True
  then have "only_buffer t t'"
    using assms only_buffer_ops(1) [of t 0 "t_rows t - 1" 1] by (auto simp: linefeed_def tracks_def post_def)
  then have "tracks s t'" using assms(1) by (rule tracks_only_buffer [rotated])
  moreover have "pt_linefeed s = s" using True assms(1,2) by (auto simp: pt_linefeed_def tracks_def)
  ultimately show ?thesis by simp
next
  case False
  then have "t_row t < t_rows t - 1" using assms(2) by simp
  then have "t' = t\<lparr>t_row := t_row t + 1\<rparr>" using assms(1,3) False by (auto simp: linefeed_def tracks_def)
  with assms(1,2) False show ?thesis by (auto simp: tracks_def pt_linefeed_def)
qed

lemma tracks_print:
  assumes "tracks s t" and "term_ok W t" and "32 \<le> c" "c < 127" "W c = Some 1" and "put_char W c t = Some t'"
  shows "tracks (pt_put_char c s) t'"
proof -
  have w: "char_width W c = 1" using assms(5) by (simp add: char_width_def)
  have col: "t_col t < t_cols t" "t_row t < t_rows t" using assms(2) by (auto simp: term_ok_def)
  obtain t2 where t2: "on_row (t_row t) (put_glyph W (t_cols t) 1 (t_col t) c (t_style t)) t = Some t2"
      "wrap (t_cols t2 \<le> t_col t2 + 1) (t2\<lparr>t_col := t_col t2 + 1\<rparr>) = Some t'"
    using assms(6) w col by (auto simp: put_char_def clamp_cursor_id [OF assms(2)] wrap_def Let_def split: bind_splits)
  have ob: "only_buffer t t2" using only_buffer_on_row t2(1) unfolding post_def by blast
  then have tr: "tracks s t2" using assms(1) by (rule tracks_only_buffer [rotated])
  have dims: "t_rows t2 = t_rows t" "t_cols t2 = t_cols t" "t_col t2 = t_col t" "t_row t2 = t_row t"
    using ob by (auto simp: only_buffer_def)
  have plain: "\<not> is_control c" "\<not> char_is_wide c" using assms(3,4) by (auto simp: is_control_def char_is_wide_def)
  show ?thesis
  proof (cases "t_cols t \<le> t_col t + 1")
    case True
    have "tracks (s\<lparr>pt_cursor_col := 0\<rparr>) (t2\<lparr>t_col := 0\<rparr>)" using tr by (simp add: tracks_def)
    then have "tracks (pt_linefeed (s\<lparr>pt_cursor_col := 0\<rparr>)) t'"
      by (rule tracks_linefeed) (use True t2(2) dims col in \<open>simp_all add: wrap_def\<close>)
    with plain True assms(1) show ?thesis by (simp add: pt_put_char_def tracks_def)
  next
    case False
    with t2(2) dims tr plain show ?thesis by (auto simp: pt_put_char_def tracks_def wrap_def)
  qed
qed

lemma tracks_cursor_move:
  assumes "tracks s t" and "csi_cursor ps a t = Some t'"
  shows "tracks (pt_csi_dispatch ps im a s) t'"
proof -
  have s: "pt_rows s = t_rows t" "pt_cols s = t_cols t" "pt_cursor_row s = t_row t" "pt_cursor_col s = t_col t"
    using assms(1) by (auto simp: tracks_def)
  have "a \<in> {CHR ''H'', CHR ''f'', CHR ''A'', CHR ''B'', CHR ''C'', CHR ''D'', CHR ''E'', CHR ''F'', CHR ''G'', CHR ''d''}"
    using assms(2) by (rule contrapos_pp) (simp add: csi_cursor_def)
  then show ?thesis
    by (elim insertE emptyE) (use assms s in \<open>auto simp: csi_cursor_def pt_csi_dispatch_def Let_def tracks_def\<close>)
qed

lemma private_noop: "1049 \<notin> set vs \<Longrightarrow> each (handle_private_mode on) vs t = Some t"
  by (induction vs) (auto simp: handle_private_mode_def)

lemma tracks_edit:
  assumes "tracks s t" and "csi_cursor ps a t = None" and "a \<noteq> CHR ''r''"
    and "\<not> switches_screen (VteCsi ps im ignore a)" and "csi_edit W ps im a t = Some t'"
  shows "tracks (pt_csi_dispatch ps im a s) t'"
proof -
  have a: "a \<notin> {CHR ''H'', CHR ''f'', CHR ''A'', CHR ''B'', CHR ''C'', CHR ''D'', CHR ''E'', CHR ''F'', CHR ''G'', CHR ''d''}"
    using assms(2) by (auto simp: csi_cursor_def Let_def)
  have r: "tracks (enqueue_cursor_report s) t" using assms(1) by (simp add: tracks_def enqueue_cursor_report_def)
  have "tracks s t'" if "a \<noteq> CHR ''s''" "a \<noteq> CHR ''u''"
  proof (cases "a = CHR ''m''")
    case True
    with assms(1,5) show ?thesis by (auto simp: csi_edit_def select_graphic_rendition_def tracks_def Let_def)
  next
    case False
    have priv: "(a = CHR ''h'' \<or> a = CHR ''l'') \<and> CHR ''?'' \<in> set im \<Longrightarrow>
        each (handle_private_mode (a = CHR ''h'')) (concat ps) t = Some t"
      using assms(4) by (intro private_noop) auto
    have "post only_buffer t (csi_edit W ps im a t)"
      using False that assms(3) priv by (simp add: csi_edit_def Let_def only_buffer_edits only_buffer_ops)
    with assms(1,5) show ?thesis by (auto simp: post_def intro: tracks_only_buffer)
  qed
  moreover have "a = CHR ''n'' \<Longrightarrow> t' = t" using assms(5) by (simp add: csi_edit_def Let_def)
  moreover have "a = CHR ''s'' \<Longrightarrow> tracks (pt_save_cursor s) t'" "a = CHR ''u'' \<Longrightarrow> tracks (pt_restore_cursor s) t'"
    using assms(1,5) by (auto simp: csi_edit_def Let_def save_cursor_def restore_cursor_def pt_save_cursor_def
        pt_restore_cursor_def tracks_def)
  moreover have "pt_csi_dispatch ps im a s =
      (if a = CHR ''n'' then (if im = [] \<and> param_at ps 0 0 = 6 then enqueue_cursor_report s else s)
       else if a = CHR ''s'' then pt_save_cursor s else if a = CHR ''u'' then pt_restore_cursor s else s)"
    using a by (simp add: pt_csi_dispatch_def)
  ultimately show ?thesis
    using assms(1) r by (cases "a = CHR ''n''"; cases "a = CHR ''s''"; cases "a = CHR ''u''") simp_all
qed

lemma tracks_perform:
  assumes "tracks s t" and "term_ok W t" and "common_event W e" and "box_perform W e t = Some t'"
  shows "tracks (pt_perform e s) t'"
proof (cases e)
  case (VtePrint c)
  with assms tracks_print show ?thesis by auto
next
  case (VteExecute b)
  have "t_row t < t_rows t" using assms(2) by (simp add: term_ok_def)
  with VteExecute assms(1,4) tracks_linefeed [OF assms(1)] show ?thesis
    by (auto simp: execute_def pt_execute_def tracks_def split: if_splits)
next
  case (VteCsi ps im ignore a)
  with assms show ?thesis
    by (cases "csi_cursor ps a t") (auto simp: csi_dispatch_def intro: tracks_cursor_move tracks_edit)
next
  case (VteEsc im ignore b)
  have row: "t_row t < t_rows t" using assms(2) by (simp add: term_ok_def)
  have nl: "tracks ((pt_linefeed s)\<lparr>pt_cursor_col := 0\<rparr>) (t1\<lparr>t_col := 0\<rparr>)" if "linefeed t = Some t1" for t1
    using tracks_linefeed [OF assms(1) row that] by (simp add: tracks_def)
  have "tracks (pt_save_cursor s) (save_cursor t)" "tracks (pt_restore_cursor s) (restore_cursor t)"
    using assms(1) by (auto simp: tracks_def pt_save_cursor_def save_cursor_def pt_restore_cursor_def restore_cursor_def)
  with VteEsc assms(1,3,4) nl tracks_linefeed [OF assms(1) row] show ?thesis
    by (auto simp: esc_dispatch_def pt_esc_dispatch_def split: if_splits)
qed (use assms in auto)



text \<open>Beyond ASCII they part: after a narrow character outside ASCII the tracker is one column further
  right than the emulator.\<close>

theorem tracker_drifts_on_narrow_unicode:
  assumes "160 \<le> c" and "W c = Some 1" and "width_law W" and "3 \<le> cols"
  shows "\<exists>t. box_perform W (VtePrint c) (terminal_new cols rows) = Some t \<and> t_col t = 1 \<and>
    pt_cursor_col (pt_perform (VtePrint c) (pty_terminal_new cols rows)) = 2"
proof -
  let ?t = "terminal_new cols rows"
  note ok = terminal_new_ok [OF assms(3), of cols rows]
  have w: "char_width W c = 1" using assms(2) by (simp add: char_width_def)
  have c: "t_cols ?t = cols" "t_col ?t = 0" using assms(4) by (simp_all add: terminal_new_def Let_def)
  obtain t' where t': "put_char W c ?t = Some t'" using keeps_put_char [OF assms(3) ok] assms(4) c by (auto simp: keeps_def)
  obtain t2 where t2: "on_row (t_row ?t) (put_glyph W cols 1 0 c (t_style ?t)) ?t = Some t2"
      "wrap (t_cols t2 \<le> t_col t2 + 1) (t2\<lparr>t_col := t_col t2 + 1\<rparr>) = Some t'"
    using t' w c assms(4) by (auto simp: put_char_def clamp_cursor_id [OF ok] wrap_def Let_def split: bind_splits)
  have "only_buffer ?t t2" using only_buffer_on_row t2(1) unfolding post_def by blast
  then have "t_cols t2 = cols" "t_col t2 = 0" using c by (auto simp: only_buffer_def)
  then have "t_col t' = 1" using t2(2) assms(4) by (auto simp: wrap_def)
  moreover have "pt_cursor_col (pt_perform (VtePrint c) (pty_terminal_new cols rows)) = 2"
    using assms(1,4) by (simp add: pt_put_char_def pty_terminal_new_def is_control_def char_is_wide_def)
  ultimately show ?thesis using t' by simp
qed

theorem tracker_drifts_on_narrow_unicode_witness:
  "\<exists>t. box_perform demo_width (VtePrint 233) (terminal_new 72 27) = Some t \<and> t_col t = 1 \<and>
    pt_cursor_col (pt_perform (VtePrint 233) (pty_terminal_new 72 27)) = 2"
  by (rule tracker_drifts_on_narrow_unicode [OF _ _ demo_width_law]) (simp_all add: demo_width_def)

end
