(* ===== verification/Av_Frames.thy ===== *)
theory Av_Frames
  imports Prelude
begin

text \<open>
  The pictures of the media player, \<^verbatim>\<open>mitb-av/src/yuv.rs\<close>, \<^verbatim>\<open>program.rs\<close> and the part of \<^verbatim>\<open>lib.rs\<close> that copies
  them: from the planes of a decoded picture, which have gaps between their rows, to one block of
  bytes, and from the block to the planes the shader is given.
\<close>

section \<open>Blocks of bytes\<close>

datatype yuv_format = FormatI420 | FormatY444 | FormatNV12

record yuv =
  yuv_format_of :: yuv_format
  yuv_data :: "byte list"
  yuv_width :: nat
  yuv_height :: nat

datatype renderable =
    RenderY444 "byte list" "nat \<times> nat"
  | RenderI420 "byte list" "nat \<times> nat"

fun renderable_dimensions :: "renderable \<Rightarrow> nat \<times> nat" where
  "renderable_dimensions (RenderY444 _ d) = d"
| "renderable_dimensions (RenderI420 _ d) = d"

text \<open>The slices for the three textures.\<close>

fun renderable_y :: "renderable \<Rightarrow> byte list" where
  "renderable_y (RenderI420 bs _) = take (length bs div 6 * 4) bs"
| "renderable_y (RenderY444 bs _) = take (length bs div 3) bs"

fun renderable_u :: "renderable \<Rightarrow> byte list" where
  "renderable_u (RenderI420 bs _) = take (length bs div 6 * 5 - length bs div 6 * 4) (drop (length bs div 6 * 4) bs)"
| "renderable_u (RenderY444 bs _) = take (length bs div 3 * 2 - length bs div 3) (drop (length bs div 3) bs)"

fun renderable_v :: "renderable \<Rightarrow> byte list" where
  "renderable_v (RenderI420 bs _) = drop (length bs div 6 * 5) bs"
| "renderable_v (RenderY444 bs _) = drop (length bs div 3 * 2) bs"

fun downsampling_factor :: "renderable \<Rightarrow> nat" where
  "downsampling_factor (RenderI420 _ _) = 2"
| "downsampling_factor (RenderY444 _ _) = 1"

text \<open>\<^verbatim>\<open>partition_map\<close> by the parity of the index.\<close>

fun split_parity :: "'a list \<Rightarrow> 'a list \<times> 'a list" where
  "split_parity [] = ([], [])"
| "split_parity (x # xs) = (case split_parity xs of (us, vs) \<Rightarrow> (x # vs, us))"

definition renderable_from :: "yuv \<Rightarrow> renderable" where
  "renderable_from f =
     (let dims = (yuv_width f, yuv_height f) in
      case yuv_format_of f of
        FormatI420 \<Rightarrow> RenderI420 (yuv_data f) dims
      | FormatY444 \<Rightarrow> RenderY444 (yuv_data f) dims
      | FormatNV12 \<Rightarrow>
          let n = length (yuv_data f) div 6;
              (u, v) = split_parity (drop (n * 4) (yuv_data f))
          in RenderI420 (take (n * 4) (yuv_data f) @ u @ v) dims)"

section \<open>The overlay's program\<close>

record overlay =
  ov_dimensions :: "nat \<times> nat"
  ov_sampling_factor :: nat
  ov_data :: "renderable option"

definition overlay_new :: "yuv \<Rightarrow> overlay" where
  "overlay_new f =
     (let r = renderable_from f in
      \<lparr>ov_dimensions = renderable_dimensions r, ov_sampling_factor = downsampling_factor r, ov_data = Some r\<rparr>)"

definition update_frame :: "yuv \<Rightarrow> overlay \<Rightarrow> overlay" where
  "update_frame f p = p\<lparr>ov_data := Some (renderable_from f)\<rparr>"

datatype primitive = Pending renderable | Prepared "nat \<times> nat" nat

text \<open>\<^verbatim>\<open>draw\<close>: a new frame is handed over once, later drawings use what was kept of it.\<close>

definition overlay_draw :: "overlay \<Rightarrow> primitive \<times> overlay" where
  "overlay_draw p =
     (case ov_data p of
        Some r \<Rightarrow> (Pending r, p\<lparr>ov_data := None\<rparr>)
      | None \<Rightarrow> (Prepared (ov_dimensions p) (ov_sampling_factor p), p))"

fun image_dimensions :: "primitive \<Rightarrow> nat \<times> nat" where
  "image_dimensions (Pending r) = renderable_dimensions r"
| "image_dimensions (Prepared d _) = d"

fun sampling_factor :: "primitive \<Rightarrow> nat" where
  "sampling_factor (Pending r) = downsampling_factor r"
| "sampling_factor (Prepared _ f) = f"

section \<open>Uploading a frame\<close>

text \<open>A write to a layer of the texture: the bytes, the distance of their rows, and the size written. The
  lengths are truncated to 32 bits.\<close>

record texture_write =
  tw_layer :: nat
  tw_bytes :: "byte list"
  tw_bytes_per_row :: nat
  tw_rows_per_image :: nat
  tw_size :: "nat \<times> nat"

text \<open>\<^verbatim>\<open>Pipeline::update_frame\<close>. The height is not 0 there; the divisions by it are those of the code.\<close>

definition frame_writes :: "renderable \<Rightarrow> texture_write list" where
  "frame_writes r =
     (let (w, h) = renderable_dimensions r;
          k = downsampling_factor r;
          bytes_per_row = length (renderable_y r) mod 2 ^ 32 div h
      in [\<lparr>tw_layer = 0, tw_bytes = renderable_y r, tw_bytes_per_row = bytes_per_row, tw_rows_per_image = h, tw_size = (w, h)\<rparr>,
          \<lparr>tw_layer = 1, tw_bytes = renderable_u r, tw_bytes_per_row = bytes_per_row div k, tw_rows_per_image = h div k,
            tw_size = (w div k, h div k)\<rparr>,
          \<lparr>tw_layer = 2, tw_bytes = renderable_v r, tw_bytes_per_row = bytes_per_row div k, tw_rows_per_image = h div k,
            tw_size = (w div k, h div k)\<rparr>])"

text \<open>The pipeline: the size of its texture, the size and factor in its uniforms, and the writes it made.\<close>

record pipeline =
  pl_texture :: "(nat \<times> nat) option"
  pl_uniforms :: "((nat \<times> nat) \<times> nat) option"
  pl_writes :: "texture_write list"

definition ensure_texture :: "nat \<times> nat \<Rightarrow> bool" where
  "ensure_texture d \<longleftrightarrow> \<not> (fst d = 0 \<or> snd d = 0)"

text \<open>A texture of another size is replaced, and with it what was written.\<close>

definition recreate_texture_if_needed :: "nat \<times> nat \<Rightarrow> pipeline \<Rightarrow> pipeline" where
  "recreate_texture_if_needed d pl = (if pl_texture pl = Some d then pl else pl\<lparr>pl_texture := Some d, pl_writes := []\<rparr>)"

definition upload_frame :: "renderable \<Rightarrow> pipeline \<Rightarrow> pipeline" where
  "upload_frame r pl = (if pl_texture pl = None then pl else pl\<lparr>pl_writes := pl_writes pl @ frame_writes r\<rparr>)"

fun prepare :: "primitive \<Rightarrow> pipeline \<Rightarrow> primitive \<times> pipeline" where
  "prepare (Pending r) pl =
     (let d = renderable_dimensions r in
      if \<not> ensure_texture d then (Pending r, pl)
      else (Prepared d (downsampling_factor r),
            upload_frame r ((recreate_texture_if_needed d pl)\<lparr>pl_uniforms := Some (d, downsampling_factor r)\<rparr>)))"
| "prepare (Prepared d k) pl = (Prepared d k, pl\<lparr>pl_uniforms := Some (d, k)\<rparr>)"

section \<open>Copying pictures\<close>

text \<open>\<^verbatim>\<open>usize\<close> has 64 bits.\<close>

definition usize_max :: nat where
  "usize_max = u64_max"

definition usize_mul :: "nat \<Rightarrow> nat \<Rightarrow> nat option" where
  "usize_mul a b = (if a * b \<le> usize_max then Some (a * b) else None)"

definition usize_add :: "nat \<Rightarrow> nat \<Rightarrow> nat option" where
  "usize_add a b = (if a + b \<le> usize_max then Some (a + b) else None)"

text \<open>\<^verbatim>\<open>slice::get\<close> of a range.\<close>

definition slice_get :: "nat \<Rightarrow> nat \<Rightarrow> 'a list \<Rightarrow> 'a list option" where
  "slice_get a b xs = (if a \<le> b \<and> b \<le> length xs then Some (take (b - a) (drop a xs)) else None)"

fun copy_rows :: "byte list \<Rightarrow> nat \<Rightarrow> nat \<Rightarrow> nat list \<Rightarrow> byte list \<Rightarrow> byte list option" where
  "copy_rows plane stride width [] out = Some out"
| "copy_rows plane stride width (row # rows) out =
     (case usize_mul row stride of
        None \<Rightarrow> None
      | Some start \<Rightarrow>
     (case usize_add start width of
        None \<Rightarrow> None
      | Some stop \<Rightarrow>
     (case slice_get start stop plane of
        None \<Rightarrow> None
      | Some bytes \<Rightarrow> copy_rows plane stride width rows (out @ bytes))))"

definition copy_plane :: "byte list \<Rightarrow> nat \<Rightarrow> nat \<Rightarrow> nat \<Rightarrow> byte list option" where
  "copy_plane plane stride width height =
     (if stride < width then None
      else case usize_mul stride height of
        None \<Rightarrow> None
      | Some required \<Rightarrow>
          if length plane < required then None
          else case usize_mul width height of
                 None \<Rightarrow> None
               | Some _ \<Rightarrow> copy_rows plane stride width [0..<height] [])"

datatype pixel_layout = LayoutI400 | LayoutI420 | LayoutI422 | LayoutI444

text \<open>A decoded picture: its depth, size and layout, and each plane with the distance of its rows.\<close>

record picture =
  pc_bit_depth :: nat
  pc_width :: nat
  pc_height :: nat
  pc_layout :: pixel_layout
  pc_y :: "byte list \<times> nat"
  pc_u :: "byte list \<times> nat"
  pc_v :: "byte list \<times> nat"

definition picture_planes :: "picture \<Rightarrow> nat \<Rightarrow> nat \<Rightarrow> yuv_format \<Rightarrow> yuv option" where
  "picture_planes p chroma_width chroma_height format =
     (case copy_plane (fst (pc_y p)) (snd (pc_y p)) (pc_width p) (pc_height p) of
        None \<Rightarrow> None
      | Some y \<Rightarrow>
     (case copy_plane (fst (pc_u p)) (snd (pc_u p)) chroma_width chroma_height of
        None \<Rightarrow> None
      | Some u \<Rightarrow>
     (case copy_plane (fst (pc_v p)) (snd (pc_v p)) chroma_width chroma_height of
        None \<Rightarrow> None
      | Some v \<Rightarrow>
          Some \<lparr>yuv_format_of = format, yuv_data = y @ u @ v, yuv_width = pc_width p, yuv_height = pc_height p\<rparr>)))"

text \<open>\<^verbatim>\<open>u32::div_ceil\<close> by two.\<close>

definition half_up :: "nat \<Rightarrow> nat" where
  "half_up n = n div 2 + n mod 2"

definition picture_to_yuv :: "picture \<Rightarrow> yuv option" where
  "picture_to_yuv p =
     (if pc_bit_depth p \<noteq> 8 then None
      else case pc_layout p of
        LayoutI420 \<Rightarrow> picture_planes p (half_up (pc_width p)) (half_up (pc_height p)) FormatI420
      | LayoutI444 \<Rightarrow> picture_planes p (pc_width p) (pc_height p) FormatY444
      | _ \<Rightarrow> None)"

section \<open>Rows without gaps\<close>

text \<open>A plane without its gaps: the first bytes of each row.\<close>

definition plane_rows :: "byte list \<Rightarrow> nat \<Rightarrow> nat \<Rightarrow> nat \<Rightarrow> byte list" where
  "plane_rows plane stride width height = concat (map (\<lambda>r. take width (drop (r * stride) plane)) [0..<height])"

lemma length_plane_rows:
  assumes "stride * height \<le> length plane" and "width \<le> stride"
  shows "length (plane_rows plane stride width height) = width * height"
  using assms(1)
proof (induction height)
  case (Suc h)
  then have "h * stride + width \<le> length plane" using assms(2) by (simp add: algebra_simps)
  then have "min (length plane - h * stride) width = width" by linarith
  with Suc show ?case by (simp add: plane_rows_def algebra_simps)
qed (simp add: plane_rows_def)

lemma copy_rows_spec:
  assumes "width \<le> stride" and "stride * height \<le> length plane" and "stride * height \<le> usize_max"
    and "\<forall>r \<in> set rows. r < height"
  shows "copy_rows plane stride width rows out = Some (out @ concat (map (\<lambda>r. take width (drop (r * stride) plane)) rows))"
  using assms(4)
proof (induction rows arbitrary: out)
  case (Cons r rows)
  have "Suc r * stride \<le> height * stride" using Cons.prems by (intro mult_le_mono1) simp
  with assms have le: "r * stride + width \<le> length plane" "r * stride + width \<le> usize_max" by (simp_all add: algebra_simps)
  then have "r * stride \<le> usize_max" by simp
  with le Cons show ?case by (simp add: usize_mul_def usize_add_def slice_get_def)
qed simp

lemma copy_plane_Some:
  assumes "copy_plane plane stride width height = Some out"
  shows "out = plane_rows plane stride width height" and "length out = width * height"
proof -
  have *: "width \<le> stride" "stride * height \<le> length plane" "stride * height \<le> usize_max"
    using assms by (auto simp: copy_plane_def usize_mul_def split: if_splits option.splits)
  moreover have "copy_rows plane stride width [0..<height] [] = Some out"
    using assms by (auto simp: copy_plane_def split: if_splits option.splits)
  ultimately show "out = plane_rows plane stride width height" by (simp add: copy_rows_spec plane_rows_def)
  then show "length out = width * height" using length_plane_rows [of stride height plane width] * by simp
qed

text \<open>The planes of a picture arrive in the shader's textures. For a picture of layout 4:4:4, and for one
  of layout 4:2:0 whose width and height are even, the block that copying makes is taken apart again
  at the borders of its planes: each texture is the picture's plane without the gaps between rows.\<close>

lemma picture_planes_arrive:
  assumes "picture_to_yuv p = Some f" and "pc_layout p = LayoutI444 \<or> even (pc_width p) \<and> even (pc_height p)"
  shows "let r = renderable_from f; n = (if pc_layout p = LayoutI444 then 1 else 2) in
    renderable_y r = plane_rows (fst (pc_y p)) (snd (pc_y p)) (pc_width p) (pc_height p) \<and>
    renderable_u r = plane_rows (fst (pc_u p)) (snd (pc_u p)) (pc_width p div n) (pc_height p div n) \<and>
    renderable_v r = plane_rows (fst (pc_v p)) (snd (pc_v p)) (pc_width p div n) (pc_height p div n) \<and>
    renderable_dimensions r = (pc_width p, pc_height p) \<and> downsampling_factor r = n"
proof -
  obtain format cw ch where fmt: "picture_planes p cw ch format = Some f"
    and layout: "(format, cw, ch) = (if pc_layout p = LayoutI444 then (FormatY444, pc_width p, pc_height p)
      else (FormatI420, half_up (pc_width p), half_up (pc_height p)))"
    using assms(1) by (auto simp: picture_to_yuv_def split: if_splits pixel_layout.splits)
  obtain y u v where c: "copy_plane (fst (pc_y p)) (snd (pc_y p)) (pc_width p) (pc_height p) = Some y"
    "copy_plane (fst (pc_u p)) (snd (pc_u p)) cw ch = Some u" "copy_plane (fst (pc_v p)) (snd (pc_v p)) cw ch = Some v"
    and f: "f = \<lparr>yuv_format_of = format, yuv_data = y @ u @ v, yuv_width = pc_width p, yuv_height = pc_height p\<rparr>"
    using fmt by (auto simp: picture_planes_def split: option.splits)
  note len = copy_plane_Some(2) [OF c(1)] copy_plane_Some(2) [OF c(2)] copy_plane_Some(2) [OF c(3)]
  note eq = copy_plane_Some(1) [OF c(1), symmetric] copy_plane_Some(1) [OF c(2), symmetric] copy_plane_Some(1) [OF c(3), symmetric]
  show ?thesis
  proof (cases "pc_layout p = LayoutI444")
    case True
    with layout have fm: "format = FormatY444" "cw = pc_width p" "ch = pc_height p" by auto
    have "length (y @ u @ v) div 3 = length y" "length u = length y" using len by (simp_all add: fm)
    then show ?thesis by (simp add: f fm True renderable_from_def eq [unfolded fm] Let_def)
  next
    case False
    with assms(2) obtain a b where ab: "pc_width p = 2 * a" "pc_height p = 2 * b" by (auto elim!: evenE)
    with layout False have fm: "format = FormatI420" "cw = a" "ch = b" by (auto simp: half_up_def)
    have l: "length y = a * b * 4" "length u = a * b" "length v = a * b" using len by (simp_all add: fm ab)
    then have "length (y @ u @ v) div 6 = a * b" by simp
    with l show ?thesis by (simp add: f fm False ab renderable_from_def eq [unfolded fm ab] Let_def)
  qed
qed


text \<open>A frame in the format NV12, whose chroma bytes alternate, becomes three planes.\<close>

lemma split_parity_zip: "length us = length vs \<Longrightarrow> split_parity (concat (map2 (\<lambda>u v. [u, v]) us vs)) = (us, vs)"
  by (induction us vs rule: list_induct2) auto

lemma nv12_planes:
  assumes "length y = 4 * n" and "length us = n" and "length vs = n"
    and "yuv_format_of f = FormatNV12" and "yuv_data f = y @ concat (map2 (\<lambda>u v. [u, v]) us vs)"
  shows "renderable_y (renderable_from f) = y \<and> renderable_u (renderable_from f) = us \<and> renderable_v (renderable_from f) = vs"
proof -
  have "length (concat (map2 (\<lambda>u v. [u, v]) us vs)) = 2 * n"
    using assms(2,3) by (induction us vs arbitrary: n rule: list_induct2') auto
  with assms have "length (yuv_data f) div 6 = n" "length (yuv_data f) = 6 * n" by simp_all
  with assms show ?thesis by (simp add: renderable_from_def Let_def split_parity_zip)
qed

section \<open>Concrete pictures\<close>

lemmas copying_defs = picture_to_yuv_def picture_planes_def copy_plane_def usize_mul_def usize_add_def slice_get_def
  usize_max_def u64_max_def half_up_def

definition demo_picture :: picture where
  "demo_picture = \<lparr>pc_bit_depth = 8, pc_width = 2, pc_height = 2, pc_layout = LayoutI420,
     pc_y = ([1, 2, 0, 3, 4, 0], 3), pc_u = ([5, 0], 2), pc_v = ([6, 0], 2)\<rparr>"

text \<open>With an odd size the borders are missed: of a picture of three by three pixels, the first texture
  lacks the last byte of its plane.\<close>

definition odd_picture :: picture where
  "odd_picture = \<lparr>pc_bit_depth = 8, pc_width = 3, pc_height = 3, pc_layout = LayoutI420,
     pc_y = ([1, 2, 3, 4, 5, 6, 7, 8, 9], 3), pc_u = ([10, 11, 12, 13], 2), pc_v = ([14, 15, 16, 17], 2)\<rparr>"

lemma odd_picture_is_cut: "map_option (renderable_y \<circ> renderable_from) (picture_to_yuv odd_picture) = Some [1, 2, 3, 4, 5, 6, 7, 8]"
  by (simp add: odd_picture_def copying_defs upt_rec renderable_from_def)

text \<open>The kept size and factor are those of the first frame: when a frame of another format follows, it is
  drawn once as it is, and then with the factor of the first.\<close>

lemma overlay_keeps_first_format:
  "let p = update_frame \<lparr>yuv_format_of = FormatY444, yuv_data = [], yuv_width = 8, yuv_height = 8\<rparr>
       (overlay_new \<lparr>yuv_format_of = FormatI420, yuv_data = [], yuv_width = 4, yuv_height = 4\<rparr>);
     (first, p) = overlay_draw p; (second, p) = overlay_draw p
   in (sampling_factor first, image_dimensions first) = (1, 8, 8) \<and> (sampling_factor second, image_dimensions second) = (2, 4, 4)"
  by code_simp


section \<open>What the texture shows\<close>

text \<open>What the graphics library asks of a write: rows that are not longer than their distance, and bytes
  for all of them. It then sets the texel in column \<open>x\<close> and row \<open>y\<close> to the byte that the distance gives.\<close>

definition write_ok :: "texture_write \<Rightarrow> bool" where
  "write_ok tw \<longleftrightarrow> (case tw_size tw of (w, h) \<Rightarrow>
     w \<le> tw_bytes_per_row tw \<and> h \<le> tw_rows_per_image tw \<and> tw_bytes_per_row tw * (h - 1) + w \<le> length (tw_bytes tw))"

definition texel :: "texture_write \<Rightarrow> nat \<Rightarrow> nat \<Rightarrow> byte" where
  "texel tw x y = tw_bytes tw ! (y * tw_bytes_per_row tw + x)"

lemma plane_rows_nth:
  assumes "stride * height \<le> length plane" and "width \<le> stride" and "x < width" and "y < height"
  shows "plane_rows plane stride width height ! (y * width + x) = plane ! (y * stride + x)"
  using assms(1,4)
proof (induction height)
  case (Suc h)
  have rows: "plane_rows plane stride width (Suc h) = plane_rows plane stride width h @ take width (drop (h * stride) plane)"
    by (simp add: plane_rows_def)
  have len: "length (plane_rows plane stride width h) = width * h"
    using Suc.prems assms(2) by (intro length_plane_rows) auto
  show ?case
  proof (cases "y < h")
    case True
    then have "Suc y * width \<le> h * width" by (intro mult_le_mono1) simp
    with assms(3) have "y * width + x < width * h" by (simp add: mult.commute)
    with True Suc show ?thesis by (simp add: rows len nth_append)
  next
    case False
    with Suc.prems have y: "y = h" by simp
    have "h * stride + width \<le> length plane" using Suc.prems assms(2) by (simp add: algebra_simps)
    with assms(3) show ?thesis by (simp add: rows len nth_append y mult.commute)
  qed
qed simp

text \<open>The write of a plane without gaps.\<close>

definition plane_texture :: "nat \<Rightarrow> byte list \<Rightarrow> nat \<Rightarrow> nat \<Rightarrow> texture_write" where
  "plane_texture layer bytes w h =
     \<lparr>tw_layer = layer, tw_bytes = bytes, tw_bytes_per_row = w, tw_rows_per_image = h, tw_size = (w, h)\<rparr>"

lemma tw_layer_plane: "tw_layer (plane_texture layer bytes w h) = layer"
  by (simp add: plane_texture_def)

lemma frame_writes_planes:
  assumes "renderable_dimensions r = (w, h)" and "length (renderable_y r) = w * h" and "w * h < 2 ^ 32" and "0 < h"
  shows "frame_writes r =
    [plane_texture 0 (renderable_y r) w h,
     plane_texture 1 (renderable_u r) (w div downsampling_factor r) (h div downsampling_factor r),
     plane_texture 2 (renderable_v r) (w div downsampling_factor r) (h div downsampling_factor r)]"
  using assms by (simp add: frame_writes_def plane_texture_def Let_def)

lemma plane_texture_ok:
  assumes "stride * h \<le> length plane" and "w \<le> stride" and "0 < h"
  shows "write_ok (plane_texture layer (plane_rows plane stride w h) w h)"
    and "x < w \<Longrightarrow> y < h \<Longrightarrow> texel (plane_texture layer (plane_rows plane stride w h) w h) x y = plane ! (y * stride + x)"
  using assms length_plane_rows [OF assms(1,2)]
  by (cases h; simp add: write_ok_def plane_texture_def)
    (use assms in \<open>simp add: texel_def plane_texture_def plane_rows_nth\<close>)

lemma copy_plane_bounds:
  "copy_plane plane stride w h = Some out \<Longrightarrow> stride * h \<le> length plane \<and> w \<le> stride"
  by (auto simp: copy_plane_def usize_mul_def split: if_splits)

lemma picture_planes_bounds:
  assumes "picture_to_yuv p = Some f" and "pc_layout p = LayoutI444 \<or> even (pc_width p) \<and> even (pc_height p)"
  shows "let n = (if pc_layout p = LayoutI444 then 1 else 2) in
    snd (pc_y p) * pc_height p \<le> length (fst (pc_y p)) \<and> pc_width p \<le> snd (pc_y p) \<and>
    snd (pc_u p) * (pc_height p div n) \<le> length (fst (pc_u p)) \<and> pc_width p div n \<le> snd (pc_u p) \<and>
    snd (pc_v p) * (pc_height p div n) \<le> length (fst (pc_v p)) \<and> pc_width p div n \<le> snd (pc_v p)"
  using assms
  by (auto simp: picture_to_yuv_def picture_planes_def half_up_def Let_def
      dest!: copy_plane_bounds split: if_splits pixel_layout.splits option.splits)



text \<open>The write of the picture with odd size is one that the graphics library refuses.\<close>

lemma odd_picture_is_refused:
  "map_option (\<lambda>f. map write_ok (frame_writes (renderable_from f))) (picture_to_yuv odd_picture) = Some [False, True, True]"
  by (simp add: odd_picture_def copying_defs upt_rec renderable_from_def frame_writes_def write_ok_def)

end
