(* ===== verification/Box_App.thy ===== *)
theory Box_App
  imports Transcript Box_Terminal_Props Av_Frames
begin

text \<open>
  The viewer's window, \<^verbatim>\<open>mitb-box/src/lib.rs\<close> and \<^verbatim>\<open>av.rs\<close>: the application's state and its messages, and the
  stream that takes the host's events from a channel and merges output that is waiting. Positions
  and keys are values of the graphics library. What it shows is in \<open>Box_View\<close>.
\<close>

section \<open>The application\<close>

definition TERMINAL_COLS :: nat where "TERMINAL_COLS = 72"
definition TERMINAL_ROWS :: nat where "TERMINAL_ROWS = 27"

datatype av_event = AvVideoFrame yuv | AvPlaybackEnded | AvPlaybackError string

datatype av_message = AvFrame yuv | AvEnded | AvError string

fun av_message_of :: "av_event \<Rightarrow> av_message" where
  "av_message_of (AvVideoFrame f) = AvFrame f"
| "av_message_of AvPlaybackEnded = AvEnded"
| "av_message_of (AvPlaybackError e) = AvError e"

text \<open>The overlay: the program that draws the last frame, once there is one.\<close>

fun av_update :: "av_message \<Rightarrow> overlay option \<Rightarrow> overlay option" where
  "av_update (AvFrame f) program = Some (case program of Some p \<Rightarrow> update_frame f p | None \<Rightarrow> overlay_new f)"
| "av_update AvEnded program = program"
| "av_update (AvError _) program = program"

datatype 'k input_event = LeftMousePressed | LeftMouseReleased | KeyPressed 'k | KeyReleased 'k

datatype ('k, 'c) app_message =
    MsgHostEvent host_event
  | MsgAv av_message
  | MsgInput "'k input_event"
  | MsgCursorMoved 'c
  | MsgCursorLeft
  | MsgHoverChanged bool

record ('p, 'k, 'c) box_app =
  ap_terminal :: "'p \<times> terminal"
  ap_av :: "overlay option"
  ap_status :: "string option"
  ap_cursor_position :: "'c option"
  ap_hovered :: bool
  ap_left_mouse_down :: bool
  ap_pressed_keys :: "'k set"

definition app_new :: "'p \<Rightarrow> ('p, 'k, 'c) box_app" where
  "app_new p = \<lparr>ap_terminal = (p, terminal_new TERMINAL_COLS TERMINAL_ROWS), ap_av = None, ap_status = None,
     ap_cursor_position = None, ap_hovered = False, ap_left_mouse_down = False, ap_pressed_keys = {}\<rparr>"

text \<open>What an update asks of the framework, and the warning that input is denied.\<close>

datatype app_task = TaskNone | TaskExit | WarnDenied

fun app_input :: "'k input_event \<Rightarrow> ('p, 'k, 'c) box_app \<Rightarrow> ('p, 'k, 'c) box_app \<times> app_task" where
  "app_input LeftMousePressed a = (a\<lparr>ap_left_mouse_down := True\<rparr>, WarnDenied)"
| "app_input LeftMouseReleased a = (a\<lparr>ap_left_mouse_down := False\<rparr>, TaskNone)"
| "app_input (KeyPressed k) a =
     (a\<lparr>ap_pressed_keys := insert k (ap_pressed_keys a)\<rparr>, if k \<in> ap_pressed_keys a then TaskNone else WarnDenied)"
| "app_input (KeyReleased k) a = (a\<lparr>ap_pressed_keys := ap_pressed_keys a - {k}\<rparr>, TaskNone)"

text \<open>\<^verbatim>\<open>App::update\<close>; \<open>None\<close> is a panic of the terminal.\<close>

fun app_update ::
  "width_of \<Rightarrow> 'p vte_parser \<Rightarrow> ('k, 'c) app_message \<Rightarrow> ('p, 'k, 'c) box_app \<Rightarrow> (('p, 'k, 'c) box_app \<times> app_task) option" where
  "app_update W parser (MsgHostEvent (TerminalOutput bytes)) a =
     map_option (\<lambda>t. (a\<lparr>ap_terminal := t\<rparr>, TaskNone)) (feed W parser bytes (ap_terminal a))"
| "app_update W parser (MsgHostEvent (SessionEnded reason)) a =
     Some (a\<lparr>ap_status := Some (''Session ended: '' @ reason)\<rparr>, TaskExit)"
| "app_update W parser (MsgHostEvent Disconnected) a = Some (a\<lparr>ap_status := Some ''Disconnected''\<rparr>, TaskExit)"
| "app_update W parser (MsgAv m) a = Some (a\<lparr>ap_av := av_update m (ap_av a)\<rparr>, TaskNone)"
| "app_update W parser (MsgInput i) a = Some (app_input i a)"
| "app_update W parser (MsgCursorMoved c) a = Some (a\<lparr>ap_cursor_position := Some c\<rparr>, TaskNone)"
| "app_update W parser MsgCursorLeft a = Some (a\<lparr>ap_cursor_position := None, ap_hovered := False\<rparr>, TaskNone)"
| "app_update W parser (MsgHoverChanged b) a = Some (a\<lparr>ap_hovered := b\<rparr>, TaskNone)"

text \<open>The eye is shown at the cursor over the terminal, and is active while anything is pressed.\<close>

definition eye_shown :: "('p, 'k, 'c) box_app \<Rightarrow> ('c \<times> bool) option" where
  "eye_shown a =
     (case ap_cursor_position a of
        None \<Rightarrow> None
      | Some c \<Rightarrow> if ap_hovered a then Some (c, ap_left_mouse_down a \<or> ap_pressed_keys a \<noteq> {}) else None)"

text \<open>The window's events that become inputs.\<close>

datatype 'k window_event =
  MousePressed bool | MouseReleased bool | WindowKeyPressed 'k bool | WindowKeyReleased 'k | OtherWindowEvent

fun window_input :: "'k window_event \<Rightarrow> 'k input_event option" where
  "window_input (MousePressed is_left) = (if is_left then Some LeftMousePressed else None)"
| "window_input (MouseReleased is_left) = (if is_left then Some LeftMouseReleased else None)"
| "window_input (WindowKeyPressed k is_repeat) = (if is_repeat then None else Some (KeyPressed k))"
| "window_input (WindowKeyReleased k) = Some (KeyReleased k)"
| "window_input OtherWindowEvent = None"

section \<open>The stream of host events\<close>

text \<open>The inner loop of \<^verbatim>\<open>host_event_stream\<close>: output that waits in the channel is appended; the event that
  stops it is kept for the next turn. \<open>gone\<close> says that no sender is left.\<close>

fun merge_output :: "bool \<Rightarrow> byte list \<Rightarrow> host_event list \<Rightarrow> byte list \<times> host_event option \<times> host_event list" where
  "merge_output gone bytes [] = (bytes, if gone then Some Disconnected else None, [])"
| "merge_output gone bytes (TerminalOutput next_data # queue) = merge_output gone (bytes @ next_data) queue"
| "merge_output gone bytes (e # queue) = (bytes, Some e, queue)"

text \<open>One turn of the stream from the pending event and the channel: what it yields, if it does not wait
  for an event or end.\<close>

definition stream_next ::
  "bool \<Rightarrow> host_event option \<Rightarrow> host_event list \<Rightarrow> (host_event \<times> host_event option \<times> host_event list) option" where
  "stream_next gone pending queue =
     (let got = (case pending of
            Some e \<Rightarrow> Some (e, queue)
          | None \<Rightarrow> (case queue of [] \<Rightarrow> None | e # queue \<Rightarrow> Some (e, queue)))
      in case got of
           None \<Rightarrow> None
         | Some (TerminalOutput bytes, queue) \<Rightarrow>
             (case merge_output gone bytes queue of
                (bytes, pending, queue) \<Rightarrow> Some (TerminalOutput bytes, pending, queue))
         | Some (e, queue) \<Rightarrow> Some (e, None, queue))"

section \<open>The running window\<close>

record ('p, 'k, 'c) box_world =
  bw_queue :: "host_event list"
  bw_closed :: bool
  bw_pending :: "host_event option"
  bw_app :: "('p, 'k, 'c) box_app"
  bw_exit :: bool

definition box_start :: "'p \<Rightarrow> ('p, 'k, 'c) box_world" where
  "box_start p = \<lparr>bw_queue = [], bw_closed = False, bw_pending = None, bw_app = app_new p, bw_exit = False\<rparr>"

text \<open>What happens: the host sends an event or goes away, the stream yields, or another message arrives.
  Nothing is processed once the application was asked to exit.\<close>

datatype ('k, 'c) box_action = HostSends host_event | HostGone | StreamYields | OtherMessage "('k, 'c) app_message"

definition box_deliver ::
  "width_of \<Rightarrow> 'p vte_parser \<Rightarrow> ('k, 'c) app_message \<Rightarrow> ('p, 'k, 'c) box_world \<Rightarrow> ('p, 'k, 'c) box_world option" where
  "box_deliver W parser m w =
     map_option (\<lambda>(a, task). w\<lparr>bw_app := a, bw_exit := bw_exit w \<or> task = TaskExit\<rparr>) (app_update W parser m (bw_app w))"

fun is_host_message :: "('k, 'c) app_message \<Rightarrow> bool" where
  "is_host_message (MsgHostEvent _) = True"
| "is_host_message _ = False"

fun box_act ::
  "width_of \<Rightarrow> 'p vte_parser \<Rightarrow> ('k, 'c) box_action \<Rightarrow> ('p, 'k, 'c) box_world \<Rightarrow> ('p, 'k, 'c) box_world option" where
  "box_act W parser (HostSends e) w = Some (if bw_closed w then w else w\<lparr>bw_queue := bw_queue w @ [e]\<rparr>)"
| "box_act W parser HostGone w = Some (w\<lparr>bw_closed := True\<rparr>)"
| "box_act W parser StreamYields w =
     (if bw_exit w then Some w
      else case stream_next (bw_closed w) (bw_pending w) (bw_queue w) of
             None \<Rightarrow> Some w
           | Some (e, pending, queue) \<Rightarrow>
               box_deliver W parser (MsgHostEvent e) (w\<lparr>bw_pending := pending, bw_queue := queue\<rparr>))"
| "box_act W parser (OtherMessage m) w =
     (if bw_exit w \<or> is_host_message m then Some w else box_deliver W parser m w)"


section \<open>What the stream keeps\<close>

text \<open>Events as the reader of the terminal sees them: single bytes of output, and the other events.\<close>

fun event_trace :: "host_event \<Rightarrow> (byte + host_event) list" where
  "event_trace (TerminalOutput bytes) = map Inl bytes"
| "event_trace e = [Inr e]"

definition host_trace :: "host_event list \<Rightarrow> (byte + host_event) list" where
  "host_trace es = concat (map event_trace es)"

fun is_output :: "host_event \<Rightarrow> bool" where
  "is_output (TerminalOutput _) = True"
| "is_output _ = False"

text \<open>The disconnection that is made up when the channel closes behind waiting output.\<close>

definition late_end :: "bool \<Rightarrow> (byte + host_event) list" where
  "late_end late = (if late then [Inr Disconnected] else [])"

lemma host_trace_simps [simp]:
  "host_trace [] = []" "host_trace (e # es) = event_trace e @ host_trace es" "host_trace (es @ es') = host_trace es @ host_trace es'"
  by (simp_all add: host_trace_def)

definition opt_list :: "'a option \<Rightarrow> 'a list" where
  "opt_list x = (case x of None \<Rightarrow> [] | Some y \<Rightarrow> [y])"

lemma opt_list_simps [simp]: "opt_list None = []" "opt_list (Some y) = [y]"
  by (simp_all add: opt_list_def)

lemma merge_output_trace:
  assumes "merge_output gone bytes queue = (bytes', pending, queue')"
  shows "\<exists>late. map Inl bytes' @ host_trace (opt_list pending @ queue') = map Inl bytes @ host_trace queue @ late_end late \<and>
    (late \<longrightarrow> gone \<and> queue' = []) \<and> \<not> (\<exists>e. pending = Some e \<and> is_output e)"
  using assms
proof (induction gone bytes queue rule: merge_output.induct)
  case (1 gone bytes)
  then show ?case by (intro exI [of _ gone]) (auto simp: late_end_def split: if_splits)
next
  case (2 gone bytes next_data queue)
  then show ?case by auto
qed (auto simp: late_end_def intro!: exI [of _ False])

lemma stream_next_trace:
  assumes "stream_next gone pending queue = Some (e, pending', queue')" and "\<not> (\<exists>e. pending = Some e \<and> is_output e)"
  shows "\<exists>late. event_trace e @ host_trace (opt_list pending' @ queue') = host_trace (opt_list pending @ queue) @ late_end late \<and>
    (late \<longrightarrow> gone \<and> queue' = [] \<and> queue \<noteq> []) \<and> \<not> (\<exists>e. pending' = Some e \<and> is_output e)"
proof (cases pending)
  case (Some x)
  with assms show ?thesis
    by (intro exI [of _ False], cases x) (auto simp: stream_next_def late_end_def)
next
  case None
  then obtain x xs where q: "queue = x # xs" using assms(1) by (cases queue) (auto simp: stream_next_def)
  show ?thesis
  proof (cases "is_output x")
    case True
    then obtain bytes where x: "x = TerminalOutput bytes" by (cases x) auto
    obtain bytes' where m: "merge_output gone bytes xs = (bytes', pending', queue')" and e: "e = TerminalOutput bytes'"
      using assms(1) by (auto simp: stream_next_def None q x split: prod.splits)
    from merge_output_trace [OF m] show ?thesis by (auto simp: e None q x)
  next
    case False
    with assms(1) show ?thesis
      by (intro exI [of _ False], cases x) (auto simp: stream_next_def None q late_end_def)
  qed
qed

text \<open>A parser that does not mind how its input is cut.\<close>

definition incremental :: "'p vte_parser \<Rightarrow> bool" where
  "incremental parser \<longleftrightarrow>
     (\<forall>p. parser p [] = ([], p)) \<and>
     (\<forall>p xs ys. parser p (xs @ ys) =
        (fst (parser p xs) @ fst (parser (snd (parser p xs)) ys), snd (parser (snd (parser p xs)) ys)))"

lemma feed_append:
  assumes "incremental parser"
  shows "feed W parser (xs @ ys) pt = (case feed W parser xs pt of None \<Rightarrow> None | Some pt' \<Rightarrow> feed W parser ys pt')"
  using assms
  by (cases "parser (fst pt) xs")
    (auto simp: feed_def incremental_def perform_all_def each_append Let_def split: prod.splits option.splits)

fun output_of :: "host_event list \<Rightarrow> byte list" where
  "output_of [] = []"
| "output_of (TerminalOutput bytes # es) = bytes @ output_of es"
| "output_of (e # es) = output_of es"

fun status_of :: "host_event \<Rightarrow> string option \<Rightarrow> string option" where
  "status_of (TerminalOutput _) s = s"
| "status_of (SessionEnded reason) s = Some (''Session ended: '' @ reason)"
| "status_of Disconnected s = Some ''Disconnected''"

lemma output_of_append [simp]: "output_of (xs @ ys) = output_of xs @ output_of ys"
  by (induction xs rule: output_of.induct) auto

text \<open>What the host has sent when it has not gone away.\<close>

fun host_sent :: "('k, 'c) box_action list \<Rightarrow> host_event list" where
  "host_sent [] = []"
| "host_sent (HostSends e # acts) = e # host_sent acts"
| "host_sent (HostGone # acts) = []"
| "host_sent (_ # acts) = host_sent acts"

lemma host_sent_snoc: "host_sent (acts @ [a]) = host_sent acts @ (if HostGone \<in> set acts then [] else host_sent [a])"
  by (induction acts rule: host_sent.induct) auto

definition box_ok ::
  "width_of \<Rightarrow> 'p vte_parser \<Rightarrow> 'p \<Rightarrow> ('k, 'c) box_action list \<Rightarrow> ('p, 'k, 'c) box_world \<Rightarrow> host_event list \<Rightarrow> bool \<Rightarrow> bool" where
  "box_ok W parser p0 acts w shown late \<longleftrightarrow>
     host_trace (shown @ opt_list (bw_pending w) @ bw_queue w) = host_trace (host_sent acts) @ late_end late \<and>
     bw_closed w = (HostGone \<in> set acts) \<and> (late \<longrightarrow> bw_closed w \<and> bw_queue w = []) \<and>
     \<not> (\<exists>e. bw_pending w = Some e \<and> is_output e) \<and>
     feed W parser (output_of shown) (p0, terminal_new TERMINAL_COLS TERMINAL_ROWS) = Some (ap_terminal (bw_app w)) \<and>
     term_ok W (snd (ap_terminal (bw_app w))) \<and> t_cols (snd (ap_terminal (bw_app w))) = TERMINAL_COLS \<and>
     ap_status (bw_app w) = fold status_of shown None \<and> bw_exit w = (\<exists>e \<in> set shown. \<not> is_output e)"


lemma box_deliver_other:
  assumes "\<not> is_host_message m"
  shows "\<exists>w'. box_deliver W parser m w = Some w' \<and> bw_queue w' = bw_queue w \<and> bw_closed w' = bw_closed w \<and>
    bw_pending w' = bw_pending w \<and> bw_exit w' = bw_exit w \<and> ap_terminal (bw_app w') = ap_terminal (bw_app w) \<and>
    ap_status (bw_app w') = ap_status (bw_app w)"
proof (cases m)
  case (MsgInput i)
  then show ?thesis by (cases i) (auto simp: box_deliver_def)
qed (use assms in \<open>auto simp: box_deliver_def\<close>)

lemma box_act_ok:
  assumes W: "width_law W" and inc: "incremental parser" and ok: "box_ok W parser p0 acts w shown late"
  shows "\<exists>w' shown' late'. box_act W parser a w = Some w' \<and> box_ok W parser p0 (acts @ [a]) w' shown' late'"
proof (cases a)
  case (HostSends e)
  have "box_ok W parser p0 (acts @ [a]) (if bw_closed w then w else w\<lparr>bw_queue := bw_queue w @ [e]\<rparr>) shown late"
    using ok by (auto simp: box_ok_def HostSends host_sent_snoc late_end_def)
  then show ?thesis unfolding HostSends box_act.simps by blast
next
  case HostGone
  have "box_ok W parser p0 (acts @ [a]) (w\<lparr>bw_closed := True\<rparr>) shown late"
    using ok by (auto simp: box_ok_def HostGone host_sent_snoc)
  then show ?thesis by (auto simp: HostGone)
next
  case (OtherMessage m)
  have "box_ok W parser p0 (acts @ [a]) w' shown late" if "bw_queue w' = bw_queue w" "bw_closed w' = bw_closed w"
    "bw_pending w' = bw_pending w" "bw_exit w' = bw_exit w" "ap_terminal (bw_app w') = ap_terminal (bw_app w)"
    "ap_status (bw_app w') = ap_status (bw_app w)" for w' :: "('a, 'b, 'c) box_world"
    using ok that by (auto simp: box_ok_def OtherMessage host_sent_snoc)
  with box_deliver_other [of m W parser w] show ?thesis by (auto simp: OtherMessage)
next
  case StreamYields
  show ?thesis
  proof (cases "bw_exit w \<or> stream_next (bw_closed w) (bw_pending w) (bw_queue w) = None")
    case True
    have "box_ok W parser p0 (acts @ [a]) w shown late" using ok by (auto simp: box_ok_def StreamYields host_sent_snoc)
    moreover have "box_act W parser a w = Some w" using True by (auto simp: StreamYields)
    ultimately show ?thesis by blast
  next
    case False
    then obtain e pending queue where s: "stream_next (bw_closed w) (bw_pending w) (bw_queue w) = Some (e, pending, queue)"
      by (auto simp: split_paired_all)
    from stream_next_trace [OF s] ok obtain late' where t:
      "event_trace e @ host_trace (opt_list pending @ queue) = host_trace (opt_list (bw_pending w) @ bw_queue w) @ late_end late'"
      "late' \<longrightarrow> bw_closed w \<and> queue = [] \<and> bw_queue w \<noteq> []" "\<not> (\<exists>e. pending = Some e \<and> is_output e)"
      by (auto simp: box_ok_def)
    have late: "late_end late @ late_end late' = late_end (late \<or> late')" "late \<or> late' \<longrightarrow> bw_closed w \<and> queue = []"
      using t(2) ok s by (auto simp: box_ok_def late_end_def stream_next_def split: option.splits host_event.splits)
    let ?w = "w\<lparr>bw_pending := pending, bw_queue := queue\<rparr>"
    have "\<exists>w'. box_deliver W parser (MsgHostEvent e) ?w = Some w' \<and> box_ok W parser p0 (acts @ [a]) w' (shown @ [e]) (late \<or> late')"
    proof -
      have trace: "host_trace ((shown @ [e]) @ opt_list pending @ queue) = host_trace (host_sent (acts @ [a])) @ late_end (late \<or> late')"
        (is "?l = _")
      proof -
        have "?l = host_trace (shown @ opt_list (bw_pending w) @ bw_queue w) @ late_end late'" using t(1) by simp
        also have "\<dots> = host_trace (host_sent acts) @ late_end late @ late_end late'"
          using ok unfolding box_ok_def by (metis append_assoc)
        finally show ?thesis unfolding late(1) by (simp add: StreamYields host_sent_snoc)
      qed
      show ?thesis
      proof (cases e)
        case (TerminalOutput bytes)
        obtain pt where pt: "feed W parser bytes (ap_terminal (bw_app w)) = Some pt" "term_ok W (snd pt)"
            "t_cols (snd pt) = t_cols (snd (ap_terminal (bw_app w)))"
          using feed_keeps [OF W, of "ap_terminal (bw_app w)" parser bytes] ok by (auto simp: box_ok_def TERMINAL_COLS_def)
        with ok trace t(3) late(2) False show ?thesis
          by (auto simp: box_deliver_def TerminalOutput box_ok_def feed_append [OF inc] StreamYields)
      qed (use ok trace t(3) late(2) False in \<open>auto simp: box_deliver_def box_ok_def StreamYields\<close>)
    qed
    with False s show ?thesis by (auto simp: StreamYields)
  qed
qed

lemma box_run_ok:
  fixes acts :: "('k, 'c) box_action list"
  assumes "width_law W" and "incremental parser"
  shows "\<exists>(w :: ('p, 'k, 'c) box_world) shown late.
    each (box_act W parser) acts (box_start p0) = Some w \<and> box_ok W parser p0 acts w shown late"
proof (induction acts rule: rev_induct)
  case Nil
  have "feed W parser [] pt = Some pt" for pt using assms(2) by (simp add: feed_def incremental_def perform_all_def)
  moreover have cols: "t_cols (terminal_new TERMINAL_COLS TERMINAL_ROWS) = TERMINAL_COLS"
    by (simp add: terminal_new_def TERMINAL_COLS_def Let_def)
  ultimately have "box_ok W parser p0 ([] :: ('k, 'c) box_action list) (box_start p0 :: ('p, 'k, 'c) box_world) [] False"
    using terminal_new_ok [OF assms(1)] cols by (simp add: box_ok_def box_start_def app_new_def late_end_def)
  then show ?case by (auto simp: each.simps)
next
  case (snoc a acts)
  then obtain w :: "('p, 'k, 'c) box_world" and shown late where
    w: "each (box_act W parser) acts (box_start p0) = Some w" "box_ok W parser p0 acts w shown late" by blast
  from box_act_ok [OF assms w(2), of a] w(1) show ?case by (fastforce simp: each_append)
qed

text \<open>The viewer shows what the host sent. However the host's events, the merging stream and other
  messages interleave, no update panics; the events the window has handled and those that wait are
  what the host sent, byte for byte and in order, but for a disconnection that is made up when the
  host goes away; the terminal is the one that the handled output, fed at once, makes of a new
  screen; the status names the last end that was announced, and the window exits exactly when an
  end was announced.\<close>

theorem viewer_shows_everything:
  fixes acts :: "('k, 'c) box_action list"
  assumes "width_law W" and "incremental parser"
  shows "\<exists>(w :: ('p, 'k, 'c) box_world) shown late. each (box_act W parser) acts (box_start p0) = Some w \<and>
    host_trace (shown @ opt_list (bw_pending w) @ bw_queue w) = host_trace (host_sent acts) @ late_end late \<and>
    feed W parser (output_of shown) (p0, terminal_new TERMINAL_COLS TERMINAL_ROWS) = Some (ap_terminal (bw_app w)) \<and>
    ap_status (bw_app w) = fold status_of shown None \<and> bw_exit w = (\<exists>e \<in> set shown. \<not> is_output e)"
  using box_run_ok [OF assms, where acts = acts and ?p0.0 = p0] unfolding box_ok_def by blast

theorem viewer_shows_everything_witness:
  "\<exists>(w :: (unit, nat, nat) box_world) shown late.
    each (box_act demo_width demo_parser) [HostSends (TerminalOutput [65]), HostSends (TerminalOutput [66]),
      HostSends (SessionEnded ''done''), StreamYields, OtherMessage (MsgHoverChanged True), StreamYields] (box_start ()) = Some w \<and>
    host_trace (shown @ opt_list (bw_pending w) @ bw_queue w) = [Inl 65, Inl 66, Inr (SessionEnded ''done'')] @ late_end late"
proof -
  have "incremental demo_parser" by (simp add: incremental_def demo_parser_def)
  from viewer_shows_everything [OF demo_width_law this, of "[HostSends (TerminalOutput [65]), HostSends (TerminalOutput [66]),
      HostSends (SessionEnded ''done''), StreamYields, OtherMessage (MsgHoverChanged True), StreamYields]" "()"]
  show ?thesis by (simp del: each.simps) blast
qed

end
