(* ===== verification/F32.thy ===== *)
theory F32
  imports Rounding
begin

text \<open>
  IEEE 754 binary32, Rust's \<^verbatim>\<open>f32\<close>, as \<open>F64\<close> has binary64: finite values as rationals, the infinities and
  NaN, each operation the exact result rounded to the nearest number, ties to even. The operations
  are those of the type classes for arithmetic and order, none of whose laws are claimed. The sign
  of zero is not kept.
\<close>

section \<open>Values and operations\<close>

datatype f32 = Fl rat | PInf32 | NInf32 | NaN32

definition rv32 :: "rat \<Rightarrow> rat" where
  "rv32 x = round_to 23 (- 126) x"

definition lit :: "rat \<Rightarrow> f32" where
  "lit x = (let v = rv32 x in if v \<ge> 2 ^ 128 then PInf32 else if v \<le> - (2 ^ 128) then NInf32 else Fl v)"

text \<open>The greatest finite value, \<^verbatim>\<open>f32::MAX\<close>.\<close>

definition f32_max :: f32 where
  "f32_max = Fl ((2 - 2 powi (- 23)) * 2 ^ 127)"

fun neg32 :: "f32 \<Rightarrow> f32" where
  "neg32 (Fl a) = Fl (- a)"
| "neg32 PInf32 = NInf32"
| "neg32 NInf32 = PInf32"
| "neg32 NaN32 = NaN32"

fun add32 :: "f32 \<Rightarrow> f32 \<Rightarrow> f32" where
  "add32 (Fl a) (Fl b) = lit (a + b)"
| "add32 NaN32 _ = NaN32"
| "add32 _ NaN32 = NaN32"
| "add32 PInf32 NInf32 = NaN32"
| "add32 NInf32 PInf32 = NaN32"
| "add32 PInf32 _ = PInf32"
| "add32 NInf32 _ = NInf32"
| "add32 _ PInf32 = PInf32"
| "add32 _ NInf32 = NInf32"

definition inf_times32 :: "bool \<Rightarrow> rat \<Rightarrow> f32" where
  "inf_times32 pos b = (if b = 0 then NaN32 else if (0 < b) = pos then PInf32 else NInf32)"

fun mul32 :: "f32 \<Rightarrow> f32 \<Rightarrow> f32" where
  "mul32 (Fl a) (Fl b) = lit (a * b)"
| "mul32 NaN32 _ = NaN32"
| "mul32 _ NaN32 = NaN32"
| "mul32 PInf32 (Fl b) = inf_times32 True b"
| "mul32 NInf32 (Fl b) = inf_times32 False b"
| "mul32 (Fl a) PInf32 = inf_times32 True a"
| "mul32 (Fl a) NInf32 = inf_times32 False a"
| "mul32 PInf32 PInf32 = PInf32"
| "mul32 NInf32 NInf32 = PInf32"
| "mul32 PInf32 NInf32 = NInf32"
| "mul32 NInf32 PInf32 = NInf32"

fun div32 :: "f32 \<Rightarrow> f32 \<Rightarrow> f32" where
  "div32 NaN32 _ = NaN32"
| "div32 _ NaN32 = NaN32"
| "div32 (Fl a) (Fl b) =
     (if b = 0 then (if a = 0 then NaN32 else if 0 < a then PInf32 else NInf32) else lit (a / b))"
| "div32 (Fl a) _ = Fl 0"
| "div32 PInf32 (Fl b) = (if 0 \<le> b then PInf32 else NInf32)"
| "div32 NInf32 (Fl b) = (if 0 \<le> b then NInf32 else PInf32)"
| "div32 _ _ = NaN32"

text \<open>Truncation toward zero, and the remainder \<^verbatim>\<open>%\<close>, which is exact and has the sign of the dividend.\<close>

definition trunc_rat :: "rat \<Rightarrow> int" where
  "trunc_rat x = (if 0 \<le> x then \<lfloor>x\<rfloor> else \<lceil>x\<rceil>)"

fun rem32 :: "f32 \<Rightarrow> f32 \<Rightarrow> f32" where
  "rem32 (Fl a) (Fl b) = (if b = 0 then NaN32 else Fl (a - b * of_int (trunc_rat (a / b))))"
| "rem32 (Fl a) PInf32 = Fl a"
| "rem32 (Fl a) NInf32 = Fl a"
| "rem32 _ _ = NaN32"

fun fract32 :: "f32 \<Rightarrow> f32" where
  "fract32 (Fl a) = Fl (a - of_int (trunc_rat a))"
| "fract32 _ = NaN32"

fun floor32 :: "f32 \<Rightarrow> f32" where
  "floor32 (Fl a) = Fl (of_int \<lfloor>a\<rfloor>)"
| "floor32 x = x"

fun abs32 :: "f32 \<Rightarrow> f32" where
  "abs32 (Fl a) = Fl \<bar>a\<bar>"
| "abs32 NInf32 = PInf32"
| "abs32 x = x"

fun lt32 :: "f32 \<Rightarrow> f32 \<Rightarrow> bool" where
  "lt32 (Fl a) (Fl b) = (a < b)"
| "lt32 NaN32 _ = False"
| "lt32 _ NaN32 = False"
| "lt32 NInf32 NInf32 = False"
| "lt32 NInf32 _ = True"
| "lt32 _ NInf32 = False"
| "lt32 PInf32 _ = False"
| "lt32 _ PInf32 = True"

definition le32 :: "f32 \<Rightarrow> f32 \<Rightarrow> bool" where
  "le32 a b \<longleftrightarrow> lt32 a b \<or> a = b \<and> a \<noteq> NaN32"

instantiation f32 :: "{plus, minus, uminus, times, inverse, modulo, ord}"
begin

definition plus_f32 :: "f32 \<Rightarrow> f32 \<Rightarrow> f32" where
  "plus_f32 = add32"

definition minus_f32 :: "f32 \<Rightarrow> f32 \<Rightarrow> f32" where
  "minus_f32 a b = add32 a (neg32 b)"

definition uminus_f32 :: "f32 \<Rightarrow> f32" where
  "uminus_f32 = neg32"

definition times_f32 :: "f32 \<Rightarrow> f32 \<Rightarrow> f32" where
  "times_f32 = mul32"

definition divide_f32 :: "f32 \<Rightarrow> f32 \<Rightarrow> f32" where
  "divide_f32 = div32"

definition inverse_f32 :: "f32 \<Rightarrow> f32" where
  "inverse_f32 = div32 (Fl 1)"

definition modulo_f32 :: "f32 \<Rightarrow> f32 \<Rightarrow> f32" where
  "modulo_f32 = rem32"

definition less_f32 :: "f32 \<Rightarrow> f32 \<Rightarrow> bool" where
  "less_f32 = lt32"

definition less_eq_f32 :: "f32 \<Rightarrow> f32 \<Rightarrow> bool" where
  "less_eq_f32 = le32"

instance ..

end

lemmas f32_ops = plus_f32_def minus_f32_def uminus_f32_def times_f32_def divide_f32_def modulo_f32_def less_f32_def less_eq_f32_def

text \<open>\<^verbatim>\<open>f32::min\<close>, \<^verbatim>\<open>f32::max\<close> and \<^verbatim>\<open>f32::clamp\<close>.\<close>

definition min32 :: "f32 \<Rightarrow> f32 \<Rightarrow> f32" where
  "min32 a b = (if a = NaN32 then b else if b = NaN32 then a else if b < a then b else a)"

definition max32 :: "f32 \<Rightarrow> f32 \<Rightarrow> f32" where
  "max32 a b = (if a = NaN32 then b else if b = NaN32 then a else if a < b then b else a)"

definition clamp32 :: "f32 \<Rightarrow> f32 \<Rightarrow> f32 \<Rightarrow> f32" where
  "clamp32 lo hi x = (if x < lo then lo else if hi < x then hi else x)"

text \<open>The casts \<^verbatim>\<open>as i32\<close> and \<^verbatim>\<open>as u32\<close>, which truncate and saturate.\<close>

fun as_int32 :: "int \<Rightarrow> int \<Rightarrow> f32 \<Rightarrow> int" where
  "as_int32 lo hi (Fl a) = max lo (min hi (trunc_rat a))"
| "as_int32 lo hi PInf32 = hi"
| "as_int32 lo hi NInf32 = lo"
| "as_int32 lo hi NaN32 = 0"

fun is_finite32 :: "f32 \<Rightarrow> bool" where
  "is_finite32 (Fl a) = True"
| "is_finite32 _ = False"

section \<open>Intervals\<close>

text \<open>A finite value in an interval. Rounding keeps an interval whose ends are values of the format.\<close>

definition inside :: "rat \<Rightarrow> rat \<Rightarrow> f32 \<Rightarrow> bool" where
  "inside a b x \<longleftrightarrow> (\<exists>q. x = Fl q \<and> a \<le> q \<and> q \<le> b)"

definition is_f32 :: "rat \<Rightarrow> bool" where
  "is_f32 a \<longleftrightarrow> rv32 a = a \<and> \<bar>a\<bar> < 2 ^ 128"

lemma rv32_mono: "x \<le> y \<Longrightarrow> rv32 x \<le> rv32 y"
  by (simp add: rv32_def round_mono)

lemma is_f32_multiple: "\<bar>k\<bar> \<le> 2 ^ 24 \<Longrightarrow> - 149 \<le> e \<Longrightarrow> e \<le> 100 \<Longrightarrow> is_f32 (of_int k * 2 powi e)"
proof -
  assume k: "\<bar>k\<bar> \<le> 2 ^ 24" and e: "- 149 \<le> e" "e \<le> 100"
  have "\<bar>of_int k :: rat\<bar> \<le> of_int (2 ^ 24)" using k by (simp only: of_int_abs [symmetric] of_int_le_iff)
  moreover have "(2 :: rat) powi e \<le> 2 powi 100" using e(2) by (rule powi_mono)
  ultimately have "\<bar>of_int k * (2 :: rat) powi e\<bar> \<le> of_int (2 ^ 24) * 2 powi 100"
    unfolding abs_mult by (intro mult_mono) simp_all
  also have "\<dots> < 2 ^ 128" by simp
  finally show ?thesis using k e(1) by (simp add: is_f32_def rv32_def round_multiple)
qed

lemma is_f32_int: "\<bar>k\<bar> \<le> 2 ^ 24 \<Longrightarrow> is_f32 (of_int k)"
  using is_f32_multiple [of k 0] by simp

lemma is_f32_simps [simp]: "is_f32 0" "is_f32 1"
  using is_f32_int [of 0] is_f32_int [of 1] by simp_all

lemma lit_exact: "is_f32 a \<Longrightarrow> lit a = Fl a"
  by (auto simp: is_f32_def lit_def abs_less_iff)

lemma lit_inside:
  assumes "a \<le> q" and "q \<le> b" and "is_f32 a" and "is_f32 b"
  shows "inside a b (lit q)"
proof -
  have "a \<le> rv32 q" "rv32 q \<le> b" using rv32_mono [OF assms(1)] rv32_mono [OF assms(2)] assms(3,4) by (simp_all add: is_f32_def)
  moreover from this assms(3,4) have "rv32 q < 2 ^ 128" "- (2 ^ 128) < rv32 q" unfolding is_f32_def by linarith+
  ultimately show ?thesis by (auto simp: inside_def lit_def Let_def)
qed

end
