(* ===== verification/Eye.thy ===== *)
theory Eye
  imports F32 "HOL-Library.Word"
begin

unbundle bit_operations_syntax

text \<open>
  The animated eye of the viewer, \<^verbatim>\<open>mitb-box/src/animated_eye.rs\<close>: the animation's state, what it looks like at
  an instant, and the geometry of its enclosure and rays. Arithmetic is single precision; sine and
  cosine, whose precision is not specified, are parameters.
\<close>

section \<open>Constants and helpers\<close>

definition ms :: "nat \<Rightarrow> nat" where "ms n = n * 1000000"

definition FRAME_DURATION :: nat where "FRAME_DURATION = ms (1000 div 60)"
definition CLOSE_DURATION :: nat where "CLOSE_DURATION = ms 180"
definition PROHIBIT_KICK_DURATION :: nat where "PROHIBIT_KICK_DURATION = ms 160"
definition SQUIRM_PERIOD :: nat where "SQUIRM_PERIOD = ms 560"
definition SQUIRM_IMPACT :: nat where "SQUIRM_IMPACT = ms 65"
definition SQUIRM_SETTLE :: nat where "SQUIRM_SETTLE = ms 165"
definition FEAR_SACCADE_AMPLITUDE :: f32 where "FEAR_SACCADE_AMPLITUDE = lit (205 / 100)"
definition FEAR_DART_DURATION :: f32 where "FEAR_DART_DURATION = lit (8 / 100)"
definition FEAR_HOLD_MIN :: f32 where "FEAR_HOLD_MIN = lit (25 / 100)"
definition FEAR_HOLD_MAX :: f32 where "FEAR_HOLD_MAX = lit 1"
definition FEAR_HOLD_PATTERN :: nat where "FEAR_HOLD_PATTERN = 24"
definition FEAR_TREMOR_X :: f32 where "FEAR_TREMOR_X = lit (28 / 100)"
definition FEAR_TREMOR_Y :: f32 where "FEAR_TREMOR_Y = lit (2 / 10)"
definition FEAR_OPEN_SPAN_BOOST :: f32 where "FEAR_OPEN_SPAN_BOOST = lit (115 / 100)"
definition RAY_COUNT :: nat where "RAY_COUNT = 34"
definition RAY_CYCLE_MIN :: f32 where "RAY_CYCLE_MIN = lit (56 / 100)"
definition RAY_CYCLE_MAX :: f32 where "RAY_CYCLE_MAX = lit (122 / 100)"
definition RAY_ACTIVE_PORTION :: f32 where "RAY_ACTIVE_PORTION = lit (64 / 100)"
definition RAY_TAIL_DELAY_MAX :: f32 where "RAY_TAIL_DELAY_MAX = lit (34 / 100)"
definition RAY_STITCH_DURATION :: nat where "RAY_STITCH_DURATION = ms 480"
definition RAY_STITCH_ATTACK_PORTION :: f32 where "RAY_STITCH_ATTACK_PORTION = lit (28 / 100)"
definition RAY_STITCH_COLLAPSE_START :: f32 where "RAY_STITCH_COLLAPSE_START = lit (62 / 100)"
definition RAY_STITCH_COLLAPSE_END :: f32 where "RAY_STITCH_COLLAPSE_END = lit 1"
definition POST_STITCH_FADE_DURATION :: nat where "POST_STITCH_FADE_DURATION = ms 1000"
definition OPEN_LID_SPAN :: f32 where "OPEN_LID_SPAN = lit (49 / 10)"
definition CLOSED_LID_SPAN :: f32 where "CLOSED_LID_SPAN = lit (35 / 100)"

definition TAU :: f32 where "TAU = lit (628318530717958647692528676655900577 / 10 ^ 35)"

text \<open>\<^verbatim>\<open>Instant::saturating_duration_since\<close> and \<^verbatim>\<open>Duration::as_secs_f32\<close>.\<close>

definition since :: "nat \<Rightarrow> nat \<Rightarrow> nat" where
  "since now start = now - start"

definition as_secs_f32 :: "nat \<Rightarrow> f32" where
  "as_secs_f32 d = lit (of_nat (d div 1000000000)) + lit (of_nat (d mod 1000000000)) / lit 1000000000"

definition clamp01 :: "f32 \<Rightarrow> f32" where
  "clamp01 x = clamp32 (lit 0) (lit 1) x"

definition ease_out_quart :: "f32 \<Rightarrow> f32" where
  "ease_out_quart t = (let u = lit 1 - clamp01 t in lit 1 - (u * u * u * u))"

definition ease_out_cubic :: "f32 \<Rightarrow> f32" where
  "ease_out_cubic t = (let u = lit 1 - clamp01 t in lit 1 - (u * u * u))"

definition ease_in_cubic :: "f32 \<Rightarrow> f32" where
  "ease_in_cubic t = (let x = clamp01 t in x * x * x)"

definition lerp :: "f32 \<Rightarrow> f32 \<Rightarrow> f32 \<Rightarrow> f32" where
  "lerp from' to t = from' + (to - from') * clamp01 t"

definition progress_between :: "nat \<Rightarrow> nat \<Rightarrow> nat \<Rightarrow> f32" where
  "progress_between start now duration =
     (if duration = 0 then lit 1 else clamp01 (as_secs_f32 (since now start) / as_secs_f32 duration))"

definition hash_value :: "32 word \<Rightarrow> 32 word \<Rightarrow> 32 word" where
  "hash_value seed salt =
     (seed * 1664525 + (1013904223 XOR salt)) XOR word_rotl (unat (seed AND 15)) salt"

definition hash01 :: "32 word \<Rightarrow> 32 word \<Rightarrow> f32" where
  "hash01 seed salt = lit (of_nat (unat (drop_bit 8 (hash_value seed salt) AND 0xffff))) / lit 65535"

definition signed_hash :: "32 word \<Rightarrow> 32 word \<Rightarrow> f32" where
  "signed_hash seed salt = hash01 seed salt * lit 2 - lit 1"

section \<open>The squirm and the kick\<close>

definition active_squirm :: "nat \<Rightarrow> f32 \<Rightarrow> f32 \<times> f32 \<times> f32" where
  "active_squirm elapsed close =
     (let close_gate = clamp01 ((close - lit (45 / 100)) / lit (55 / 100)) in
      if close_gate \<le> lit 0 then (lit 0, lit 0, lit 0)
      else let period = as_secs_f32 SQUIRM_PERIOD in
      if period \<le> lit 0 then (lit 0, lit 0, lit 0)
      else let t = as_secs_f32 elapsed;
               beat = word_of_int (as_int32 0 (2 ^ 32 - 1) (floor32 (t / period))) :: 32 word;
               beat_t = t mod period;
               impact = as_secs_f32 SQUIRM_IMPACT;
               settle = as_secs_f32 SQUIRM_SETTLE;
               burst = (if beat_t \<le> impact then lit 1
                        else if beat_t \<le> impact + settle then lit 1 - ease_out_cubic ((beat_t - impact) / settle)
                        else lit 0);
               amount = burst * close_gate
           in if amount \<le> lit 0 then (lit 0, lit 0, lit 0)
              else (signed_hash beat 11 * lit (55 / 100) * amount,
                    signed_hash beat 23 * lit (38 / 100) * amount,
                    signed_hash beat 37 * lit 1 * amount))"

definition prohibited_kick_x :: "nat \<Rightarrow> f32" where
  "prohibited_kick_x elapsed =
     (if elapsed \<ge> PROHIBIT_KICK_DURATION then lit 0
      else let t = elapsed div 1000000 in
           if t \<le> 26 then lit (- 3) else if t \<le> 50 then lit 3 else if t \<le> 74 then lit (- 2)
           else if t \<le> 98 then lit 2 else if t \<le> 124 then lit (- 1) else if t \<le> 159 then lit 1 else lit 0)"

section \<open>The fearful look\<close>

record trig =
  tg_sin :: "f32 \<Rightarrow> f32"
  tg_cos :: "f32 \<Rightarrow> f32"

record fear_visual =
  fv_pupil_dx :: f32
  fv_jitter_x :: f32
  fv_jitter_y :: f32
  fv_open_span_boost :: f32
  fv_pupil_dilation :: f32

definition fear_step_duration :: "nat \<Rightarrow> f32" where
  "fear_step_duration step = FEAR_DART_DURATION + lerp FEAR_HOLD_MIN FEAR_HOLD_MAX (hash01 (of_nat step) 751)"

definition fear_cycle_duration :: f32 where
  "fear_cycle_duration = foldl (\<lambda>acc step. acc + fear_step_duration step) (lit 0) [0..<FEAR_HOLD_PATTERN]"

text \<open>The loop over the steps; behind it is the fallback of the function.\<close>

fun fear_step_from :: "nat list \<Rightarrow> f32 \<Rightarrow> f32 \<Rightarrow> nat \<times> f32 \<times> f32" where
  "fear_step_from [] cursor local_t = (0, lit 0, fear_step_duration 0)"
| "fear_step_from (step # steps) cursor local_t =
     (let duration = fear_step_duration step in
      if local_t \<le> cursor + duration \<or> step = FEAR_HOLD_PATTERN - 1 then (step, cursor, duration)
      else fear_step_from steps (cursor + duration) local_t)"

definition fear_step_at :: "f32 \<Rightarrow> nat \<times> f32 \<times> f32" where
  "fear_step_at local_t = fear_step_from [0..<FEAR_HOLD_PATTERN] (lit 0) local_t"

definition fearful_idle :: "trig \<Rightarrow> nat \<Rightarrow> fear_visual" where
  "fearful_idle G elapsed =
     (let t = as_secs_f32 elapsed;
          local_t = (if lit 0 < fear_cycle_duration then t mod fear_cycle_duration else lit 0);
          (step, step_start, _) = fear_step_at local_t;
          step_t = local_t - step_start;
          to_side = (if even step then lit (- 1) else lit 1);
          from' = (- to_side) * FEAR_SACCADE_AMPLITUDE;
          to = to_side * FEAR_SACCADE_AMPLITUDE;
          base_dx = (if step_t < FEAR_DART_DURATION
                     then let snap = ease_out_quart (step_t / FEAR_DART_DURATION);
                              overshoot = (lit 1 - snap) * to_side * lit (14 / 100)
                          in lerp from' to snap + overshoot
                     else to);
          tremor_x = (tg_sin G (t * TAU * lit (54 / 10)) * FEAR_TREMOR_X) +
                     (tg_sin G (t * TAU * lit (97 / 10)) * FEAR_TREMOR_X * lit (48 / 100));
          tremor_y = (tg_sin G (t * TAU * lit (63 / 10)) * FEAR_TREMOR_Y) +
                     (tg_sin G (t * TAU * lit (111 / 10)) * FEAR_TREMOR_Y * lit (5 / 10));
          dilation = lit (8 / 100) + lit (8 / 100) * (tg_sin G (t * TAU * lit 2) * lit (5 / 10) + lit (5 / 10));
          span_pulse = lit (18 / 100) * (tg_sin G (t * TAU * lit (27 / 10)) * lit (5 / 10) + lit (5 / 10))
      in \<lparr>fv_pupil_dx = base_dx + tremor_x * lit (25 / 100), fv_jitter_x = tremor_x, fv_jitter_y = tremor_y,
          fv_open_span_boost = FEAR_OPEN_SPAN_BOOST + span_pulse, fv_pupil_dilation = dilation\<rparr>)"

section \<open>The animation\<close>

record animation =
  an_active :: bool
  an_scan_start :: nat
  an_close_start :: "nat option"
  an_ray_freeze_time :: f32
  an_now :: nat

definition animation_default :: "nat \<Rightarrow> animation" where
  "animation_default now = \<lparr>an_active = False, an_scan_start = now, an_close_start = None, an_ray_freeze_time = lit 0, an_now = now\<rparr>"

definition sync_active :: "bool \<Rightarrow> nat \<Rightarrow> animation \<Rightarrow> bool \<times> animation" where
  "sync_active active now a =
     (if an_active a = active then (False, a)
      else let a = a\<lparr>an_active := active, an_now := now\<rparr> in
           (True, if active
             then a\<lparr>an_close_start := Some now, an_ray_freeze_time := as_secs_f32 (since now (an_scan_start a))\<rparr>
             else a\<lparr>an_close_start := None, an_scan_start := now, an_ray_freeze_time := lit 0\<rparr>))"

definition tick :: "nat \<Rightarrow> animation \<Rightarrow> animation" where
  "tick now a = a\<lparr>an_now := now\<rparr>"

record visual =
  vi_pupil_dx :: f32
  vi_close :: f32
  vi_is_active :: bool
  vi_thread_snap :: f32
  vi_squirm_dx :: f32
  vi_squirm_dy :: f32
  vi_squirm_warp :: f32
  vi_widget_jitter_x :: f32
  vi_widget_jitter_y :: f32
  vi_open_span_boost :: f32
  vi_pupil_dilation :: f32
  vi_ray_time :: f32
  vi_ray_visibility :: f32
  vi_ray_freeze_time :: f32
  vi_post_fade :: f32

definition visual_of :: "trig \<Rightarrow> animation \<Rightarrow> visual" where
  "visual_of G a =
     (if an_active a
      then let close_start = (case an_close_start a of Some t \<Rightarrow> t | None \<Rightarrow> an_now a);
               raw = progress_between close_start (an_now a) CLOSE_DURATION;
               close = ease_out_quart raw;
               thread_snap = clamp01 ((close - lit (5 / 100)) * lit (45 / 10));
               close_elapsed = since (an_now a) close_start;
               post_stitch_elapsed = close_elapsed - RAY_STITCH_DURATION;
               post_fade = ease_in_cubic (as_secs_f32 post_stitch_elapsed / as_secs_f32 POST_STITCH_FADE_DURATION);
               (squirm_dx, squirm_dy, squirm_warp) = active_squirm close_elapsed close
           in \<lparr>vi_pupil_dx = lit 0, vi_close = close, vi_is_active = True, vi_thread_snap = thread_snap,
               vi_squirm_dx = squirm_dx, vi_squirm_dy = squirm_dy, vi_squirm_warp = squirm_warp,
               vi_widget_jitter_x = prohibited_kick_x close_elapsed, vi_widget_jitter_y = lit 0,
               vi_open_span_boost = lit 0, vi_pupil_dilation = lit 0, vi_ray_time = as_secs_f32 close_elapsed,
               vi_ray_visibility = lit 1, vi_ray_freeze_time = an_ray_freeze_time a, vi_post_fade = post_fade\<rparr>
      else let elapsed = since (an_now a) (an_scan_start a);
               fearful = fearful_idle G elapsed
           in \<lparr>vi_pupil_dx = fv_pupil_dx fearful, vi_close = lit 0, vi_is_active = False, vi_thread_snap = lit 0,
               vi_squirm_dx = lit 0, vi_squirm_dy = lit 0, vi_squirm_warp = lit 0,
               vi_widget_jitter_x = fv_jitter_x fearful, vi_widget_jitter_y = fv_jitter_y fearful,
               vi_open_span_boost = fv_open_span_boost fearful, vi_pupil_dilation = fv_pupil_dilation fearful,
               vi_ray_time = as_secs_f32 elapsed, vi_ray_visibility = lit 1, vi_ray_freeze_time = as_secs_f32 elapsed,
               vi_post_fade = lit 0\<rparr>)"

end
