(* ===== verification/Eye_Draw.thy ===== *)
theory Eye_Draw
  imports Eye
begin

text \<open>
  Drawing the animated eye, \<^verbatim>\<open>mitb-box/src/animated_eye.rs\<close>: the enclosure, the rays, what is drawn on a canvas
  frame, as a list of fills and strokes, and the widget. The cache of the canvas is a parameter.
\<close>

section \<open>The enclosure\<close>

record fpoint =
  px :: f32
  py :: f32

definition fpoint_new :: "f32 \<Rightarrow> f32 \<Rightarrow> fpoint" where
  "fpoint_new x y = \<lparr>px = x, py = y\<rparr>"

definition ENC_TRI_TOP :: fpoint where "ENC_TRI_TOP = fpoint_new (lit 16) (lit (31 / 10))"
definition ENC_TRI_RIGHT :: fpoint where "ENC_TRI_RIGHT = fpoint_new (lit (286 / 10)) (lit (264 / 10))"
definition ENC_TRI_LEFT :: fpoint where "ENC_TRI_LEFT = fpoint_new (lit (34 / 10)) (lit (264 / 10))"
definition ENC_BOX_LEFT :: f32 where "ENC_BOX_LEFT = lit (52 / 10)"
definition ENC_BOX_TOP :: f32 where "ENC_BOX_TOP = lit (61 / 10)"
definition ENC_BOX_RIGHT :: f32 where "ENC_BOX_RIGHT = lit (268 / 10)"
definition ENC_BOX_BOTTOM :: f32 where "ENC_BOX_BOTTOM = lit (277 / 10)"

definition lerp_point :: "fpoint \<Rightarrow> fpoint \<Rightarrow> f32 \<Rightarrow> fpoint" where
  "lerp_point from' to t = fpoint_new (lerp (px from') (px to) t) (lerp (py from') (py to) t)"

definition enclosure_morph :: "visual \<Rightarrow> f32" where
  "enclosure_morph v =
     (if \<not> vi_is_active v then lit 0 else ease_out_cubic (clamp01 ((vi_close v - lit (3 / 100)) / lit (97 / 100))))"

definition enclosure_vertices :: "f32 \<Rightarrow> fpoint list" where
  "enclosure_vertices morph =
     (let t = clamp01 morph in
      [lerp_point ENC_TRI_TOP (fpoint_new ENC_BOX_LEFT ENC_BOX_TOP) t,
       lerp_point ENC_TRI_TOP (fpoint_new ENC_BOX_RIGHT ENC_BOX_TOP) t,
       lerp_point ENC_TRI_RIGHT (fpoint_new ENC_BOX_RIGHT ENC_BOX_BOTTOM) t,
       lerp_point ENC_TRI_LEFT (fpoint_new ENC_BOX_LEFT ENC_BOX_BOTTOM) t])"

definition cross :: "f32 \<Rightarrow> f32 \<Rightarrow> f32 \<Rightarrow> f32 \<Rightarrow> f32" where
  "cross ax ay bx by' = (ax * by') - (ay * bx)"

definition ray_segment_intersection :: "fpoint \<Rightarrow> f32 \<Rightarrow> f32 \<Rightarrow> fpoint \<Rightarrow> fpoint \<Rightarrow> f32 option" where
  "ray_segment_intersection origin dir_x dir_y s0 s1 =
     (let seg_x = px s1 - px s0;
          seg_y = py s1 - py s0;
          denom = cross dir_x dir_y seg_x seg_y
      in if abs32 denom < lit (1 / 100000) then None
         else let rel_x = px s0 - px origin;
                  rel_y = py s0 - py origin;
                  t = cross rel_x rel_y seg_x seg_y / denom;
                  u = cross rel_x rel_y dir_x dir_y / denom
              in if lit 0 \<le> t \<and> lit 0 \<le> u \<and> u \<le> lit 1 then Some t else None)"

definition nearer :: "f32 \<Rightarrow> f32 option \<Rightarrow> f32" where
  "nearer nearest hit = (case hit of Some t \<Rightarrow> min32 nearest t | None \<Rightarrow> nearest)"

definition ray_enclosure_intersection :: "fpoint \<Rightarrow> f32 \<Rightarrow> f32 \<Rightarrow> f32 \<Rightarrow> f32 option" where
  "ray_enclosure_intersection origin dir_x dir_y morph =
     (let v = enclosure_vertices morph;
          nearest = foldl (\<lambda>nearest (s0, s1). nearer nearest (ray_segment_intersection origin dir_x dir_y s0 s1)) f32_max
            [(v ! 0, v ! 1), (v ! 1, v ! 2), (v ! 2, v ! 3), (v ! 3, v ! 0)]
      in if is_finite32 nearest then Some nearest else None)"

section \<open>Rays\<close>

record ray_sample =
  rs_start_r :: f32
  rs_end_r :: f32
  rs_front_r :: f32
  rs_alpha :: f32
  rs_width :: f32
  rs_front_t :: f32

definition ray_sample_at :: "32 word \<Rightarrow> f32 \<Rightarrow> f32 \<Rightarrow> ray_sample option" where
  "ray_sample_at index border ray_time =
     (let outer_base = border + lit (27 / 10) + hash01 index 433 * lit (46 / 10);
          cycle = lerp RAY_CYCLE_MIN RAY_CYCLE_MAX (hash01 index 457);
          phase = fract32 ((ray_time / cycle) + hash01 index 491)
      in if RAY_ACTIVE_PORTION \<le> phase then None
      else let active = phase / RAY_ACTIVE_PORTION;
               front_speed = lerp (lit (95 / 100)) (lit (155 / 100)) (hash01 index 503);
               tail_speed = lerp (lit (72 / 100)) (lit (162 / 100)) (hash01 index 509);
               tail_delay = hash01 index 521 * RAY_TAIL_DELAY_MAX;
               front_t = clamp01 (active * front_speed);
               tail_t = (if active \<le> tail_delay then lit 0
                         else clamp01 ((active - tail_delay) / (lit 1 - tail_delay) * tail_speed));
               front_r = lerp outer_base border (ease_out_quart front_t);
               tail_r = lerp outer_base border (ease_in_cubic tail_t);
               start_r = min32 front_r tail_r;
               end_r = max32 front_r tail_r
      in if end_r - start_r \<le> lit (15 / 1000) then None
      else let fade = clamp01 (lit 1 - (max32 (active - lit (84 / 100)) (lit 0) / lit (16 / 100)));
               alpha = lerp (lit (62 / 100)) (lit 1) (clamp01 (front_t * lit (115 / 100))) * fade
      in if alpha \<le> lit (1 / 100) then None
         else Some \<lparr>rs_start_r = start_r, rs_end_r = end_r, rs_front_r = front_r, rs_alpha = alpha,
                    rs_width = lerp (lit (45 / 100)) (lit (102 / 100)) (hash01 index 487), rs_front_t = front_t\<rparr>)"

section \<open>Drawing\<close>

text \<open>A colour by the bytes it was made from and its opacity.\<close>

record colour =
  co_rgb :: "nat \<times> nat \<times> nat"
  co_a :: f32

definition from_rgb8 :: "nat \<Rightarrow> nat \<Rightarrow> nat \<Rightarrow> colour" where
  "from_rgb8 r g b = \<lparr>co_rgb = (r, g, b), co_a = lit 1\<rparr>"

definition with_alpha :: "colour \<Rightarrow> f32 \<Rightarrow> colour" where
  "with_alpha c alpha = c\<lparr>co_a := co_a c * clamp01 alpha\<rparr>"

datatype path_step = MoveTo fpoint | LineTo fpoint | QuadraticTo fpoint fpoint | ClosePath
datatype path = PathNew "path_step list" | PathLine fpoint fpoint | PathCircle fpoint f32
datatype draw_op = FillPath path colour | StrokePath path colour f32

definition ray_centre :: fpoint where
  "ray_centre = fpoint_new (lit 16) (lit (162 / 10))"

definition ray_angle :: "nat \<Rightarrow> f32" where
  "ray_angle i = ((lit (of_nat i) + lit (35 / 100)) / lit (of_nat RAY_COUNT)) * TAU - TAU * lit (25 / 100)"

definition ray_border :: "f32 \<Rightarrow> f32 \<Rightarrow> f32 \<Rightarrow> f32" where
  "ray_border dir_x dir_y morph =
     (case ray_enclosure_intersection ray_centre dir_x dir_y morph of Some t \<Rightarrow> t | None \<Rightarrow> lit (126 / 10))"

definition at_radius :: "f32 \<Rightarrow> f32 \<Rightarrow> f32 \<Rightarrow> fpoint" where
  "at_radius dir_x dir_y r = fpoint_new (px ray_centre + dir_x * r) (py ray_centre + dir_y * r)"

definition draw_ray :: "trig \<Rightarrow> colour \<Rightarrow> visual \<Rightarrow> f32 \<Rightarrow> nat \<Rightarrow> draw_op list" where
  "draw_ray G white v morph i =
     (let visibility = clamp01 (vi_ray_visibility v);
          dir_x = tg_cos G (ray_angle i);
          dir_y = tg_sin G (ray_angle i)
      in case ray_sample_at (of_nat i) (ray_border dir_x dir_y morph) (vi_ray_time v) of
           None \<Rightarrow> []
         | Some s \<Rightarrow>
             [StrokePath (PathLine (at_radius dir_x dir_y (rs_start_r s)) (at_radius dir_x dir_y (rs_end_r s)))
                (white\<lparr>co_a := visibility * rs_alpha s\<rparr>) (rs_width s),
              FillPath (PathCircle (at_radius dir_x dir_y (rs_front_r s)) (lerp (lit (18 / 100)) (lit (7 / 100)) (rs_front_t s)))
                (white\<lparr>co_a := visibility * lerp (lit (92 / 100)) (lit (35 / 100)) (rs_front_t s)\<rparr>)])"

definition draw_rays :: "trig \<Rightarrow> colour \<Rightarrow> visual \<Rightarrow> f32 \<Rightarrow> draw_op list" where
  "draw_rays G white v morph = concat (map (draw_ray G white v morph) [0..<RAY_COUNT])"

definition draw_thread :: "trig \<Rightarrow> colour \<Rightarrow> visual \<Rightarrow> f32 \<Rightarrow> f32 \<Rightarrow> nat \<Rightarrow> draw_op list" where
  "draw_thread G white v seam_y morph i =
     (let visibility = lit 1;
          progress = clamp01 (vi_ray_time v / as_secs_f32 RAY_STITCH_DURATION);
          attack = ease_out_quart (clamp01 (progress / RAY_STITCH_ATTACK_PORTION));
          collapse = ease_in_cubic (clamp01 ((progress - RAY_STITCH_COLLAPSE_START) /
                       (RAY_STITCH_COLLAPSE_END - RAY_STITCH_COLLAPSE_START)));
          index = of_nat i;
          dir_x = tg_cos G (ray_angle i);
          dir_y = tg_sin G (ray_angle i)
      in case ray_sample_at index (ray_border dir_x dir_y morph) (vi_ray_freeze_time v) of
           None \<Rightarrow> []
         | Some frozen \<Rightarrow>
             let inner = at_radius dir_x dir_y (rs_start_r frozen);
                 outer = at_radius dir_x dir_y (rs_end_r frozen);
                 target_x = lerp (lit (94 / 10)) (lit (226 / 10)) (hash01 index 607);
                 target_y = seam_y + (hash01 index 613 - lit (5 / 10)) * lit (95 / 100);
                 tip = lerp_point inner (fpoint_new target_x target_y) attack;
                 pulse = as_int32 (- (2 ^ 31)) (2 ^ 31 - 1) (floor32 ((vi_ray_time v * lit 88) + lit (of_nat i) * lit (67 / 100)));
                 sign = (if even pulse then lit (- 1) else lit 1);
                 violence = sign * (lit 1 - attack) * (lit (35 / 100) + hash01 index 617 * lit (55 / 100));
                 tip = fpoint_new (px tip + (- dir_y) * violence) (py tip + dir_x * violence);
                 back = lerp_point outer tip collapse;
                 dx = px tip - px back;
                 dy = py tip - py back
             in if (dx * dx + dy * dy) < lit (25 / 10000) then []
             else let retract = clamp01 (lit 1 - collapse * lit (108 / 100));
                      dissolve = clamp01 (lit 1 - (max32 (progress - lit (9 / 10)) (lit 0) / lit (1 / 10)));
                      alpha = visibility * rs_alpha frozen * lerp (lit (8 / 10)) (lit 1) attack * retract * dissolve
             in if alpha \<le> lit (1 / 100) then []
             else [StrokePath (PathLine back tip) (with_alpha white alpha) (lerp (rs_width frozen + lit (5 / 100)) (lit (55 / 100)) collapse)] @
                  (if lit (2 / 10) < attack \<and> collapse < lit (92 / 100)
                   then [FillPath (PathCircle tip (lerp (lit (12 / 100)) (lit (6 / 100)) collapse)) (with_alpha white (alpha * lit (92 / 100)))]
                   else []))"

definition draw_activation_threads :: "trig \<Rightarrow> colour \<Rightarrow> visual \<Rightarrow> f32 \<Rightarrow> f32 \<Rightarrow> draw_op list" where
  "draw_activation_threads G white v seam_y morph = concat (map (draw_thread G white v seam_y morph) [0..<RAY_COUNT])"

definition seam_y :: f32 where "seam_y = lit (1695 / 100)"

definition draw_enclosure :: "colour \<Rightarrow> colour \<Rightarrow> visual \<Rightarrow> draw_op list" where
  "draw_enclosure white ink v =
     (let w = enclosure_vertices (enclosure_morph v);
          enclosure = PathNew [MoveTo (w ! 0), LineTo (w ! 1), LineTo (w ! 2), LineTo (w ! 3), ClosePath]
      in [FillPath enclosure ink, StrokePath enclosure white (lerp (lit (16 / 10)) (lit (14 / 10)) (enclosure_morph v))])"

definition draw_lids :: "colour \<Rightarrow> colour \<Rightarrow> visual \<Rightarrow> draw_op list" where
  "draw_lids white ink v =
     (let open_lid_span = OPEN_LID_SPAN + vi_open_span_boost v;
          lid_span = lerp open_lid_span CLOSED_LID_SPAN (vi_close v);
          upper = seam_y - lid_span;
          lower = seam_y + lid_span;
          left = fpoint_new (lit (88 / 10)) seam_y;
          right = fpoint_new (lit (232 / 10)) seam_y;
          eye = PathNew [MoveTo left, QuadraticTo (fpoint_new (lit 16) upper) right,
                         QuadraticTo (fpoint_new (lit 16) lower) left, ClosePath];
          curve_span = OPEN_LID_SPAN + vi_open_span_boost v;
          upper_crease = PathNew [MoveTo (fpoint_new (lit (97 / 10)) (seam_y - curve_span * lit (6 / 10))),
            QuadraticTo (fpoint_new (lit 16) (seam_y - curve_span - lit 1)) (fpoint_new (lit (223 / 10)) (seam_y - curve_span * lit (6 / 10)))];
          lower_crease = PathNew [MoveTo (fpoint_new (lit 10) (seam_y + curve_span * lit (55 / 100))),
            QuadraticTo (fpoint_new (lit 16) (seam_y + curve_span + lit (85 / 100))) (fpoint_new (lit 22) (seam_y + curve_span * lit (55 / 100)))];
          crease_colour = with_alpha white (lerp (lit (85 / 100)) (lit 1) (vi_close v))
      in [FillPath eye ink, StrokePath eye white (lit 1), StrokePath upper_crease crease_colour (lit 1),
          StrokePath lower_crease crease_colour (lit (95 / 100))])"

definition draw_iris :: "colour \<Rightarrow> colour \<Rightarrow> visual \<Rightarrow> draw_op list" where
  "draw_iris white ink v =
     (if vi_close v < lit (65 / 100)
      then let iris_center = fpoint_new (lit 16 + vi_pupil_dx v * (lit 1 - vi_close v)) seam_y;
               iris_radius = lit (275 / 100) * (lit 1 - lit (5 / 10) * vi_close v);
               pupil_radius = (lit (108 / 100) + vi_pupil_dilation v) * (lit 1 - lit (8 / 10) * vi_close v)
           in [FillPath (PathCircle iris_center iris_radius) white, FillPath (PathCircle iris_center pupil_radius) ink,
               FillPath (PathCircle (fpoint_new (px iris_center + lit (105 / 100)) (py iris_center - lit (95 / 100)))
                 (lit (52 / 100) * (lit 1 - lit (8 / 10) * vi_close v) * (lit 1 - vi_pupil_dilation v * lit (18 / 100)))) white]
      else [])"

definition stitch_table :: "(f32 \<times> f32 \<times> f32 \<times> f32 \<times> f32) list" where
  "stitch_table =
     [(lit (101 / 10), lit (125 / 100), lit (- (15 / 100)), lit (62 / 100), lit (- (85 / 100))),
      (lit (118 / 10), lit (78 / 100), lit (10 / 100), lit (44 / 100), lit (55 / 100)),
      (lit (135 / 10), lit (108 / 100), lit (- (8 / 100)), lit (58 / 100), lit (- (35 / 100))),
      (lit (152 / 10), lit (67 / 100), lit (16 / 100), lit (40 / 100), lit (8 / 10)),
      (lit (168 / 10), lit (135 / 100), lit (- (12 / 100)), lit (66 / 100), lit (- (75 / 100))),
      (lit (185 / 10), lit (84 / 100), lit (9 / 100), lit (47 / 100), lit (5 / 10)),
      (lit (202 / 10), lit (118 / 100), lit (- (5 / 100)), lit (54 / 100), lit (- (3 / 10))),
      (lit (219 / 10), lit (73 / 100), lit (14 / 100), lit (42 / 100), lit (7 / 10))]"

definition draw_stitch :: "colour \<Rightarrow> visual \<Rightarrow> nat \<Rightarrow> draw_op" where
  "draw_stitch seam_color v index =
     (case stitch_table ! index of (x, len_variation, y_jitter, tilt, warp_profile) \<Rightarrow>
        let close = vi_close v;
            seam_center_x = lit 16 + vi_squirm_dx v * lit (6 / 10);
            seam_line_y = seam_y + vi_squirm_dy v;
            stitch_len = lerp (lit (2 / 10)) (lit (36 / 10)) close;
            center_bias = (x - seam_center_x) * lit (8 / 100);
            half = stitch_len * (len_variation + vi_squirm_warp v * lit (18 / 100) * warp_profile) * lit (5 / 10);
            y = seam_line_y + y_jitter + vi_squirm_warp v * (lit (42 / 100) * warp_profile);
            dx = tilt + center_bias * vi_squirm_warp v * lit (3 / 10);
            (start, finish) = (if even index then (fpoint_new (x - dx) (y - half), fpoint_new (x + dx) (y + half))
                               else (fpoint_new (x - dx) (y + half), fpoint_new (x + dx) (y - half)))
        in StrokePath (PathLine start finish) seam_color (lerp (lit (45 / 100)) (lit (115 / 100)) close))"

definition draw_seam :: "colour \<Rightarrow> visual \<Rightarrow> draw_op list" where
  "draw_seam white v =
     (if lit (8 / 100) < vi_close v
      then let close = vi_close v;
               seam_color = with_alpha white close;
               seam_line_y = seam_y + vi_squirm_dy v;
               seam_left = fpoint_new (lit 9 + vi_squirm_dx v * lit (35 / 100)) seam_line_y;
               seam_right = fpoint_new (lit 23 + vi_squirm_dx v * lit (35 / 100)) seam_line_y;
               thread_start = fpoint_new (lerp (lit (308 / 10)) (lit (224 / 10)) (vi_thread_snap v))
                                (lerp (lit (93 / 10)) (lit (162 / 10)) (vi_thread_snap v));
               thread_target = fpoint_new (lit (209 / 10) + vi_squirm_dx v * lit (45 / 100))
                                 (seam_line_y + lit (1 / 10) + vi_squirm_warp v * lit (15 / 100));
               stray = clamp01 ((close - lit (84 / 100)) / lit (16 / 100))
           in [StrokePath (PathLine seam_left seam_right) seam_color (lerp (lit (7 / 10)) (lit (135 / 100)) close)] @
              map (draw_stitch seam_color v) [0..<length stitch_table] @
              [StrokePath (PathLine thread_start thread_target) (with_alpha white (vi_thread_snap v)) (lit (115 / 100))] @
              (if lit 0 < stray
               then [StrokePath (PathLine (fpoint_new (lit (192 / 10) + vi_squirm_dx v * lit (12 / 100)) (lit (202 / 10) + vi_squirm_dy v * lit (2 / 10)))
                        (fpoint_new (lit (198 / 10) + vi_squirm_dx v * lit (18 / 100))
                          (lit (202 / 10) + lit (14 / 10) * stray + vi_squirm_dy v * lit (25 / 100)))) (with_alpha white stray) (lit (95 / 100))]
               else [])
      else [])"

definition draw_eye :: "trig \<Rightarrow> visual \<Rightarrow> draw_op list" where
  "draw_eye G v =
     (let alpha_scale = clamp01 (lit 1 - vi_post_fade v) in
      if alpha_scale \<le> lit (1 / 1000) then []
      else let white = with_alpha (from_rgb8 246 246 246) alpha_scale;
               ink = with_alpha (from_rgb8 10 10 10) alpha_scale;
               stitch_progress = clamp01 (vi_ray_time v / as_secs_f32 RAY_STITCH_DURATION)
           in (if \<not> vi_is_active v \<and> lit (1 / 100) < vi_ray_visibility v then draw_rays G white v (enclosure_morph v) else []) @
              draw_enclosure white ink v @ draw_lids white ink v @ draw_iris white ink v @
              (if vi_is_active v \<and> stitch_progress < lit (995 / 1000)
               then draw_activation_threads G white v seam_y (enclosure_morph v) else []) @
              draw_seam white v)"

section \<open>The widget\<close>

text \<open>The cache of a canvas: emptied, and asked for a drawing of some size, which it may have kept.\<close>

record 'c canvas_cache =
  ca_clear :: "'c \<Rightarrow> 'c"
  ca_draw :: "'c \<Rightarrow> f32 \<times> f32 \<Rightarrow> f32 \<times> draw_op list \<Rightarrow> (f32 \<times> draw_op list) \<times> 'c"

record 'c eye_state =
  es_animation :: animation
  es_cache :: 'c
  es_bootstrapped :: bool

record eye_widget =
  ew_size :: f32
  ew_active :: bool

definition eye_widget_new :: "f32 \<Rightarrow> bool \<Rightarrow> eye_widget" where
  "eye_widget_new size' active = \<lparr>ew_size = size', ew_active = active\<rparr>"

definition eye_state_default :: "nat \<Rightarrow> 'c \<Rightarrow> 'c eye_state" where
  "eye_state_default now cache = \<lparr>es_animation = animation_default now, es_cache = cache, es_bootstrapped = False\<rparr>"

datatype eye_event = RedrawRequested nat | OtherEvent
datatype redraw_request = RedrawNow | RedrawAt nat

definition eye_bootstrap :: "'c eye_state \<Rightarrow> 'c eye_state \<times> redraw_request list" where
  "eye_bootstrap s = (if es_bootstrapped s then (s, []) else (s\<lparr>es_bootstrapped := True\<rparr>, [RedrawNow]))"

definition eye_update :: "'c canvas_cache \<Rightarrow> eye_widget \<Rightarrow> eye_event \<Rightarrow> nat \<Rightarrow> 'c eye_state \<Rightarrow> 'c eye_state \<times> redraw_request list" where
  "eye_update C w event now s =
     (let (s, r1) = eye_bootstrap s;
          (changed, a) = sync_active (ew_active w) now (es_animation s);
          s = s\<lparr>es_animation := a\<rparr>;
          (s, r2) = (if changed then (s\<lparr>es_cache := ca_clear C (es_cache s)\<rparr>, [RedrawNow]) else (s, []));
          (s, r3) = (case event of
             RedrawRequested now \<Rightarrow>
               (s\<lparr>es_animation := tick now (es_animation s), es_cache := ca_clear C (es_cache s)\<rparr>, [RedrawAt (now + FRAME_DURATION)])
           | OtherEvent \<Rightarrow> (s, []))
      in (s, r1 @ r2 @ r3))"

text \<open>What is drawn at bounds, \<open>((x, y), width, height)\<close>: a translation, a scale and the operations.\<close>

definition eye_picture :: "trig \<Rightarrow> f32 \<times> f32 \<Rightarrow> animation \<Rightarrow> f32 \<times> draw_op list" where
  "eye_picture G size' a = (min32 (fst size') (snd size') / lit 32, draw_eye G (visual_of G a))"

definition eye_draw ::
  "trig \<Rightarrow> 'c canvas_cache \<Rightarrow> (f32 \<times> f32) \<times> (f32 \<times> f32) \<Rightarrow> 'c eye_state \<Rightarrow> ((f32 \<times> f32) \<times> f32 \<times> draw_op list) \<times> 'c eye_state" where
  "eye_draw G C bounds s =
     (let v = visual_of G (es_animation s);
          (geometry, cache) = ca_draw C (es_cache s) (snd bounds) (eye_picture G (snd bounds) (es_animation s))
      in (((fst (fst bounds) + vi_widget_jitter_x v, snd (fst bounds) + vi_widget_jitter_y v), geometry), s\<lparr>es_cache := cache\<rparr>))"

end
