(* ===== verification/Av_Player.thy ===== *)
theory Av_Player
  imports Av_Frames F64
begin

text \<open>
  The media player, \<^verbatim>\<open>mitb-av/src/lib.rs\<close>: choosing the tracks of a file, the header of an Opus stream,
  interleaving samples, the clock that paces the frames, draining the video decoder, and the worker's
  loop. The demultiplexer, the decoders and the audio device are parameters: what they answer.
\<close>

section \<open>Tracks\<close>

definition DEFAULT_FRAME_DURATION_NS :: nat where "DEFAULT_FRAME_DURATION_NS = 33333333"
definition DEFAULT_AUDIO_SAMPLE_RATE :: nat where "DEFAULT_AUDIO_SAMPLE_RATE = 48000"

record opus_head =
  oh_channels :: nat
  oh_pre_skip :: nat
  oh_sample_rate :: nat
  oh_mapping_family :: nat

text \<open>\<^verbatim>\<open>from_le_bytes\<close>.\<close>

fun nat_of_le :: "byte list \<Rightarrow> nat" where
  "nat_of_le [] = 0"
| "nat_of_le (b # bs) = unat b + 256 * nat_of_le bs"

definition parse_opus_head :: "byte list option \<Rightarrow> opus_head option" where
  "parse_opus_head codec_private =
     (case codec_private of
        None \<Rightarrow> None
      | Some bs \<Rightarrow>
          if length bs < 19 \<or> take 8 bs \<noteq> as_bytes ''OpusHead'' then None
          else Some \<lparr>oh_channels = unat (bs ! 9), oh_pre_skip = nat_of_le [bs ! 10, bs ! 11],
                 oh_sample_rate = nat_of_le [bs ! 12, bs ! 13, bs ! 14, bs ! 15], oh_mapping_family = unat (bs ! 18)\<rparr>)"

text \<open>\<^verbatim>\<open>f64 as u32\<close>: towards zero, saturating, and 0 for a NaN.\<close>

fun f64_as_u32 :: "f64 \<Rightarrow> nat" where
  "f64_as_u32 (Fin x) = (if x \<le> 0 then 0 else min (nat \<lfloor>x\<rfloor>) 4294967295)"
| "f64_as_u32 PInf = 4294967295"
| "f64_as_u32 NInf = 0"
| "f64_as_u32 NaN = 0"

record audio_entry =
  ae_channels :: nat
  ae_sampling_frequency :: f64
  ae_output_sampling_frequency :: "f64 option"

datatype track_type = TrackVideo | TrackAudio | TrackOther

record track_entry =
  te_number :: nat
  te_type :: track_type
  te_codec_id :: string
  te_default_duration :: "nat option"
  te_audio :: "audio_entry option"
  te_codec_private :: "byte list option"

record audio_track =
  at_track :: nat
  at_channels :: nat
  at_sample_rate :: nat
  at_pre_skip :: nat

definition parse_audio_track :: "track_entry \<Rightarrow> audio_track option" where
  "parse_audio_track track =
     (case te_audio track of
        None \<Rightarrow> None
      | Some audio \<Rightarrow>
          let rate = f64_as_u32 (case ae_output_sampling_frequency audio of Some r \<Rightarrow> r | None \<Rightarrow> ae_sampling_frequency audio);
              opus = parse_opus_head (te_codec_private track);
              channels = (case opus of Some h \<Rightarrow> max (oh_channels h) 1 | None \<Rightarrow> ae_channels audio);
              pre_skip = (case opus of Some h \<Rightarrow> oh_pre_skip h | None \<Rightarrow> 0);
              rate = (case opus of Some h \<Rightarrow> if oh_sample_rate h > 0 then oh_sample_rate h else rate | None \<Rightarrow> rate)
          in if (case opus of Some h \<Rightarrow> oh_mapping_family h \<noteq> 0 \<and> channels > 2 | None \<Rightarrow> False) then None
             else if channels = 0 \<or> channels > 2 then None
             else Some \<lparr>at_track = te_number track, at_channels = channels,
                    at_sample_rate = max rate DEFAULT_AUDIO_SAMPLE_RATE, at_pre_skip = pre_skip\<rparr>)"

record selected_tracks =
  sl_timestamp_scale_ns :: nat
  sl_video_track :: nat
  sl_video_default_duration_ns :: "nat option"
  sl_audio :: "audio_track option"

text \<open>The loop over the tracks: the first video track, and the first usable audio track.\<close>

fun select_loop_tracks :: "track_entry list \<Rightarrow> (nat \<times> nat option) option \<Rightarrow> audio_track option \<Rightarrow>
    (nat \<times> nat option) option \<times> audio_track option" where
  "select_loop_tracks [] video audio = (video, audio)"
| "select_loop_tracks (t # ts) video audio =
     (if te_type t = TrackVideo \<and> te_codec_id t = ''V_AV1''
      then select_loop_tracks ts (if video = None then Some (te_number t, te_default_duration t) else video) audio
      else if te_type t = TrackAudio \<and> te_codec_id t = ''A_OPUS''
      then select_loop_tracks ts video (if audio = None then parse_audio_track t else audio)
      else select_loop_tracks ts video audio)"

datatype av_error =
    AvMissingHome string
  | AvOpenMedia string string
  | AvDemux string
  | AvMissingVideoTrack
  | AvVideoDecoder string
  | AvAudioDecoder string
  | AvAudioChannels nat
  | AvAudioSampleRate nat
  | AvAudioOutput string

definition select_tracks :: "nat \<Rightarrow> track_entry list \<Rightarrow> av_error + selected_tracks" where
  "select_tracks timestamp_scale_ns ts =
     (case select_loop_tracks ts None None of
        (None, _) \<Rightarrow> Err AvMissingVideoTrack
      | (Some (video, duration), audio) \<Rightarrow>
          Ok \<lparr>sl_timestamp_scale_ns = timestamp_scale_ns, sl_video_track = video, sl_video_default_duration_ns = duration,
              sl_audio = audio\<rparr>)"

definition default_media_path :: "string + string \<Rightarrow> av_error + string" where
  "default_media_path home = map_sum AvMissingHome (\<lambda>h. h @ ''/.mitb/mitb.mkv'') home"

section \<open>Samples\<close>

text \<open>\<^verbatim>\<open>decode_packet\<close>: the decoder's samples alternate between the channels; each channel gets its own.\<close>

definition deinterleave :: "nat \<Rightarrow> nat \<Rightarrow> 'a list \<Rightarrow> 'a list list" where
  "deinterleave channels samples scratch = map (\<lambda>c. map (\<lambda>i. scratch ! (i * channels + c)) [0..<samples]) [0..<channels]"

text \<open>\<^verbatim>\<open>interleave_audio_buffer\<close>: \<open>frames\<close> samples in each channel, of which the first are skipped until the
  skip is used up. \<open>zero\<close> stands where a channel has no sample.\<close>

definition interleave_audio_buffer ::
  "'a \<Rightarrow> nat \<Rightarrow> nat \<Rightarrow> 'a list list \<Rightarrow> nat \<Rightarrow> 'a list \<times> nat" where
  "interleave_audio_buffer zero frames channels buffer remaining =
     (if frames = 0 then ([], remaining)
      else let skip = min remaining frames; remaining = remaining - skip in
           if skip \<ge> frames then ([], remaining)
           else (concat (map (\<lambda>f. map (\<lambda>c. if f < length (buffer ! c) then buffer ! c ! f else zero) [0..<channels]) [skip..<frames]),
                 remaining))"

definition audio_output_new :: "nat \<Rightarrow> nat \<Rightarrow> string + unit \<Rightarrow> av_error + nat \<times> nat" where
  "audio_output_new channels sample_rate device =
     (if channels mod 2 ^ 16 = 0 then Err (AvAudioChannels channels)
      else if sample_rate = 0 then Err (AvAudioSampleRate sample_rate)
      else map_sum AvAudioOutput (\<lambda>_. (channels mod 2 ^ 16, sample_rate)) device)"

section \<open>The clock\<close>

record playback_clock =
  pk_start :: instant
  pk_base_timestamp_ns :: "nat option"
  pk_synthetic_timestamp_ns :: nat

definition playback_clock_new :: "instant \<Rightarrow> playback_clock" where
  "playback_clock_new now = \<lparr>pk_start = now, pk_base_timestamp_ns = None, pk_synthetic_timestamp_ns = 0\<rparr>"

text \<open>\<^verbatim>\<open>wait_until\<close> at the instant \<open>now\<close>: how long it sleeps.\<close>

definition wait_until :: "nat option \<Rightarrow> nat \<Rightarrow> instant \<Rightarrow> playback_clock \<Rightarrow> duration \<times> playback_clock" where
  "wait_until timestamp frame_duration now k =
     (let target = (case timestamp of
            Some ts \<Rightarrow> ts
          | None \<Rightarrow> sat_add (pk_synthetic_timestamp_ns k) (max frame_duration 1));
          k = k\<lparr>pk_synthetic_timestamp_ns := target\<rparr>
      in case pk_base_timestamp_ns k of
           None \<Rightarrow> (0, k\<lparr>pk_base_timestamp_ns := Some target\<rparr>)
         | Some base \<Rightarrow> (pk_start k + (target - base) - now, k))"

definition i64_max :: nat where "i64_max = 9223372036854775807"

definition timestamp_ns_to_i64 :: "nat \<Rightarrow> int" where
  "timestamp_ns_to_i64 value = (if value > i64_max then int i64_max else int value)"

section \<open>Frames\<close>

datatype av_sent = SentFrame yuv | SentEnded | SentError string

text \<open>What asking the decoder for a picture answers; a picture comes with its duration and timestamp.\<close>

datatype got_picture = PictureAgain | PictureError string | GotPicture picture int "int option"

text \<open>\<^verbatim>\<open>drain_video_decoder\<close> over the answers of the decoder and the instants at which it is asked; \<open>open\<close>
  says for each frame whether the receiver was still there. The result is that of the call, if it
  has returned, with the frames sent and the instants at which they were.\<close>

fun drain_video_decoder ::
  "nat \<Rightarrow> (got_picture \<times> instant \<times> bool) list \<Rightarrow> playback_clock \<Rightarrow>
     (av_error + unit) option \<times> (yuv \<times> instant) list \<times> playback_clock" where
  "drain_video_decoder default_duration [] k = (None, [], k)"
| "drain_video_decoder default_duration ((PictureAgain, _) # gs) k = (Some (Ok ()), [], k)"
| "drain_video_decoder default_duration ((PictureError e, _) # gs) k = (Some (Err (AvVideoDecoder e)), [], k)"
| "drain_video_decoder default_duration ((GotPicture p d ts, now, still_open) # gs) k =
     (let frame_duration = (if d > 0 then nat d else default_duration);
          timestamp = (case ts of Some t \<Rightarrow> if t \<ge> 0 then Some (nat t) else None | None \<Rightarrow> None);
          (sleep, k) = wait_until timestamp frame_duration now k
      in case picture_to_yuv p of
           None \<Rightarrow> drain_video_decoder default_duration gs k
         | Some f \<Rightarrow>
             if \<not> still_open then (Some (Ok ()), [], k)
             else case drain_video_decoder default_duration gs k of
                    (res, sent, k) \<Rightarrow> (res, (f, now + sleep) # sent, k))"

text \<open>The duration a packet is submitted with.\<close>

definition packet_times :: "selected_tracks \<Rightarrow> nat \<Rightarrow> nat option \<Rightarrow> nat \<times> nat" where
  "packet_times tracks timestamp duration =
     (min (timestamp * sl_timestamp_scale_ns tracks) u64_max,
      case duration of
        Some d \<Rightarrow> min (d * sl_timestamp_scale_ns tracks) u64_max
      | None \<Rightarrow> (case sl_video_default_duration_ns tracks of Some d \<Rightarrow> d | None \<Rightarrow> DEFAULT_FRAME_DURATION_NS))"

text \<open>\<^verbatim>\<open>run_worker\<close>: the results of playing the file, each with whether the receiver is gone afterwards.\<close>

fun worker_loop :: "((string + unit) \<times> bool) list \<Rightarrow> av_sent list \<Rightarrow> bool \<times> av_sent list" where
  "worker_loop [] sent = (False, sent)"
| "worker_loop ((Inr _, receiver_gone) # rs) sent =
     (if receiver_gone then (True, sent @ [SentEnded]) else worker_loop rs sent)"
| "worker_loop ((Inl e, receiver_gone) # rs) sent =
     (if receiver_gone then (True, sent @ [SentError e, SentEnded]) else worker_loop rs (sent @ [SentError e]))"

definition run_worker :: "bool \<Rightarrow> ((string + unit) \<times> bool) list \<Rightarrow> bool \<times> av_sent list" where
  "run_worker media_exists plays = (if \<not> media_exists then (True, [SentEnded]) else worker_loop plays [])"


section \<open>The skip at the start of a stream\<close>

definition interleaved :: "'a \<Rightarrow> nat \<Rightarrow> nat \<Rightarrow> 'a list list \<Rightarrow> 'a list" where
  "interleaved zero channels frames buffer =
     concat (map (\<lambda>f. map (\<lambda>c. if f < length (buffer ! c) then buffer ! c ! f else zero) [0..<channels]) [0..<frames])"

lemma length_interleaved: "length (interleaved zero channels frames buffer) = frames * channels"
  by (simp add: interleaved_def length_concat comp_def sum_list_triv)

lemma interleave_is_drop:
  "interleave_audio_buffer zero frames channels buffer remaining =
     (drop (min remaining frames * channels) (interleaved zero channels frames buffer), remaining - min remaining frames)"
proof -
  let ?row = "\<lambda>f. map (\<lambda>c. if f < length (buffer ! c) then buffer ! c ! f else zero) [0..<channels]"
  have drop_rows: "drop (k * channels) (concat (map ?row [0..<frames])) = concat (map ?row [k..<frames])" if "k \<le> frames" for k
  proof -
    have "[0..<frames] = [0..<k] @ [k..<frames]" using that by (metis le_add_diff_inverse upt_add_eq_append zero_le)
    moreover have "length (concat (map ?row [0..<k])) = k * channels" by (simp add: length_concat comp_def sum_list_triv)
    ultimately show ?thesis by simp
  qed
  show ?thesis
  proof (cases "frames \<le> remaining")
    case True
    then have "drop (min remaining frames * channels) (interleaved zero channels frames buffer) = []"
      by (simp add: length_interleaved min_absorb2)
    with True show ?thesis by (auto simp: interleave_audio_buffer_def Let_def)
  next
    case False
    then show ?thesis
      using drop_rows [of remaining] by (simp add: interleave_audio_buffer_def interleaved_def Let_def)
  qed
qed

text \<open>All packets of a stream.\<close>

fun interleave_packets :: "'a \<Rightarrow> nat \<Rightarrow> (nat \<times> 'a list list) list \<Rightarrow> nat \<Rightarrow> 'a list" where
  "interleave_packets zero channels [] remaining = []"
| "interleave_packets zero channels ((frames, buffer) # ps) remaining =
     (case interleave_audio_buffer zero frames channels buffer remaining of
        (samples, remaining) \<Rightarrow> samples @ interleave_packets zero channels ps remaining)"

text \<open>The skip of the stream's header is exactly the beginning of what is played: however the samples are
  cut into packets, all of them in order come out, but for the first frames that are to be skipped.\<close>

theorem pre_skip_is_dropped:
  "interleave_packets zero channels packets pre_skip =
     drop (pre_skip * channels) (concat (map (\<lambda>(frames, buffer). interleaved zero channels frames buffer) packets))"
proof (induction packets arbitrary: pre_skip)
  case (Cons p ps)
  obtain frames buffer where p: "p = (frames, buffer)" by fastforce
  have "pre_skip * channels - frames * channels = (pre_skip - min pre_skip frames) * channels"
    by (cases "pre_skip \<le> frames") (simp_all add: diff_mult_distrib min_absorb2)
  moreover have "drop (min pre_skip frames * channels) (interleaved zero channels frames buffer) =
      drop (pre_skip * channels) (interleaved zero channels frames buffer)"
    by (cases "pre_skip \<le> frames") (simp_all add: length_interleaved min_absorb2)
  ultimately show ?case by (simp add: p interleave_is_drop Cons.IH length_interleaved)
qed simp

section \<open>Pacing\<close>

text \<open>A sequence of frames with their timestamps, durations, and the instants at which they are ready:
  when each is let through, and the times the clock gives them.\<close>

fun paced :: "(nat option \<times> nat \<times> instant) list \<Rightarrow> playback_clock \<Rightarrow> instant list" where
  "paced [] k = []"
| "paced ((ts, duration, now) # fs) k =
     (case wait_until ts duration now k of (sleep, k) \<Rightarrow> (now + sleep) # paced fs k)"

fun frame_times :: "(nat option \<times> nat \<times> instant) list \<Rightarrow> nat \<Rightarrow> nat list" where
  "frame_times [] synthetic = []"
| "frame_times ((ts, duration, now) # fs) synthetic =
     (let target = (case ts of Some t \<Rightarrow> t | None \<Rightarrow> sat_add synthetic (max duration 1)) in target # frame_times fs target)"

lemma paced_from:
  "pk_base_timestamp_ns k = Some base \<Longrightarrow>
     paced fs k = map2 (\<lambda>(ts, duration, now) target. max now (pk_start k + (target - base))) fs (frame_times fs (pk_synthetic_timestamp_ns k))"
  by (induction fs arbitrary: k) (auto simp: wait_until_def Let_def max_def)

text \<open>Frames are paced by their timestamps: the first is let through at once; every other one when it is
  ready and as much time has passed since the start as lies between it and the first. No frame is
  shown early, and a late one waits for nothing.\<close>

theorem frames_are_paced:
  "paced ((ts, duration, now) # fs) (playback_clock_new start) =
     now # map2 (\<lambda>(_, _, ready) target. max ready (start + (target - hd (frame_times ((ts, duration, now) # fs) 0)))) fs
       (tl (frame_times ((ts, duration, now) # fs) 0))"
  by (cases ts) (simp_all add: playback_clock_new_def wait_until_def Let_def paced_from)

end
