(* ===== verification/Box_View.thy ===== *)
theory Box_View
  imports Box_App Eye_Draw Av_Player
begin

text \<open>
  What the window shows, \<^verbatim>\<open>App::view\<close> of \<^verbatim>\<open>mitb-box/src/lib.rs\<close>: the tree of widgets handed to the graphics library, with
  the texts, fonts and colours of the terminal's lines, the status, the overlay of the media player and the eye at
  the cursor. Positions are pairs of single precision numbers.
\<close>

section \<open>Widgets\<close>

definition TERMINAL_FONT_SIZE :: f32 where "TERMINAL_FONT_SIZE = lit 14"
definition TERMINAL_LINE_HEIGHT :: f32 where "TERMINAL_LINE_HEIGHT = lit 1"
definition STATUS_FONT_SIZE :: f32 where "STATUS_FONT_SIZE = lit 12"
definition EYE_CURSOR_SIZE :: f32 where "EYE_CURSOR_SIZE = lit 48"
definition EYE_CURSOR_HOTSPOT :: "f32 \<times> f32" where "EYE_CURSOR_HOTSPOT = (lit 24, lit 24)"

type_synonym point = "f32 \<times> f32"

datatype wrapping = WrapNone | WrapWord

text \<open>The monospace font in a weight and a style.\<close>

record font =
  fo_bold :: bool
  fo_italic :: bool

text \<open>A text, of characters of the terminal or of the status; without a colour it has the theme's.\<close>

record text_widget =
  wt_text :: "uchar list + string"
  wt_color :: "color option"
  wt_size :: f32
  wt_line_height :: f32
  wt_wrapping :: wrapping
  wt_font :: font

text \<open>What a mouse area sends: on entering, on a move and on leaving, and whether it hides the pointer.\<close>

record 'k mouse_handlers =
  mh_on_enter :: "('k, point) app_message option"
  mh_on_move :: "(point \<Rightarrow> ('k, point) app_message) option"
  mh_on_exit :: "('k, point) app_message option"
  mh_hidden :: bool

datatype 'k element =
    TextW text_widget
  | Background color "'k element"
  | RowW "'k element list"
  | ColumnW nat nat "'k element list"
  | ScrollableFill "'k element"
  | ContainerFill "'k element"
  | MouseArea "'k mouse_handlers" "'k element"
  | StackFill "'k element list"
  | ShaderFill overlay
  | FloatW eye_widget "point \<Rightarrow> point"

section \<open>The source of the overlay\<close>

text \<open>\<^verbatim>\<open>State::new\<close> of \<^verbatim>\<open>av.rs\<close>: the file a worker is started for, unless one was started before; there is no overlay yet.\<close>

definition av_state_new :: "bool \<Rightarrow> av_error + string \<Rightarrow> (string \<Rightarrow> bool) \<Rightarrow> string option \<times> overlay option" where
  "av_state_new receiver_set media_path media_exists =
     (if receiver_set then (None, None)
      else case media_path of
             Inl e \<Rightarrow> (None, None)
           | Inr path \<Rightarrow> if media_exists path then (Some path, None) else (None, None))"

text \<open>\<^verbatim>\<open>av_event_stream\<close>: the messages of the events that arrive, until the channel closes; none without a receiver.\<close>

fun av_event_of :: "av_sent \<Rightarrow> av_event" where
  "av_event_of (SentFrame f) = AvVideoFrame f"
| "av_event_of SentEnded = AvPlaybackEnded"
| "av_event_of (SentError e) = AvPlaybackError e"

definition av_subscription :: "bool \<Rightarrow> av_sent list \<Rightarrow> av_message list" where
  "av_subscription receiver_set events = (if receiver_set then map (\<lambda>e. av_message_of (av_event_of e)) events else [])"

fun sent_frames :: "av_sent list \<Rightarrow> yuv list" where
  "sent_frames [] = []"
| "sent_frames (SentFrame f # es) = f # sent_frames es"
| "sent_frames (_ # es) = sent_frames es"

lemma sent_frames_append: "sent_frames (xs @ ys) = sent_frames xs @ sent_frames ys"
  by (induction xs rule: sent_frames.induct) auto

text \<open>What the overlay holds after the worker's events: the last frame, in the size and format of the first.\<close>

lemma overlay_of_worker:
  "fold av_update (av_subscription True events) None =
     (case sent_frames events of [] \<Rightarrow> None
      | f # fs \<Rightarrow> Some ((overlay_new f)\<lparr>ov_data := Some (renderable_from (last (f # fs)))\<rparr>))"
proof (induction events rule: rev_induct)
  case (snoc e events)
  then show ?case
    by (cases e; cases "sent_frames events")
      (auto simp: av_subscription_def sent_frames_append update_frame_def overlay_new_def Let_def)
qed (simp add: av_subscription_def)

section \<open>The view\<close>

definition span_font :: "span \<Rightarrow> font" where
  "span_font sp = \<lparr>fo_bold = sp_bold sp, fo_italic = sp_italic sp\<rparr>"

definition view_span :: "span \<Rightarrow> 'k element" where
  "view_span sp =
     (let text_widget' = TextW \<lparr>wt_text = Inl (sp_text sp), wt_color = Some (sp_fg sp), wt_size = TERMINAL_FONT_SIZE,
            wt_line_height = TERMINAL_LINE_HEIGHT, wt_wrapping = WrapNone, wt_font = span_font sp\<rparr>
      in case sp_bg sp of Some bg_color \<Rightarrow> Background bg_color text_widget' | None \<Rightarrow> text_widget')"

definition view_line :: "line \<Rightarrow> 'k element" where
  "view_line l = RowW (map view_span l)"

definition view_terminal :: "('p, 'k, point) box_app \<Rightarrow> 'k element" where
  "view_terminal a =
     MouseArea \<lparr>mh_on_enter = Some (MsgHoverChanged True), mh_on_move = None, mh_on_exit = Some (MsgHoverChanged False),
                mh_hidden = True\<rparr>
       (ScrollableFill (ColumnW 0 0 (map view_line (lines (snd (ap_terminal a))))))"

definition view_status :: "string \<Rightarrow> 'k element" where
  "view_status status =
     TextW \<lparr>wt_text = Inr status, wt_color = None, wt_size = STATUS_FONT_SIZE, wt_line_height = TERMINAL_LINE_HEIGHT,
            wt_wrapping = WrapWord, wt_font = \<lparr>fo_bold = False, fo_italic = False\<rparr>\<rparr>"

text \<open>The columns have the given spacing and padding.\<close>

definition view_content :: "('p, 'k, point) box_app \<Rightarrow> 'k element" where
  "view_content a =
     (let content = (case ap_status a of
            Some status \<Rightarrow> ColumnW 8 10 [view_terminal a, view_status status]
          | None \<Rightarrow> ColumnW 0 10 [view_terminal a])
      in MouseArea \<lparr>mh_on_enter = None, mh_on_move = Some MsgCursorMoved, mh_on_exit = Some MsgCursorLeft, mh_hidden = False\<rparr>
           (ContainerFill content))"

definition overlay_view :: "overlay option \<Rightarrow> 'k element option" where
  "overlay_view program = map_option ShaderFill program"

definition eye_translation :: "point \<Rightarrow> point \<Rightarrow> point" where
  "eye_translation position bounds =
     (fst position - fst EYE_CURSOR_HOTSPOT - fst bounds, snd position - snd EYE_CURSOR_HOTSPOT - snd bounds)"

definition app_view :: "('p, 'k, point) box_app \<Rightarrow> 'k element" where
  "app_view a =
     (let layered = StackFill (view_content a # (case overlay_view (ap_av a) of Some overlay \<Rightarrow> [overlay] | None \<Rightarrow> []))
      in case (if ap_hovered a then ap_cursor_position a else None) of
           Some position \<Rightarrow>
             let eye_active = (ap_left_mouse_down a \<or> ap_pressed_keys a \<noteq> {})
             in StackFill [layered, FloatW (eye_widget_new EYE_CURSOR_SIZE eye_active) (eye_translation position)]
         | None \<Rightarrow> layered)"

section \<open>Reading the tree\<close>

text \<open>The characters in view, row by row, each with its style; a text without a colour is no text of the terminal.\<close>

fun shown_chars :: "color option \<Rightarrow> 'k element \<Rightarrow> (uchar \<times> style) list" where
  "shown_chars bg (TextW t) =
     (case (wt_text t, wt_color t) of
        (Inl cs, Some fg) \<Rightarrow>
          map (\<lambda>ch. (ch, \<lparr>s_fg = fg, s_bg = bg, s_bold = fo_bold (wt_font t), s_italic = fo_italic (wt_font t)\<rparr>)) cs
      | _ \<Rightarrow> [])"
| "shown_chars bg (Background c e) = shown_chars (Some c) e"
| "shown_chars bg _ = []"

fun shown_rows :: "'k element \<Rightarrow> (uchar \<times> style) list list" where
  "shown_rows (RowW es) = [concat (map (shown_chars None) es)]"
| "shown_rows (ColumnW _ _ es) = concat (map shown_rows es)"
| "shown_rows (ScrollableFill e) = shown_rows e"
| "shown_rows (ContainerFill e) = shown_rows e"
| "shown_rows (MouseArea _ e) = shown_rows e"
| "shown_rows (StackFill es) = concat (map shown_rows es)"
| "shown_rows _ = []"

fun shown_notes :: "'k element \<Rightarrow> string list" where
  "shown_notes (TextW t) = (case wt_text t of Inr s \<Rightarrow> [s] | Inl _ \<Rightarrow> [])"
| "shown_notes (Background _ e) = shown_notes e"
| "shown_notes (RowW es) = concat (map shown_notes es)"
| "shown_notes (ColumnW _ _ es) = concat (map shown_notes es)"
| "shown_notes (ScrollableFill e) = shown_notes e"
| "shown_notes (ContainerFill e) = shown_notes e"
| "shown_notes (MouseArea _ e) = shown_notes e"
| "shown_notes (StackFill es) = concat (map shown_notes es)"
| "shown_notes _ = []"

fun shown_eyes :: "'k element \<Rightarrow> (eye_widget \<times> (point \<Rightarrow> point)) list" where
  "shown_eyes (FloatW w f) = [(w, f)]"
| "shown_eyes (Background _ e) = shown_eyes e"
| "shown_eyes (RowW es) = concat (map shown_eyes es)"
| "shown_eyes (ColumnW _ _ es) = concat (map shown_eyes es)"
| "shown_eyes (ScrollableFill e) = shown_eyes e"
| "shown_eyes (ContainerFill e) = shown_eyes e"
| "shown_eyes (MouseArea _ e) = shown_eyes e"
| "shown_eyes (StackFill es) = concat (map shown_eyes es)"
| "shown_eyes _ = []"

lemma shown_chars_span: "shown_chars None (view_span sp) = map (\<lambda>ch. (ch, span_style sp)) (sp_text sp)"
  by (cases "sp_bg sp") (simp_all add: view_span_def span_font_def span_style_def)

lemma shown_rows_line: "shown_rows (view_line l) = [styled l]"
  by (simp add: view_line_def styled_def shown_chars_span comp_def)

lemma no_notes: "shown_notes (view_line l) = []" "shown_eyes (view_line l) = []"
  by (induction l) (auto simp: view_line_def view_span_def Let_def split: option.splits)

lemma shown_terminal:
  "shown_rows (view_terminal a) = map styled (lines (snd (ap_terminal a)))"
  "shown_notes (view_terminal a) = []" "shown_eyes (view_terminal a) = []"
  by (simp_all add: view_terminal_def shown_rows_line no_notes comp_def)

lemma styled_lines: "map styled (lines t) = map styled_cells (t_buffer t)"
  using lines_show_the_cells [of t] by (auto simp: list_all2_conv_all_nth intro!: nth_equalityI)

lemma shown_content:
  "shown_rows (view_content a) = map styled_cells (t_buffer (snd (ap_terminal a)))"
  "shown_notes (view_content a) = opt_list (ap_status a)" "shown_eyes (view_content a) = []"
  by (auto simp: view_content_def Let_def shown_terminal styled_lines view_status_def opt_list_def split: option.splits)

lemma shown_view:
  "shown_rows (app_view a) = map styled_cells (t_buffer (snd (ap_terminal a)))"
  "shown_notes (app_view a) = opt_list (ap_status a)"
  "shown_eyes (app_view a) = (case eye_shown a of None \<Rightarrow> []
     | Some (c, active) \<Rightarrow> [(eye_widget_new EYE_CURSOR_SIZE active, eye_translation c)])"
  by (auto simp: app_view_def Let_def shown_content overlay_view_def eye_shown_def split: option.splits)

section \<open>What was heard\<close>

text \<open>The messages from elsewhere than the host, and whether one of some kind came after which none of another did.\<close>

fun heard :: "('k, 'c) box_action list \<Rightarrow> ('k, 'c) app_message list" where
  "heard [] = []"
| "heard (OtherMessage m # acts) = (if is_host_message m then heard acts else m # heard acts)"
| "heard (_ # acts) = heard acts"

lemma heard_append: "heard (xs @ ys) = heard xs @ heard ys"
  by (induction xs rule: heard.induct) auto

definition since_last :: "('m \<Rightarrow> bool) \<Rightarrow> ('m \<Rightarrow> bool) \<Rightarrow> 'm list \<Rightarrow> bool" where
  "since_last on off hs \<longleftrightarrow> (\<exists>xs m ys. hs = xs @ m # ys \<and> on m \<and> (\<forall>y \<in> set ys. \<not> off y))"

lemma since_last_Nil [simp]: "\<not> since_last on off []"
  by (simp add: since_last_def)

lemma since_last_snoc [simp]: "since_last on off (hs @ [m]) \<longleftrightarrow> on m \<or> since_last on off hs \<and> \<not> off m"
proof
  assume "since_last on off (hs @ [m])"
  then obtain xs x ys where s: "hs @ [m] = xs @ x # ys" "on x" "\<forall>y \<in> set ys. \<not> off y" by (auto simp: since_last_def)
  show "on m \<or> since_last on off hs \<and> \<not> off m"
  proof (cases ys rule: rev_cases)
    case Nil
    with s show ?thesis by simp
  next
    case (snoc zs z)
    then have "hs = xs @ x # zs" "z = m" using s(1) by simp_all
    with s(2,3) snoc show ?thesis by (auto simp: since_last_def)
  qed
next
  assume "on m \<or> since_last on off hs \<and> \<not> off m"
  then show "since_last on off (hs @ [m])"
  proof
    assume "on m"
    then show ?thesis unfolding since_last_def by (intro exI [of _ hs] exI [of _ m] exI [of _ "[]"]) simp
  next
    assume "since_last on off hs \<and> \<not> off m"
    then obtain xs x ys where "hs = xs @ x # ys" "on x" "\<forall>y \<in> set ys. \<not> off y" "\<not> off m" by (auto simp: since_last_def)
    then show ?thesis unfolding since_last_def by (intro exI [of _ xs] exI [of _ x] exI [of _ "ys @ [m]"]) auto
  qed
qed

definition key_held :: "'k \<Rightarrow> ('k, 'c) app_message list \<Rightarrow> bool" where
  "key_held k = since_last (\<lambda>m. m = MsgInput (KeyPressed k)) (\<lambda>m. m = MsgInput (KeyReleased k))"

definition button_held :: "('k, 'c) app_message list \<Rightarrow> bool" where
  "button_held = since_last (\<lambda>m. m = MsgInput LeftMousePressed) (\<lambda>m. m = MsgInput LeftMouseReleased)"

definition cursor_at :: "'c \<Rightarrow> ('k, 'c) app_message list \<Rightarrow> bool" where
  "cursor_at c = since_last (\<lambda>m. m = MsgCursorMoved c) (\<lambda>m. m = MsgCursorLeft \<or> (\<exists>c. m = MsgCursorMoved c))"

definition over_terminal :: "('k, 'c) app_message list \<Rightarrow> bool" where
  "over_terminal = since_last (\<lambda>m. m = MsgHoverChanged True) (\<lambda>m. m = MsgHoverChanged False \<or> m = MsgCursorLeft)"

lemmas heard_defs = key_held_def button_held_def cursor_at_def over_terminal_def

definition input_ok :: "('p, 'k, 'c) box_app \<Rightarrow> ('k, 'c) app_message list \<Rightarrow> bool" where
  "input_ok a hs \<longleftrightarrow> ap_pressed_keys a = {k. key_held k hs} \<and> ap_left_mouse_down a = button_held hs \<and>
     (\<forall>c. ap_cursor_position a = Some c \<longleftrightarrow> cursor_at c hs) \<and> ap_hovered a = over_terminal hs"

lemma input_ok_new: "input_ok (app_new p) []"
  by (simp add: input_ok_def app_new_def heard_defs)

lemma update_host_input:
  "app_update W parser (MsgHostEvent e) a = Some (a', t) \<Longrightarrow> input_ok a hs \<Longrightarrow> input_ok a' hs"
  by (cases e) (auto simp: input_ok_def)

lemma update_other_input:
  assumes "app_update W parser m a = Some (a', t)" and "\<not> is_host_message m" and "input_ok a hs"
  shows "input_ok a' (hs @ [m])"
proof (cases m)
  case (MsgInput i)
  with assms show ?thesis by (cases i) (auto simp: input_ok_def heard_defs)
qed (use assms in \<open>auto simp: input_ok_def heard_defs\<close>)

lemma box_act_input:
  assumes "box_act W parser a w = Some w'" and "\<not> bw_exit w'" and "bw_exit w \<or> input_ok (bw_app w) (heard acts)"
  shows "\<not> bw_exit w \<and> input_ok (bw_app w') (heard (acts @ [a]))"
proof (cases a)
  case StreamYields
  with assms show ?thesis
    by (auto simp: heard_append box_deliver_def split: if_splits option.splits prod.splits intro: update_host_input)
next
  case (OtherMessage m)
  with assms update_other_input [of W parser m "bw_app w" _ _ "heard acts"] show ?thesis
    by (auto simp: heard_append box_deliver_def split: if_splits)
qed (use assms in \<open>auto simp: heard_append split: if_splits\<close>)

lemma box_run_input:
  "each (box_act W parser) acts (box_start p0) = Some w \<Longrightarrow> \<not> bw_exit w \<Longrightarrow> input_ok (bw_app w) (heard acts)"
proof (induction acts arbitrary: w rule: rev_induct)
  case Nil
  then show ?case by (auto simp: each.simps box_start_def input_ok_new)
next
  case (snoc a acts)
  then obtain w0 where w0: "each (box_act W parser) acts (box_start p0) = Some w0" "box_act W parser a w0 = Some w"
    by (auto simp: each_append each.simps split: option.splits)
  from box_act_input [OF w0(2) snoc.prems(2)] snoc.IH [OF w0(1)] show ?case by blast
qed

text \<open>C11. 
  C0. The window shows what the host sent and where the user is. However the host's events, the merging stream and other
  messages interleave, no update panics; the events handled and those that wait are what the host sent, but
  for a disconnection made up when the host goes away; the view has, row by row, the characters and
  styles of the screen that the handled output makes, fed at once, and the last announced end as its only
  note. Until an end was announced there is an eye exactly if the pointer was last seen in the window and
  over the terminal, at the place where it was last seen, and it is active exactly while the left button or some key is held.
\<close>

theorem view_follows_host_and_user:
  fixes acts :: "('k, point) box_action list"
  assumes "width_law W" and "incremental parser"
  shows "\<exists>(w :: ('p, 'k, point) box_world) shown late pt. each (box_act W parser) acts (box_start p0) = Some w \<and>
    host_trace (shown @ opt_list (bw_pending w) @ bw_queue w) = host_trace (host_sent acts) @ late_end late \<and>
    feed W parser (output_of shown) (p0, terminal_new TERMINAL_COLS TERMINAL_ROWS) = Some pt \<and>
    shown_rows (app_view (bw_app w)) = map styled_cells (t_buffer (snd pt)) \<and>
    shown_notes (app_view (bw_app w)) = opt_list (fold status_of shown None) \<and>
    bw_exit w = (\<exists>e \<in> set shown. \<not> is_output e) \<and>
    (\<not> bw_exit w \<longrightarrow> (\<forall>eyes. shown_eyes (app_view (bw_app w)) = eyes \<longleftrightarrow>
       (if over_terminal (heard acts) \<and> (\<exists>c. cursor_at c (heard acts))
        then \<exists>c. cursor_at c (heard acts) \<and>
          eyes = [(eye_widget_new EYE_CURSOR_SIZE (button_held (heard acts) \<or> (\<exists>k. key_held k (heard acts))), eye_translation c)]
        else eyes = [])))"
proof -
  obtain w :: "('p, 'k, point) box_world" and shown late where
    w: "each (box_act W parser) acts (box_start p0) = Some w" "box_ok W parser p0 acts w shown late"
    using box_run_ok [OF assms] by blast
  have eyes: "shown_eyes (app_view (bw_app w)) = eyes \<longleftrightarrow>
       (if over_terminal (heard acts) \<and> (\<exists>c. cursor_at c (heard acts))
        then \<exists>c. cursor_at c (heard acts) \<and>
          eyes = [(eye_widget_new EYE_CURSOR_SIZE (button_held (heard acts) \<or> (\<exists>k. key_held k (heard acts))), eye_translation c)]
        else eyes = [])" if "\<not> bw_exit w" for eyes
  proof -
    have i: "ap_pressed_keys (bw_app w) = {k. key_held k (heard acts)}" "ap_left_mouse_down (bw_app w) = button_held (heard acts)"
      "\<And>c. ap_cursor_position (bw_app w) = Some c \<longleftrightarrow> cursor_at c (heard acts)" "ap_hovered (bw_app w) = over_terminal (heard acts)"
      using box_run_input [OF w(1) that] unfolding input_ok_def by blast+
    show ?thesis
    proof (cases "ap_cursor_position (bw_app w)")
      case None
      then have "\<not> cursor_at c (heard acts)" for c using i(3) [of c] by simp
      with None show ?thesis by (auto simp: shown_view eye_shown_def)
    next
      case (Some c)
      then have at: "cursor_at d (heard acts) \<longleftrightarrow> d = c" for d using i(3) [of d] by auto
      have "eye_shown (bw_app w) = (if over_terminal (heard acts)
          then Some (c, button_held (heard acts) \<or> (\<exists>k. key_held k (heard acts))) else None)"
        using Some i(1,2,4) by (simp add: eye_shown_def)
      then show ?thesis by (cases "over_terminal (heard acts)") (simp_all add: shown_view(3) at eq_commute)
    qed
  qed
  show ?thesis
  proof (rule exI [of _ w], rule exI [of _ shown], rule exI [of _ late], rule exI [of _ "ap_terminal (bw_app w)"], intro conjI impI allI)
    fix es
    show "shown_eyes (app_view (bw_app w)) = es \<longleftrightarrow>
       (if over_terminal (heard acts) \<and> (\<exists>c. cursor_at c (heard acts))
        then \<exists>c. cursor_at c (heard acts) \<and>
          es = [(eye_widget_new EYE_CURSOR_SIZE (button_held (heard acts) \<or> (\<exists>k. key_held k (heard acts))), eye_translation c)]
        else es = [])" if "\<not> bw_exit w" using that by (rule eyes)
  qed (use w in \<open>simp_all add: box_ok_def shown_view(1,2)\<close>)
qed

theorem view_follows_host_and_user_witness:
  "\<exists>(w :: (unit, nat, point) box_world) shown late.
    each (box_act demo_width demo_parser) [HostSends (TerminalOutput [65]), OtherMessage (MsgCursorMoved (Fl 3, Fl 4)),
      OtherMessage (MsgHoverChanged True), StreamYields, OtherMessage (MsgInput (KeyPressed 7))] (box_start ()) = Some w \<and>
    host_trace (shown @ opt_list (bw_pending w) @ bw_queue w) = [Inl 65] @ late_end late"
proof -
  have "incremental demo_parser" by (simp add: incremental_def demo_parser_def)
  from view_follows_host_and_user [OF demo_width_law this, of "[HostSends (TerminalOutput [65]),
      OtherMessage (MsgCursorMoved (Fl 3, Fl 4)), OtherMessage (MsgHoverChanged True), StreamYields,
      OtherMessage (MsgInput (KeyPressed 7))]" "()"]
  show ?thesis by (simp del: each.simps) blast
qed

section \<open>The policy and the viewer\<close>

lemma output_of_trace: "output_of es = concat (map (\<lambda>x. case x of Inl b \<Rightarrow> [b] | Inr _ \<Rightarrow> []) (host_trace es))"
  by (induction es rule: output_of.induct) (simp_all add: comp_def)

lemma output_of_events: "output_of (map TerminalOutput cs) = concat cs"
  by (induction cs) simp_all

text \<open>C12. 
  C0. The policy and the viewer look at the same child. Let the reading thread have read any output of the child, and the
  events it sent have been shown by the window, in any interleaving with the user's messages: then the view has,
  row by row, the characters and styles of the screen that some output makes from a blank screen, and what the policy reads
  from the transcript is the end of this very output, of which nothing is missing as long as the thread has not failed.
\<close>

theorem policy_and_viewer_see_the_same:
  fixes acts :: "('k, point) box_action list" and w :: "('p, 'k, point) box_world"
  assumes "width_law W" and "incremental parser"
    and "io_transcript s = Some (window m [])" and "io_events s = []" and "length (concat (delivered rs)) \<le> u64_max"
    and "read_pty_output tracker_parser device m True rs s = (res, s')"
    and "host_sent acts = io_events s'" and "HostGone \<notin> set acts"
    and "each (box_act W parser) acts (box_start p0) = Some w" and "bw_queue w = []" and "bw_pending w = None"
  shows "\<exists>seen pt. prefix seen (concat (delivered rs)) \<and> (res = None \<or> res = Some (Ok ()) \<longrightarrow> seen = concat (delivered rs))
    \<and> transcript_snapshot_bytes (io_transcript s') k = Ok (drop (length seen - min m k) seen)
    \<and> feed W parser seen (p0, terminal_new TERMINAL_COLS TERMINAL_ROWS) = Some pt
    \<and> shown_rows (app_view (bw_app w)) = map styled_cells (t_buffer (snd pt))"
proof -
  obtain cs where cs: "prefix cs (delivered rs)" "io_transcript s' = Some (window m (concat cs))"
      "io_events s' = map TerminalOutput cs" "res = None \<or> res = Some (Ok ()) \<longrightarrow> cs = delivered rs"
    using read_pty_window [OF assms(3) _ assms(6)] assms(4,5) by auto
  obtain shown late where ok: "box_ok W parser p0 acts w shown late"
    using box_run_ok [OF assms(1,2), of acts p0] assms(9) by auto
  have "\<not> late" using ok assms(8) by (auto simp: box_ok_def)
  with ok assms(7,10,11) cs(3) have "host_trace shown = host_trace (map TerminalOutput cs)"
    by (simp add: box_ok_def late_end_def)
  then have seen: "output_of shown = concat cs" using output_of_events [of cs] by (simp only: output_of_trace)
  have "transcript_snapshot_bytes (io_transcript s') k = Ok (drop (length (concat cs) - min m k) (concat cs))"
    by (simp add: cs(2) transcript_snapshot_bytes_def window_def Let_def min_def) 
  moreover have "prefix (concat cs) (concat (delivered rs))" using cs(1) by (auto simp: prefix_def)
  moreover have "feed W parser (concat cs) (p0, terminal_new TERMINAL_COLS TERMINAL_ROWS) = Some (ap_terminal (bw_app w))"
    using ok by (simp add: box_ok_def seen)
  ultimately show ?thesis using cs(4) shown_view(1) by blast
qed

text \<open>Two chunks, merged by the window, and a transcript that keeps two bytes.\<close>

theorem policy_and_viewer_see_the_same_witness:
  "\<exists>(w :: (unit, nat, point) box_world) pt.
     each (box_act demo_width demo_parser) [HostSends (TerminalOutput [65, 66]), HostSends (TerminalOutput [67]), StreamYields]
       (box_start ()) = Some w
     \<and> feed demo_width demo_parser [65, 66, 67] ((), terminal_new TERMINAL_COLS TERMINAL_ROWS) = Some pt
     \<and> shown_rows (app_view (bw_app w)) = map styled_cells (t_buffer (snd pt))"
proof -
  let ?s = "\<lparr>io_parser = (), io_terminal = pty_terminal_new 80 24, io_writer = Some [], io_transcript = Some (window 2 []),
       io_events = []\<rparr>"
  let ?rs = "[ReadBytes [65, 66], ReadBytes [67], ReadEof]"
  let ?acts = "[HostSends (TerminalOutput [65, 66]), HostSends (TerminalOutput [67]), StreamYields] :: (nat, point) box_action list"
  obtain res s' where r: "read_pty_output (\<lambda>p _. ([], p)) demo_device 2 True ?rs ?s = (res, s')" by (metis prod.collapse)
  then have s': "res = Some (Ok ())" "io_events s' = [TerminalOutput [65, 66], TerminalOutput [67]]"
    by (auto simp: pty_chunk_def pt_feed_def pty_terminal_new_def window_def trim_transcript_def)
  have inc: "incremental demo_parser" by (simp add: incremental_def demo_parser_def)
  obtain w :: "(unit, nat, point) box_world" and shown late where
    w: "each (box_act demo_width demo_parser) ?acts (box_start ()) = Some w"
    using box_run_ok [OF demo_width_law inc, of ?acts "()"] by blast
  have q: "bw_queue w = []" "bw_pending w = None"
    using w by (auto simp: each.simps box_start_def stream_next_def box_deliver_def split: option.splits prod.splits)
  from policy_and_viewer_see_the_same [OF demo_width_law inc _ _ _ r _ _ w q, of 2] s'
  show ?thesis using w by (auto simp: u64_max_def)
qed

end
