(* ===== verification/Eye_Props.thy ===== *)
theory Eye_Props
  imports Eye_Draw
begin

text \<open>
  The animated eye: its cached drawing is always the current one, and in single precision it closes
  steadily, completely and in time, and then fades away.
\<close>

section \<open>Arithmetic in the unit interval\<close>

lemma rv32_simps [simp]: "rv32 0 = 0" "rv32 1 = 1"
  using is_f32_simps by (simp_all add: is_f32_def)

lemma lit_0_1 [simp]: "lit 0 = Fl 0" "lit 1 = Fl 1"
  by (simp_all add: lit_exact)

lemma rv32_unit: "0 \<le> x \<Longrightarrow> x \<le> 1 \<Longrightarrow> 0 \<le> rv32 x \<and> rv32 x \<le> 1"
  using rv32_mono [of 0 x] rv32_mono [of x 1] by simp

lemma lit_unit: "0 \<le> x \<Longrightarrow> x \<le> 1 \<Longrightarrow> lit x = Fl (rv32 x)"
  using rv32_unit [of x] by (simp add: lit_def Let_def)

lemma sub_unit: "0 \<le> a \<Longrightarrow> a \<le> 1 \<Longrightarrow> Fl 1 - Fl a = Fl (rv32 (1 - a))"
  by (simp add: f32_ops lit_unit)

lemma mul_unit: "0 \<le> a \<Longrightarrow> a \<le> 1 \<Longrightarrow> 0 \<le> b \<Longrightarrow> b \<le> 1 \<Longrightarrow> Fl a * Fl b = Fl (rv32 (a * b))"
  by (simp add: f32_ops lit_unit mult_le_one)

lemma clamp01_Fl: "clamp01 (Fl a) = Fl (max 0 (min 1 a))"
  by (auto simp: clamp01_def clamp32_def f32_ops)

lemma clamp01_PInf [simp]: "clamp01 PInf32 = Fl 1" "clamp01 NInf32 = Fl 0"
  by (simp_all add: clamp01_def clamp32_def f32_ops)

lemma clamp01_inside: "x \<noteq> NaN32 \<Longrightarrow> inside 0 1 (clamp01 x)"
  by (cases x) (auto simp: clamp01_Fl inside_def)

text \<open>Products of numbers of the unit interval, rounded after every factor, keep the order.\<close>

definition mulr :: "rat \<Rightarrow> rat \<Rightarrow> rat" where
  "mulr a b = rv32 (a * b)"

lemma mulr_unit: "0 \<le> a \<Longrightarrow> a \<le> 1 \<Longrightarrow> 0 \<le> b \<Longrightarrow> b \<le> 1 \<Longrightarrow> 0 \<le> mulr a b \<and> mulr a b \<le> 1"
  unfolding mulr_def by (rule rv32_unit) (simp_all add: mult_le_one)

lemma mulr_mono: "0 \<le> a \<Longrightarrow> a \<le> a' \<Longrightarrow> 0 \<le> b \<Longrightarrow> b \<le> b' \<Longrightarrow> mulr a b \<le> mulr a' b'"
  unfolding mulr_def by (intro rv32_mono mult_mono) auto

definition quart :: "rat \<Rightarrow> rat" where
  "quart t = (let u = rv32 (1 - t) in rv32 (1 - mulr (mulr (mulr u u) u) u))"

lemma quart_unit:
  assumes "0 \<le> t" and "t \<le> 1"
  shows "0 \<le> quart t \<and> quart t \<le> 1" and "ease_out_quart (Fl t) = Fl (quart t)"
proof -
  let ?u = "rv32 (1 - t)"
  have u: "0 \<le> ?u" "?u \<le> 1" using rv32_unit [of "1 - t"] assms by simp_all
  have p: "0 \<le> mulr ?u ?u" "mulr ?u ?u \<le> 1" "0 \<le> mulr (mulr ?u ?u) ?u" "mulr (mulr ?u ?u) ?u \<le> 1"
    "0 \<le> mulr (mulr (mulr ?u ?u) ?u) ?u" "mulr (mulr (mulr ?u ?u) ?u) ?u \<le> 1"
    using u by (simp_all add: mulr_unit)
  show "0 \<le> quart t \<and> quart t \<le> 1" unfolding quart_def Let_def by (rule rv32_unit) (use p in simp_all)
  have "clamp01 (Fl t) = Fl t" using assms by (simp add: clamp01_Fl)
  then show "ease_out_quart (Fl t) = Fl (quart t)"
    using assms u p by (simp add: ease_out_quart_def quart_def Let_def sub_unit mul_unit flip: mulr_def)
qed

lemma quart_mono: "0 \<le> s \<Longrightarrow> s \<le> t \<Longrightarrow> t \<le> 1 \<Longrightarrow> quart s \<le> quart t"
proof -
  assume st: "0 \<le> s" "s \<le> t" "t \<le> 1"
  let ?u = "rv32 (1 - s)" and ?v = "rv32 (1 - t)"
  have uv: "0 \<le> ?v" "?v \<le> ?u" "?u \<le> 1" using rv32_unit [of "1 - t"] rv32_unit [of "1 - s"] st rv32_mono [of "1 - t" "1 - s"] by simp_all
  then have n: "0 \<le> mulr ?v ?v" "0 \<le> mulr (mulr ?v ?v) ?v" by (simp_all add: mulr_unit)
  have "mulr (mulr (mulr ?v ?v) ?v) ?v \<le> mulr (mulr (mulr ?u ?u) ?u) ?u" using uv n by (intro mulr_mono)
  then show ?thesis unfolding quart_def Let_def by (intro rv32_mono) simp
qed

lemma quart_ends: "quart 0 = 0" "quart 1 = 1"
  by (simp_all add: quart_def mulr_def)

section \<open>Time in seconds\<close>

definition at_least :: "rat \<Rightarrow> f32 \<Rightarrow> bool" where
  "at_least a x \<longleftrightarrow> x = PInf32 \<or> (\<exists>q \<ge> a. x = Fl q)"

definition frac_secs :: "nat \<Rightarrow> rat" where
  "frac_secs d = rv32 (rv32 (rv32 (of_nat d) / 1000000000))"


lemma is_f32_billion: "is_f32 1000000000"
  using is_f32_multiple [of 1953125 9] by simp

lemma is_f32_pow2: "- 149 \<le> e \<Longrightarrow> e \<le> 100 \<Longrightarrow> is_f32 (2 powi e)"
  using is_f32_multiple [of 1 e] by simp

lemma lit_at_least: "is_f32 a \<Longrightarrow> a \<le> y \<Longrightarrow> at_least a (lit y)"
proof -
  assume a: "is_f32 a" "a \<le> y"
  then have "a \<le> rv32 y" "- (2 ^ 128) < a" using rv32_mono [of a y] unfolding is_f32_def by linarith+
  then show ?thesis by (auto simp: at_least_def lit_def Let_def)
qed

lemma clamp01_at_least: "at_least 1 x \<Longrightarrow> clamp01 x = Fl 1"
  by (auto simp: at_least_def clamp01_Fl)

lemma clamp01_lit: "0 \<le> x \<Longrightarrow> clamp01 (lit x) = Fl (min 1 (rv32 x))"
  using rv32_mono [of 0 x] by (auto simp: lit_def Let_def clamp01_Fl)

text \<open>A duration below a second, in seconds.\<close>

lemma nanos_bounds: "d \<le> 1000000000 \<Longrightarrow> 0 \<le> rv32 (of_nat d) / 1000000000 \<and> rv32 (of_nat d) / 1000000000 \<le> 1"
proof -
  assume "d \<le> 1000000000"
  then have "(of_nat d :: rat) \<le> of_nat 1000000000" by (simp only: of_nat_le_iff)
  then have "rv32 (of_nat d) \<le> rv32 1000000000" by (intro rv32_mono) simp
  then show ?thesis using rv32_mono [of 0 "of_nat d"] is_f32_billion by (simp add: is_f32_def)
qed

lemma nanos_div:
  assumes "d \<le> 1000000000"
  shows "lit (of_nat d) / lit 1000000000 = Fl (rv32 (rv32 (of_nat d) / 1000000000))"
proof -
  have "rv32 (of_nat d) \<le> 1000000000" "0 \<le> rv32 (of_nat d)" using nanos_bounds [OF assms] by simp_all
  then have "lit (of_nat d) = Fl (rv32 (of_nat d))" by (simp add: lit_def Let_def)
  then show ?thesis using nanos_bounds [OF assms] by (simp add: f32_ops lit_exact [OF is_f32_billion] lit_unit)
qed

lemma secs_small: "d < 1000000000 \<Longrightarrow> as_secs_f32 d = Fl (frac_secs d) \<and> 0 \<le> frac_secs d \<and> frac_secs d \<le> 1"
proof -
  assume d: "d < 1000000000"
  then have b: "0 \<le> rv32 (rv32 (of_nat d) / 1000000000)" "rv32 (rv32 (of_nat d) / 1000000000) \<le> 1"
    using nanos_bounds [of d] by (simp_all add: rv32_unit)
  then show ?thesis using d nanos_div [of d] by (simp add: as_secs_f32_def frac_secs_def rv32_unit plus_f32_def lit_unit)
qed

lemma secs_large: "1000000000 \<le> d \<Longrightarrow> at_least 1 (as_secs_f32 d)"
proof -
  assume d: "1000000000 \<le> d"
  let ?s = "d div 1000000000" and ?n = "d mod 1000000000"
  have "1 \<le> ?s" using d by (metis div_le_mono div_self zero_neq_numeral)
  then have s: "at_least 1 (lit (of_nat ?s))" by (intro lit_at_least) simp_all
  obtain x where x: "lit (of_nat ?n) / lit 1000000000 = Fl x" "0 \<le> x" using nanos_div [of ?n] nanos_bounds [of ?n] rv32_unit by simp
  from s consider "lit (of_nat ?s) = PInf32" | q where "lit (of_nat ?s) = Fl q" "1 \<le> q" by (auto simp: at_least_def)
  then show ?thesis
  proof cases
    case 1
    then show ?thesis using x by (simp add: as_secs_f32_def plus_f32_def at_least_def)
  next
    case (2 q)
    then have "at_least 1 (lit (q + x))" using x(2) by (intro lit_at_least) simp_all
    then show ?thesis using 2 x by (simp add: as_secs_f32_def plus_f32_def)
  qed
qed

lemma frac_secs_mono: "d \<le> d' \<Longrightarrow> frac_secs d \<le> frac_secs d'"
  unfolding frac_secs_def by (intro rv32_mono divide_right_mono) (simp_all add: of_nat_mono)

lemma frac_secs_pos:
  assumes "1000000 \<le> d"
  shows "0 < frac_secs d"
proof -
  have "(524288 :: rat) \<le> of_nat 1000000" by simp
  also have "\<dots> \<le> of_nat d" using assms by (simp only: of_nat_le_iff)
  finally have "rv32 524288 \<le> rv32 (of_nat d)" by (rule rv32_mono)
  then have "524288 \<le> rv32 (of_nat d)" using is_f32_int [of 524288] by (simp add: is_f32_def)
  then have "2 powi (- 11) \<le> rv32 (of_nat d) / 1000000000" by (simp add: power_int_minus divide_simps)
  moreover have r: "rv32 (2 powi (- 11)) = 2 powi (- 11)" using is_f32_pow2 [of "- 11"] by (simp add: is_f32_def)
  ultimately have "2 powi (- 11) \<le> rv32 (rv32 (of_nat d) / 1000000000)" using rv32_mono by metis
  then have "2 powi (- 11) \<le> frac_secs d" unfolding frac_secs_def using r rv32_mono by metis
  moreover have "(0 :: rat) < 2 powi (- 11)" by simp
  ultimately show ?thesis by linarith
qed

text \<open>The share of a duration that has passed, clamped: it starts at 0, never falls, and is 1 from its end on.\<close>

definition share :: "rat \<Rightarrow> nat \<Rightarrow> rat" where
  "share c d = (if d < 1000000000 then min 1 (rv32 (frac_secs d / c)) else 1)"

lemma share_clamp:
  assumes "0 < c" and "c \<le> 1"
  shows "clamp01 (as_secs_f32 d / Fl c) = Fl (share c d)"
proof (cases "d < 1000000000")
  case True
  then have "0 \<le> frac_secs d / c" using secs_small assms(1) by simp
  then show ?thesis using True secs_small [OF True] assms(1) by (simp add: divide_f32_def share_def clamp01_lit)
next
  case False
  then have "at_least 1 (as_secs_f32 d)" by (intro secs_large) simp
  then consider "as_secs_f32 d = PInf32" | q where "as_secs_f32 d = Fl q" "1 \<le> q" by (auto simp: at_least_def)
  then show ?thesis
  proof cases
    case (2 q)
    then have "1 \<le> q / c" using assms by (simp add: le_divide_eq)
    then have "at_least 1 (lit (q / c))" by (intro lit_at_least) simp_all
    then show ?thesis using 2 False assms(1) by (simp add: divide_f32_def share_def clamp01_at_least)
  qed (use False assms(1) in \<open>simp add: divide_f32_def share_def\<close>)
qed

lemma share_unit: "0 < c \<Longrightarrow> 0 \<le> share c d \<and> share c d \<le> 1"
  using rv32_mono [of 0 "frac_secs d / c"] secs_small [of d] by (auto simp: share_def)

lemma share_mono: "0 < c \<Longrightarrow> d \<le> d' \<Longrightarrow> share c d \<le> share c d'"
  using frac_secs_mono [of d d'] by (auto simp: share_def min_le_iff_disj intro!: rv32_mono divide_right_mono)

lemma share_0: "share c 0 = 0"
  by (simp add: share_def frac_secs_def)

lemma share_done: "0 < c \<Longrightarrow> c \<le> frac_secs d \<or> 1000000000 \<le> d \<Longrightarrow> share c d = 1"
  using rv32_mono [of 1 "frac_secs d / c"] by (auto simp: share_def le_divide_eq min_def)

section \<open>Closing and fading\<close>

abbreviation close_secs :: rat where "close_secs \<equiv> frac_secs CLOSE_DURATION"

lemma close_secs: "as_secs_f32 CLOSE_DURATION = Fl close_secs" "0 < close_secs" "close_secs \<le> 1"
  using secs_small [of CLOSE_DURATION] frac_secs_pos [of CLOSE_DURATION] by (simp_all add: CLOSE_DURATION_def ms_def)

lemma fade_secs: "as_secs_f32 POST_STITCH_FADE_DURATION = Fl 1"
  using nanos_div [of 0] by (simp add: as_secs_f32_def POST_STITCH_FADE_DURATION_def ms_def plus_f32_def)

definition closing :: "nat \<Rightarrow> f32" where
  "closing d = ease_out_quart (progress_between 0 d CLOSE_DURATION)"

definition fading :: "nat \<Rightarrow> f32" where
  "fading d = ease_in_cubic (as_secs_f32 (d - RAY_STITCH_DURATION) / as_secs_f32 POST_STITCH_FADE_DURATION)"

lemma closing_quart: "closing d = Fl (quart (share close_secs d))"
proof -
  have "CLOSE_DURATION \<noteq> 0" by (simp add: CLOSE_DURATION_def ms_def)
  then have "progress_between 0 d CLOSE_DURATION = Fl (share close_secs d)"
    using share_clamp [OF close_secs(2,3)] by (simp add: progress_between_def since_def close_secs(1))
  then show ?thesis using share_unit [OF close_secs(2)] by (simp add: closing_def quart_unit(2))
qed

lemma closing_unit: "inside 0 1 (closing d)"
  using quart_unit(1) share_unit [OF close_secs(2)] by (simp add: closing_quart inside_def)

lemma closing_mono: "d \<le> d' \<Longrightarrow> closing d \<le> closing d'"
  using quart_mono share_mono [OF close_secs(2)] share_unit [OF close_secs(2)]
  by (fastforce simp: closing_quart f32_ops le32_def less_le)

lemma closing_done: "CLOSE_DURATION \<le> d \<Longrightarrow> closing d = Fl 1"
  using share_done [OF close_secs(2), of d] frac_secs_mono [of CLOSE_DURATION d] by (simp add: closing_quart quart_ends)

lemma fading_cubic: "fading d = Fl (mulr (mulr (share 1 (d - RAY_STITCH_DURATION)) (share 1 (d - RAY_STITCH_DURATION)))
  (share 1 (d - RAY_STITCH_DURATION)))"
  using share_clamp [of 1 "d - RAY_STITCH_DURATION"] share_unit [of 1 "d - RAY_STITCH_DURATION"] mulr_unit
  by (simp add: fading_def ease_in_cubic_def Let_def fade_secs mul_unit flip: mulr_def)

lemma fading_ends: "d \<le> RAY_STITCH_DURATION \<Longrightarrow> fading d = Fl 0"
  "RAY_STITCH_DURATION + POST_STITCH_FADE_DURATION \<le> d \<Longrightarrow> fading d = Fl 1"
proof -
  show "fading d = Fl 0" if "d \<le> RAY_STITCH_DURATION" using that by (simp add: fading_cubic share_0 mulr_def)
  assume "RAY_STITCH_DURATION + POST_STITCH_FADE_DURATION \<le> d"
  then have "1000000000 \<le> d - RAY_STITCH_DURATION" by (simp add: POST_STITCH_FADE_DURATION_def ms_def)
  then have "share 1 (d - RAY_STITCH_DURATION) = 1" by (intro share_done) simp_all
  then show "fading d = Fl 1" by (simp add: fading_cubic mulr_def)
qed

section \<open>Runs of the widget\<close>

datatype eye_op = EyeUpdate eye_widget eye_event nat | EyeDraw "(f32 \<times> f32) \<times> (f32 \<times> f32)"

fun eye_step :: "trig \<Rightarrow> 'c canvas_cache \<Rightarrow> eye_op \<Rightarrow> 'c eye_state \<Rightarrow> 'c eye_state" where
  "eye_step G C (EyeUpdate w event now) s = fst (eye_update C w event now s)"
| "eye_step G C (EyeDraw bounds) s = snd (eye_draw G C bounds s)"

definition eye_run :: "trig \<Rightarrow> 'c canvas_cache \<Rightarrow> eye_op list \<Rightarrow> 'c eye_state \<Rightarrow> 'c eye_state" where
  "eye_run G C ops s = fold (eye_step G C) ops s"

text \<open>What the documentation of the canvas cache promises: after it is emptied it holds nothing; a drawing it
  holds for the size is returned, and otherwise the one given is, and is held from then on.\<close>

definition caches :: "'c canvas_cache \<Rightarrow> ('c \<Rightarrow> ((f32 \<times> f32) \<times> f32 \<times> draw_op list) option) \<Rightarrow> bool" where
  "caches C held \<longleftrightarrow>
     (\<forall>c. held (ca_clear C c) = None) \<and>
     (\<forall>c size' g. case ca_draw C c size' g of (g', c') \<Rightarrow>
        (case held c of
           Some (size0, g0) \<Rightarrow> if size0 = size' then g' = g0 \<and> held c' = held c else g' = g \<and> held c' = Some (size', g)
         | None \<Rightarrow> g' = g \<and> held c' = Some (size', g)))"

definition eye_ok :: "trig \<Rightarrow> ('c \<Rightarrow> ((f32 \<times> f32) \<times> f32 \<times> draw_op list) option) \<Rightarrow> 'c eye_state \<Rightarrow> bool" where
  "eye_ok G held s \<longleftrightarrow>
     (\<forall>size' g. held (es_cache s) = Some (size', g) \<longrightarrow> g = eye_picture G size' (es_animation s)) \<and>
     (an_active (es_animation s) \<longleftrightarrow> an_close_start (es_animation s) \<noteq> None)"

lemma eye_update_ok:
  assumes "caches C held" and "eye_ok G held s"
  shows "eye_ok G held (fst (eye_update C w event now s))"
proof -
  have "held (ca_clear C c) = None" for c using assms(1) by (simp add: caches_def)
  then show ?thesis using assms(2)
    by (auto simp: eye_ok_def eye_update_def eye_bootstrap_def sync_active_def tick_def Let_def split: eye_event.splits)
qed

lemma draw_fresh:
  assumes "caches C held" and "eye_ok G held s"
  shows "snd (fst (eye_draw G C bounds s)) = eye_picture G (snd bounds) (es_animation s)" and "eye_ok G held (snd (eye_draw G C bounds s))"
proof -
  let ?g = "eye_picture G (snd bounds) (es_animation s)"
  obtain g' c' where d: "ca_draw C (es_cache s) (snd bounds) ?g = (g', c')" by fastforce
  have h: "case held (es_cache s) of
      Some (size0, g0) \<Rightarrow> if size0 = snd bounds then g' = g0 \<and> held c' = held (es_cache s) else g' = ?g \<and> held c' = Some (snd bounds, ?g)
    | None \<Rightarrow> g' = ?g \<and> held c' = Some (snd bounds, ?g)"
    using assms(1) [unfolded caches_def, THEN conjunct2, THEN spec, THEN spec, THEN spec, of ?g "snd bounds" "es_cache s"]
    unfolding d prod.case .
  have "g' = ?g \<and> held c' = Some (snd bounds, ?g)"
  proof (cases "held (es_cache s)")
    case (Some x)
    then obtain size0 g0 where x: "held (es_cache s) = Some (size0, g0)" by (cases x) auto
    then have "g0 = eye_picture G size0 (es_animation s)" using assms(2) unfolding eye_ok_def by blast
    with h x show ?thesis by (simp split: if_splits)
  qed (use h in simp)
  then show "snd (fst (eye_draw G C bounds s)) = ?g" "eye_ok G held (snd (eye_draw G C bounds s))"
    using assms(2) d by (auto simp: eye_draw_def eye_ok_def Let_def)
qed

lemma eye_run_ok: "caches C held \<Longrightarrow> eye_ok G held s \<Longrightarrow> eye_ok G held (eye_run G C ops s)"
proof (induction ops arbitrary: s)
  case (Cons op ops)
  have "eye_ok G held (eye_step G C op s)" using eye_update_ok draw_fresh(2) Cons.prems by (cases op) auto
  with Cons show ?case by (simp add: eye_run_def)
qed (simp add: eye_run_def)

text \<open>The cached drawing is never stale: after any updates and drawings, drawing the eye at any size gives what
  drawing the present state of the animation from scratch gives.\<close>

theorem eye_is_drawn_fresh:
  assumes "caches C held" and "held cache = None"
  shows "snd (fst (eye_draw G C bounds (eye_run G C ops (eye_state_default start cache)))) =
    eye_picture G (snd bounds) (es_animation (eye_run G C ops (eye_state_default start cache)))"
proof (rule draw_fresh(1) [OF assms(1) eye_run_ok [OF assms(1)]])
  show "eye_ok G held (eye_state_default start cache)" using assms(2) by (simp add: eye_ok_def eye_state_default_def animation_default_def)
qed

text \<open>While the widget stays active, the instant at which it became so is kept.\<close>

lemma closing_since:
  assumes "an_active (es_animation s)" and "an_close_start (es_animation s) = Some t"
    and "list_all (\<lambda>op. case op of EyeUpdate w _ _ \<Rightarrow> ew_active w | EyeDraw _ \<Rightarrow> True) ops"
  shows "an_active (es_animation (eye_run G C ops s)) \<and> an_close_start (es_animation (eye_run G C ops s)) = Some t"
  using assms
proof (induction ops arbitrary: s)
  case (Cons op ops)
  have "an_active (es_animation (eye_step G C op s)) \<and> an_close_start (es_animation (eye_step G C op s)) = Some t"
    using Cons.prems by (cases op)
      (auto simp: eye_update_def eye_bootstrap_def sync_active_def tick_def eye_draw_def Let_def split: eye_event.splits prod.splits)
  with Cons show ?case by (simp add: eye_run_def)
qed (simp add: eye_run_def)

lemma active_visual:
  assumes "an_active a" and "an_close_start a = Some t"
  shows "vi_is_active (visual_of G a)" "vi_close (visual_of G a) = closing (an_now a - t)" "vi_post_fade (visual_of G a) = fading (an_now a - t)"
  using assms by (simp_all add: visual_of_def closing_def fading_def progress_between_def since_def Let_def split: prod.splits)

text \<open>C35. An eye that becomes active closes and vanishes: from the instant it is updated as active, and as long as it
  stays so, it is closed to a degree between 0 and 1 that never falls with time, fully from 180 ms on, and from 1.48 seconds on nothing is drawn
  of it; all of this in single precision.\<close>

theorem eye_closes_and_vanishes:
  assumes "\<not> an_active (es_animation s)" and "ew_active w"
    and "list_all (\<lambda>op. case op of EyeUpdate w _ _ \<Rightarrow> ew_active w | EyeDraw _ \<Rightarrow> True) ops"
  shows "let a = es_animation (eye_run G C (EyeUpdate w event t # ops) s); d = an_now a - t; v = visual_of G a in
    vi_is_active v \<and> vi_close v = closing d \<and> inside 0 1 (closing d) \<and> (\<forall>d' \<ge> d. closing d \<le> closing d') \<and>
    (ms 180 \<le> d \<longrightarrow> vi_close v = Fl 1) \<and> (ms 1480 \<le> d \<longrightarrow> draw_eye G v = [])"
proof -
  let ?s = "fst (eye_update C w event t s)"
  have "an_active (es_animation ?s)" "an_close_start (es_animation ?s) = Some t"
    using assms(1,2) by (auto simp: eye_update_def eye_bootstrap_def sync_active_def tick_def Let_def split: eye_event.splits)
  note a = closing_since [OF this assms(3), of G C]
  have run: "eye_run G C (EyeUpdate w event t # ops) s = eye_run G C ops ?s" by (simp add: eye_run_def)
  let ?a = "es_animation (eye_run G C ops ?s)"
  note v = active_visual [OF a [THEN conjunct1] a [THEN conjunct2], of G]
  have "draw_eye G (visual_of G ?a) = []" if "ms 1480 \<le> an_now ?a - t"
  proof -
    have "vi_post_fade (visual_of G ?a) = Fl 1"
      using that unfolding v(3) by (intro fading_ends) (simp add: RAY_STITCH_DURATION_def POST_STITCH_FADE_DURATION_def ms_def)
    moreover have "at_least 0 (lit (1 / 1000))" by (intro lit_at_least) simp_all
    ultimately show ?thesis by (auto simp: draw_eye_def Let_def sub_unit clamp01_Fl f32_ops le32_def at_least_def)
  qed
  then show ?thesis unfolding run Let_def
    using v closing_unit closing_mono closing_done by (simp add: CLOSE_DURATION_def)
qed

text \<open>The search for the border starts from a finite number, so it always finds one, and the constant that
  stands in for a missing border is never used.\<close>

lemma border_is_always_found: "\<exists>t. ray_enclosure_intersection origin dir_x dir_y morph = Some t \<and> is_finite32 t"
proof -
  have step: "is_finite32 (nearer n (ray_segment_intersection o' x y s0 s1))" if "is_finite32 n" for n o' x y s0 s1
  proof (cases "ray_segment_intersection o' x y s0 s1")
    case (Some t)
    then have "Fl 0 \<le> t" by (auto simp: ray_segment_intersection_def Let_def split: if_splits)
    then show ?thesis using that Some by (cases t; cases n) (auto simp: nearer_def min32_def f32_ops le32_def)
  qed (simp add: nearer_def that)
  have "is_finite32 f32_max" by (simp add: f32_max_def)
  then show ?thesis by (simp add: ray_enclosure_intersection_def Let_def step)
qed

text \<open>Witnesses: a cache that is an option, and an eye that is updated twice.\<close>

definition option_cache :: "((f32 \<times> f32) \<times> f32 \<times> draw_op list) option canvas_cache" where
  "option_cache = \<lparr>ca_clear = (\<lambda>_. None),
     ca_draw = (\<lambda>c size' g. case c of Some (size0, g0) \<Rightarrow> if size0 = size' then (g0, c) else (g, Some (size', g)) | None \<Rightarrow> (g, Some (size', g)))\<rparr>"

lemma option_cache_caches: "caches option_cache id"
  by (auto simp: caches_def option_cache_def split: option.splits)

definition flat_trig :: trig where
  "flat_trig = \<lparr>tg_sin = (\<lambda>_. Fl 0), tg_cos = (\<lambda>_. Fl 1)\<rparr>"

definition eye_demo_ops :: "eye_op list" where
  "eye_demo_ops = [EyeUpdate (eye_widget_new (Fl 32) False) OtherEvent 5, EyeDraw ((Fl 0, Fl 0), (Fl 32, Fl 32)),
     EyeUpdate (eye_widget_new (Fl 32) True) (RedrawRequested 7) 6]"

theorem eye_is_drawn_fresh_witness:
  "snd (fst (eye_draw flat_trig option_cache ((Fl 1, Fl 1), (Fl 32, Fl 32)) (eye_run flat_trig option_cache eye_demo_ops (eye_state_default 0 None)))) =
   eye_picture flat_trig (Fl 32, Fl 32) (es_animation (eye_run flat_trig option_cache eye_demo_ops (eye_state_default 0 None)))"
  using eye_is_drawn_fresh [OF option_cache_caches, of None flat_trig "((Fl 1, Fl 1), (Fl 32, Fl 32))" eye_demo_ops 0] by simp

theorem eye_closes_and_vanishes_witness:
  "draw_eye flat_trig (visual_of flat_trig (es_animation (eye_run flat_trig option_cache
     [EyeUpdate (eye_widget_new (Fl 32) True) OtherEvent 0, EyeUpdate (eye_widget_new (Fl 32) True) (RedrawRequested (ms 1500)) (ms 1500)]
     (eye_state_default 0 None)))) = []"
proof -
  let ?w = "eye_widget_new (Fl 32) True" and ?s = "eye_state_default 0 None :: ((f32 \<times> f32) \<times> f32 \<times> draw_op list) option eye_state"
  let ?ops = "[EyeUpdate ?w (RedrawRequested (ms 1500)) (ms 1500)]"
  have "an_now (es_animation (eye_run flat_trig option_cache (EyeUpdate ?w OtherEvent 0 # ?ops) ?s)) = ms 1500"
    by (simp add: eye_run_def eye_update_def eye_bootstrap_def sync_active_def tick_def eye_state_default_def animation_default_def
        eye_widget_new_def option_cache_def)
  with eye_closes_and_vanishes [of ?s ?w ?ops flat_trig option_cache OtherEvent 0] show ?thesis
    by (simp add: Let_def eye_state_default_def animation_default_def eye_widget_new_def ms_def)
qed

end
