(* ===== verification/Av_Playback.thy ===== *)
theory Av_Playback
  imports Av_Player
begin

text \<open>
  Playing a media file, \<^verbatim>\<open>play_media_file\<close> and \<^verbatim>\<open>submit_video_packet\<close> of \<^verbatim>\<open>mitb-av/src/lib.rs\<close>: from the packets
  of the file to the frames that are sent and the samples that are played. The demultiplexer gives a
  list of packets; the decoders are functions of what they are given and of a state of their own, and
  answer with what each call returned and when.
\<close>

section \<open>Submitting a packet\<close>

type_synonym answers = "(got_picture \<times> instant \<times> bool) list"
type_synonym av_run = "(av_error + unit) option \<times> (yuv \<times> instant) list \<times> playback_clock"

text \<open>The operator \<^verbatim>\<open>?\<close> between two calls that send frames.\<close>

definition run_then :: "av_run \<Rightarrow> (playback_clock \<Rightarrow> av_run) \<Rightarrow> av_run" where
  "run_then r f =
     (case r of
        (Some (Inr _), sent, k) \<Rightarrow> (case f k of (res, sent', k) \<Rightarrow> (res, sent @ sent', k))
      | _ \<Rightarrow> r)"

datatype sent_data = DataSent | DataAgain | DataError string

text \<open>The loop that offers the pending data again, with the answers of the draining in each turn.\<close>

fun pending_loop :: "nat \<Rightarrow> (sent_data \<times> answers) list \<Rightarrow> playback_clock \<Rightarrow> av_run" where
  "pending_loop frame_duration [] k = (None, [], k)"
| "pending_loop frame_duration ((DataSent, _) # ps) k = (Some (Ok ()), [], k)"
| "pending_loop frame_duration ((DataAgain, gs) # ps) k =
     run_then (drain_video_decoder frame_duration gs k) (pending_loop frame_duration ps)"
| "pending_loop frame_duration ((DataError e, _) # ps) k = (Some (Err (AvVideoDecoder e)), [], k)"

record video_answers =
  va_send :: sent_data
  va_first :: answers
  va_pending :: "(sent_data \<times> answers) list"
  va_last :: answers

definition submit_video_packet :: "nat \<Rightarrow> video_answers \<Rightarrow> playback_clock \<Rightarrow> av_run" where
  "submit_video_packet frame_duration va k =
     (case va_send va of
        DataError e \<Rightarrow> (Some (Err (AvVideoDecoder e)), [], k)
      | _ \<Rightarrow>
          run_then (drain_video_decoder frame_duration (va_first va) k)
            (\<lambda>k. run_then (pending_loop frame_duration (va_pending va) k)
               (drain_video_decoder frame_duration (va_last va))))"

section \<open>Playing a file\<close>

record packet =
  pk_track :: nat
  pk_timestamp :: nat
  pk_duration :: "nat option"
  pk_data :: "byte list"

text \<open>The next packet, with whether the receiver is gone when it was read.\<close>

datatype demuxed = NextFrame packet bool | NextError string | NextEnd

record ('d, 'o, 'a) media =
  md_open :: "string + unit"
  md_demux :: "string + nat \<times> track_entry list"
  md_video_new :: "string + 'd"
  md_audio_new :: "nat \<Rightarrow> nat \<Rightarrow> string + 'o"
  md_device :: "string + unit"
  md_decode :: "byte list \<Rightarrow> int \<Rightarrow> int \<Rightarrow> 'd \<Rightarrow> video_answers \<times> 'd"
  md_drain :: "'d \<Rightarrow> answers"
  md_opus :: "byte list \<Rightarrow> 'o \<Rightarrow> (string + nat \<times> 'a list) \<times> 'o"
  md_zero :: 'a

text \<open>\<^verbatim>\<open>decode_packet\<close>: the decoder gives the number of samples per channel, and alternating samples.\<close>

definition decode_packet ::
  "('d, 'o, 'a) media \<Rightarrow> nat \<Rightarrow> byte list \<Rightarrow> 'o \<Rightarrow> (av_error + nat \<times> 'a list list) \<times> 'o" where
  "decode_packet M channels data opus =
     (case md_opus M data opus of
        (Inl e, opus) \<Rightarrow> (Err (AvAudioDecoder e), opus)
      | (Inr (samples, scratch), opus) \<Rightarrow> (Ok (samples, deinterleave channels samples scratch), opus))"

record ('d, 'o, 'a) playback =
  pb_video :: 'd
  pb_audio :: "'o option"
  pb_output :: bool
  pb_pre_skip :: nat
  pb_clock :: playback_clock
  pb_sent :: "(yuv \<times> instant) list"
  pb_played :: "'a list list"

definition play_video ::
  "('d, 'o, 'a) media \<Rightarrow> selected_tracks \<Rightarrow> packet \<Rightarrow> ('d, 'o, 'a) playback \<Rightarrow>
     (av_error + unit) option \<times> ('d, 'o, 'a) playback" where
  "play_video M tracks p s =
     (let (timestamp, frame_duration) = packet_times tracks (pk_timestamp p) (pk_duration p);
          (va, video) = md_decode M (pk_data p) (timestamp_ns_to_i64 timestamp) (timestamp_ns_to_i64 frame_duration) (pb_video s)
      in case submit_video_packet frame_duration va (pb_clock s) of
           (res, sent, k) \<Rightarrow> (res, s\<lparr>pb_video := video, pb_clock := k, pb_sent := pb_sent s @ sent\<rparr>))"

definition append_samples :: "'a list \<Rightarrow> ('d, 'o, 'a) playback \<Rightarrow> ('d, 'o, 'a) playback" where
  "append_samples samples s = (if samples = [] then s else s\<lparr>pb_played := pb_played s @ [samples]\<rparr>)"

definition play_audio ::
  "('d, 'o, 'a) media \<Rightarrow> selected_tracks \<Rightarrow> packet \<Rightarrow> ('d, 'o, 'a) playback \<Rightarrow> ('d, 'o, 'a) playback" where
  "play_audio M tracks p s =
     (case (sl_audio tracks, pb_audio s) of
        (Some track, Some opus) \<Rightarrow>
          if pk_track p \<noteq> at_track track \<or> \<not> pb_output s then s
          else (case decode_packet M (at_channels track) (pk_data p) opus of
                  (Inl _, opus) \<Rightarrow> s\<lparr>pb_audio := Some opus\<rparr>
                | (Inr (frames, buffer), opus) \<Rightarrow>
                    (case interleave_audio_buffer (md_zero M) frames (at_channels track) buffer (pb_pre_skip s) of
                       (samples, remaining) \<Rightarrow> append_samples samples (s\<lparr>pb_audio := Some opus, pb_pre_skip := remaining\<rparr>)))
      | _ \<Rightarrow> s)"

text \<open>The loop over the packets; the result is \<open>None\<close> while a call has not returned.\<close>

fun play_loop ::
  "('d, 'o, 'a) media \<Rightarrow> selected_tracks \<Rightarrow> demuxed list \<Rightarrow> ('d, 'o, 'a) playback \<Rightarrow>
     (av_error + unit) option \<times> ('d, 'o, 'a) playback" where
  "play_loop M tracks [] s = (None, s)"
| "play_loop M tracks (NextError e # ds) s = (Some (Err (AvDemux e)), s)"
| "play_loop M tracks (NextEnd # ds) s =
     (case drain_video_decoder (case sl_video_default_duration_ns tracks of Some d \<Rightarrow> d | None \<Rightarrow> DEFAULT_FRAME_DURATION_NS)
         (md_drain M (pb_video s)) (pb_clock s) of
        (res, sent, k) \<Rightarrow> (res, s\<lparr>pb_clock := k, pb_sent := pb_sent s @ sent\<rparr>))"
| "play_loop M tracks (NextFrame p receiver_gone # ds) s =
     (if receiver_gone then (Some (Ok ()), s)
      else if pk_track p = sl_video_track tracks then
        (case play_video M tracks p s of
           (Some (Inr _), s) \<Rightarrow> play_loop M tracks ds s
         | r \<Rightarrow> r)
      else play_loop M tracks ds (play_audio M tracks p s))"

text \<open>\<^verbatim>\<open>SymphoniaOpusDecoder::new\<close>.\<close>

definition opus_decoder_new :: "('d, 'o, 'a) media \<Rightarrow> audio_track \<Rightarrow> av_error + 'o" where
  "opus_decoder_new M track = map_sum AvAudioDecoder id (md_audio_new M (at_sample_rate track) (at_channels track))"

definition play_start ::
  "('d, 'o, 'a) media \<Rightarrow> selected_tracks \<Rightarrow> instant \<Rightarrow> av_error + ('d, 'o, 'a) playback" where
  "play_start M tracks now =
     (case md_video_new M of
        Inl e \<Rightarrow> Err (AvVideoDecoder e)
      | Inr video \<Rightarrow>
     (case (case sl_audio tracks of None \<Rightarrow> Ok None | Some track \<Rightarrow> map_sum id Some (opus_decoder_new M track)) of
        Inl e \<Rightarrow> Err e
      | Inr audio \<Rightarrow>
          Ok \<lparr>pb_video = video, pb_audio = audio,
              pb_output = (case sl_audio tracks of
                 None \<Rightarrow> False
               | Some track \<Rightarrow> \<not> isl (audio_output_new (at_channels track) (at_sample_rate track) (md_device M))),
              pb_pre_skip = (case sl_audio tracks of None \<Rightarrow> 0 | Some track \<Rightarrow> at_pre_skip track),
              pb_clock = playback_clock_new now, pb_sent = [], pb_played = []\<rparr>))"

definition play_media_file ::
  "('d, 'o, 'a) media \<Rightarrow> string \<Rightarrow> instant \<Rightarrow> demuxed list \<Rightarrow> (av_error + unit) option \<times> ('d, 'o, 'a) playback option" where
  "play_media_file M path now ds =
     (case md_open M of
        Inl e \<Rightarrow> (Some (Err (AvOpenMedia path e)), None)
      | Inr _ \<Rightarrow>
     (case md_demux M of
        Inl e \<Rightarrow> (Some (Err (AvDemux e)), None)
      | Inr (scale, entries) \<Rightarrow>
     (case select_tracks scale entries of
        Inl e \<Rightarrow> (Some (Err e), None)
      | Inr tracks \<Rightarrow>
     (case play_start M tracks now of
        Inl e \<Rightarrow> (Some (Err e), None)
      | Inr s \<Rightarrow> (case play_loop M tracks ds s of (res, s) \<Rightarrow> (res, Some s))))))"

section \<open>What is shown\<close>

text \<open>The pictures of the decoder's answers with their times, up to the end of the answers.\<close>

fun answer_frames :: "nat \<Rightarrow> answers \<Rightarrow> (picture \<times> nat option \<times> nat \<times> instant) list" where
  "answer_frames default_duration ((GotPicture p d ts, now, _) # gs) =
     (p, (case ts of Some t \<Rightarrow> if t \<ge> 0 then Some (nat t) else None | None \<Rightarrow> None),
      (if d > 0 then nat d else default_duration), now) # answer_frames default_duration gs"
| "answer_frames default_duration gs = []"

text \<open>Frames at the instants at which the clock lets them through; pictures that cannot be converted are
  waited for and dropped.\<close>

definition shown :: "(picture \<times> nat option \<times> nat \<times> instant) list \<Rightarrow> playback_clock \<Rightarrow> (yuv \<times> instant) list" where
  "shown fs k = concat (map2 (\<lambda>f t. case picture_to_yuv (fst f) of None \<Rightarrow> [] | Some y \<Rightarrow> [(y, t)]) fs (paced (map snd fs) k))"

fun clock_after :: "(nat option \<times> nat \<times> instant) list \<Rightarrow> playback_clock \<Rightarrow> playback_clock" where
  "clock_after [] k = k"
| "clock_after ((ts, duration, now) # fs) k = clock_after fs (snd (wait_until ts duration now k))"

lemma length_paced [simp]: "length (paced fs k) = length fs"
  by (induction fs k rule: paced.induct) (auto split: prod.splits)

lemma paced_append: "paced (fs @ gs) k = paced fs k @ paced gs (clock_after fs k)"
  by (induction fs k rule: paced.induct) (auto split: prod.splits)

lemma clock_after_append: "clock_after (fs @ gs) k = clock_after gs (clock_after fs k)"
  by (induction fs k rule: clock_after.induct) auto

lemma shown_append: "shown (fs @ gs) k = shown fs k @ shown gs (clock_after (map snd fs) k)"
  by (simp add: shown_def paced_append)

lemma shown_Nil: "shown [] k = []"
  by (simp add: shown_def)

definition all_open :: "answers \<Rightarrow> bool" where
  "all_open gs \<longleftrightarrow> (\<forall>g \<in> set gs. snd (snd g))"

definition shows_frames :: "av_run \<Rightarrow> (picture \<times> nat option \<times> nat \<times> instant) list \<Rightarrow> playback_clock \<Rightarrow> bool" where
  "shows_frames r fs k \<longleftrightarrow> (fst r = Some (Ok ()) \<longrightarrow> snd r = (shown fs k, clock_after (map snd fs) k))"

lemma shown_Cons:
  "shown ((p, ts, d, now) # fs) k =
     (case wait_until ts d now k of (sleep, k) \<Rightarrow>
        (case picture_to_yuv p of None \<Rightarrow> [] | Some y \<Rightarrow> [(y, now + sleep)]) @ shown fs k)"
  by (simp add: shown_def split: prod.splits)

lemma drain_shows: "all_open gs \<Longrightarrow> shows_frames (drain_video_decoder d gs k) (answer_frames d gs) k"
proof (induction gs arbitrary: k)
  case (Cons g gs)
  obtain a now still where g: "g = (a, now, still)" by (cases g)
  from Cons.prems have still: "still" and gs: "all_open gs" by (auto simp: all_open_def g)
  show ?case
  proof (cases a)
    case (GotPicture p dur ts)
    define ts' where "ts' = (case ts of Some t \<Rightarrow> if t \<ge> 0 then Some (nat t) else None | None \<Rightarrow> None)"
    define dur' where "dur' = (if dur > 0 then nat dur else d)"
    obtain sleep k1 where w: "wait_until ts' dur' now k = (sleep, k1)" by fastforce
    from Cons.IH [OF gs, of k1] w still show ?thesis
      by (auto simp: g GotPicture shows_frames_def shown_Cons Let_def simp flip: ts'_def dur'_def split: option.splits prod.splits)
  qed (simp_all add: g shows_frames_def shown_Nil)
qed (simp add: shows_frames_def)


lemma run_then_shows:
  assumes "shows_frames r fs k" and "\<And>k. shows_frames (f k) gs k"
  shows "shows_frames (run_then r f) (fs @ gs) k"
proof (cases r)
  case (fields res sent k1)
  then show ?thesis
    using assms(1) assms(2) [of k1]
    by (auto simp: run_then_def shows_frames_def shown_append clock_after_append split: option.splits sum.splits prod.splits)
qed

fun pending_frames :: "nat \<Rightarrow> (sent_data \<times> answers) list \<Rightarrow> (picture \<times> nat option \<times> nat \<times> instant) list" where
  "pending_frames frame_duration ((DataAgain, gs) # ps) = answer_frames frame_duration gs @ pending_frames frame_duration ps"
| "pending_frames frame_duration ps = []"

definition packet_frames :: "nat \<Rightarrow> video_answers \<Rightarrow> (picture \<times> nat option \<times> nat \<times> instant) list" where
  "packet_frames frame_duration va =
     answer_frames frame_duration (va_first va) @ pending_frames frame_duration (va_pending va) @
     answer_frames frame_duration (va_last va)"

definition packet_open :: "video_answers \<Rightarrow> bool" where
  "packet_open va \<longleftrightarrow> all_open (va_first va) \<and> (\<forall>p \<in> set (va_pending va). all_open (snd p)) \<and> all_open (va_last va)"

lemma pending_shows: "\<forall>p \<in> set ps. all_open (snd p) \<Longrightarrow> shows_frames (pending_loop d ps k) (pending_frames d ps) k"
proof (induction d ps arbitrary: k rule: pending_frames.induct)
  case (1 d gs ps)
  then show ?case by (simp add: run_then_shows drain_shows)
qed (simp_all add: shows_frames_def shown_Nil)

lemma submit_shows: "packet_open va \<Longrightarrow> shows_frames (submit_video_packet d va k) (packet_frames d va) k"
  by (cases "va_send va")
    (simp_all add: submit_video_packet_def packet_frames_def packet_open_def run_then_shows drain_shows pending_shows
      shows_frames_def [of "(Some (Inl _), _)"])

text \<open>All pictures of a file, through the decoder.\<close>

definition default_duration :: "selected_tracks \<Rightarrow> nat" where
  "default_duration tracks = (case sl_video_default_duration_ns tracks of Some d \<Rightarrow> d | None \<Rightarrow> DEFAULT_FRAME_DURATION_NS)"

definition decode_video :: "('d, 'o, 'a) media \<Rightarrow> selected_tracks \<Rightarrow> packet \<Rightarrow> 'd \<Rightarrow> video_answers \<times> 'd" where
  "decode_video M tracks p =
     (case packet_times tracks (pk_timestamp p) (pk_duration p) of
        (timestamp, frame_duration) \<Rightarrow>
          md_decode M (pk_data p) (timestamp_ns_to_i64 timestamp) (timestamp_ns_to_i64 frame_duration))"

fun file_frames ::
  "('d, 'o, 'a) media \<Rightarrow> selected_tracks \<Rightarrow> demuxed list \<Rightarrow> 'd \<Rightarrow> (picture \<times> nat option \<times> nat \<times> instant) list" where
  "file_frames M tracks (NextFrame p _ # ds) video =
     (if pk_track p = sl_video_track tracks
      then case decode_video M tracks p video of
             (va, video) \<Rightarrow> packet_frames (snd (packet_times tracks (pk_timestamp p) (pk_duration p))) va @ file_frames M tracks ds video
      else file_frames M tracks ds video)"
| "file_frames M tracks (NextEnd # ds) video = answer_frames (default_duration tracks) (md_drain M video)"
| "file_frames M tracks ds video = []"

text \<open>Nobody closes the window while the file is played.\<close>

definition stays_open :: "('d, 'o, 'a) media \<Rightarrow> demuxed list \<Rightarrow> bool" where
  "stays_open M ds \<longleftrightarrow> (\<forall>p. NextFrame p True \<notin> set ds) \<and>
     (\<forall>data ts d video. packet_open (fst (md_decode M data ts d video))) \<and> (\<forall>video. all_open (md_drain M video))"

lemma play_audio_keeps:
  "pb_video (play_audio M tracks p s) = pb_video s" "pb_clock (play_audio M tracks p s) = pb_clock s"
  "pb_sent (play_audio M tracks p s) = pb_sent s"
  by (auto simp: play_audio_def append_samples_def split: option.splits prod.splits sum.splits)

lemma play_loop_shows:
  assumes "stays_open M ds" and "play_loop M tracks ds s = (Some (Ok ()), s')"
  shows "pb_sent s' = pb_sent s @ shown (file_frames M tracks ds (pb_video s)) (pb_clock s)"
  using assms
proof (induction M tracks ds s rule: play_loop.induct)
  case (3 M tracks ds s)
  then show ?case
    using drain_shows [of "md_drain M (pb_video s)" "default_duration tracks" "pb_clock s"]
    by (auto simp: shows_frames_def stays_open_def simp flip: default_duration_def split: prod.splits)
next
  case (4 M tracks p receiver_gone ds s)
  from "4.prems" have gone: "\<not> receiver_gone" and open_ds: "stays_open M ds"
    by (cases receiver_gone; auto simp: stays_open_def)+
  show ?case
  proof (cases "pk_track p = sl_video_track tracks")
    case True
    obtain va video where d: "decode_video M tracks p (pb_video s) = (va, video)" by fastforce
    define dur where "dur = snd (packet_times tracks (pk_timestamp p) (pk_duration p))"
    obtain res sent k where r: "submit_video_packet dur va (pb_clock s) = (res, sent, k)" by (metis prod_cases3)
    have pv: "play_video M tracks p s = (res, s\<lparr>pb_video := video, pb_clock := k, pb_sent := pb_sent s @ sent\<rparr>)"
      using d r by (simp add: play_video_def decode_video_def dur_def split: prod.splits)
    have "packet_open va" using d "4.prems"(1) by (auto simp: stays_open_def decode_video_def split: prod.splits) (metis fst_conv)
    from submit_shows [OF this, of dur "pb_clock s"] r "4.prems" gone True pv
    have "res = Some (Ok ())" and sent: "(sent, k) = (shown (packet_frames dur va) (pb_clock s), clock_after (map snd (packet_frames dur va)) (pb_clock s))"
      by (auto simp: shows_frames_def split: option.splits sum.splits)
    with "4.IH"(1) [OF gone True pv [symmetric]] open_ds "4.prems" gone True pv d show ?thesis
      by (auto simp: shown_append simp flip: dur_def)
  next
    case False
    with "4.IH"(2) [OF gone False open_ds] "4.prems" gone show ?thesis
      by (simp add: play_audio_keeps)
  qed
qed auto


section \<open>What is heard\<close>

text \<open>The samples of all packets of the audio track that can be decoded, in order.\<close>

fun file_samples :: "('d, 'o, 'a) media \<Rightarrow> selected_tracks \<Rightarrow> audio_track \<Rightarrow> demuxed list \<Rightarrow> 'o \<Rightarrow> 'a list" where
  "file_samples M tracks track (NextFrame p _ # ds) opus =
     (if pk_track p = sl_video_track tracks \<or> pk_track p \<noteq> at_track track then file_samples M tracks track ds opus
      else case md_opus M (pk_data p) opus of
             (Inl _, opus) \<Rightarrow> file_samples M tracks track ds opus
           | (Inr (samples, scratch), opus) \<Rightarrow>
               take (samples * at_channels track) scratch @ file_samples M tracks track ds opus)"
| "file_samples M tracks track ds opus = []"

text \<open>The decoder's buffer holds the samples that it reports.\<close>

definition opus_fills :: "('d, 'o, 'a) media \<Rightarrow> nat \<Rightarrow> bool" where
  "opus_fills M channels \<longleftrightarrow>
     (\<forall>data opus samples scratch opus'. md_opus M data opus = (Inr (samples, scratch), opus') \<longrightarrow> samples * channels \<le> length scratch)"

lemma interleaved_deinterleave:
  assumes "samples * channels \<le> length scratch"
  shows "interleaved zero channels samples (deinterleave channels samples scratch) = take (samples * channels) scratch"
proof -
  have "concat (map (\<lambda>f. map (\<lambda>c. scratch ! (f * channels + c)) [0..<channels]) [0..<n]) = take (n * channels) scratch"
    if "n * channels \<le> length scratch" for n
    using that
  proof (induction n)
    case (Suc n)
    have "map (\<lambda>c. scratch ! (n * channels + c)) [0..<channels] = take channels (drop (n * channels) scratch)"
      using Suc.prems by (intro nth_equalityI) auto
    with Suc show ?case by (simp add: take_add add.commute [of channels])
  qed simp
  note * = this [OF assms]
  have "interleaved zero channels samples (deinterleave channels samples scratch) =
      concat (map (\<lambda>f. map (\<lambda>c. scratch ! (f * channels + c)) [0..<channels]) [0..<samples])"
    by (auto simp: interleaved_def deinterleave_def intro!: arg_cong [where f = concat])
  with * show ?thesis by simp
qed

lemma append_samples_simps [simp]:
  "concat (pb_played (append_samples samples s)) = concat (pb_played s) @ samples"
  "pb_audio (append_samples samples s) = pb_audio s" "pb_output (append_samples samples s) = pb_output s"
  "pb_pre_skip (append_samples samples s) = pb_pre_skip s"
  by (simp_all add: append_samples_def)

lemma play_audio_hears:
  assumes "sl_audio tracks = Some track" and "pb_audio s = Some opus" and "pb_output s" and "opus_fills M (at_channels track)"
    and "pk_track p \<noteq> sl_video_track tracks"
  shows "\<exists>opus' remaining samples. pb_audio (play_audio M tracks p s) = Some opus' \<and> pb_output (play_audio M tracks p s) \<and>
    pb_pre_skip (play_audio M tracks p s) = remaining \<and> concat (pb_played (play_audio M tracks p s)) = concat (pb_played s) @ samples \<and>
    (\<forall>ds. samples @ drop (remaining * at_channels track) (file_samples M tracks track ds opus') =
       drop (pb_pre_skip s * at_channels track) (file_samples M tracks track (NextFrame p g # ds) opus))"
proof (cases "pk_track p = at_track track")
  case False
  with assms show ?thesis by (simp add: play_audio_def)
next
  case True
  let ?ch = "at_channels track"
  show ?thesis
  proof (cases "md_opus M (pk_data p) opus")
    case (Pair r opus')
    show ?thesis
    proof (cases r)
      case (Inl e)
      with Pair assms True show ?thesis by (simp add: play_audio_def decode_packet_def)
    next
      case (Inr b)
      obtain n scratch where b: "b = (n, scratch)" by fastforce
      have n: "n * ?ch \<le> length scratch" using assms(4) Pair Inr b unfolding opus_fills_def by blast
      let ?k = "min (pb_pre_skip s) n"
      have il: "interleave_audio_buffer (md_zero M) n ?ch (deinterleave ?ch n scratch) (pb_pre_skip s) =
          (drop (?k * ?ch) (take (n * ?ch) scratch), pb_pre_skip s - ?k)"
        by (simp add: interleave_is_drop interleaved_deinterleave [OF n])
      have "drop (?k * ?ch) (take (n * ?ch) scratch) @ drop ((pb_pre_skip s - ?k) * ?ch) xs =
          drop (pb_pre_skip s * ?ch) (take (n * ?ch) scratch @ xs)" for xs
        using n by (cases "pb_pre_skip s \<le> n") (simp_all add: diff_mult_distrib min_absorb1 min_absorb2)
      then have cut: "\<forall>ds. drop (?k * ?ch) (take (n * ?ch) scratch) @
            drop ((pb_pre_skip s - ?k) * ?ch) (file_samples M tracks track ds opus') =
          drop (pb_pre_skip s * ?ch) (file_samples M tracks track (NextFrame p g # ds) opus)"
        using Pair Inr b True assms(5) by simp
      have "play_audio M tracks p s = append_samples (drop (?k * ?ch) (take (n * ?ch) scratch))
          (s\<lparr>pb_audio := Some opus', pb_pre_skip := pb_pre_skip s - ?k\<rparr>)"
        using Pair Inr b assms True il by (simp add: play_audio_def decode_packet_def)
      with cut show ?thesis using assms(3) by (intro exI [of _ opus'] exI) (auto simp del: file_samples.simps)
    qed
  qed
qed

lemma play_video_keeps:
  assumes "play_video M tracks p s = (res, s')"
  shows "pb_audio s' = pb_audio s" "pb_output s' = pb_output s" "pb_pre_skip s' = pb_pre_skip s" "pb_played s' = pb_played s"
  using assms by (auto simp: play_video_def Let_def split: prod.splits)

lemma play_loop_hears:
  assumes "play_loop M tracks ds s = (Some (Ok ()), s')" and "\<forall>p. NextFrame p True \<notin> set ds"
    and "sl_audio tracks = Some track" and "pb_audio s = Some opus" and "pb_output s" and "opus_fills M (at_channels track)"
  shows "concat (pb_played s') = concat (pb_played s) @ drop (pb_pre_skip s * at_channels track) (file_samples M tracks track ds opus)"
  using assms
proof (induction M tracks ds s arbitrary: opus rule: play_loop.induct)
  case (3 M tracks ds s)
  then show ?case by (auto split: prod.splits)
next
  case (4 M tracks p receiver_gone ds s)
  from "4.prems"(2) have gone: "\<not> receiver_gone" and ds: "\<forall>p. NextFrame p True \<notin> set ds"
    by (cases receiver_gone; auto)+
  show ?case
  proof (cases "pk_track p = sl_video_track tracks")
    case True
    obtain res s1 where pv: "play_video M tracks p s = (res, s1)" by fastforce
    with "4.prems"(1) gone True have res: "res = Some (Ok ())" and l: "play_loop M tracks ds s1 = (Some (Ok ()), s')"
      by (auto split: option.splits sum.splits)
    from "4.IH"(1) [OF gone True pv [symmetric]] res l ds "4.prems" True play_video_keeps [OF pv] show ?thesis by simp
  next
    case False
    from play_audio_hears [OF "4.prems"(3-6) False, of receiver_gone]
    obtain opus' samples where a: "pb_audio (play_audio M tracks p s) = Some opus'" "pb_output (play_audio M tracks p s)"
      "concat (pb_played (play_audio M tracks p s)) = concat (pb_played s) @ samples"
      "samples @ drop (pb_pre_skip (play_audio M tracks p s) * at_channels track) (file_samples M tracks track ds opus') =
         drop (pb_pre_skip s * at_channels track) (file_samples M tracks track (NextFrame p receiver_gone # ds) opus)" by metis
    have "play_loop M tracks ds (play_audio M tracks p s) = (Some (Ok ()), s')" using "4.prems"(1) gone False by simp
    from "4.IH"(2) [OF gone False this ds "4.prems"(3) a(1,2) "4.prems"(6)] show ?thesis
      by (simp only: a(3) append_assoc a(4))
  qed
qed auto


section \<open>The whole file\<close>

text \<open>C26. A file is played as it is. When playing ends well and nobody closed the window, the frames sent are the
  pictures that the decoder made of the packets of the video track, in order, those that can be
  converted, each at the instant at which the clock lets it through; and with a usable audio track and
  an open device, the samples played are those that the audio decoder made of its packets, in order
  and unchanged, but for the skip that the track's header asks for.\<close>

theorem playback_follows_the_file:
  assumes "play_media_file M path now ds = (Some (Ok ()), Some s)" and "stays_open M ds"
  shows "\<exists>scale entries tracks video. md_demux M = Ok (scale, entries) \<and> select_tracks scale entries = Ok tracks \<and>
    md_video_new M = Ok video \<and>
    pb_sent s = shown (file_frames M tracks ds video) (playback_clock_new now) \<and>
    (\<forall>track opus. sl_audio tracks = Some track \<and> md_audio_new M (at_sample_rate track) (at_channels track) = Ok opus \<and>
       \<not> isl (audio_output_new (at_channels track) (at_sample_rate track) (md_device M)) \<and> opus_fills M (at_channels track) \<longrightarrow>
       concat (pb_played s) = drop (at_pre_skip track * at_channels track) (file_samples M tracks track ds opus))"
proof -
  obtain scale entries tracks s0 where d: "md_demux M = Inr (scale, entries)" "select_tracks scale entries = Inr tracks"
    and s0: "play_start M tracks now = Inr s0" and l: "play_loop M tracks ds s0 = (Some (Ok ()), s)"
    using assms(1) by (auto simp: play_media_file_def split: sum.splits prod.splits)
  obtain video where v: "md_video_new M = Inr video"
    and f0: "pb_video s0 = video" "pb_clock s0 = playback_clock_new now" "pb_sent s0 = []" "pb_played s0 = []"
    using s0 by (auto simp: play_start_def split: sum.splits)
  have "concat (pb_played s) = drop (at_pre_skip track * at_channels track) (file_samples M tracks track ds opus)"
    if t: "sl_audio tracks = Some track" "md_audio_new M (at_sample_rate track) (at_channels track) = Ok opus"
      "\<not> isl (audio_output_new (at_channels track) (at_sample_rate track) (md_device M))" "opus_fills M (at_channels track)" for track opus
  proof -
    have "pb_audio s0 = Some opus" "pb_output s0" "pb_pre_skip s0 = at_pre_skip track"
      using s0 t v by (auto simp: play_start_def opus_decoder_new_def)
    with play_loop_hears [OF l _ t(1) _ _ t(4)] assms(2) f0 show ?thesis by (auto simp: stays_open_def)
  qed
  with d v play_loop_shows [OF assms(2) l] f0 show ?thesis by auto
qed

text \<open>A file with one picture and one packet of three samples for two channels, of which two are skipped.\<close>

definition demo_tracks :: "track_entry list" where
  "demo_tracks =
     [\<lparr>te_number = 2, te_type = TrackVideo, te_codec_id = ''V_AV1'', te_default_duration = None, te_audio = None,
       te_codec_private = None\<rparr>,
      \<lparr>te_number = 3, te_type = TrackAudio, te_codec_id = ''A_OPUS'', te_default_duration = None,
       te_audio = Some \<lparr>ae_channels = 2, ae_sampling_frequency = Fin 48000, ae_output_sampling_frequency = None\<rparr>,
       te_codec_private = Some [79, 112, 117, 115, 72, 101, 97, 100, 1, 2, 2, 0, 0, 0, 0, 0, 0, 0, 0]\<rparr>]"

definition demo_audio :: audio_track where
  "demo_audio = \<lparr>at_track = 3, at_channels = 2, at_sample_rate = 48000, at_pre_skip = 2\<rparr>"

definition demo_selected :: selected_tracks where
  "demo_selected = \<lparr>sl_timestamp_scale_ns = 2, sl_video_track = 2, sl_video_default_duration_ns = None, sl_audio = Some demo_audio\<rparr>"

definition demo_media :: "(unit, unit, nat) media" where
  "demo_media = \<lparr>md_open = Ok (), md_demux = Ok (2, demo_tracks), md_video_new = Ok (), md_audio_new = (\<lambda>_ _. Ok ()), md_device = Ok (),
     md_decode = (\<lambda>data ts d video. (\<lparr>va_send = DataSent,
        va_first = [(GotPicture demo_picture d (Some ts), 10, True), (PictureAgain, 10, True)],
        va_pending = [(DataSent, [])], va_last = [(PictureAgain, 10, True)]\<rparr>, video)),
     md_drain = (\<lambda>_. [(PictureAgain, 20, True)]),
     md_opus = (\<lambda>data opus. (Ok (length data div 2, map unat data), opus)), md_zero = 0\<rparr>"

definition demo_packets :: "demuxed list" where
  "demo_packets = [NextFrame \<lparr>pk_track = 2, pk_timestamp = 0, pk_duration = None, pk_data = [0]\<rparr> False,
     NextFrame \<lparr>pk_track = 3, pk_timestamp = 0, pk_duration = None, pk_data = [4, 5, 6, 7, 8, 9]\<rparr> False, NextEnd]"

lemma demo_select: "select_tracks 2 demo_tracks = Ok demo_selected"
proof -
  have "as_bytes ''OpusHead'' = [79, 112, 117, 115, 72, 101, 97, 100]" by (simp add: as_bytes_def)
  then show ?thesis
    by (simp add: select_tracks_def demo_tracks_def parse_audio_track_def parse_opus_head_def Let_def DEFAULT_AUDIO_SAMPLE_RATE_def
        demo_selected_def demo_audio_def)
qed

lemma demo_play: "\<exists>s. play_media_file demo_media ''m'' 0 demo_packets = (Some (Ok ()), Some s)"
proof -
  have l: "\<exists>s. play_loop demo_media demo_selected demo_packets s0 = (Some (Ok ()), s)" for s0
    by (simp add: demo_packets_def demo_selected_def play_video_def packet_times_def submit_video_packet_def
        run_then_def Let_def demo_media_def split: option.splits prod.splits)
  have "md_open demo_media = Ok ()" "md_demux demo_media = Ok (2, demo_tracks)" "\<exists>s. play_start demo_media demo_selected 0 = Ok s"
    by (simp_all add: demo_media_def play_start_def opus_decoder_new_def split: option.splits)
  then obtain s0 where s0: "play_start demo_media demo_selected 0 = Ok s0" and
    m: "md_open demo_media = Ok ()" "md_demux demo_media = Ok (2, demo_tracks)" by blast
  from l [of s0] m s0 show ?thesis by (auto simp: play_media_file_def demo_select)
qed

theorem playback_follows_the_file_witness:
  "\<exists>s. play_media_file demo_media ''m'' 0 demo_packets = (Some (Ok ()), Some s) \<and> concat (pb_played s) = [8, 9]"
proof -
  obtain s where s: "play_media_file demo_media ''m'' 0 demo_packets = (Some (Ok ()), Some s)" using demo_play by blast
  have m: "md_demux demo_media = Ok (2, demo_tracks)" "md_audio_new demo_media 48000 2 = Ok ()" "md_device demo_media = Ok ()"
    by (simp_all add: demo_media_def)
  have "stays_open demo_media demo_packets" "opus_fills demo_media 2"
    by (auto simp: stays_open_def demo_media_def demo_packets_def packet_open_def all_open_def opus_fills_def)
  with playback_follows_the_file [OF s] m
  have "concat (pb_played s) = drop 4 (file_samples demo_media demo_selected demo_audio demo_packets ())"
    by (auto simp: demo_select demo_selected_def demo_audio_def audio_output_new_def)
  also have "\<dots> = [8, 9]" by (simp add: demo_media_def demo_packets_def demo_selected_def demo_audio_def)
  finally show ?thesis using s by blast
qed

end
