(* ===== verification/Av_Shader.thy ===== *)
theory Av_Shader
  imports Av_Frames F32
begin

text \<open>
  What the overlay hands to its shader, in single precision: the uniforms, the corner of the picture in the
  coordinates of the clip space, and the rectangle it may draw in, \<^verbatim>\<open>mitb-av/src/program.rs\<close>,
  \<^verbatim>\<open>program/pipeline.rs\<close>, \<^verbatim>\<open>program/pipeline/instance.rs\<close> and \<^verbatim>\<open>program/pipeline/uniforms.rs\<close>, on top of
  the textures of \<open>Av_Frames\<close>.
\<close>

section \<open>Sizes and rectangles\<close>

type_synonym fsize = "f32 \<times> f32"

definition fsize_mul :: "fsize \<Rightarrow> f32 \<Rightarrow> fsize" where
  "fsize_mul s r = (fst s * r, snd s * r)"

definition fsize_div :: "fsize \<Rightarrow> f32 \<Rightarrow> fsize" where
  "fsize_div s r = (fst s / r, snd s / r)"

definition fsize_of :: "nat \<times> nat \<Rightarrow> fsize" where
  "fsize_of s = (lit (of_nat (fst s)), lit (of_nat (snd s)))"

record rectangle =
  rc_x :: f32
  rc_y :: f32
  rc_width :: f32
  rc_height :: f32

section \<open>Uniforms and vertices\<close>

definition instance_frame :: "rectangle \<Rightarrow> fsize \<Rightarrow> f32 \<times> f32" where
  "instance_frame bounds target =
     (lit (- 1) + (rc_x bounds / fst target) * lit 2,
      lit (- 1) + ((snd target - (rc_height bounds + rc_y bounds)) / snd target) * lit 2)"

record uniforms =
  un_sampling_factor :: "f32 \<times> f32"
  un_size :: "f32 \<times> f32"
  un_scale :: "f32 \<times> f32"

definition uniforms_new :: "fsize \<Rightarrow> fsize \<Rightarrow> f32 \<Rightarrow> fsize \<Rightarrow> uniforms" where
  "uniforms_new size' image_dimensions' sampling_factor' target =
     \<lparr>un_sampling_factor = (sampling_factor', sampling_factor'), un_size = size',
      un_scale = (fst target / fst image_dimensions' / lit 2 * fst image_dimensions',
                  snd target / snd image_dimensions' / lit 2 * snd image_dimensions')\<rparr>"

section \<open>Preparing and drawing\<close>

text \<open>The whole pipeline: its texture, with the picture's size and factor, as in \<open>Av_Frames\<close>, and the buffers.\<close>

record shader_pipeline =
  sl_texture :: pipeline
  sl_uniforms :: "uniforms option"
  sl_vertex :: "f32 \<times> f32"
  sl_scale_factor :: f32

definition shader_pipeline_new :: shader_pipeline where
  "shader_pipeline_new =
     \<lparr>sl_texture = \<lparr>pl_texture = None, pl_uniforms = None, pl_writes = []\<rparr>, sl_uniforms = None,
      sl_vertex = instance_frame \<lparr>rc_x = lit 0, rc_y = lit 0, rc_width = lit 1, rc_height = lit 1\<rparr> (lit 1, lit 1),
      sl_scale_factor = lit 1\<rparr>"

definition update_uniforms :: "uniforms \<Rightarrow> shader_pipeline \<Rightarrow> shader_pipeline" where
  "update_uniforms u pl = pl\<lparr>sl_uniforms := Some u\<rparr>"

definition update_vertices :: "rectangle \<Rightarrow> fsize \<Rightarrow> f32 \<Rightarrow> shader_pipeline \<Rightarrow> shader_pipeline" where
  "update_vertices bounds target scale_factor pl =
     pl\<lparr>sl_scale_factor := scale_factor, sl_vertex := instance_frame bounds target\<rparr>"

text \<open>A primitive with the bounds it is drawn in, and \<^verbatim>\<open>Primitive::prepare\<close> for a viewport of a logical size and
  scale. A picture without texels is left pending.\<close>

definition shader_prepare ::
  "fsize \<Rightarrow> f32 \<Rightarrow> primitive \<times> rectangle \<Rightarrow> shader_pipeline \<Rightarrow> (primitive \<times> rectangle) \<times> shader_pipeline" where
  "shader_prepare target scale_factor pb pl =
     (let (p, bounds) = pb;
          size' = (rc_width bounds, rc_height bounds);
          u = uniforms_new size' (fsize_of (image_dimensions p)) (lit (of_nat (sampling_factor p))) target;
          (p', texture) = prepare p (sl_texture pl);
          finish = (\<lambda>pl. update_vertices bounds target scale_factor (update_uniforms u pl))
      in case p of
           Pending r \<Rightarrow> if ensure_texture (renderable_dimensions r) then ((p', bounds), finish (pl\<lparr>sl_texture := texture\<rparr>))
                        else ((p, bounds), pl)
         | Prepared _ _ \<Rightarrow> ((p', bounds), finish (pl\<lparr>sl_texture := texture\<rparr>)))"

text \<open>\<^verbatim>\<open>Pipeline::draw\<close>: nothing without a texture, otherwise six vertices of one instance, cut to a rectangle of
  pixels.\<close>

record draw_call =
  dc_scissor :: "int \<times> int \<times> int \<times> int"
  dc_vertex :: "f32 \<times> f32"
  dc_uniforms :: "uniforms option"
  dc_texture :: "nat \<times> nat"

definition as_u32 :: "f32 \<Rightarrow> int" where
  "as_u32 x = as_int32 0 (2 ^ 32 - 1) x"

definition shader_draw :: "rectangle \<Rightarrow> shader_pipeline \<Rightarrow> draw_call option" where
  "shader_draw bounds pl =
     (case pl_texture (sl_texture pl) of
        None \<Rightarrow> None
      | Some texture \<Rightarrow>
          let s = sl_scale_factor pl in
          Some \<lparr>dc_scissor = (as_u32 (rc_x bounds * s), as_u32 (rc_y bounds * s),
                              as_u32 (rc_width bounds * s), as_u32 (rc_height bounds * s)),
                dc_vertex = sl_vertex pl, dc_uniforms = sl_uniforms pl, dc_texture = texture\<rparr>)"

text \<open>Drawing the overlay: the program's primitive in bounds, prepared and drawn at once.\<close>

definition overlay_frame ::
  "fsize \<Rightarrow> f32 \<Rightarrow> rectangle \<Rightarrow> overlay \<times> shader_pipeline \<Rightarrow> draw_call option \<times> overlay \<times> shader_pipeline" where
  "overlay_frame target scale_factor bounds st =
     (let (p, ov) = overlay_draw (fst st);
          ((p', b'), pl) = shader_prepare target scale_factor (p, bounds) (snd st)
      in (shader_draw b' pl, ov, pl))"

section \<open>What is drawn\<close>

text \<open>The textures are those of \<open>Av_Frames\<close>.\<close>

lemma shader_prepare_textures:
  assumes "shader_prepare target scale_factor (p, bounds) pl = ((p', b'), pl')"
  shows "prepare p (sl_texture pl) = (p', sl_texture pl')" and "b' = bounds"
  using assms by (cases p; auto simp: shader_prepare_def Let_def update_vertices_def update_uniforms_def split: if_splits prod.splits)+


lemma f32_small [simp]: "lit (- 1) = Fl (- 1)" "lit 0 = Fl 0" "lit 1 = Fl 1" "lit 2 = Fl 2"
  using lit_exact [OF is_f32_int [of "- 1"]] lit_exact [OF is_f32_int [of 2]] by (simp_all add: lit_exact)

lemma lit_nat: "n \<le> 2 ^ 24 \<Longrightarrow> lit (of_nat n) = Fl (of_nat n)"
  using lit_exact [OF is_f32_int [of "int n"]] by simp

text \<open>Bounds that are the whole viewport have their corner in the corner of the clip space.\<close>

definition window_bounds :: "nat \<Rightarrow> nat \<Rightarrow> rectangle" where
  "window_bounds w h = \<lparr>rc_x = Fl 0, rc_y = Fl 0, rc_width = Fl (of_nat w), rc_height = Fl (of_nat h)\<rparr>"

lemma instance_frame_window:
  assumes "0 < w" and "0 < h" and "h \<le> 2 ^ 24"
  shows "instance_frame (window_bounds w h) (Fl (of_nat w), Fl (of_nat h)) = (Fl (- 1), Fl (- 1))"
  using assms by (simp add: instance_frame_def window_bounds_def f32_ops lit_nat)

text \<open>Preparing leaves a texture of the picture's size.\<close>

lemma prepare_texture:
  "ensure_texture (renderable_dimensions r) \<Longrightarrow> pl_texture (snd (prepare (Pending r) pl)) = Some (renderable_dimensions r)"
  by (auto simp: Let_def upload_frame_def recreate_texture_if_needed_def)

lemma overlay_frame_pending:
  assumes "ov_data ov = Some r" and "ensure_texture (renderable_dimensions r)"
    and "overlay_frame target s bounds (ov, pl) = (call, ov', pl')"
  shows "\<exists>c u. call = Some c \<and> dc_texture c = renderable_dimensions r \<and> dc_vertex c = instance_frame bounds target
      \<and> dc_uniforms c = Some u
      \<and> u = uniforms_new (rc_width bounds, rc_height bounds) (fsize_of (renderable_dimensions r))
              (lit (of_nat (downsampling_factor r))) target
      \<and> dc_scissor c = (as_u32 (rc_x bounds * s), as_u32 (rc_y bounds * s), as_u32 (rc_width bounds * s), as_u32 (rc_height bounds * s))
      \<and> pl_texture (sl_texture pl') = Some (renderable_dimensions r) \<and> ov' = ov\<lparr>ov_data := None\<rparr>"
  using assms prepare_texture [OF assms(2), of "sl_texture pl"]
  by (auto simp: overlay_frame_def overlay_draw_def shader_prepare_def shader_draw_def Let_def update_vertices_def update_uniforms_def
      simp del: prepare.simps split: prod.splits)

text \<open>A redraw without a new picture makes the same call, as long as the program knows the picture's size and factor.\<close>

lemma overlay_frame_again:
  assumes "ov_data ov = Some r" and "ensure_texture (renderable_dimensions r)"
    and "ov_dimensions ov = renderable_dimensions r" and "ov_sampling_factor ov = downsampling_factor r"
    and "overlay_frame target s bounds (ov, pl) = (call, ov', pl')"
  shows "fst (overlay_frame target s bounds (ov', pl')) = call"
  using overlay_frame_pending [OF assms(1,2,5)] assms(3,4)
  by (auto simp: overlay_frame_def overlay_draw_def shader_prepare_def shader_draw_def Let_def update_vertices_def update_uniforms_def
      split: prod.splits)

text \<open>
  C0. In a window of positive size, up to 16777216 in each direction, the overlay in bounds that are the window
  draws a new, non-empty picture from the corner of the clip space, over the size of the window, cut to
  a rectangle that starts at the origin, with a texture of the picture's size and its factor of downsampling; and a redraw of the
  program made for this picture, without a new one, makes the same call, in single precision.
\<close>

theorem picture_fills_the_window:
  assumes "0 < w" and "0 < h" and "w \<le> 2 ^ 24" and "h \<le> 2 ^ 24"
    and "0 < fst (renderable_dimensions (renderable_from f))" and "0 < snd (renderable_dimensions (renderable_from f))"
    and frame: "overlay_frame (Fl (of_nat w), Fl (of_nat h)) (Fl s) (window_bounds w h) (overlay_new f, pl) = (call, ov', pl')"
  shows "\<exists>c u. call = Some c
      \<and> dc_vertex c = (Fl (- 1), Fl (- 1)) \<and> dc_texture c = renderable_dimensions (renderable_from f)
      \<and> fst (dc_scissor c) = 0 \<and> fst (snd (dc_scissor c)) = 0
      \<and> dc_uniforms c = Some u \<and> un_size u = (Fl (of_nat w), Fl (of_nat h))
      \<and> un_sampling_factor u = (Fl (of_nat (downsampling_factor (renderable_from f))), Fl (of_nat (downsampling_factor (renderable_from f))))
      \<and> fst (overlay_frame (Fl (of_nat w), Fl (of_nat h)) (Fl s) (window_bounds w h) (ov', pl')) = Some c"
proof -
  let ?r = "renderable_from f"
  have ok: "ov_data (overlay_new f) = Some ?r" "ensure_texture (renderable_dimensions ?r)"
    "ov_dimensions (overlay_new f) = renderable_dimensions ?r" "ov_sampling_factor (overlay_new f) = downsampling_factor ?r"
    using assms(5,6) by (simp_all add: overlay_new_def ensure_texture_def Let_def)
  have k: "lit (of_nat (downsampling_factor ?r)) = Fl (of_nat (downsampling_factor ?r))"
    by (rule lit_nat) (cases ?r; simp)
  show ?thesis using overlay_frame_pending [OF ok(1,2) frame] overlay_frame_again [OF ok frame] assms(1-4)
    by (auto simp: k instance_frame_window uniforms_new_def window_bounds_def [of w h] f32_ops as_u32_def trunc_rat_def
        instance_frame_window [unfolded window_bounds_def])
qed

definition demo_frame :: yuv where
  "demo_frame = \<lparr>yuv_format_of = FormatI420, yuv_data = replicate 6 7, yuv_width = 2, yuv_height = 2\<rparr>"

theorem picture_fills_the_window_witness:
  "\<exists>c. fst (overlay_frame (Fl 4, Fl 2) (Fl 1) (window_bounds 4 2) (overlay_new demo_frame, shader_pipeline_new)) = Some c
     \<and> dc_vertex c = (Fl (- 1), Fl (- 1)) \<and> dc_texture c = (2, 2)"
  using picture_fills_the_window [of 4 2 demo_frame 1 shader_pipeline_new]
  by (cases "overlay_frame (Fl 4, Fl 2) (Fl 1) (window_bounds 4 2) (overlay_new demo_frame, shader_pipeline_new)")
    (auto simp: demo_frame_def renderable_from_def)

end
