(* ===== verification/Policy_Env.thy ===== *)
theory Policy_Env
  imports Host_Runtime F64
begin

text \<open>
  What the example policies use of the SDK's prelude, \<^verbatim>\<open>mitb-sdk/src/lib.rs\<close>: prompts, rewards and log lines,
  over a world that the component runtime provides; and the subtraction and the error of rounding
  that their rewards need.
\<close>

section \<open>Prompts and reports\<close>

definition prompt :: "string \<Rightarrow> string + policy_action" where
  "prompt message = Ok (Perturb [InputText message, InputKey Enter])"

text \<open>The imported functions, over the state of the world.\<close>

record 'w policy_env =
  pe_random_u64 :: "'w \<Rightarrow> 64 word \<times> 'w"
  pe_random_bytes :: "nat \<Rightarrow> 'w \<Rightarrow> byte list \<times> 'w"
  pe_report_reward :: "f64 \<Rightarrow> 'w \<Rightarrow> (string + unit) \<times> 'w"
  pe_log :: "log_level \<Rightarrow> string \<Rightarrow> 'w \<Rightarrow> 'w"

text \<open>A world in which rewards are always taken, and that keeps those taken.\<close>

definition keeps_rewards :: "'w policy_env \<Rightarrow> ('w \<Rightarrow> f64 list) \<Rightarrow> bool" where
  "keeps_rewards E rewards \<longleftrightarrow>
     (\<forall>r w. fst (pe_report_reward E r w) = Ok () \<and> rewards (snd (pe_report_reward E r w)) = rewards w @ [r]) \<and>
     (\<forall>level message w. rewards (pe_log E level message w) = rewards w) \<and>
     (\<forall>w. rewards (snd (pe_random_u64 E w)) = rewards w) \<and> (\<forall>n w. rewards (snd (pe_random_bytes E n w)) = rewards w)"

section \<open>Subtraction, and the error of rounding\<close>

fun f_neg :: "f64 \<Rightarrow> f64" where
  "f_neg (Fin x) = Fin (- x)"
| "f_neg PInf = NInf"
| "f_neg NInf = PInf"
| "f_neg NaN = NaN"

definition f_sub :: "f64 \<Rightarrow> f64 \<Rightarrow> f64" where
  "f_sub x y = f_add x (f_neg y)"

lemma rv_error:
  assumes "0 \<le> x" and "x \<le> 1"
  shows "\<bar>rv x - x\<bar> \<le> 2 powi (- 52)"
proof (cases "x = 0")
  case False
  with assms have x: "0 < x" by simp
  have "(2 :: rat) powi expo x < 2 powi 1" using expo_bounds [of x] False assms(2) x by simp
  then have "expo x < 1" by (rule powi_le_iff)
  then have "ulp x \<le> 2 powi (- 52)" unfolding ulp_def by (intro powi_mono) simp
  with round_error [of 52 "- 1022" x] show ?thesis by (simp add: rv_round ulp_unit)
qed (simp add: rv_def)

end
