(* ===== verification/Number_Game.thy ===== *)
theory Number_Game
  imports Policy_Env
begin

text \<open>
  The example policy \<^verbatim>\<open>mitb-examples/number-game/src/lib.rs\<close>: a number is to be guessed, each guess is rewarded
  by its distance. The policy is a function of the settled screen, in the form the SDK's session
  calls it.
\<close>

section \<open>The policy\<close>

datatype game_state =
    GameInitial
  | GamePlaying "32 word option" string
  | GameFinished

record number_game =
  ng_state :: game_state
  ng_secret :: "32 word"

definition number_game_default :: "'w policy_env \<Rightarrow> 'w \<Rightarrow> number_game \<times> 'w" where
  "number_game_default E w =
     (case pe_random_u64 E w of (n, w) \<Rightarrow> (\<lparr>ng_state = GameInitial, ng_secret = ucast n\<rparr>, w))"

definition guess_pattern :: string where
  "guess_pattern = ''(?s)<guess>'' @ [CHR 0x5C] @ ''s*([^<]+?)'' @ [CHR 0x5C] @ ''s*</guess>''"

text \<open>\<^verbatim>\<open>u32::abs_diff\<close>.\<close>

definition abs_diff :: "32 word \<Rightarrow> 32 word \<Rightarrow> nat" where
  "abs_diff a b = (if unat b \<le> unat a then unat a - unat b else unat b - unat a)"

definition guess_reward :: "32 word \<Rightarrow> 32 word \<Rightarrow> f64" where
  "guess_reward guess secret =
     (let normalized_distance = f_div (f_of_nat (abs_diff guess secret)) (f_of_nat 4294967295)
      in f_clamp 0 1 (f_sub (Fin 1) normalized_distance))"

definition guess_reply :: "32 word option \<Rightarrow> 32 word \<Rightarrow> 32 word \<Rightarrow> string" where
  "guess_reply previous guess secret =
     (case previous of
        None \<Rightarrow> ''Nope, guess again.''
      | Some previous_guess \<Rightarrow>
          let direction = (if guess > secret then ''high'' else ''low'');
              current_distance = abs_diff guess secret;
              previous_distance = abs_diff previous_guess secret
          in if current_distance < previous_distance
             then ''Nope, you're too '' @ direction @ '', that's closer than '' @ dec_of_nat (unat previous_guess) @ ''.''
             else if current_distance > previous_distance
             then ''Nope, you're too '' @ direction @ '', that's further than '' @ dec_of_nat (unat previous_guess) @ ''.''
             else ''Nope, guess again.'')"

definition first_prompt :: string where
  "first_prompt = ''I'm thinking of a 32-bit unsigned integer. Can you guess what it is? Reply in the format '' @
     ''<guess>N</guess> where N is your guess.''"

text \<open>\<^verbatim>\<open>act\<close>: the arm of a game that is going on, for a captured guess that is new.\<close>

definition take_guess ::
  "'w policy_env \<Rightarrow> 32 word option \<Rightarrow> string \<Rightarrow> number_game \<Rightarrow> 'w \<Rightarrow> (string + policy_action) \<times> number_game \<times> 'w" where
  "take_guess E previous guess_text g w =
     (case parse_unsigned 32 guess_text of
        None \<Rightarrow> (prompt ''I couldn't parse your guess. Use format <guess>N</guess> with a u32 value.'', g, w)
      | Some n \<Rightarrow>
          let guess = word_of_nat n in
          if guess = ng_secret g then
            (case pe_report_reward E (Fin 1) w of
               (Inl e, w) \<Rightarrow> (Err e, g\<lparr>ng_state := GamePlaying previous guess_text\<rparr>, w)
             | (Inr _, w) \<Rightarrow> (Ok ActionWait, g\<lparr>ng_state := GameFinished\<rparr>, w))
          else
            let g' = g\<lparr>ng_state := GamePlaying (Some guess) guess_text\<rparr> in
            (case pe_report_reward E (guess_reward guess (ng_secret g)) w of
               (Inl e, w) \<Rightarrow> (Err e, g', w)
             | (Inr _, w) \<Rightarrow> (prompt (guess_reply previous guess (ng_secret g)), g', w)))"

definition number_game_act ::
  "'x regex_ops \<Rightarrow> 'w policy_env \<Rightarrow> number_game \<times> 'w \<Rightarrow> string \<Rightarrow> (string + policy_action) \<times> number_game \<times> 'w" where
  "number_game_act R E = (\<lambda>(g, w) contents.
     case ng_state g of
       GameInitial \<Rightarrow>
         (prompt first_prompt, g\<lparr>ng_state := GamePlaying None []\<rparr>,
          pe_log E LevelInfo (''The goal is: '' @ dec_of_nat (unat (ng_secret g))) w)
     | GameFinished \<Rightarrow>
         (case number_game_default E w of (g, w) \<Rightarrow> (prompt ''Want to play again? I have a new number in mind!'', g, w))
     | GamePlaying previous last_guess_text \<Rightarrow>
         (case regex_capture R contents guess_pattern 1 of
            Inl e \<Rightarrow> (Err e, g, w)
          | Inr None \<Rightarrow> (Ok ActionWait, g, w)
          | Inr (Some guess_text) \<Rightarrow>
              if last_guess_text = guess_text then (Ok ActionWait, g, w)
              else take_guess E previous guess_text g w))"

section \<open>Rewards rank guesses\<close>

lemma abs_diff_le: "abs_diff a b \<le> 4294967295"
proof -
  have "unat x < 2 ^ LENGTH(32)" for x :: "32 word" by (fact unsigned_less)
  from this [of a] this [of b] show ?thesis by (auto simp: abs_diff_def)
qed

lemma abs_diff_0: "abs_diff a b = 0 \<longleftrightarrow> a = b"
  by (auto simp: abs_diff_def simp flip: word_unat_eq_iff)

text \<open>The reward as a rational.\<close>

definition score :: "nat \<Rightarrow> rat" where
  "score d = rv (1 - rv (of_nat d / 4294967295))"

lemma distance_bounds:
  assumes "d \<le> 4294967295"
  shows "0 \<le> (of_nat d / 4294967295 :: rat)" "(of_nat d / 4294967295 :: rat) \<le> 1"
    and "0 \<le> rv (of_nat d / 4294967295)" "rv (of_nat d / 4294967295) \<le> 1"
proof -
  have "(of_nat d :: rat) \<le> of_nat 4294967295" using assms by (simp only: of_nat_le_iff)
  then show *: "0 \<le> (of_nat d / 4294967295 :: rat)" "(of_nat d / 4294967295 :: rat) \<le> 1" by simp_all
  then show "0 \<le> rv (of_nat d / 4294967295)" "rv (of_nat d / 4294967295) \<le> 1"
    using rnd_Fin [of "of_nat d / 4294967295" 1] by simp_all
qed

lemma score_bounds: "d \<le> 4294967295 \<Longrightarrow> 0 \<le> score d \<and> score d \<le> 1"
  using rnd_Fin [of "1 - rv (of_nat d / 4294967295)" 1] distance_bounds(3,4) [of d] by (simp add: score_def)

lemma guess_reward_score: "guess_reward guess secret = Fin (score (abs_diff guess secret))"
proof -
  let ?d = "abs_diff guess secret"
  note le = abs_diff_le [of guess secret]
  have "f_of_nat ?d = Fin (of_nat ?d)" "f_of_nat 4294967295 = Fin 4294967295"
    using f_of_nat_exact [of ?d] f_of_nat_exact [of 4294967295] le by simp_all
  then have "f_div (f_of_nat ?d) (f_of_nat 4294967295) = Fin (rv (of_nat ?d / 4294967295))"
    using rnd_Fin [of "of_nat ?d / 4294967295" 1] distance_bounds [OF le] by simp
  moreover have "rnd (1 - rv (of_nat ?d / 4294967295)) = Fin (score ?d)"
    using rnd_Fin [of "1 - rv (of_nat ?d / 4294967295)" 1] distance_bounds(3,4) [OF le] by (simp add: score_def)
  ultimately show ?thesis
    using score_bounds [OF le] by (simp add: guess_reward_def f_sub_def f_clamp_def)
qed

lemma score_0: "score 0 = 1"
proof -
  have "rv 1 = 1" using rv_nat [of 1] by simp
  then show ?thesis by (simp add: score_def rv_def [of 0])
qed

lemma score_error:
  assumes "d \<le> 4294967295"
  shows "\<bar>score d - (1 - of_nat d / 4294967295)\<bar> \<le> 2 * 2 powi (- 52)"
proof -
  note b = distance_bounds [OF assms]
  have "\<bar>rv (of_nat d / 4294967295) - of_nat d / 4294967295\<bar> \<le> 2 powi (- 52)" using b by (intro rv_error)
  moreover have "\<bar>score d - (1 - rv (of_nat d / 4294967295))\<bar> \<le> 2 powi (- 52)"
    unfolding score_def using b by (intro rv_error) simp_all
  ultimately show ?thesis by linarith
qed

lemma score_less:
  assumes "d < d'" and "d' \<le> 4294967295"
  shows "score d' < score d"
proof -
  have "(of_nat (Suc d) :: rat) \<le> of_nat d'" using assms(1) by (simp only: of_nat_le_iff Suc_le_eq)
  then have "(of_nat d + 1) / 4294967295 \<le> (of_nat d' / 4294967295 :: rat)" by (intro divide_right_mono) simp_all
  then have gap: "(of_nat d / 4294967295 :: rat) + 1 / 4294967295 \<le> of_nat d' / 4294967295" by (simp add: add_divide_distrib)
  have "4 * 2 powi (- 52) < (1 / 4294967295 :: rat)" by (simp add: power_int_minus)
  moreover have "d \<le> 4294967295" using assms by simp
  ultimately show ?thesis using gap score_error [of d] score_error [OF assms(2)] by linarith
qed

text \<open>Rewards rank guesses: in 64-bit floating point, the reward of a guess lies between 0 and 1, is 1 for
  the secret number only, and of two guesses the one that is nearer to the secret is rewarded more,
  by however little the distances differ.\<close>

theorem rewards_rank_guesses:
  "(\<exists>r. guess_reward guess secret = Fin r \<and> 0 \<le> r \<and> r \<le> 1 \<and> (r = 1 \<longleftrightarrow> guess = secret)) \<and>
   (f_lt (guess_reward guess secret) (guess_reward other secret) \<longleftrightarrow> abs_diff other secret < abs_diff guess secret)"
proof -
  have lt: "score (abs_diff a secret) < score (abs_diff b secret) \<longleftrightarrow> abs_diff b secret < abs_diff a secret" for a b
    using score_less [of "abs_diff a secret" "abs_diff b secret"] score_less [of "abs_diff b secret" "abs_diff a secret"]
      abs_diff_le [of a secret] abs_diff_le [of b secret]
    by (metis less_asym less_irrefl linorder_neqE_nat)
  have "score (abs_diff guess secret) = 1 \<longleftrightarrow> guess = secret"
    using lt [of guess secret] score_bounds [OF abs_diff_le] score_0 abs_diff_0 [of guess secret] abs_diff_0 [of secret secret]
    by (metis less_irrefl neq0_conv)
  with lt score_bounds [OF abs_diff_le [of guess secret]] show ?thesis by (auto simp: guess_reward_score)
qed

section \<open>A game\<close>

text \<open>What is captured on a screen, and the guesses that a sequence of captures makes: those that parse, when
  the text differs from that of the guess before.\<close>

definition captured :: "'x regex_ops \<Rightarrow> string \<Rightarrow> string option" where
  "captured R contents = (case regex_capture R contents guess_pattern 1 of Inr t \<Rightarrow> t | Inl _ \<Rightarrow> None)"

fun guesses :: "string \<Rightarrow> string option list \<Rightarrow> 32 word list" where
  "guesses last_text [] = []"
| "guesses last_text (None # ts) = guesses last_text ts"
| "guesses last_text (Some t # ts) =
     (if last_text = t then guesses last_text ts
      else case parse_unsigned 32 t of
             None \<Rightarrow> guesses last_text ts
           | Some n \<Rightarrow> word_of_nat n # guesses t ts)"

definition play :: "'x regex_ops \<Rightarrow> 'w policy_env \<Rightarrow> string list \<Rightarrow> number_game \<times> 'w \<Rightarrow> number_game \<times> 'w" where
  "play R E cs gw = fold (\<lambda>c gw. snd (number_game_act R E gw c)) cs gw"

lemma capture_cases: "rx_new R guess_pattern = Ok x \<Longrightarrow> regex_capture R c guess_pattern 1 = Ok (captured R c)"
  by (simp add: captured_def regex_capture_def regex_captures_def)

lemma play_guesses:
  assumes "keeps_rewards E rewards" and "rx_new R guess_pattern = Ok x"
    and "ng_state g = GamePlaying previous last_text" and "ng_secret g \<notin> set (guesses last_text (map (captured R) cs))"
  shows "\<exists>g' w' previous' last_text'. play R E cs (g, w) = (g', w') \<and> ng_state g' = GamePlaying previous' last_text' \<and>
    ng_secret g' = ng_secret g \<and>
    rewards w' = rewards w @ map (\<lambda>n. guess_reward n (ng_secret g)) (guesses last_text (map (captured R) cs)) \<and>
    (\<forall>ts. guesses last_text (map (captured R) cs @ ts) = guesses last_text (map (captured R) cs) @ guesses last_text' ts)"
  using assms(3,4)
proof (induction cs arbitrary: g w previous last_text)
  case (Cons c cs)
  note act = capture_cases [OF assms(2), of c]
  have skip: ?case if "number_game_act R E (g, w) c = (res, g, w)"
      "\<And>ts. guesses last_text (captured R c # ts) = guesses last_text ts" for res
    using that Cons.IH [OF Cons.prems(1)] Cons.prems(2) by (simp add: play_def)
  show ?case
  proof (cases "captured R c")
    case None
    then show ?thesis using skip act Cons.prems(1) by (simp add: number_game_act_def)
  next
    case (Some t)
    show ?thesis
    proof (cases "last_text = t")
      case True
      then show ?thesis using skip act Some Cons.prems(1) by (simp add: number_game_act_def)
    next
      case new: False
      show ?thesis
      proof (cases "parse_unsigned 32 t")
        case None
        then show ?thesis using skip act Some new Cons.prems(1) by (simp add: number_game_act_def take_guess_def)
      next
        case (Some n)
        let ?guess = "word_of_nat n :: 32 word" and ?w = "snd (pe_report_reward E (guess_reward (word_of_nat n) (ng_secret g)) w)"
        have "?guess \<noteq> ng_secret g" using Cons.prems(2) Some \<open>captured R c = Some t\<close> new by auto
        moreover have "pe_report_reward E r w = (Ok (), snd (pe_report_reward E r w))" for r
          using assms(1) by (metis keeps_rewards_def prod.collapse)
        ultimately have "snd (number_game_act R E (g, w) c) = (g\<lparr>ng_state := GamePlaying (Some ?guess) t\<rparr>, ?w)"
          using act \<open>captured R c = Some t\<close> new Some Cons.prems(1)
          by (simp add: number_game_act_def take_guess_def Let_def split: sum.splits prod.splits)
        moreover have "rewards ?w = rewards w @ [guess_reward ?guess (ng_secret g)]" using assms(1) by (simp add: keeps_rewards_def)
        ultimately show ?thesis
          using Cons.IH [of "g\<lparr>ng_state := GamePlaying (Some ?guess) t\<rparr>" "Some ?guess" t ?w] Cons.prems(2)
            \<open>captured R c = Some t\<close> new Some
          by (auto simp: play_def)
      qed
    qed
  qed
qed (simp add: play_def)

text \<open>A game rewards every guess once. From the first settled screen on, as long as the secret is not
  guessed, the rewards reported are those of the new guesses on the screens, in order: a screen
  without a guess, with a guess that does not parse, or still with the text of the last guess is not
  rewarded. The screen that brings the secret number ends the game, with a reward of 1.\<close>

theorem game_rewards_guesses:
  assumes "keeps_rewards E rewards" and "rx_new R guess_pattern = Ok x"
    and "ng_secret g \<notin> set (guesses [] (map (captured R) screens))" and "ng_state g = GameInitial"
  shows "let (g', w') = play R E (first # screens) (g, w) in
    rewards w' = rewards w @ map (\<lambda>n. guess_reward n (ng_secret g)) (guesses [] (map (captured R) screens)) \<and>
    ng_secret g' = ng_secret g \<and>
    (\<forall>c. guesses [] (map (captured R) (screens @ [c])) = guesses [] (map (captured R) screens) @ [ng_secret g] \<longrightarrow>
       (case number_game_act R E (g', w') c of (res, g'', w'') \<Rightarrow>
          res = Ok ActionWait \<and> ng_state g'' = GameFinished \<and> rewards w'' = rewards w' @ [Fin 1]))"
proof -
  let ?g = "g\<lparr>ng_state := GamePlaying None []\<rparr>" and
    ?w = "pe_log E LevelInfo (''The goal is: '' @ dec_of_nat (unat (ng_secret g))) w"
  have start: "play R E (first # screens) (g, w) = play R E screens (?g, ?w)" and w: "rewards ?w = rewards w"
    using assms(1,4) by (simp_all add: play_def number_game_act_def keeps_rewards_def)
  obtain g' w' previous last_text where p: "play R E screens (?g, ?w) = (g', w')" "ng_state g' = GamePlaying previous last_text"
      "ng_secret g' = ng_secret g"
      "rewards w' = rewards w @ map (\<lambda>n. guess_reward n (ng_secret g)) (guesses [] (map (captured R) screens))"
    and more_guesses: "\<And>ts. guesses [] (map (captured R) screens @ ts) = guesses [] (map (captured R) screens) @ guesses last_text ts"
    using play_guesses [OF assms(1,2), of ?g None "[]" screens ?w] assms(3) w by auto
  have "case number_game_act R E (g', w') c of (res, g'', w'') \<Rightarrow>
      res = Ok ActionWait \<and> ng_state g'' = GameFinished \<and> rewards w'' = rewards w' @ [Fin 1]"
    if "guesses last_text [captured R c] = [ng_secret g]" for c
  proof -
    from that obtain t n where t: "captured R c = Some t" "last_text \<noteq> t" "parse_unsigned 32 t = Some n" "word_of_nat n = ng_secret g"
      by (cases "captured R c") (auto split: if_splits option.splits)
    obtain w1 where "pe_report_reward E (Fin 1) w' = (Ok (), w1)" "rewards w1 = rewards w' @ [Fin 1]"
      using assms(1) by (metis keeps_rewards_def prod.collapse)
    with t p(2,3) capture_cases [OF assms(2), of c] show ?thesis by (simp add: number_game_act_def take_guess_def)
  qed
  moreover have "map (captured R) (screens @ [c]) = map (captured R) screens @ [captured R c]" for c by simp
  ultimately show ?thesis unfolding start p(1) Let_def prod.case using p(3,4) by (simp only: more_guesses same_append_eq) blast
qed

text \<open>A world that keeps the rewards and whose random numbers are 5, and a matcher that finds a one digit
  guess right behind its tag.\<close>

definition demo_env :: "f64 list policy_env" where
  "demo_env = \<lparr>pe_random_u64 = (\<lambda>w. (5, w)), pe_random_bytes = (\<lambda>n w. (replicate n 0, w)),
     pe_report_reward = (\<lambda>r w. (Ok (), w @ [r])), pe_log = (\<lambda>_ _ w. w)\<rparr>"

fun guess_tags :: "string \<Rightarrow> string list" where
  "guess_tags [] = []"
| "guess_tags (c # s) =
     (case strip_prefix ''<guess>'' (c # s) of
        Some (d # rest) \<Rightarrow> if strip_prefix ''</guess>'' rest \<noteq> None then [d] # guess_tags s else guess_tags s
      | _ \<Rightarrow> guess_tags s)"

definition tag_regex :: "unit regex_ops" where
  "tag_regex = \<lparr>rx_new = (\<lambda>_. Ok ()), rx_captures = (\<lambda>_ s. map (\<lambda>t i. if i = 1 then Some t else None) (guess_tags s))\<rparr>"

theorem game_rewards_guesses_witness:
  "snd (play tag_regex demo_env [[], ''<guess>5</guess>''] (\<lparr>ng_state = GameInitial, ng_secret = 7\<rparr>, [])) = [guess_reward 5 7]"
proof -
  have k: "keeps_rewards demo_env id" by (simp add: keeps_rewards_def demo_env_def)
  have c: "captured tag_regex ''<guess>5</guess>'' = Some ''5''" by code_simp
  have p: "parse_unsigned 32 ''5'' = Some 5"
    by (simp add: parse_unsigned_def is_ascii_digit_def byte_of_def nat_of_dec_def digit_val_def)
  have r: "rx_new tag_regex guess_pattern = Ok ()" by (simp add: tag_regex_def)
  have g: "guesses [] (map (captured tag_regex) [''<guess>5</guess>'']) = [5]" by (simp add: c p)
  from game_rewards_guesses [OF k r, of "\<lparr>ng_state = GameInitial, ng_secret = 7\<rparr>" "[''<guess>5</guess>'']" "[]" "[]"]
  show ?thesis unfolding g by (auto split: prod.splits)
qed

text \<open>The prompt that asks for a guess is itself a guess in the eyes of the policy: on a settled screen that
  shows nothing but this prompt, it answers that the guess could not be parsed.\<close>

lemma own_prompt_is_a_guess:
  "fst (number_game_act tag_regex demo_env (\<lparr>ng_state = GamePlaying None [], ng_secret = 7\<rparr>, []) first_prompt) =
     prompt ''I couldn't parse your guess. Use format <guess>N</guess> with a u32 value.''"
proof -
  have c: "regex_capture tag_regex first_prompt guess_pattern 1 = Ok (Some ''N'')" by code_simp
  have "parse_unsigned 32 ''N'' = None" by (simp add: parse_unsigned_def is_ascii_digit_def byte_of_def)
  with c show ?thesis by (simp add: number_game_act_def take_guess_def)
qed

end
