(* ===== verification/Always_Wait.thy ===== *)
theory Always_Wait
  imports Host_Runtime
begin

text \<open>
  The smallest example policy, \<^verbatim>\<open>mitb-examples/always-wait\<close>, and the host that runs it: it looks on and never writes to the child.
\<close>

definition always_wait_act :: "unit \<Rightarrow> string \<Rightarrow> (string + policy_action) \<times> unit" where
  "always_wait_act q contents = (Ok ActionWait, q)"

lemma always_wait_acted: "concat (map action_bytes (acted always_wait_act screens q)) = []"
  by (induction screens arbitrary: q) (auto simp: always_wait_act_def)

text \<open>Whatever the child shows, the host's loop goes on and the child has received nothing.\<close>

theorem always_wait_is_silent:
  assumes "device_works W received" and "\<forall>tk \<in> set ticks. quiet tk"
    and "hx_guest s = session_start ()" and "hx_writer s = Some d" and "\<not> hx_shutdown s"
  shows "\<exists>s' d'. host_loop opts W (sdk_guest always_wait_act) ticks s = (TickNext, s') \<and> hx_writer s' = Some d' \<and> received d' = received d"
proof -
  have act: "\<forall>q contents. \<not> isl (fst (always_wait_act q contents))" by (simp add: always_wait_act_def)
  have g: "hx_guest s = \<lparr>ps_idle = tracker_of [], ps_policy = ()\<rparr>" using assms(3) by (simp add: session_start_def tracker_of_def)
  have "settled_screens ([] @ map seen ticks) = settled_screens [] @ settled_screens (map seen ticks)"
    by (simp add: settled_screens_def)
  from quiet_loop [OF assms(1) act assms(2) g assms(4,5) this, of opts] show ?thesis by (simp add: always_wait_acted)
qed

end
