(* ===== verification/Treesitter.thy ===== *)
theory Treesitter
  imports Sdk_Util
begin

text \<open>
  The component \<^verbatim>\<open>mitb-examples/treesitter-provider/src/lib.rs\<close>, which offers parsing and queries to policies,
  with regular expressions in place of a parser. Finding all matches of an expression is a
  parameter. The locks are never poisoned, since nothing panics while one is held.
\<close>

section \<open>The interface\<close>

text \<open>The types of \<^verbatim>\<open>mitb-wit/wit/deps/treesitter.wit\<close>.\<close>

datatype query_error = UnsupportedLanguage | InvalidQuery | UnknownTree | UnknownQuery | QueryInternal
datatype parse_error = ParseUnsupportedLanguage | ParseFailed | ParseInternal

record point =
  pt_row :: "32 word"
  pt_column :: "32 word"

record span =
  sp_start_byte :: "32 word"
  sp_end_byte :: "32 word"
  sp_start :: point
  sp_end :: point

record capture =
  cp_name :: string
  cp_span :: span
  cp_text :: string

record query_match =
  qm_pattern_index :: "32 word"
  qm_captures :: "capture list"

section \<open>Lines\<close>

text \<open>The loop of \<^verbatim>\<open>LineIndex::new\<close>: the start of the first line, and one behind every line feed.\<close>

fun line_starts_from :: "nat \<Rightarrow> string \<Rightarrow> nat list \<Rightarrow> nat list" where
  "line_starts_from i [] starts = starts"
| "line_starts_from i (c # cs) starts = line_starts_from (Suc i) cs (if c = CHR 0x0A then starts @ [i + 1] else starts)"

definition line_index_new :: "string \<Rightarrow> nat list" where
  "line_index_new source = line_starts_from 0 source [0]"

text \<open>\<^verbatim>\<open>slice::partition_point\<close>, on a list in which the elements with the property come first.\<close>

definition partition_point :: "('a \<Rightarrow> bool) \<Rightarrow> 'a list \<Rightarrow> nat" where
  "partition_point P xs = length (takeWhile P xs)"

definition point_for_offset :: "nat list \<Rightarrow> nat \<Rightarrow> point" where
  "point_for_offset starts offset =
     (let row = partition_point (\<lambda>start. start \<le> offset) starts - 1;
          column = offset - starts ! row
      in \<lparr>pt_row = of_nat row, pt_column = of_nat column\<rparr>)"

section \<open>Captures\<close>

text \<open>\<^verbatim>\<open>str::get\<close> of a range.\<close>

definition str_get :: "string \<Rightarrow> nat \<Rightarrow> nat \<Rightarrow> string option" where
  "str_get s a b = (if a \<le> b \<and> is_char_boundary s a \<and> is_char_boundary s b then Some (take (b - a) (drop a s)) else None)"

definition make_capture :: "string \<Rightarrow> nat list \<Rightarrow> string \<Rightarrow> nat \<times> nat \<Rightarrow> capture" where
  "make_capture source line_index name r =
     (case r of (start_byte, end_byte) \<Rightarrow>
        \<lparr>cp_name = name,
         cp_span = \<lparr>sp_start_byte = of_nat start_byte, sp_end_byte = of_nat end_byte,
                    sp_start = point_for_offset line_index start_byte, sp_end = point_for_offset line_index end_byte\<rparr>,
         cp_text = (case str_get source start_byte end_byte of None \<Rightarrow> [] | Some t \<Rightarrow> t)\<rparr>)"

section \<open>State and operations\<close>

datatype query_mode = Decision | Halstead

record compiled_query =
  cq_language :: string
  cq_mode :: query_mode

record parsed_tree =
  pt_language :: string

record provider =
  pv_next_tree_id :: "32 word"
  pv_next_query_id :: "32 word"
  pv_trees :: "(32 word, parsed_tree) hashmap"
  pv_queries :: "(32 word, compiled_query) hashmap"

definition provider_new :: provider where
  "provider_new = \<lparr>pv_next_tree_id = 1, pv_next_query_id = 1, pv_trees = [], pv_queries = []\<rparr>"

definition list_languages :: "string list" where
  "list_languages = [''rust'']"

definition tree_parse :: "string \<Rightarrow> string \<Rightarrow> provider \<Rightarrow> (parse_error + 32 word) \<times> provider" where
  "tree_parse language source v =
     (if language \<noteq> ''rust'' then (Err ParseUnsupportedLanguage, v)
      else let tree_id = pv_next_tree_id v in
           (Ok tree_id, v\<lparr>pv_next_tree_id := tree_id + 1, pv_trees := hm_insert tree_id \<lparr>pt_language = language\<rparr> (pv_trees v)\<rparr>))"

definition query_mode_of :: "string \<Rightarrow> query_mode option" where
  "query_mode_of query =
     (if str_contains ''@decision'' query then Some Decision
      else if str_contains ''@operator'' query \<or> str_contains ''@operand'' query then Some Halstead
      else None)"

definition query_compile :: "string \<Rightarrow> string \<Rightarrow> provider \<Rightarrow> (query_error + 32 word) \<times> provider" where
  "query_compile language query v =
     (if language \<noteq> ''rust'' then (Err UnsupportedLanguage, v)
      else case query_mode_of query of
        None \<Rightarrow> (Err InvalidQuery, v)
      | Some mode \<Rightarrow>
          let query_id = pv_next_query_id v in
          (Ok query_id, v\<lparr>pv_next_query_id := query_id + 1,
             pv_queries := hm_insert query_id \<lparr>cq_language = language, cq_mode = mode\<rparr> (pv_queries v)\<rparr>))"

text \<open>The three expressions.\<close>

definition decision_regex :: string where
  "decision_regex =
    [CHR 0x5C] @ ''b(?:if|match|for|while|loop)'' @ [CHR 0x5C] @ ''b''"

definition operator_regex :: string where
  "operator_regex =
    [CHR 0x5C] @ ''b(?:if|match|for|while|loop|return|break|continue)'' @ [CHR 0x5C] @ ''b|==|!=|<=|>=|&&|'' @
    [CHR 0x5C] @ ''|'' @ [CHR 0x5C] @ ''||<<|>>|'' @ [CHR 0x5C] @ ''+=|-=|'' @ [CHR 0x5C] @ ''*=|/=|%=|&=|'' @
    [CHR 0x5C] @ ''|=|'' @ [CHR 0x5C] @ ''^=|->|=>|[+'' @ [CHR 0x5C] @ ''-*/%=&|!<>^]''"

definition operand_regex :: string where
  "operand_regex =
    ''(?x)'' @ [CHR 0x0A] @ ''            [A-Za-z_][A-Za-z0-9_]*'' @ [CHR 0x0A] @ ''            |'' @
    [CHR 0x0A] @ ''            '' @ [CHR 0x5C] @ ''b'' @ [CHR 0x5C] @ ''d+(?:'' @ [CHR 0x5C] @ ''.'' @
    [CHR 0x5C] @ ''d+)?'' @ [CHR 0x5C] @ ''b'' @ [CHR 0x0A] @ ''            |'' @ [CHR 0x0A] @
    ''            '' @ [CHR 0x22] @ ''(?:'' @ [CHR 0x5C] @ [CHR 0x5C] @ ''.|[^'' @ [CHR 0x22] @ [CHR 0x5C] @
    [CHR 0x5C] @ ''])*'' @ [CHR 0x22] @ [CHR 0x0A] @ ''            |'' @ [CHR 0x0A] @ ''            '' @
    [CHR 0x27] @ ''(?:'' @ [CHR 0x5C] @ [CHR 0x5C] @ ''.|[^'' @ [CHR 0x27] @ [CHR 0x5C] @ [CHR 0x5C] @ ''])'' @
    [CHR 0x27] @ [CHR 0x0A] @ ''            ''"

text \<open>All matches of an expression in a text, as \<^verbatim>\<open>find_iter\<close> gives them.\<close>

type_synonym find_iter = "string \<Rightarrow> string \<Rightarrow> (nat \<times> nat) list"

definition match_of :: "string \<Rightarrow> nat list \<Rightarrow> 32 word \<Rightarrow> string \<Rightarrow> nat \<times> nat \<Rightarrow> query_match" where
  "match_of source line_index i name r = \<lparr>qm_pattern_index = i, qm_captures = [make_capture source line_index name r]\<rparr>"

text \<open>A loop that stops when enough matches are counted.\<close>

fun push_matches :: "nat \<Rightarrow> (nat \<times> nat \<Rightarrow> query_match) \<Rightarrow> (nat \<times> nat) list \<Rightarrow> nat \<Rightarrow> query_match list \<Rightarrow> nat \<times> query_match list" where
  "push_matches max_matches f [] n matches = (n, matches)"
| "push_matches max_matches f (r # rs) n matches =
     (if n \<ge> max_matches then (n, matches)
      else push_matches max_matches f rs (n + 1) (matches @ [f r]))"

definition run_query :: "find_iter \<Rightarrow> query_mode \<Rightarrow> nat \<Rightarrow> string \<Rightarrow> query_match list" where
  "run_query F mode max_matches source =
     (let line_index = line_index_new source in
      case mode of
        Decision \<Rightarrow> map (match_of source line_index 0 ''decision'') (take max_matches (F decision_regex source))
      | Halstead \<Rightarrow>
          (case push_matches max_matches (match_of source line_index 0 ''operator'') (F operator_regex source) 0 [] of
             (n, matches) \<Rightarrow>
               snd (push_matches max_matches (match_of source line_index 1 ''operand'') (F operand_regex source) n matches)))"

definition query_exec ::
  "find_iter \<Rightarrow> 32 word \<Rightarrow> 32 word \<Rightarrow> string \<Rightarrow> 32 word option \<Rightarrow> provider \<Rightarrow> query_error + query_match list" where
  "query_exec F query_id tree_id source limit v =
     (case hm_get (pv_queries v) query_id of
        None \<Rightarrow> Err UnknownQuery
      | Some query \<Rightarrow>
     (case hm_get (pv_trees v) tree_id of
        None \<Rightarrow> Err UnknownTree
      | Some tree \<Rightarrow>
          if pt_language tree \<noteq> cq_language query then Err UnsupportedLanguage
          else Ok (run_query F (cq_mode query) (unat (case limit of None \<Rightarrow> - 1 | Some n \<Rightarrow> n)) source)))"

definition drop_tree :: "32 word \<Rightarrow> provider \<Rightarrow> provider" where
  "drop_tree tree_id v = v\<lparr>pv_trees := hm_remove tree_id (pv_trees v)\<rparr>"

definition drop_query :: "32 word \<Rightarrow> provider \<Rightarrow> provider" where
  "drop_query query_id v = v\<lparr>pv_queries := hm_remove query_id (pv_queries v)\<rparr>"

end
