(* ===== verification/Treesitter_Props.thy ===== *)
theory Treesitter_Props
  imports Treesitter
begin

text \<open>
  What the tree-sitter provider promises: points, the matches of a query, and handles.
\<close>

section \<open>Points\<close>

text \<open>The reference: count lines and columns while reading.\<close>

definition read_char :: "char \<Rightarrow> nat \<times> nat \<Rightarrow> nat \<times> nat" where
  "read_char c rc = (if c = CHR 0x0A then (fst rc + 1, 0) else (fst rc, snd rc + 1))"

definition position_behind :: "string \<Rightarrow> nat \<times> nat" where
  "position_behind s = fold read_char s (0, 0)"

lemma line_starts_from_append: "line_starts_from i (s @ t) starts = line_starts_from (i + length s) t (line_starts_from i s starts)"
  by (induction i s starts rule: line_starts_from.induct) auto

lemma line_starts_behind: "\<exists>more_starts. line_starts_from i s starts = starts @ more_starts \<and> (\<forall>x \<in> set more_starts. i < x)"
proof (induction i s starts rule: line_starts_from.induct)
  case (2 i c cs starts)
  then obtain more_starts where m: "line_starts_from (Suc i) cs (if c = CHR 0x0A then starts @ [i + 1] else starts) =
      (if c = CHR 0x0A then starts @ [i + 1] else starts) @ more_starts" "\<forall>x \<in> set more_starts. Suc i < x" by blast
  show ?case using m by (cases "c = CHR 0x0A") (auto intro: Suc_lessD)
qed simp

lemma line_index_snoc:
  "line_index_new (s @ [c]) = line_index_new s @ (if c = CHR 0x0A then [length s + 1] else [])"
  by (simp add: line_index_new_def line_starts_from_append)

lemma line_index_prefix:
  "line_index_new s \<noteq> [] \<and> (\<forall>x \<in> set (line_index_new s). x \<le> length s) \<and>
   position_behind s = (length (line_index_new s) - 1, length s - last (line_index_new s))"
proof (induction s rule: rev_induct)
  case (snoc c s)
  then have "last (line_index_new s) \<le> length s" "length (line_index_new s) > 0" by auto
  with snoc show ?case by (auto simp: line_index_snoc position_behind_def read_char_def Suc_diff_le)
qed (simp add: line_index_new_def position_behind_def)

lemma partition_line_index:
  "partition_point (\<lambda>x. x \<le> length s) (line_index_new (s @ t)) = length (line_index_new s) \<and>
   line_index_new (s @ t) ! (length (line_index_new s) - 1) = last (line_index_new s)"
proof -
  obtain more_starts where m: "line_index_new (s @ t) = line_index_new s @ more_starts" "\<forall>x \<in> set more_starts. length s < x"
    using line_starts_behind [of "length s" t "line_starts_from 0 s [0]"] by (auto simp: line_index_new_def line_starts_from_append)
  have "takeWhile (\<lambda>x. x \<le> length s) more_starts = []" using m(2) by (cases more_starts) auto
  with m line_index_prefix [of s] show ?thesis
    by (auto simp: partition_point_def takeWhile_append2 nth_append last_conv_nth)
qed

lemma position_behind_le: "fst (position_behind s) + snd (position_behind s) \<le> length s"
  by (induction s rule: rev_induct) (auto simp: position_behind_def read_char_def)

text \<open>The points of a span are right: looking an offset up in the index of line starts gives the line and column
  that reading the text up to the offset and counting gives, exactly for offsets below 2 to the power of 32.\<close>

theorem points_are_counted:
  assumes "offset \<le> length source"
  shows "let (row, column) = position_behind (take offset source); p = point_for_offset (line_index_new source) offset in
    p = \<lparr>pt_row = of_nat row, pt_column = of_nat column\<rparr> \<and>
    (offset < 2 ^ 32 \<longrightarrow> unat (pt_row p) = row \<and> unat (pt_column p) = column)"
proof -
  have l: "length (take offset source) = offset" using assms by simp
  let ?s = "take offset source"
  have p: "partition_point (\<lambda>x. x \<le> offset) (line_index_new source) = length (line_index_new ?s)"
    "line_index_new source ! (length (line_index_new ?s) - 1) = last (line_index_new ?s)"
    using partition_line_index [of ?s "drop offset source"] unfolding l append_take_drop_id by simp_all
  obtain row column where rc: "position_behind ?s = (row, column)" by fastforce
  with line_index_prefix [of ?s] l have "row = length (line_index_new ?s) - 1" "column = offset - last (line_index_new ?s)" by auto
  then have q: "point_for_offset (line_index_new source) offset = \<lparr>pt_row = of_nat row, pt_column = of_nat column\<rparr>"
    using p by (simp add: point_for_offset_def Let_def)
  have "row + column \<le> offset" using position_behind_le [of ?s] rc l by simp
  then show ?thesis unfolding rc q by (auto simp: unat_of_nat)
qed

lemma demo_position: "position_behind ''if a'' = (0, 4)" "position_behind [CHR 0x0A, CHR ''b''] = (1, 1)"
  by (simp_all add: position_behind_def read_char_def)

theorem points_are_counted_witness:
  "point_for_offset (line_index_new [CHR 0x0A, CHR ''b'']) 2 = \<lparr>pt_row = 1, pt_column = 1\<rparr>"
  using points_are_counted [of 2 "[CHR 0x0A, CHR ''b'']"] by (simp add: demo_position Let_def)

section \<open>Matches\<close>

text \<open>What \<^verbatim>\<open>find_iter\<close> promises: ranges of whole characters of the text.\<close>

definition finds :: "find_iter \<Rightarrow> bool" where
  "finds F \<longleftrightarrow> (\<forall>re source. \<forall>(a, b) \<in> set (F re source).
     a \<le> b \<and> b \<le> length source \<and> is_char_boundary source a \<and> is_char_boundary source b)"

definition found_texts :: "find_iter \<Rightarrow> string \<Rightarrow> string \<Rightarrow> string list" where
  "found_texts F re source = map (\<lambda>(a, b). take (b - a) (drop a source)) (F re source)"

text \<open>The captures that a query stands for, by name and text.\<close>

definition mode_captures :: "find_iter \<Rightarrow> query_mode \<Rightarrow> string \<Rightarrow> (string \<times> string) list" where
  "mode_captures F mode source =
     (case mode of
        Decision \<Rightarrow> map (Pair ''decision'') (found_texts F decision_regex source)
      | Halstead \<Rightarrow> map (Pair ''operator'') (found_texts F operator_regex source) @
                    map (Pair ''operand'') (found_texts F operand_regex source))"

definition captures_of :: "query_match list \<Rightarrow> (string \<times> string) list" where
  "captures_of ms = map (\<lambda>c. (cp_name c, cp_text c)) (concat (map qm_captures ms))"

lemma captures_of_append [simp]: "captures_of (xs @ ys) = captures_of xs @ captures_of ys"
  by (simp add: captures_of_def)

lemma push_matches_take:
  "n \<le> limit \<Longrightarrow> push_matches limit f rs n ms = (min limit (n + length rs), ms @ map f (take (limit - n) rs))"
  by (induction limit f rs n ms rule: push_matches.induct) (auto simp: take_Cons')

lemma run_query_take:
  "run_query F mode limit source = take limit
     (case mode of
        Decision \<Rightarrow> map (match_of source (line_index_new source) 0 ''decision'') (F decision_regex source)
      | Halstead \<Rightarrow> map (match_of source (line_index_new source) 0 ''operator'') (F operator_regex source) @
                    map (match_of source (line_index_new source) 1 ''operand'') (F operand_regex source))"
  by (cases mode) (auto simp: run_query_def Let_def push_matches_take take_map min_def)

lemma captures_of_matches:
  assumes "finds F"
  shows "captures_of (map (match_of source ix i name) (F re source)) = map (Pair name) (found_texts F re source)"
proof -
  have "captures_of (map (match_of source ix i name) rs) = map (\<lambda>(a, b). (name, take (b - a) (drop a source))) rs"
    if "\<forall>(a, b) \<in> set rs. a \<le> b \<and> b \<le> length source \<and> is_char_boundary source a \<and> is_char_boundary source b" for rs
    using that by (induction rs) (auto simp: captures_of_def match_of_def make_capture_def str_get_def)
  moreover have "\<forall>(a, b) \<in> set (F re source). a \<le> b \<and> b \<le> length source \<and> is_char_boundary source a \<and> is_char_boundary source b"
    using assms unfolding finds_def by blast
  ultimately show ?thesis by (simp add: found_texts_def case_prod_unfold)
qed

lemma captures_of_take: "(\<forall>m \<in> set ms. length (qm_captures m) = 1) \<Longrightarrow> captures_of (take n ms) = take n (captures_of ms)"
proof (induction ms arbitrary: n)
  case (Cons m ms)
  then obtain c where "qm_captures m = [c]" by (auto simp: length_Suc_conv)
  with Cons show ?case by (cases n) (auto simp: captures_of_def)
qed (simp add: captures_of_def)

lemma captures_of_query:
  assumes "finds F"
  shows "captures_of (run_query F mode limit source) = take limit (mode_captures F mode source)"
  unfolding run_query_take mode_captures_def
  by (subst captures_of_take) (auto simp: match_of_def captures_of_matches [OF assms] split: query_mode.splits)


text \<open>Expressions that match the whole of a text.\<close>

definition whole_text :: find_iter where
  "whole_text re source = [(0, length source)]"

lemma whole_text_finds: "finds whole_text"
  by (simp add: finds_def whole_text_def is_char_boundary_def)

definition demo_provider :: provider where
  "demo_provider = \<lparr>pv_next_tree_id = 2, pv_next_query_id = 2, pv_trees = [(1, \<lparr>pt_language = ''rust''\<rparr>)],
     pv_queries = [(1, \<lparr>cq_language = ''rust'', cq_mode = Halstead\<rparr>)]\<rparr>"


section \<open>Handles\<close>

datatype provider_op = OpParse string string | OpCompile string string | OpDropTree "32 word" | OpDropQuery "32 word"

fun provider_step :: "provider_op \<Rightarrow> provider \<Rightarrow> provider" where
  "provider_step (OpParse l s) v = snd (tree_parse l s v)"
| "provider_step (OpCompile l s) v = snd (query_compile l s v)"
| "provider_step (OpDropTree i) v = drop_tree i v"
| "provider_step (OpDropQuery i) v = drop_query i v"

definition provider_run :: "provider_op list \<Rightarrow> provider \<Rightarrow> provider" where
  "provider_run ops v = fold provider_step ops v"

text \<open>Handles given out are below the next one, as long as the counter has not come round.\<close>

definition handles_below :: "nat \<Rightarrow> provider \<Rightarrow> bool" where
  "handles_below n v \<longleftrightarrow> unat (pv_next_tree_id v) \<le> n + 1 \<and>
     (\<forall>i \<in> set (hm_keys (pv_trees v)). unat i < unat (pv_next_tree_id v))"

lemma unat_plus_one: "unat (i :: 32 word) + 1 < 2 ^ 32 \<Longrightarrow> unat (i + 1) = unat i + 1"
  by (simp add: unat_add_lem [THEN iffD1])

lemma handles_below_step:
  assumes "handles_below n v" and "n + 2 < 2 ^ 32"
  shows "handles_below (Suc n) (provider_step op v)"
proof (cases op)
  case (OpParse l s)
  have "unat (pv_next_tree_id v + 1) = unat (pv_next_tree_id v) + 1"
    using assms by (intro unat_plus_one) (simp add: handles_below_def)
  then show ?thesis using assms OpParse
    by (auto simp: handles_below_def tree_parse_def Let_def hm_keys_insert less_Suc_eq)
next
  case (OpCompile l s)
  then show ?thesis using assms by (auto simp: handles_below_def query_compile_def Let_def split: option.splits)
qed (use assms in \<open>auto simp: handles_below_def drop_tree_def drop_query_def hm_keys_remove\<close>)

lemma handles_below_run:
  "handles_below n v \<Longrightarrow> n + length ops + 1 < 2 ^ 32 \<Longrightarrow> handles_below (n + length ops) (provider_run ops v)"
proof (induction ops arbitrary: n v)
  case (Cons op ops)
  then have "handles_below (Suc n + length ops) (provider_run ops (provider_step op v))"
    by (intro Cons.IH handles_below_step) simp_all
  then show ?case by (simp add: provider_run_def)
qed (simp add: provider_run_def)

lemma tree_kept:
  "hm_get (pv_trees v) i \<noteq> None \<Longrightarrow> OpDropTree i \<notin> set ops \<Longrightarrow> hm_get (pv_trees (provider_run ops v)) i \<noteq> None"
proof (induction ops arbitrary: v)
  case (Cons op ops)
  have "hm_get (pv_trees (provider_step op v)) i \<noteq> None"
    using Cons.prems by (cases op)
      (auto simp: tree_parse_def query_compile_def drop_tree_def drop_query_def Let_def hm_get_insert hm_get_remove split: option.splits)
  then have "hm_get (pv_trees (provider_run ops (provider_step op v))) i \<noteq> None"
    using Cons.IH Cons.prems(2) by simp
  then show ?case by (simp add: provider_run_def)
qed (simp add: provider_run_def)

text \<open>A handle names its tree alone: in the first four billion operations, a parse returns a handle that no other tree
  has; whatever follows, the tree is known until its handle is dropped, and dropping it forgets this tree
  and no other. Any number of operations later this still holds but for the freshness.\<close>

theorem handles_are_fresh_and_live:
  assumes "length ops + 2 < 2 ^ 32" and "provider_run ops provider_new = v" and "tree_parse ''rust'' source v = (Ok i, v')"
  shows "hm_get (pv_trees v) i = None \<and> hm_get (pv_trees v') i = Some \<lparr>pt_language = ''rust''\<rparr> \<and>
    (\<forall>later. OpDropTree i \<notin> set later \<longrightarrow>
       (let v'' = provider_run later v' in
        query_exec F q i text' limit v'' \<noteq> Err UnknownTree \<and>
        hm_get (pv_trees (drop_tree i v'')) = (hm_get (pv_trees v''))(i := None)))"
proof -
  have "handles_below 0 provider_new" by (simp add: handles_below_def provider_new_def)
  from handles_below_run [OF this, of ops] assms(1,2) have "handles_below (length ops) v" by simp
  moreover have i: "i = pv_next_tree_id v" "hm_get (pv_trees v') i = Some \<lparr>pt_language = ''rust''\<rparr>"
    using assms(3) by (auto simp: tree_parse_def Let_def hm_get_insert)
  ultimately have "hm_get (pv_trees v) i = None" unfolding hm_get_None handles_below_def by auto
  moreover have "query_exec F q i text' limit w \<noteq> Err UnknownTree" if "hm_get (pv_trees w) i \<noteq> None" for w
    using that by (auto simp: query_exec_def split: option.splits)
  ultimately show ?thesis using i tree_kept [of v' i]
    by (auto simp: Let_def drop_tree_def hm_get_remove)
qed

theorem handles_are_fresh_and_live_witness:
  "let v = provider_run [OpParse ''rust'' ''a'', OpDropTree 1] provider_new; (res, v') = tree_parse ''rust'' ''b'' v;
       v'' = provider_run [OpParse ''rust'' ''c''] v'
   in res = Ok 2 \<and> query_exec whole_text 1 2 ''b'' None v'' \<noteq> Err UnknownTree"
proof -
  let ?ops = "[OpParse ''rust'' ''a'', OpDropTree 1]"
  obtain v' where t: "tree_parse ''rust'' ''b'' (provider_run ?ops provider_new) = (Ok 2, v')"
    by (simp add: provider_run_def tree_parse_def provider_new_def drop_tree_def)
  show ?thesis using handles_are_fresh_and_live [OF _ refl t, of whole_text 1 "''b''" None] unfolding t Let_def prod.case
    by (auto dest!: conjunct2 spec [of _ "[OpParse ''rust'' ''c'']"])
qed

end
