(* ===== verification/Maintainability.thy ===== *)
theory Maintainability
  imports Policy_Env Sdk_Fs Sdk_Git Mcts_Select Treesitter
begin

text \<open>
  The example policy \<^verbatim>\<open>mitb-examples/maintainability/src/lib.rs\<close>: on every settled screen it measures the Rust
  files of the repository, commits, reports a reward, and lets the tree search choose the commit to
  go on from. It uses the SDK's files, git and search. Parsing and queries (\<open>Treesitter\<close> is one provider of them), processes, logarithms
  and the formatting of floating point numbers are parameters.
\<close>

section \<open>State and world\<close>

fun query_error_string :: "query_error \<Rightarrow> string" where
  "query_error_string UnsupportedLanguage = ''unsupported language''"
| "query_error_string InvalidQuery = ''invalid query''"
| "query_error_string UnknownTree = ''unknown tree''"
| "query_error_string UnknownQuery = ''unknown query''"
| "query_error_string QueryInternal = ''internal query error''"

fun parse_error_string :: "parse_error \<Rightarrow> string" where
  "parse_error_string ParseUnsupportedLanguage = ''unsupported language''"
| "parse_error_string ParseFailed = ''parse failed''"
| "parse_error_string ParseInternal = ''internal parse error''"

record ('w, 'g, 'x) maint_env =
  me_policy :: "'w policy_env"
  me_fs :: "'w \<Rightarrow> ('g, 'x) fs_env"
  me_disk :: "'w \<Rightarrow> disk"
  me_write_disk :: "disk \<Rightarrow> 'w \<Rightarrow> 'w"
  me_disk_env :: disk_env
  me_libm :: libm
  me_log2 :: "f64 \<Rightarrow> f64"
  me_show :: "nat \<Rightarrow> f64 \<Rightarrow> string"
  me_run_process :: "'w process_runner"
  me_utf8_error :: "byte list \<Rightarrow> string"
  me_compile :: "string \<Rightarrow> string \<Rightarrow> 'w \<Rightarrow> (query_error + 32 word) \<times> 'w"
  me_parse :: "string \<Rightarrow> string \<Rightarrow> 'w \<Rightarrow> (parse_error + 32 word) \<times> 'w"
  me_query_exec :: "32 word \<Rightarrow> 32 word \<Rightarrow> string \<Rightarrow> 32 word option \<Rightarrow> 'w \<Rightarrow> (query_error + query_match list) \<times> 'w"
  me_drop_tree :: "32 word \<Rightarrow> 'w \<Rightarrow> 'w"

record search_state =
  sr_navigator :: pending_tree_search
  sr_best :: "(string \<times> f64) option"

record maintainability =
  mt_action_index :: nat
  mt_cyclomatic_query_id :: "32 word option"
  mt_halstead_query_id :: "32 word option"
  mt_session_id :: "string option"
  mt_created_branch_count :: nat
  mt_search :: "search_state option"

definition maintainability_default :: maintainability where
  "maintainability_default = \<lparr>mt_action_index = 0, mt_cyclomatic_query_id = None, mt_halstead_query_id = None,
     mt_session_id = None, mt_created_branch_count = 0, mt_search = None\<rparr>"

text \<open>A step of the policy: a result, the policy's state and the world.\<close>

type_synonym ('w, 'a) maint = "maintainability \<Rightarrow> 'w \<Rightarrow> (string + 'a) \<times> maintainability \<times> 'w"

text \<open>The operator \<^verbatim>\<open>?\<close>.\<close>

definition and_then :: "('w, 'a) maint \<Rightarrow> ('a \<Rightarrow> ('w, 'b) maint) \<Rightarrow> ('w, 'b) maint" where
  "and_then m f p w =
     (case m p w of
        (Inl e, p, w) \<Rightarrow> (Err e, p, w)
      | (Inr x, p, w) \<Rightarrow> f x p w)"

definition in_world :: "('w \<Rightarrow> (string + 'a) \<times> 'w) \<Rightarrow> ('w, 'a) maint" where
  "in_world f p w = (case f w of (res, w) \<Rightarrow> (res, p, w))"

section \<open>Queries\<close>

definition RUST_LANGUAGE :: string where "RUST_LANGUAGE = ''rust''"

definition query_lines :: "string list \<Rightarrow> string" where
  "query_lines ls = concat (map (\<lambda>l. [CHR 0x0A] @ l) ls) @ [CHR 0x0A]"

definition CYCLOMATIC_QUERY :: string where
  "CYCLOMATIC_QUERY = query_lines [''['', ''  (if_expression)'', ''  (match_expression)'', ''  (for_expression)'',
     ''  (while_expression)'', ''  (loop_expression)'', ''] @decision'']"

definition HALSTEAD_QUERY :: string where
  "HALSTEAD_QUERY = query_lines [''['', ''  (binary_expression)'', ''  (unary_expression)'', ''  (assignment_expression)'',
     ''  (call_expression)'', ''  (field_expression)'', ''  (index_expression)'', ''  (if_expression)'',
     ''  (match_expression)'', ''  (for_expression)'', ''  (while_expression)'', ''  (loop_expression)'',
     ''  (return_expression)'', ''  (break_expression)'', ''  (continue_expression)'', ''] @operator'', '''',
     ''['', ''  (identifier)'', ''  (integer_literal)'', ''  (float_literal)'', ''  (char_literal)'',
     ''  (string_literal)'', ''] @operand'']"

definition ensure_cyclomatic :: "('w, 'g, 'x) maint_env \<Rightarrow> ('w, unit) maint" where
  "ensure_cyclomatic E p w =
     (case mt_cyclomatic_query_id p of
        Some _ \<Rightarrow> (Ok (), p, w)
      | None \<Rightarrow>
          (case me_compile E RUST_LANGUAGE CYCLOMATIC_QUERY w of
             (Inl e, w) \<Rightarrow> (Err (''failed compiling cyclomatic query: '' @ query_error_string e), p, w)
           | (Inr q, w) \<Rightarrow> (Ok (), p\<lparr>mt_cyclomatic_query_id := Some q\<rparr>, w)))"

definition ensure_halstead :: "('w, 'g, 'x) maint_env \<Rightarrow> ('w, unit) maint" where
  "ensure_halstead E p w =
     (case mt_halstead_query_id p of
        Some _ \<Rightarrow> (Ok (), p, w)
      | None \<Rightarrow>
          (case me_compile E RUST_LANGUAGE HALSTEAD_QUERY w of
             (Inl e, w) \<Rightarrow> (Err (''failed compiling halstead query: '' @ query_error_string e), p, w)
           | (Inr q, w) \<Rightarrow> (Ok (), p\<lparr>mt_halstead_query_id := Some q\<rparr>, w)))"

definition ensure_queries :: "('w, 'g, 'x) maint_env \<Rightarrow> ('w, 32 word \<times> 32 word) maint" where
  "ensure_queries E =
     and_then (ensure_cyclomatic E) (\<lambda>_. and_then (ensure_halstead E) (\<lambda>_ p w.
       (case (mt_cyclomatic_query_id p, mt_halstead_query_id p) of
          (Some c, Some h) \<Rightarrow> Ok (c, h)
        | _ \<Rightarrow> Err ''query IDs were not initialized'', p, w)))"

section \<open>The search\<close>

definition git_repo_here :: git_repo where
  "git_repo_here = git_repo_new ''.''"

definition current_git_snapshot :: "('w, 'g, 'x) maint_env \<Rightarrow> 'w \<Rightarrow> (string + git_snapshot) \<times> 'w" where
  "current_git_snapshot E = snapshot (me_utf8_error E) git_repo_here (me_run_process E)"

text \<open>\<^verbatim>\<open>PendingTreeSearch::new\<close>.\<close>

definition pending_tree_search_new :: "('w, 'g, 'x) maint_env \<Rightarrow> string \<Rightarrow> 'w \<Rightarrow> pending_tree_search" where
  "pending_tree_search_new E sha w = with_tree (mcts_new (me_disk_env E) sha (me_disk E w))"

definition ensure_search_state_recorded :: "('w, 'g, 'x) maint_env \<Rightarrow> ('w, unit) maint" where
  "ensure_search_state_recorded E p w =
     (case mt_search p of
        Some _ \<Rightarrow> (Ok (), p, w)
      | None \<Rightarrow>
          (case current_git_snapshot E w of
             (Inl e, w) \<Rightarrow> (Err e, p, w)
           | (Inr s, w) \<Rightarrow>
               (Ok (), p\<lparr>mt_search := Some \<lparr>sr_navigator = pending_tree_search_new E (gs_sha s) w, sr_best = None\<rparr>\<rparr>, w)))"

definition session_alphabet :: string where
  "session_alphabet = ''0123456789ABCDEFGHIJKLMNOPQRSTUVWXYZabcdefghijklmnopqrstuvwxyz''"

definition generate_session_id :: "('w, 'g, 'x) maint_env \<Rightarrow> 'w \<Rightarrow> string \<times> 'w" where
  "generate_session_id E w =
     (case pe_random_bytes (me_policy E) 6 w of
        (bytes, w) \<Rightarrow> (map (\<lambda>b. session_alphabet ! (unat b mod length session_alphabet)) bytes, w))"

definition ensure_session_id_recorded :: "('w, 'g, 'x) maint_env \<Rightarrow> ('w, unit) maint" where
  "ensure_session_id_recorded E p w =
     (case mt_session_id p of
        Some _ \<Rightarrow> (Ok (), p, w)
      | None \<Rightarrow> (case generate_session_id E w of (i, w) \<Rightarrow> (Ok (), p\<lparr>mt_session_id := Some i\<rparr>, w)))"

definition next_search_branch_name :: "('w, string) maint" where
  "next_search_branch_name p w =
     (case mt_session_id p of
        None \<Rightarrow> (Err ''missing session id for branch selection'', p, w)
      | Some i \<Rightarrow>
          let n = sat_add (mt_created_branch_count p) 1 in
          (Ok (''mitb/maintainability-'' @ i @ ''-'' @ dec_of_nat n), p\<lparr>mt_created_branch_count := n\<rparr>, w))"

definition record_best_reward_commit :: "string \<Rightarrow> f64 \<Rightarrow> ('w, string \<times> f64) maint" where
  "record_best_reward_commit commit reward p w =
     (case mt_search p of
        None \<Rightarrow> (Err ''missing search state'', p, w)
      | Some s \<Rightarrow>
          let replace_best = (case sr_best s of Some (_, r) \<Rightarrow> f_lt r reward | None \<Rightarrow> True);
              s = (if replace_best then s\<lparr>sr_best := Some (commit, reward)\<rparr> else s)
          in (case sr_best s of
                None \<Rightarrow> (Err ''missing best reward commit state'', p\<lparr>mt_search := Some s\<rparr>, w)
              | Some best \<Rightarrow> (Ok best, p\<lparr>mt_search := Some s\<rparr>, w)))"

definition commit_message :: "('w, 'g, 'x) maint_env \<Rightarrow> nat \<Rightarrow> f64 \<Rightarrow> string" where
  "commit_message E action_index mi =
     ''maintainability iteration '' @ dec_of_nat action_index @ '' mi '' @ me_show E 2 mi"

definition commit_iteration_snapshot :: "('w, 'g, 'x) maint_env \<Rightarrow> f64 \<Rightarrow> ('w, git_snapshot) maint" where
  "commit_iteration_snapshot E mi =
     and_then (in_world (add_all git_repo_here (me_run_process E))) (\<lambda>_.
     and_then (\<lambda>p. in_world (commit_all (me_utf8_error E) git_repo_here (me_run_process E)
                 (commit_message E (mt_action_index p) mi) True) p) (\<lambda>sha.
     and_then (in_world (current_branch (me_utf8_error E) git_repo_here (me_run_process E))) (\<lambda>branch p w.
       (Ok \<lparr>gs_sha = sha, gs_branch = branch\<rparr>, p, w))))"

definition checkout_selected_commit :: "('w, 'g, 'x) maint_env \<Rightarrow> string \<Rightarrow> ('w, string) maint" where
  "checkout_selected_commit E commit =
     and_then next_search_branch_name (\<lambda>branch_name.
     and_then (in_world (switch_create_or_reset git_repo_here (me_run_process E) branch_name commit)) (\<lambda>_ p w.
       (Ok branch_name, p, w)))"

text \<open>An index out of bounds would be a panic; \<open>Mcts_Inv\<close> shows that there is none.\<close>

fun mcts_error_text :: "mcts_error \<Rightarrow> string" where
  "mcts_error_text (Msg e) = e"
| "mcts_error_text Panic = ''panic''"

definition MCTS_MAX_DEPTH :: nat where "MCTS_MAX_DEPTH = 32"

definition navigate_step :: "('w, 'g, 'x) maint_env \<Rightarrow> string \<Rightarrow> f64 \<Rightarrow> ('w, selection_step) maint" where
  "navigate_step E sha reward p w =
     (case mt_search p of
        None \<Rightarrow> (Err ''missing search state'', p, w)
      | Some s \<Rightarrow>
          (case backpropagate_and_select (me_libm E) (me_disk_env E) sha reward MCTS_MAX_DEPTH (sr_navigator s) (me_disk E w) of
             (res, navigator, disk) \<Rightarrow>
               (map_sum mcts_error_text id res, p\<lparr>mt_search := Some (s\<lparr>sr_navigator := navigator\<rparr>)\<rparr>, me_write_disk E disk w)))"

definition log_info :: "('w, 'g, 'x) maint_env \<Rightarrow> string \<Rightarrow> ('w, unit) maint" where
  "log_info E message p w = (Ok (), p, pe_log (me_policy E) LevelInfo message w)"

text \<open>\<^verbatim>\<open>slice::join\<close>.\<close>

fun join_with :: "string \<Rightarrow> string list \<Rightarrow> string" where
  "join_with sep [] = []"
| "join_with sep [x] = x"
| "join_with sep (x # xs) = x @ sep @ join_with sep xs"

definition navigate_reward_landscape ::
  "('w, 'g, 'x) maint_env \<Rightarrow> f64 \<Rightarrow> f64 \<Rightarrow> nat \<Rightarrow> git_snapshot \<Rightarrow> ('w, unit) maint" where
  "navigate_reward_landscape E mi reward rust_loc s =
     (let reward = normalize_reward reward in
      and_then (navigate_step E (gs_sha s) reward) (\<lambda>step.
      and_then (record_best_reward_commit (gs_sha s) reward) (\<lambda>(best_reward_commit, best_reward).
      and_then (checkout_selected_commit E (ss_selected_key step)) (\<lambda>branch_name.
        log_info E (''mi='' @ me_show E 2 mi @ '' reward='' @ me_show E 4 reward @ '' rust_loc='' @ dec_of_nat rust_loc @
          '' selected_commit='' @ ss_selected_key step @ '' selected_path='' @ join_with '' -> '' (ss_selected_path step) @
          '' branch='' @ branch_name @ '' best_reward_commit='' @ best_reward_commit @ '' best_reward='' @ me_show E 4 best_reward)))))"

section \<open>Measuring\<close>

text \<open>A literal, rounded; and \<^verbatim>\<open>f64::max\<close>, which prefers a number to a NaN.\<close>

definition f_lit :: "rat \<Rightarrow> f64" where
  "f_lit q = rnd q"

definition f_max :: "f64 \<Rightarrow> f64 \<Rightarrow> f64" where
  "f_max x y = (if x = NaN then y else if y = NaN then x else if f_lt x y then y else x)"

definition compute_maintainability_index :: "libm \<Rightarrow> f64 \<Rightarrow> f64 \<Rightarrow> f64 \<Rightarrow> f64" where
  "compute_maintainability_index L halstead_volume cyclomatic_complexity loc =
     (let safe_volume = f_max halstead_volume (Fin 1);
          safe_loc = f_max loc (Fin 1);
          raw = f_sub (f_sub (f_sub (Fin 171) (f_mul (f_lit (52 / 10)) (l_ln L safe_volume)))
                        (f_mul (f_lit (23 / 100)) cyclomatic_complexity))
                  (f_mul (f_lit (162 / 10)) (l_ln L safe_loc))
      in f_div (f_mul raw (Fin 100)) (Fin 171))"

definition text_line_count :: "string \<Rightarrow> nat" where
  "text_line_count text' =
     (if text' = [] then 0
      else let n = length (filter (\<lambda>c. c = CHR 0x0A) text') in if last text' = CHR 0x0A then n else n + 1)"

record halstead_counts =
  hc_operators :: nat
  hc_operands :: nat
  hc_distinct_operators :: "string set"
  hc_distinct_operands :: "string set"

definition count_capture :: "capture \<Rightarrow> halstead_counts \<Rightarrow> halstead_counts" where
  "count_capture c h =
     (if cp_name c = ''operator''
      then h\<lparr>hc_operators := sat_add (hc_operators h) 1, hc_distinct_operators := insert (cp_text c) (hc_distinct_operators h)\<rparr>
      else if cp_name c = ''operand''
      then h\<lparr>hc_operands := sat_add (hc_operands h) 1, hc_distinct_operands := insert (cp_text c) (hc_distinct_operands h)\<rparr>
      else h)"

definition halstead_counts_of :: "query_match list \<Rightarrow> halstead_counts" where
  "halstead_counts_of matches =
     fold (fold count_capture \<circ> qm_captures) matches
       \<lparr>hc_operators = 0, hc_operands = 0, hc_distinct_operators = {}, hc_distinct_operands = {}\<rparr>"

definition halstead_volume_of :: "(f64 \<Rightarrow> f64) \<Rightarrow> halstead_counts \<Rightarrow> f64" where
  "halstead_volume_of log2 h =
     (let n1 = f_of_nat (card (hc_distinct_operators h));
          n2 = f_of_nat (card (hc_distinct_operands h));
          n_total = f_add (f_of_nat (hc_operators h)) (f_of_nat (hc_operands h));
          vocabulary = f_max (f_add n1 n2) (Fin 2)
      in f_mul n_total (log2 vocabulary))"

record file_metrics =
  fm_mi :: f64
  fm_cyclomatic :: f64
  fm_halstead_volume :: f64
  fm_loc :: f64

text \<open>One turn of the loop over the files. A tree is dropped only when both queries succeed.\<close>

definition analyze_file :: "('w, 'g, 'x) maint_env \<Rightarrow> 32 word \<times> 32 word \<Rightarrow> string \<Rightarrow> ('w, file_metrics) maint" where
  "analyze_file E queries path p w =
     (case fs_read_text (me_fs E w) path of
        Inl e \<Rightarrow> (Err e, p, w)
      | Inr source \<Rightarrow>
     (case me_parse E RUST_LANGUAGE source w of
        (Inl e, w) \<Rightarrow> (Err (''failed parsing `'' @ path @ ''`: '' @ parse_error_string e), p, w)
      | (Inr tree, w) \<Rightarrow>
     (case me_query_exec E (fst queries) tree source None w of
        (Inl e, w) \<Rightarrow> (Err (''failed running cyclomatic query for `'' @ path @ ''`: '' @ query_error_string e), p, w)
      | (Inr cyclomatic_matches, w) \<Rightarrow>
     (case me_query_exec E (snd queries) tree source None w of
        (Inl e, w) \<Rightarrow> (Err (''failed running halstead query for `'' @ path @ ''`: '' @ query_error_string e), p, w)
      | (Inr halstead_matches, w) \<Rightarrow>
          let w = me_drop_tree E tree w;
              loc = f_of_nat (text_line_count source);
              cyclomatic = f_add (Fin 1) (f_of_nat (length cyclomatic_matches));
              volume = halstead_volume_of (me_log2 E) (halstead_counts_of halstead_matches)
          in (Ok \<lparr>fm_mi = compute_maintainability_index (me_libm E) volume cyclomatic loc, fm_cyclomatic = cyclomatic,
                  fm_halstead_volume = volume, fm_loc = loc\<rparr>, p, w)))))"

record metric_sums =
  ms_files :: nat
  ms_mi :: f64
  ms_cyclomatic :: f64
  ms_halstead_volume :: f64
  ms_loc :: f64

definition add_metrics :: "file_metrics \<Rightarrow> metric_sums \<Rightarrow> metric_sums" where
  "add_metrics m s = \<lparr>ms_files = sat_add (ms_files s) 1, ms_mi = f_add (ms_mi s) (fm_mi m),
     ms_cyclomatic = f_add (ms_cyclomatic s) (fm_cyclomatic m),
     ms_halstead_volume = f_add (ms_halstead_volume s) (fm_halstead_volume m),
     ms_loc = f_add (ms_loc s) (f_max (fm_loc m) (Fin 1))\<rparr>"

fun analyze_files ::
  "('w, 'g, 'x) maint_env \<Rightarrow> 32 word \<times> 32 word \<Rightarrow> path_match list \<Rightarrow> metric_sums \<Rightarrow> ('w, metric_sums) maint" where
  "analyze_files E queries [] acc p w = (Ok acc, p, w)"
| "analyze_files E queries (f # fs) acc p w =
     (case analyze_file E queries (pm_path f) p w of
        (Inl e, p, w) \<Rightarrow> (Err e, p, w)
      | (Inr m, p, w) \<Rightarrow> analyze_files E queries fs (add_metrics m acc) p w)"

section \<open>The policy\<close>

definition report :: "('w, 'g, 'x) maint_env \<Rightarrow> f64 \<Rightarrow> ('w, unit) maint" where
  "report E reward = in_world (pe_report_reward (me_policy E) reward)"

definition maint_prompt :: "string \<Rightarrow> ('w, policy_action) maint" where
  "maint_prompt mi p w =
     (prompt (''The maintainability index of this application is currently '' @ mi @
        ''. Refactor to improve the maintainability index.''), p, w)"

text \<open>The turn when there is no Rust file.\<close>

definition act_on_nothing :: "('w, 'g, 'x) maint_env \<Rightarrow> nat \<Rightarrow> ('w, policy_action) maint" where
  "act_on_nothing E project_loc =
     and_then (commit_iteration_snapshot E (Fin 100)) (\<lambda>s.
     and_then (report E (Fin 1)) (\<lambda>_.
     and_then (log_info E ''mi=100.00 reward=1.0000 loc=0 cc=0.00 halstead_volume=0.00 files=0'') (\<lambda>_.
     and_then (navigate_reward_landscape E (Fin 100) (Fin 1) project_loc s) (\<lambda>_.
       maint_prompt ''100.00''))))"

definition sums_reward :: "metric_sums \<Rightarrow> f64 \<times> f64" where
  "sums_reward acc =
     (let mi = f_div (ms_mi acc) (f_of_nat (max (ms_files acc) 1)) in (mi, f_clamp 0 1 (f_div mi (Fin 100))))"

definition act_on_files :: "('w, 'g, 'x) maint_env \<Rightarrow> nat \<Rightarrow> metric_sums \<Rightarrow> ('w, policy_action) maint" where
  "act_on_files E project_loc acc =
     (let files_count = f_of_nat (max (ms_files acc) 1);
          (mi, reward) = sums_reward acc
      in and_then (commit_iteration_snapshot E mi) (\<lambda>s.
         and_then (report E reward) (\<lambda>_.
         and_then (log_info E (''mi='' @ me_show E 2 mi @ '' reward='' @ me_show E 4 reward @ '' loc='' @ dec_of_nat project_loc @
             '' files='' @ dec_of_nat (ms_files acc) @ '' avg_loc='' @ me_show E 2 (f_div (ms_loc acc) files_count) @
             '' avg_cc='' @ me_show E 2 (f_div (ms_cyclomatic acc) files_count) @
             '' avg_halstead_volume='' @ me_show E 2 (f_div (ms_halstead_volume acc) files_count))) (\<lambda>_.
         and_then (navigate_reward_landscape E mi reward project_loc s) (\<lambda>_.
           maint_prompt (me_show E 2 mi))))))"

definition count_action :: "('w, unit) maint" where
  "count_action p w = (Ok (), p\<lparr>mt_action_index := sat_add (mt_action_index p) 1\<rparr>, w)"

definition find_rust_files :: "('w, 'g, 'x) maint_env \<Rightarrow> ('w, path_match list \<times> nat) maint" where
  "find_rust_files E p w =
     (case fs_find (fe_glob (me_fs E w)) (fe_preopens (me_fs E w)) ''*.rs'' find_options_default of
        Inl e \<Rightarrow> (Err e, p, w)
      | Inr files \<Rightarrow>
          (case fs_count_lines (me_fs E w) ''*.rs'' of
             Inl e \<Rightarrow> (Err e, p, w)
           | Inr loc \<Rightarrow> (Ok (files, loc), p, w)))"

definition maintainability_act :: "('w, 'g, 'x) maint_env \<Rightarrow> ('w, policy_action) maint" where
  "maintainability_act E =
     and_then count_action (\<lambda>_.
     and_then (ensure_queries E) (\<lambda>queries.
     and_then (ensure_session_id_recorded E) (\<lambda>_.
     and_then (ensure_search_state_recorded E) (\<lambda>_.
     and_then (find_rust_files E) (\<lambda>(files, project_loc).
       if files = [] then act_on_nothing E project_loc
       else and_then (analyze_files E queries files
                \<lparr>ms_files = 0, ms_mi = Fin 0, ms_cyclomatic = Fin 0, ms_halstead_volume = Fin 0, ms_loc = Fin 0\<rparr>)
              (act_on_files E project_loc))))))"

end
