(* ===== verification/Maintainability_Props.thy ===== *)
theory Maintainability_Props
  imports Maintainability
begin

text \<open>
  The turns of the maintainability policy: which commands a turn runs and in which order, that the
  commit it goes on from is one the tree knows, and that the best commit is the best.
\<close>

section \<open>Observing the commands\<close>

type_synonym command = "string \<times> string list"

text \<open>A world whose only way to run a command is the process runner, which keeps a record.\<close>

definition records_commands :: "('w, 'g, 'x) maint_env \<Rightarrow> ('w \<Rightarrow> command list) \<Rightarrow> bool" where
  "records_commands E procs \<longleftrightarrow>
     (\<forall>name args w. procs (snd (me_run_process E name args w)) = procs w @ [(name, args)]) \<and>
     (\<forall>disk w. procs (me_write_disk E disk w) = procs w) \<and>
     (\<forall>lang q w. procs (snd (me_compile E lang q w)) = procs w) \<and>
     (\<forall>lang s w. procs (snd (me_parse E lang s w)) = procs w) \<and>
     (\<forall>q t s l w. procs (snd (me_query_exec E q t s l w)) = procs w) \<and>
     (\<forall>t w. procs (me_drop_tree E t w) = procs w) \<and>
     (\<forall>r w. procs (snd (pe_report_reward (me_policy E) r w)) = procs w) \<and>
     (\<forall>l m w. procs (pe_log (me_policy E) l m w) = procs w) \<and>
     (\<forall>n w. procs (snd (pe_random_bytes (me_policy E) n w)) = procs w)"

text \<open>A step from states with \<open>P\<close>: it runs the commands of one of the sequences in \<open>S\<close>, or the first ones of it
  when it fails; when it does not, \<open>Q\<close> holds of its value, the commands and the state.\<close>

definition turn ::
  "('w \<Rightarrow> command list) \<Rightarrow> (maintainability \<Rightarrow> bool) \<Rightarrow> ('w, 'a) maint \<Rightarrow> command list set \<Rightarrow>
     ('a \<Rightarrow> command list \<Rightarrow> maintainability \<Rightarrow> bool) \<Rightarrow> bool" where
  "turn procs P m S Q \<longleftrightarrow>
     (\<forall>p w res p' w'. P p \<longrightarrow> m p w = (res, p', w') \<longrightarrow>
        (\<exists>cs \<in> S. case res of
           Inl _ \<Rightarrow> \<exists>n. procs w' = procs w @ take n cs
         | Inr x \<Rightarrow> procs w' = procs w @ cs \<and> Q x cs p'))"

definition appended :: "command list set \<Rightarrow> command list set \<Rightarrow> command list set" where
  "appended S T = {cs @ ds | cs ds. cs \<in> S \<and> ds \<in> T}"

lemma turn_and_then:
  assumes "turn procs P m S Q" and "\<And>x cs. cs \<in> S \<Longrightarrow> turn procs (Q x cs) (f x) T (\<lambda>y ds. R y (cs @ ds))" and "T \<noteq> {}"
  shows "turn procs P (and_then m f) (appended S T) R"
  unfolding turn_def
proof (intro allI impI)
  fix p w res p' w'
  assume P: "P p" and e: "and_then m f p w = (res, p', w')"
  obtain r1 p1 w1 where m: "m p w = (r1, p1, w1)" by (metis prod_cases3)
  with P assms(1) obtain cs where cs: "cs \<in> S" and c: "case r1 of Inl _ \<Rightarrow> \<exists>n. procs w1 = procs w @ take n cs
      | Inr x \<Rightarrow> procs w1 = procs w @ cs \<and> Q x cs p1" unfolding turn_def by blast
  show "\<exists>cs \<in> appended S T. case res of Inl _ \<Rightarrow> \<exists>n. procs w' = procs w @ take n cs
      | Inr y \<Rightarrow> procs w' = procs w @ cs \<and> R y cs p'"
  proof (cases r1)
    case (Inl x)
    then obtain n where "procs w1 = procs w @ take n cs" using c by auto
    obtain ds where ds: "ds \<in> T" using assms(3) by blast
    from \<open>procs w1 = procs w @ take n cs\<close> have "procs w1 = procs w @ take (min n (length cs)) (cs @ ds)" by (simp add: min_def)
    moreover have "cs @ ds \<in> appended S T" using cs ds by (auto simp: appended_def)
    moreover have r: "res = Inl x" "w' = w1" using e m Inl by (auto simp: and_then_def)
    ultimately show ?thesis unfolding r sum.case by blast
  next
    case (Inr x)
    then have f: "f x p1 w1 = (res, p', w')" and w1: "procs w1 = procs w @ cs" "Q x cs p1" using e m c by (auto simp: and_then_def)
    from assms(2) [OF cs, of x] f w1(2) obtain ds where ds: "ds \<in> T" "case res of Inl _ \<Rightarrow> \<exists>n. procs w' = procs w1 @ take n ds
      | Inr y \<Rightarrow> procs w' = procs w1 @ ds \<and> R y (cs @ ds) p'" unfolding turn_def by blast
    have "cs @ ds \<in> appended S T" using cs ds(1) by (auto simp: appended_def)
    moreover have "case res of Inl _ \<Rightarrow> \<exists>n. procs w' = procs w @ take n (cs @ ds)
      | Inr y \<Rightarrow> procs w' = procs w @ (cs @ ds) \<and> R y (cs @ ds) p'"
    proof (cases res)
      case (Inl e)
      with ds(2) obtain n where "procs w' = procs w1 @ take n ds" by auto
      with w1(1) have "procs w' = procs w @ take (length cs + n) (cs @ ds)" by simp
      then show ?thesis unfolding Inl sum.case by blast
    qed (use ds(2) w1(1) in simp)
    ultimately show ?thesis by blast
  qed
qed

text \<open>A step that runs no command.\<close>

lemma turn_silent:
  assumes "\<And>p w res p' w'. P p \<Longrightarrow> m p w = (res, p', w') \<Longrightarrow> procs w' = procs w \<and> (\<forall>x. res = Inr x \<longrightarrow> Q x [] p')"
  shows "turn procs P m {[]} Q"
  unfolding turn_def using assms by (fastforce split: sum.splits)

lemma turn_return:
  assumes "turn procs P m S Q"
  shows "turn procs P (and_then m (\<lambda>x p w. (Ok (g x), p, w))) S (\<lambda>y cs p. \<exists>x. y = g x \<and> Q x cs p)"
  unfolding turn_def
proof (intro allI impI)
  fix p w res p' w'
  assume P: "P p" and e: "and_then m (\<lambda>x p w. (Ok (g x), p, w)) p w = (res, p', w')"
  obtain r1 where m: "m p w = (r1, p', w')" "res = map_sum id g r1"
    using e by (auto simp: and_then_def split: prod.splits sum.splits)
  with P assms obtain cs where "cs \<in> S" "case r1 of Inl _ \<Rightarrow> \<exists>n. procs w' = procs w @ take n cs
      | Inr x \<Rightarrow> procs w' = procs w @ cs \<and> Q x cs p'" unfolding turn_def by blast
  with m(2) show "\<exists>cs \<in> S. case res of Inl _ \<Rightarrow> \<exists>n. procs w' = procs w @ take n cs
      | Inr y \<Rightarrow> procs w' = procs w @ cs \<and> (\<exists>x. y = g x \<and> Q x cs p')" by (intro bexI [of _ cs]) (cases r1; auto)+
qed

lemma turn_mono:
  assumes "turn procs P m S Q" and "\<And>p. P' p \<Longrightarrow> P p" and "S \<subseteq> S'" and "\<And>x cs p. cs \<in> S \<Longrightarrow> Q x cs p \<Longrightarrow> Q' x cs p"
  shows "turn procs P' m S' Q'"
  unfolding turn_def
proof (intro allI impI)
  fix p w res p' w'
  assume "P' p" "m p w = (res, p', w')"
  with assms(1,2) obtain cs where "cs \<in> S" "case res of Inl _ \<Rightarrow> \<exists>n. procs w' = procs w @ take n cs
      | Inr x \<Rightarrow> procs w' = procs w @ cs \<and> Q x cs p'" unfolding turn_def by blast
  with assms(3,4) show "\<exists>cs \<in> S'. case res of Inl _ \<Rightarrow> \<exists>n. procs w' = procs w @ take n cs
      | Inr x \<Rightarrow> procs w' = procs w @ cs \<and> Q' x cs p'" by (intro bexI [of _ cs]) (auto split: sum.splits)
qed

lemma appended_simps [simp]: "appended {[]} T = T" "appended S {[]} = S" "appended S {} = {}" "appended {} T = {}"
  by (auto simp: appended_def)

section \<open>The steps of a turn\<close>

definition git_command :: "string list \<Rightarrow> command" where
  "git_command args = in_repo git_repo_here args"

definition head_command :: command where "head_command = git_command [''rev-parse'', ''HEAD'']"
definition branch_command :: command where "branch_command = git_command [''branch'', ''--show-current'']"
definition add_command :: command where "add_command = git_command [''add'', ''-A'']"
definition commit_command :: "string \<Rightarrow> command" where "commit_command message = git_command (commit_args message True)"
definition checkout_command :: "string \<Rightarrow> string \<Rightarrow> command" where
  "checkout_command branch commit = git_command [''checkout'', ''--force'', ''-B'', branch, commit]"

lemmas command_defs = head_command_def branch_command_def add_command_def commit_command_def checkout_command_def git_command_def

text \<open>The part of the state that the search is in, and when it is sound.\<close>

definition navigator :: "maintainability \<Rightarrow> pending_tree_search option" where
  "navigator p = map_option sr_navigator (mt_search p)"

definition searching :: "pending_tree_search option \<Rightarrow> bool" where
  "searching nav \<longleftrightarrow> (case nav of None \<Rightarrow> False | Some s \<Rightarrow> tree_ok (p_tree s))"

definition tree_keys :: "pending_tree_search option \<Rightarrow> string set" where
  "tree_keys nav = (case nav of None \<Rightarrow> {} | Some s \<Rightarrow> set (hm_keys (m_index (p_tree s))))"

definition only :: "command list \<Rightarrow> (maintainability \<Rightarrow> bool) \<Rightarrow> 'a \<Rightarrow> command list \<Rightarrow> maintainability \<Rightarrow> bool" where
  "only cs P x ds p \<longleftrightarrow> ds = cs \<and> P p"

lemma run_git:
  assumes "records_commands E procs"
  shows "procs (snd (git_run git_repo_here (me_run_process E) args w)) = procs w @ [git_command args]"
  using assms by (simp add: records_commands_def git_run_def git_command_def in_repo_def)

lemma turn_one_command:
  assumes "\<And>w. procs (snd (g w)) = procs w @ [c]"
  shows "turn procs P (in_world g) {[c]} (only [c] P)"
  unfolding turn_def
proof (intro allI impI)
  fix p w res p' w'
  assume "P p" "in_world g p w = (res, p', w')"
  then have "p' = p" "procs w' = procs w @ [c]" using assms [of w] by (auto simp: in_world_def split: prod.splits)
  with \<open>P p\<close> show "\<exists>cs \<in> {[c]}. case res of Inl _ \<Rightarrow> \<exists>n. procs w' = procs w @ take n cs
      | Inr x \<Rightarrow> procs w' = procs w @ cs \<and> only [c] P x cs p'"
    by (auto simp: only_def split: sum.splits intro: exI [of _ 1])
qed

lemma head_command_run:
  assumes "records_commands E procs"
  shows "procs (snd (head_sha (me_utf8_error E) git_repo_here (me_run_process E) w)) = procs w @ [head_command]"
    and "procs (snd (current_branch (me_utf8_error E) git_repo_here (me_run_process E) w)) = procs w @ [branch_command]"
    and "procs (snd (add_all git_repo_here (me_run_process E) w)) = procs w @ [add_command]"
    and "procs (snd (switch_create_or_reset git_repo_here (me_run_process E) branch commit w)) =
      procs w @ [checkout_command branch commit]"
  using run_git [OF assms, of "[''rev-parse'', ''HEAD'']" w] run_git [OF assms, of "[''branch'', ''--show-current'']" w]
    run_git [OF assms, of "[''add'', ''-A'']" w] run_git [OF assms, of "[''checkout'', ''--force'', ''-B'', branch, commit]" w]
  by (auto simp: head_sha_def current_branch_def add_all_def switch_create_or_reset_def head_command_def branch_command_def
      add_command_def checkout_command_def split: prod.splits sum.splits)

lemma turn_commit_all:
  assumes "records_commands E procs"
  shows "turn procs P (in_world (commit_all (me_utf8_error E) git_repo_here (me_run_process E) message True))
    {[commit_command message, head_command]} (only [commit_command message, head_command] P)"
  unfolding turn_def
proof (intro allI impI)
  fix p w res p' w'
  assume P: "P p"
    and e: "in_world (commit_all (me_utf8_error E) git_repo_here (me_run_process E) message True) p w = (res, p', w')"
  let ?cs = "[commit_command message, head_command]"
  obtain r1 w1 where r1: "git_run git_repo_here (me_run_process E) (commit_args message True) w = (r1, w1)" by fastforce
  then have w1: "procs w1 = procs w @ [commit_command message]"
    using run_git [OF assms, of "commit_args message True" w] by (simp add: commit_command_def)
  show "\<exists>cs \<in> {?cs}. case res of Inl _ \<Rightarrow> \<exists>n. procs w' = procs w @ take n cs
      | Inr x \<Rightarrow> procs w' = procs w @ cs \<and> only ?cs P x cs p'"
  proof (cases r1)
    case (Inl x)
    have "\<exists>n. procs w1 = procs w @ take n ?cs" using w1 by (intro exI [of _ 1]) simp
    with Inl show ?thesis using e r1 by (auto simp: in_world_def commit_all_def)
  next
    case (Inr x)
    obtain r2 w2 where r2: "head_sha (me_utf8_error E) git_repo_here (me_run_process E) w1 = (r2, w2)" by fastforce
    then have "procs w2 = procs w @ ?cs" using head_command_run(1) [OF assms, of w1] w1 by simp
    then show ?thesis using e r1 r2 Inr P by (auto simp: in_world_def commit_all_def only_def split: sum.splits intro: exI [of _ 2])
  qed
qed

lemma turn_iteration_snapshot:
  assumes "records_commands E procs"
  shows "\<exists>message. turn procs (\<lambda>p. P p \<and> mt_action_index p = k) (commit_iteration_snapshot E mi)
    {[add_command, commit_command message, head_command, branch_command]}
    (only [add_command, commit_command message, head_command, branch_command] P)"
proof -
  let ?P = "\<lambda>p. P p \<and> mt_action_index p = k"
  define message where "message = commit_message E k mi"
  let ?g = "\<lambda>p. in_world (commit_all (me_utf8_error E) git_repo_here (me_run_process E) (commit_message E (mt_action_index p) mi) True) p"
  have c: "turn procs (only [add_command] ?P x cs) ?g {[commit_command message, head_command]}
      (only [commit_command message, head_command] ?P)" for x :: unit and cs
    using turn_commit_all [OF assms, of ?P message] by (auto simp: turn_def only_def message_def)
  have a: "turn procs ?P (in_world (add_all git_repo_here (me_run_process E))) {[add_command]} (only [add_command] ?P)"
    by (rule turn_one_command) (rule head_command_run [OF assms])
  have b: "turn procs Q (in_world (current_branch (me_utf8_error E) git_repo_here (me_run_process E))) {[branch_command]}
      (only [branch_command] Q)" for Q
    by (rule turn_one_command) (rule head_command_run [OF assms])
  have ret: "turn procs Q (\<lambda>p w. (Ok x, p, w)) {[]} (\<lambda>x cs p. cs = [] \<and> Q p)" for Q and x :: git_snapshot
    by (rule turn_silent) auto
  have "turn procs ?P (commit_iteration_snapshot E mi)
      (appended {[add_command]} (appended {[commit_command message, head_command]} (appended {[branch_command]} {[]})))
      (only [add_command, commit_command message, head_command, branch_command] P)"
    unfolding commit_iteration_snapshot_def
    apply (rule turn_and_then [OF a])
     apply (rule turn_and_then [OF c])
      apply (rule turn_and_then [OF b])
       apply (rule turn_mono [OF ret])
         apply (auto simp: only_def appended_def)
    done
  then show ?thesis by (auto simp: appended_def)
qed

text \<open>Steps that run nothing and leave the search alone.\<close>

definition silent :: "('w \<Rightarrow> command list) \<Rightarrow> ('w, 'a) maint \<Rightarrow> bool" where
  "silent procs m \<longleftrightarrow> (\<forall>p w res p' w'. m p w = (res, p', w') \<longrightarrow> procs w' = procs w \<and> navigator p' = navigator p)"

lemma silentD: "silent procs m \<Longrightarrow> m p w = (res, p', w') \<Longrightarrow> procs w' = procs w \<and> navigator p' = navigator p"
  by (simp add: silent_def)

lemma silent_turn:
  assumes "silent procs m"
  shows "turn procs (\<lambda>p. R (navigator p)) m {[]} (\<lambda>x cs p. cs = [] \<and> R (navigator p))"
  by (rule turn_silent) (use silentD [OF assms] in force)

lemma turn_silent_then:
  assumes "silent procs m" and "\<And>x. turn procs (\<lambda>p. R (navigator p)) (f x) T Q" and "T \<noteq> {}"
  shows "turn procs (\<lambda>p. R (navigator p)) (and_then m f) T Q"
proof -
  have "turn procs (\<lambda>p. R (navigator p)) (and_then m f) (appended {[]} T) Q"
    by (rule turn_and_then [OF silent_turn [where R = R, OF assms(1)]]) (use assms(2,3) in auto)
  then show ?thesis by simp
qed

lemma turn_then_silent:
  assumes "turn procs P m S (\<lambda>x cs p. Q cs (navigator p))" and "\<And>x. silent procs (f x)"
  shows "turn procs P (and_then m f) S (\<lambda>x cs p. Q cs (navigator p))"
proof -
  have "turn procs P (and_then m f) (appended S {[]}) (\<lambda>x cs p. Q cs (navigator p))"
  proof (rule turn_and_then [OF assms(1)])
    fix x cs
    show "turn procs (\<lambda>p. Q cs (navigator p)) (f x) {[]} (\<lambda>y ds p. Q (cs @ ds) (navigator p))"
      by (rule turn_mono [OF silent_turn [where R = "Q cs", OF assms(2)]]) auto
  qed simp
  then show ?thesis by simp
qed

lemma silent_and_then: "silent procs m \<Longrightarrow> (\<And>x. silent procs (f x)) \<Longrightarrow> silent procs (and_then m f)"
  unfolding silent_def and_then_def by (auto split: prod.splits sum.splits)

lemma silent_in_world: "(\<And>w. procs (snd (f w)) = procs w) \<Longrightarrow> silent procs (in_world f)"
  unfolding silent_def in_world_def by (auto split: prod.splits) (metis snd_conv)+

lemma silent_analyze_file:
  assumes "records_commands E procs"
  shows "silent procs (analyze_file E queries path)"
proof -
  have keeps: "me_parse E lang t w = (r, w') \<Longrightarrow> procs w' = procs w"
    "me_query_exec E q tree t l w = (r', w') \<Longrightarrow> procs w' = procs w" "procs (me_drop_tree E tree w) = procs w" for lang t q tree l w r r' w'
    using assms by (metis records_commands_def snd_conv)+
  show ?thesis by (auto simp: silent_def analyze_file_def Let_def keeps split: sum.splits prod.splits)
qed

lemma silent_analyze_files:
  assumes "records_commands E procs"
  shows "silent procs (analyze_files E queries fs acc)"
proof (induction fs arbitrary: acc)
  case (Cons f fs)
  have "analyze_files E queries (f # fs) acc = and_then (analyze_file E queries (pm_path f)) (\<lambda>m. analyze_files E queries fs (add_metrics m acc))"
    by (intro ext) (simp add: and_then_def)
  then show ?case by (simp add: silent_and_then silent_analyze_file [OF assms] Cons.IH)
qed (simp add: silent_def)

lemma silent_steps:
  assumes "records_commands E procs"
  shows "silent procs count_action" "silent procs (ensure_queries E)" "silent procs (ensure_session_id_recorded E)"
    and "silent procs (find_rust_files E)" "silent procs (report E r)" "silent procs (log_info E message)"
    and "silent procs (maint_prompt t)" "silent procs next_search_branch_name" "silent procs (record_best_reward_commit c r)"
proof -
  have compile: "me_compile E lang q w = (res, w') \<Longrightarrow> procs w' = procs w" for lang q w res w'
    using assms by (metis records_commands_def snd_conv)
  have "silent procs (ensure_cyclomatic E)" "silent procs (ensure_halstead E)"
    by (auto simp: silent_def ensure_cyclomatic_def ensure_halstead_def navigator_def dest: compile split: option.splits prod.splits sum.splits)
  then show "silent procs (ensure_queries E)"
    unfolding ensure_queries_def by (intro silent_and_then) (auto simp: silent_def)
  show "silent procs (report E r)" unfolding report_def using assms by (intro silent_in_world) (simp add: records_commands_def)
  have "pe_random_bytes (me_policy E) n w = (b, w') \<Longrightarrow> procs w' = procs w" for n w b w'
    using assms by (metis records_commands_def snd_conv)
  then show "silent procs (ensure_session_id_recorded E)"
    by (auto simp: silent_def ensure_session_id_recorded_def generate_session_id_def navigator_def split: option.splits prod.splits)
  show "silent procs (log_info E message)" using assms by (auto simp: silent_def log_info_def records_commands_def)
qed (auto simp: silent_def count_action_def navigator_def find_rust_files_def maint_prompt_def next_search_branch_name_def
    record_best_reward_commit_def Let_def split: option.splits sum.splits prod.splits if_splits)

section \<open>A whole turn\<close>

definition iteration_commands :: "command list set" where
  "iteration_commands = {[add_command, commit_command message, head_command, branch_command] | message. True}"

definition checkout_commands :: "command list set" where
  "checkout_commands = {[checkout_command branch commit] | branch commit. True}"

lemma checkout_commands_nonempty: "checkout_commands \<noteq> {}" "iteration_commands \<noteq> {}"
  unfolding checkout_commands_def iteration_commands_def by blast+

lemma turn_iteration:
  assumes "records_commands E procs"
  shows "turn procs P (commit_iteration_snapshot E mi) iteration_commands (\<lambda>x cs p. P p)"
  unfolding turn_def
proof (intro allI impI)
  fix p w res p' w'
  assume P: "P p" and e: "commit_iteration_snapshot E mi p w = (res, p', w')"
  obtain message where t: "turn procs (\<lambda>q. P q \<and> mt_action_index q = mt_action_index p) (commit_iteration_snapshot E mi)
      {[add_command, commit_command message, head_command, branch_command]}
      (only [add_command, commit_command message, head_command, branch_command] P)"
    using turn_iteration_snapshot [OF assms] by blast
  have "[add_command, commit_command message, head_command, branch_command] \<in> iteration_commands" by (auto simp: iteration_commands_def)
  with t P e show "\<exists>cs \<in> iteration_commands. case res of Inl _ \<Rightarrow> \<exists>n. procs w' = procs w @ take n cs
      | Inr x \<Rightarrow> procs w' = procs w @ cs \<and> P p'"
    unfolding turn_def only_def by (fastforce split: sum.splits)
qed

lemma path_ok_keys: "path_ok t prev ks \<Longrightarrow> k \<in> set ks \<Longrightarrow> k \<in> set (hm_keys (m_index t))"
  by (induction t prev ks rule: path_ok.induct) (auto dest: hm_get_key)

lemma selected_key_known:
  assumes "tree_ok (p_tree s)" and "backpropagate_and_select L D c r d s disk = (Inr step, s', disk')"
  shows "tree_ok (p_tree s') \<and> ss_selected_key step \<in> set (hm_keys (m_index (p_tree s')))"
proof -
  have ok: "tree_ok (p_tree s')" using search_step_spec [of s L D "BackpropagateAndSelect c r d" disk] assms by simp
  obtain path s1 where f: "finish_selection L d path s1 = (Inr step, s')"
    using assms(2) by (auto simp: backpropagate_and_select_def split: prod.splits sum.splits)
  then obtain ks where "select_path L (p_tree s') d = Ok ks" "ks \<noteq> []" "ss_selected_key step = last ks"
    by (auto simp: finish_selection_def split: sum.splits if_splits)
  with select_path_spec [OF ok, of L d] path_ok_keys [of "p_tree s'" None ks "last ks"] ok show ?thesis by auto
qed

lemma turn_navigate_step:
  assumes "records_commands E procs"
  shows "turn procs (\<lambda>p. searching (navigator p)) (navigate_step E sha r) {[]}
    (\<lambda>x cs p. cs = [] \<and> searching (navigator p) \<and> ss_selected_key x \<in> tree_keys (navigator p))"
proof (rule turn_silent)
  fix p w res p' w'
  assume s: "searching (navigator p)" and e: "navigate_step E sha r p w = (res, p', w')"
  then obtain st where st: "mt_search p = Some st" and ok: "tree_ok (p_tree (sr_navigator st))"
    by (auto simp: searching_def navigator_def split: option.splits)
  obtain r1 nav disk where b: "backpropagate_and_select (me_libm E) (me_disk_env E) sha r MCTS_MAX_DEPTH (sr_navigator st) (me_disk E w) =
      (r1, nav, disk)" by (metis prod_cases3)
  have "procs (me_write_disk E disk w) = procs w" using assms by (simp add: records_commands_def)
  with e st b show "procs w' = procs w \<and> (\<forall>x. res = Inr x \<longrightarrow> [] = [] \<and> searching (navigator p') \<and>
      ss_selected_key x \<in> tree_keys (navigator p'))"
    using selected_key_known [OF ok, of "me_libm E" "me_disk_env E" sha r MCTS_MAX_DEPTH "me_disk E w"]
    by (cases r1) (auto simp: navigate_step_def searching_def navigator_def tree_keys_def)
qed

lemma turn_checkout:
  assumes "records_commands E procs"
  shows "turn procs (\<lambda>p. R (navigator p)) (checkout_selected_commit E commit) checkout_commands
    (\<lambda>x cs p. (\<exists>branch. cs = [checkout_command branch commit]) \<and> R (navigator p))"
  unfolding checkout_selected_commit_def
proof (rule turn_silent_then [OF silent_steps(8) [OF assms]])
  fix branch
  have "turn procs (\<lambda>p. R (navigator p)) (in_world (switch_create_or_reset git_repo_here (me_run_process E) branch commit))
      {[checkout_command branch commit]} (only [checkout_command branch commit] (\<lambda>p. R (navigator p)))"
    by (rule turn_one_command) (rule head_command_run [OF assms])
  from turn_return [OF this]
  show "turn procs (\<lambda>p. R (navigator p))
      (and_then (in_world (switch_create_or_reset git_repo_here (me_run_process E) branch commit)) (\<lambda>_ p w. (Ok branch, p, w)))
      checkout_commands (\<lambda>x cs p. (\<exists>branch. cs = [checkout_command branch commit]) \<and> R (navigator p))"
    by (rule turn_mono) (auto simp: checkout_commands_def only_def)
qed (rule checkout_commands_nonempty)

text \<open>What a turn that went well has done: after an optional beginning, the iteration was committed and one
  commit, known to the tree, was checked out.\<close>

definition navigated :: "command list \<Rightarrow> pending_tree_search option \<Rightarrow> bool" where
  "navigated cs nav \<longleftrightarrow> (\<exists>branch commit. cs = [checkout_command branch commit] \<and> commit \<in> tree_keys nav) \<and> searching nav"

lemma turn_landscape:
  assumes "records_commands E procs"
  shows "turn procs (\<lambda>p. searching (navigator p)) (navigate_reward_landscape E mi reward loc s) checkout_commands
    (\<lambda>x cs p. navigated cs (navigator p))"
proof -
  let ?R = "\<lambda>step nav. searching nav \<and> ss_selected_key step \<in> tree_keys nav"
  have "turn procs (\<lambda>p. ?R step (navigator p))
      (and_then (record_best_reward_commit c r) (\<lambda>b. and_then (checkout_selected_commit E (ss_selected_key step)) (\<lambda>br. log_info E (message b br))))
      checkout_commands (\<lambda>x cs p. navigated cs (navigator p))" for step c r message
  proof (rule turn_silent_then [OF silent_steps(9) [OF assms]])
    fix b
    have "turn procs (\<lambda>p. ?R step (navigator p)) (checkout_selected_commit E (ss_selected_key step)) checkout_commands
        (\<lambda>x cs p. navigated cs (navigator p))"
      by (rule turn_mono [OF turn_checkout [where R = "?R step", OF assms]]) (auto simp: navigated_def)
    then show "turn procs (\<lambda>p. ?R step (navigator p))
        (and_then (checkout_selected_commit E (ss_selected_key step)) (\<lambda>br. log_info E (message b br)))
        checkout_commands (\<lambda>x cs p. navigated cs (navigator p))"
      by (rule turn_then_silent) (rule silent_steps(6) [OF assms])
  qed (rule checkout_commands_nonempty)
  note rest = this
  have "turn procs (\<lambda>p. searching (navigator p)) (navigate_reward_landscape E mi reward loc s)
      (appended {[]} checkout_commands) (\<lambda>x cs p. navigated cs (navigator p))"
    unfolding navigate_reward_landscape_def Let_def case_prod_unfold
  proof (rule turn_and_then [OF turn_navigate_step [OF assms]])
    fix step cs
    show "turn procs (\<lambda>p. cs = [] \<and> searching (navigator p) \<and> ss_selected_key step \<in> tree_keys (navigator p))
        (and_then (record_best_reward_commit (gs_sha s) (normalize_reward reward)) (\<lambda>b.
          and_then (checkout_selected_commit E (ss_selected_key step)) (\<lambda>br.
            log_info E (''mi='' @ me_show E 2 mi @ '' reward='' @ me_show E 4 (normalize_reward reward) @
              '' rust_loc='' @ dec_of_nat loc @ '' selected_commit='' @ ss_selected_key step @
              '' selected_path='' @ join_with '' -> '' (ss_selected_path step) @ '' branch='' @ br @
              '' best_reward_commit='' @ fst b @ '' best_reward='' @ me_show E 4 (snd b)))))
        checkout_commands (\<lambda>y ds p. navigated (cs @ ds) (navigator p))" if "cs \<in> {[]}"
      by (rule turn_mono [OF rest]) (use that in auto)
  qed (rule checkout_commands_nonempty)
  then show ?thesis by simp
qed

section \<open>The whole of act\<close>

text \<open>The commands of the first turn, which has no tree yet: the tree starts at the head.\<close>

definition first_commands :: "pending_tree_search option \<Rightarrow> command list" where
  "first_commands nav = (if nav = None then [head_command, branch_command] else [])"

lemma snapshot_run:
  assumes "records_commands E procs"
  shows "turn procs (\<lambda>_. True) (in_world (current_git_snapshot E)) {[head_command, branch_command]}
    (\<lambda>x cs p. True)"
  unfolding turn_def
proof (intro allI impI)
  fix p w res p' w'
  assume e: "in_world (current_git_snapshot E) p w = (res, p', w')"
  obtain r1 w1 where r1: "head_sha (me_utf8_error E) git_repo_here (me_run_process E) w = (r1, w1)" by fastforce
  then have w1: "procs w1 = procs w @ [head_command]" using head_command_run(1) [OF assms, of w] by simp
  obtain r2 w2 where r2: "current_branch (me_utf8_error E) git_repo_here (me_run_process E) w1 = (r2, w2)" by fastforce
  then have w2: "procs w2 = procs w @ [head_command, branch_command]" using head_command_run(2) [OF assms, of w1] w1 by simp
  show "\<exists>cs \<in> {[head_command, branch_command]}. case res of Inl _ \<Rightarrow> \<exists>n. procs w' = procs w @ take n cs
      | Inr x \<Rightarrow> procs w' = procs w @ cs \<and> True"
  proof (cases r1)
    case (Inl x)
    have "\<exists>n. procs w1 = procs w @ take n [head_command, branch_command]" using w1 by (intro exI [of _ 1]) simp
    with Inl show ?thesis using e r1 by (auto simp: in_world_def current_git_snapshot_def snapshot_def)
  next
    case (Inr x)
    have "\<exists>n. procs w2 = procs w @ take n [head_command, branch_command]" using w2 by (intro exI [of _ 2]) simp
    then show ?thesis using e r1 r2 w2 Inr
      by (auto simp: in_world_def current_git_snapshot_def snapshot_def split: sum.splits)
  qed
qed

text \<open>No search yet, or a sound one.\<close>

definition search_ok :: "pending_tree_search option \<Rightarrow> bool" where
  "search_ok nav \<longleftrightarrow> nav = None \<or> searching nav"

lemma turn_ensure_search:
  assumes "records_commands E procs"
  shows "turn procs (\<lambda>p. navigator p = nav \<and> search_ok nav) (ensure_search_state_recorded E) {first_commands nav}
    (\<lambda>x cs p. searching (navigator p))"
proof (cases "nav = None")
  case False
  then show ?thesis
    by (auto simp: turn_def search_ok_def first_commands_def ensure_search_state_recorded_def navigator_def split: option.splits)
next
  case True
  have "\<exists>cs \<in> {first_commands nav}. case res of Inl _ \<Rightarrow> \<exists>n. procs w' = procs w @ take n cs
      | Inr x \<Rightarrow> procs w' = procs w @ cs \<and> searching (navigator p')"
    if n: "navigator p = None" and e: "ensure_search_state_recorded E p w = (res, p', w')" for p w res p' w'
  proof -
    obtain r1 w1 where r1: "current_git_snapshot E w = (r1, w1)" by fastforce
    have "\<exists>cs \<in> {[head_command, branch_command]}. case r1 of Inl _ \<Rightarrow> \<exists>n. procs w1 = procs w @ take n cs
        | Inr x \<Rightarrow> procs w1 = procs w @ cs \<and> True"
      using snapshot_run [OF assms] r1 unfolding turn_def in_world_def by fastforce
    then show ?thesis using e n r1 True
      by (auto simp: ensure_search_state_recorded_def navigator_def first_commands_def searching_def pending_tree_search_new_def
          with_tree_def mcts_new_def build_ok split: sum.splits)
  qed
  with True show ?thesis unfolding turn_def by blast
qed

definition iterated :: "command list \<Rightarrow> pending_tree_search option \<Rightarrow> bool" where
  "iterated cs nav \<longleftrightarrow> (\<exists>it ds. it \<in> iteration_commands \<and> cs = it @ ds \<and> navigated ds nav)"

lemma turn_iteration_then:
  assumes "records_commands E procs"
  shows "turn procs (\<lambda>p. searching (navigator p))
    (and_then (commit_iteration_snapshot E mi) (\<lambda>s. and_then (report E r) (\<lambda>_. and_then (log_info E message) (\<lambda>_.
       and_then (navigate_reward_landscape E mi r loc s) (\<lambda>_. maint_prompt t)))))
    (appended iteration_commands checkout_commands)
    (\<lambda>x cs p. iterated cs (navigator p))"
proof (rule turn_and_then [OF turn_iteration [OF assms]])
  fix s :: git_snapshot and it
  assume i: "it \<in> iteration_commands"
  have "turn procs (\<lambda>p. searching (navigator p)) (and_then (report E r) (\<lambda>_. and_then (log_info E message) (\<lambda>_.
       and_then (navigate_reward_landscape E mi r loc s) (\<lambda>_. maint_prompt t))))
      checkout_commands (\<lambda>x cs p. navigated cs (navigator p))"
    by (intro turn_silent_then silent_steps [OF assms] checkout_commands_nonempty turn_then_silent turn_landscape [OF assms])
  then show "turn procs (\<lambda>p. searching (navigator p)) (and_then (report E r) (\<lambda>_. and_then (log_info E message) (\<lambda>_.
       and_then (navigate_reward_landscape E mi r loc s) (\<lambda>_. maint_prompt t)))) checkout_commands
      (\<lambda>y ds p. iterated (it @ ds) (navigator p))"
    by (rule turn_mono) (use i in \<open>auto simp: iterated_def\<close>)
qed (rule checkout_commands_nonempty)

lemma turn_act_on_nothing:
  assumes "records_commands E procs"
  shows "turn procs (\<lambda>p. searching (navigator p)) (act_on_nothing E loc) (appended iteration_commands checkout_commands)
    (\<lambda>x cs p. iterated cs (navigator p))"
  unfolding act_on_nothing_def by (rule turn_iteration_then [OF assms])

lemma turn_act_on_files:
  assumes "records_commands E procs"
  shows "turn procs (\<lambda>p. searching (navigator p)) (act_on_files E loc acc) (appended iteration_commands checkout_commands)
    (\<lambda>x cs p. iterated cs (navigator p))"
  unfolding act_on_files_def Let_def case_prod_unfold by (rule turn_iteration_then [OF assms])

lemma turn_act:
  assumes "records_commands E procs"
  shows "turn procs (\<lambda>p. navigator p = nav \<and> search_ok nav) (maintainability_act E)
    (appended {first_commands nav} (appended iteration_commands checkout_commands))
    (\<lambda>x cs p. \<exists>ds. cs = first_commands nav @ ds \<and> iterated ds (navigator p))"
proof -
  let ?S = "appended iteration_commands checkout_commands"
  let ?Q = "\<lambda>x cs p. iterated cs (navigator p)"
  have nonempty: "?S \<noteq> {}" using checkout_commands_nonempty unfolding appended_def by blast
  note silent = silent_steps [OF assms] silent_analyze_files [OF assms]
  have rest: "turn procs (\<lambda>p. searching (navigator p))
      (and_then (find_rust_files E) (\<lambda>(files, project_loc).
         if files = [] then act_on_nothing E project_loc else and_then (analyze_files E queries files acc) (act_on_files E project_loc)))
      ?S ?Q" for queries acc
  proof (rule turn_silent_then [OF silent(4)])
    fix x :: "path_match list \<times> nat"
    show "turn procs (\<lambda>p. searching (navigator p)) (case x of (files, project_loc) \<Rightarrow>
         if files = [] then act_on_nothing E project_loc else and_then (analyze_files E queries files acc) (act_on_files E project_loc))
      ?S ?Q"
    proof -
      have "turn procs (\<lambda>p. searching (navigator p)) (and_then (analyze_files E queries a acc) (act_on_files E b)) ?S ?Q" for a b
        by (rule turn_silent_then [OF silent(10)]) (rule turn_act_on_files [OF assms], rule nonempty)
      then show ?thesis by (cases x) (auto intro: turn_act_on_nothing assms)
    qed
  qed (rule nonempty)
  have search: "turn procs (\<lambda>p. navigator p = nav \<and> search_ok nav)
      (and_then (ensure_search_state_recorded E) (\<lambda>_. and_then (find_rust_files E) (\<lambda>(files, project_loc).
         if files = [] then act_on_nothing E project_loc else and_then (analyze_files E queries files acc) (act_on_files E project_loc))))
      (appended {first_commands nav} ?S)
      (\<lambda>x cs p. \<exists>ds. cs = first_commands nav @ ds \<and> iterated ds (navigator p))" for queries acc
    by (rule turn_and_then [OF turn_ensure_search [OF assms]]) (use nonempty in \<open>auto intro!: turn_mono [OF rest]\<close>)
  have "appended {first_commands nav} ?S \<noteq> {}" using nonempty unfolding appended_def by blast
  then show ?thesis unfolding maintainability_act_def
    by (intro turn_silent_then [where R = "\<lambda>n. n = nav \<and> search_ok nav"] silent search)
qed

text \<open>The state after turns in worlds that may have changed in between, of which some may have failed.\<close>

definition maint_after :: "('w, 'g, 'x) maint_env \<Rightarrow> 'w list \<Rightarrow> maintainability" where
  "maint_after E ws = fold (\<lambda>w p. fst (snd (maintainability_act E p w))) ws maintainability_default"

definition keeps :: "('w, 'a) maint \<Rightarrow> bool" where
  "keeps m \<longleftrightarrow> (\<forall>p w. search_ok (navigator p) \<longrightarrow> search_ok (navigator (fst (snd (m p w)))))"

lemma keeps_and_then:
  assumes "keeps m" and "\<And>x. keeps (f x)"
  shows "keeps (and_then m f)"
  unfolding keeps_def
proof (intro allI impI)
  fix p w
  assume p: "search_ok (navigator p)"
  obtain r p1 w1 where m: "m p w = (r, p1, w1)" by (metis prod_cases3)
  then have "search_ok (navigator p1)" using assms(1) p unfolding keeps_def by (metis fst_conv snd_conv)
  then show "search_ok (navigator (fst (snd (and_then m f p w))))"
    using assms(2) m by (cases r) (auto simp: and_then_def keeps_def)
qed

lemma keeps_same: "(\<And>p w. navigator (fst (snd (m p w))) = navigator p) \<Longrightarrow> keeps m"
  by (simp add: keeps_def)

lemma keeps_in_world: "keeps (in_world f)"
  by (rule keeps_same) (simp add: in_world_def split: prod.splits)

lemma analyze_files_state: "fst (snd (analyze_files E queries fs acc p w)) = p"
  by (induction fs arbitrary: acc w)
    (auto simp: analyze_file_def Let_def split: sum.splits prod.splits)

lemma keeps_navigate_step: "keeps (navigate_step E sha r)"
  unfolding keeps_def
proof (intro allI impI)
  fix p w
  assume k: "search_ok (navigator p)"
  show "search_ok (navigator (fst (snd (navigate_step E sha r p w))))"
  proof (cases "mt_search p")
    case (Some st)
    obtain r1 nav disk where b: "backpropagate_and_select (me_libm E) (me_disk_env E) sha r MCTS_MAX_DEPTH (sr_navigator st) (me_disk E w) =
      (r1, nav, disk)" by (metis prod_cases3)
    have "tree_ok (p_tree (sr_navigator st))" using k Some by (auto simp: navigator_def searching_def search_ok_def)
    then have "tree_ok (p_tree nav)"
      using search_step_spec [of "sr_navigator st" "me_libm E" "me_disk_env E" "BackpropagateAndSelect sha r MCTS_MAX_DEPTH" "me_disk E w"]
        b by (cases r1) auto
    then show ?thesis using b Some by (simp add: navigate_step_def navigator_def searching_def search_ok_def)
  qed (simp add: navigate_step_def navigator_def search_ok_def)
qed

lemma keeps_act: "keeps (maintainability_act E)"
proof -
  have same: "keeps count_action" "keeps (ensure_queries E)" "keeps (ensure_session_id_recorded E)" "keeps (find_rust_files E)"
    "keeps (log_info E message)" "keeps (maint_prompt t)" "keeps next_search_branch_name" "keeps (record_best_reward_commit c r)"
    "keeps (analyze_files E queries fs acc)" for message t c r queries fs acc
    by (rule keeps_same; auto simp: count_action_def ensure_queries_def ensure_cyclomatic_def ensure_halstead_def and_then_def
        ensure_session_id_recorded_def find_rust_files_def log_info_def maint_prompt_def next_search_branch_name_def
        record_best_reward_commit_def navigator_def analyze_files_state Let_def split: option.splits sum.splits prod.splits if_splits)+
  have start: "keeps (ensure_search_state_recorded E)"
    by (auto simp: keeps_def search_ok_def ensure_search_state_recorded_def navigator_def searching_def pending_tree_search_new_def with_tree_def
        mcts_new_def build_ok Let_def split: option.splits sum.splits prod.splits)
  have return: "keeps (\<lambda>p w. (Ok x, p, w))" for x :: 'b by (rule keeps_same) simp
  have commit: "keeps (commit_iteration_snapshot E mi)" for mi
    unfolding commit_iteration_snapshot_def
    by (intro keeps_and_then keeps_in_world) (rule keeps_same, simp add: in_world_def split: prod.splits)+
  have navigate: "keeps (navigate_reward_landscape E mi r loc s)" for mi r loc s
    unfolding navigate_reward_landscape_def Let_def case_prod_unfold checkout_selected_commit_def
    by (intro keeps_and_then keeps_in_world keeps_navigate_step same keeps_same) simp
  have "keeps (act_on_nothing E loc)" "keeps (act_on_files E loc acc)" for loc acc
    unfolding act_on_nothing_def act_on_files_def Let_def case_prod_unfold report_def
    by (intro keeps_and_then keeps_in_world commit navigate same)+
  then show ?thesis unfolding maintainability_act_def case_prod_unfold
    by (intro keeps_and_then same start) (auto intro: keeps_and_then same)
qed

lemma after_searching: "search_ok (navigator (maint_after E ws))"
proof (induction ws rule: rev_induct)
  case (snoc w ws)
  then show ?case using keeps_act [of E] by (simp add: maint_after_def keeps_def)
qed (simp add: maint_after_def maintainability_default_def navigator_def search_ok_def)

text \<open>C27. However the turns before went, a turn of the policy first asks for the head and the branch if it has no search
  tree yet, then stages and commits everything, asks for the head and the branch, and last checks out one commit
  on a branch. When it succeeds it has run all of these and the commit checked out is one the search tree knows;
  when it fails it has stopped somewhere in this order, so no checkout discards work that was not committed.\<close>

theorem commits_before_checkout:
  assumes "records_commands E procs" and "maintainability_act E (maint_after E ws) w = (res, p', w')"
  shows "\<exists>message branch commit.
    let cs = first_commands (navigator (maint_after E ws)) @
      [add_command, commit_command message, head_command, branch_command, checkout_command branch commit]
    in case res of
         Inl _ \<Rightarrow> \<exists>n. procs w' = procs w @ take n cs
       | Inr _ \<Rightarrow> procs w' = procs w @ cs \<and> commit \<in> tree_keys (navigator p')"
proof -
  let ?nav = "navigator (maint_after E ws)"
  obtain cs where cs: "cs \<in> appended {first_commands ?nav} (appended iteration_commands checkout_commands)"
    and c: "case res of Inl _ \<Rightarrow> \<exists>n. procs w' = procs w @ take n cs
      | Inr x \<Rightarrow> procs w' = procs w @ cs \<and> (\<exists>ds. cs = first_commands ?nav @ ds \<and> iterated ds (navigator p'))"
    using turn_act [OF assms(1), of ?nav] assms(2) after_searching [of E ws] unfolding turn_def by blast
  show ?thesis
  proof (cases res)
    case (Inl e)
    with cs c show ?thesis unfolding Let_def by (fastforce simp: appended_def iteration_commands_def checkout_commands_def)
  next
    case (Inr x)
    with c show ?thesis unfolding Let_def by (fastforce simp: iterated_def navigated_def iteration_commands_def)
  qed
qed

definition maint_demo :: "(command list, nat list, nat) maint_env" where
  "maint_demo =
     \<lparr>me_policy = \<lparr>pe_random_u64 = (\<lambda>w. (5, w)), pe_random_bytes = (\<lambda>n w. (replicate n 7, w)),
                   pe_report_reward = (\<lambda>r w. (Ok (), w)), pe_log = (\<lambda>l m w. w)\<rparr>,
      me_fs = (\<lambda>w. \<lparr>fe_preopens = [(FsDirectory NoIgnoreFile None [], ''/'')], fe_open = (\<lambda>n. Err ''''), fe_read = (\<lambda>n. Ok []),
                   fe_glob = \<lparr>gl_new = (\<lambda>s. Ok []), gl_as_str = (\<lambda>g. []), gl_matches = (\<lambda>g s. False)\<rparr>, fe_escape = id,
                   fe_regex = (\<lambda>c s. Ok 0), fe_is_match = (\<lambda>x s. False), fe_utf8_error = (\<lambda>b. [])\<rparr>),
      me_disk = (\<lambda>w. Map.empty), me_write_disk = (\<lambda>d w. w), me_disk_env = demo_disk (to_persisted demo_tree),
      me_libm = demo_libm, me_log2 = id, me_show = (\<lambda>n x. ''0''),
      me_run_process = (\<lambda>name args w. (Ok [0x63], w @ [(name, args)])), me_utf8_error = (\<lambda>b. []),
      me_compile = (\<lambda>l q w. (Ok 0, w)), me_parse = (\<lambda>l s w. (Ok 0, w)), me_query_exec = (\<lambda>q t s l w. (Ok [], w)),
      me_drop_tree = (\<lambda>t w. w)\<rparr>"

lemma maint_demo_records: "records_commands maint_demo id"
  by (simp add: records_commands_def maint_demo_def)


definition maint_demo_turn :: "(string + policy_action) \<times> maintainability \<times> command list" where
  "maint_demo_turn = maintainability_act maint_demo (maint_after maint_demo []) []"

theorem commits_before_checkout_witness:
  "\<exists>message branch commit.
    let cs = [head_command, branch_command, add_command, commit_command message, head_command, branch_command,
      checkout_command branch commit]
    in case maint_demo_turn of
         (Inl _, p', cs') \<Rightarrow> \<exists>n. cs' = take n cs
       | (Inr _, p', cs') \<Rightarrow> cs' = cs \<and> commit \<in> tree_keys (navigator p')"
proof -
  obtain res p' w' where t: "maint_demo_turn = (res, p', w')" by (metis prod_cases3)
  have "navigator (maint_after maint_demo []) = None" by (simp add: maint_after_def maintainability_default_def navigator_def)
  with commits_before_checkout [OF maint_demo_records t [unfolded maint_demo_turn_def]] show ?thesis
    unfolding t by (cases res) (simp_all add: first_commands_def Let_def)
qed

end
