(* ===== verification/Maintainability_Provider.thy ===== *)
theory Maintainability_Provider
  imports Treesitter_Props Maintainability_Props
begin

text \<open>
  The maintainability policy as a client of the tree-sitter provider: its queries are known, no tree
  is left, and what it measures is what the text holds.
\<close>

section \<open>The policy as a client\<close>

text \<open>A world in which the provider of trees and queries is this one, and nothing else touches it.\<close>

definition hosts_provider :: "find_iter \<Rightarrow> ('w, 'g, 'x) maint_env \<Rightarrow> ('w \<Rightarrow> provider) \<Rightarrow> bool" where
  "hosts_provider F E prov \<longleftrightarrow>
     (\<forall>lang q w. map_prod id prov (me_compile E lang q w) = query_compile lang q (prov w)) \<and>
     (\<forall>lang s w. map_prod id prov (me_parse E lang s w) = tree_parse lang s (prov w)) \<and>
     (\<forall>q t s l w. map_prod id prov (me_query_exec E q t s l w) = (query_exec F q t s l (prov w), prov w)) \<and>
     (\<forall>t w. prov (me_drop_tree E t w) = drop_tree t (prov w)) \<and>
     (\<forall>name args w. prov (snd (me_run_process E name args w)) = prov w) \<and>
     (\<forall>disk w. prov (me_write_disk E disk w) = prov w) \<and>
     (\<forall>r w. prov (snd (pe_report_reward (me_policy E) r w)) = prov w) \<and>
     (\<forall>l m w. prov (pe_log (me_policy E) l m w) = prov w) \<and>
     (\<forall>n w. prov (snd (pe_random_bytes (me_policy E) n w)) = prov w)"

text \<open>The two queries of the policy, as the provider knows them.\<close>

definition known_queries :: "32 word \<times> 32 word \<Rightarrow> provider \<Rightarrow> bool" where
  "known_queries ids v \<longleftrightarrow>
     hm_get (pv_queries v) (fst ids) = Some \<lparr>cq_language = ''rust'', cq_mode = Decision\<rparr> \<and>
     hm_get (pv_queries v) (snd ids) = Some \<lparr>cq_language = ''rust'', cq_mode = Halstead\<rparr>"

lemma query_modes: "query_mode_of CYCLOMATIC_QUERY = Some Decision" "query_mode_of HALSTEAD_QUERY = Some Halstead"
  by code_simp+


text \<open>The state in which a turn works: the queries \<open>ids\<close> are the policy's and known, and there is no tree.\<close>

definition ready :: "('w \<Rightarrow> provider) \<Rightarrow> 32 word \<times> 32 word \<Rightarrow> maintainability \<Rightarrow> 'w \<Rightarrow> bool" where
  "ready prov ids p w \<longleftrightarrow> mt_cyclomatic_query_id p = Some (fst ids) \<and> mt_halstead_query_id p = Some (snd ids) \<and>
     known_queries ids (prov w) \<and> pv_trees (prov w) = []"

definition steady :: "('w \<Rightarrow> provider) \<Rightarrow> 32 word \<times> 32 word \<Rightarrow> ('w, 'a) maint \<Rightarrow> bool" where
  "steady prov ids m \<longleftrightarrow> (\<forall>p w res p' w'. ready prov ids p w \<longrightarrow> m p w = (res, p', w') \<longrightarrow> ready prov ids p' w')"

lemma steady_and_then:
  assumes "steady prov ids m" and "\<And>x. steady prov ids (f x)"
  shows "steady prov ids (and_then m f)"
  unfolding steady_def
proof (intro allI impI)
  fix p w res p' w'
  assume r: "ready prov ids p w" and e: "and_then m f p w = (res, p', w')"
  obtain r1 p1 w1 where m: "m p w = (r1, p1, w1)" by (metis prod_cases3)
  then have "ready prov ids p1 w1" using assms(1) r unfolding steady_def by blast
  with assms(2) e m show "ready prov ids p' w'" by (cases r1) (auto simp: and_then_def steady_def)
qed

text \<open>A step that touches neither the provider nor the policy's queries.\<close>

definition aloof :: "('w \<Rightarrow> provider) \<Rightarrow> ('w, 'a) maint \<Rightarrow> bool" where
  "aloof prov m \<longleftrightarrow> (\<forall>p w res p' w'. m p w = (res, p', w') \<longrightarrow> prov w' = prov w \<and>
     mt_cyclomatic_query_id p' = mt_cyclomatic_query_id p \<and> mt_halstead_query_id p' = mt_halstead_query_id p)"

lemma aloof_steady: "aloof prov m \<Longrightarrow> steady prov ids m"
  unfolding steady_def
proof (intro allI impI)
  fix p w res p' w'
  assume "aloof prov m" "ready prov ids p w" "m p w = (res, p', w')"
  moreover from this have "prov w' = prov w" "mt_cyclomatic_query_id p' = mt_cyclomatic_query_id p"
    "mt_halstead_query_id p' = mt_halstead_query_id p" unfolding aloof_def by blast+
  ultimately show "ready prov ids p' w'" by (simp add: ready_def)
qed

lemma aloof_and_then: "aloof prov m \<Longrightarrow> (\<And>x. aloof prov (f x)) \<Longrightarrow> aloof prov (and_then m f)"
  unfolding aloof_def and_then_def by (auto split: prod.splits sum.splits)

lemma aloof_in_world: "(\<And>w. prov (snd (f w)) = prov w) \<Longrightarrow> aloof prov (in_world f)"
  unfolding aloof_def in_world_def by (auto split: prod.splits) (metis snd_conv)+

lemma hosts_run:
  assumes "hosts_provider F E prov"
  shows "me_run_process E name args w = (r, w') \<Longrightarrow> prov w' = prov w"
    and "pe_random_bytes (me_policy E) n w = (b, w') \<Longrightarrow> prov w' = prov w"
    and "prov (me_write_disk E disk w) = prov w" and "prov (pe_log (me_policy E) l m w) = prov w"
    and "prov (snd (pe_report_reward (me_policy E) x w)) = prov w"
    and "prov (snd (me_run_process E name args w)) = prov w"
  using assms by (metis hosts_provider_def snd_conv)+

lemma aloof_git:
  assumes "hosts_provider F E prov"
  shows "aloof prov (in_world (add_all git_repo_here (me_run_process E)))"
    and "aloof prov (in_world (commit_all u git_repo_here (me_run_process E) message b))"
    and "aloof prov (in_world (current_branch u git_repo_here (me_run_process E)))"
    and "aloof prov (in_world (switch_create_or_reset git_repo_here (me_run_process E) branch commit))"
    and "prov (snd (current_git_snapshot E w)) = prov w"
  using hosts_run(6) [OF assms]
  by (auto intro!: aloof_in_world simp: add_all_def commit_all_def current_branch_def head_sha_def switch_create_or_reset_def git_run_def
      current_git_snapshot_def snapshot_def in_repo_def dest!: hosts_run(1) [OF assms] split: prod.splits sum.splits)

lemma aloof_steps:
  assumes "hosts_provider F E prov"
  shows "aloof prov count_action" "aloof prov (ensure_session_id_recorded E)" "aloof prov (ensure_search_state_recorded E)"
    "aloof prov (find_rust_files E)" "aloof prov (report E r)" "aloof prov (log_info E message)"
    "aloof prov (maint_prompt t)" "aloof prov next_search_branch_name" "aloof prov (record_best_reward_commit c r)"
    "aloof prov (navigate_step E sha r)" "aloof prov (\<lambda>p w. (Ok x, p, w))"
proof -
  note hosts = hosts_run [OF assms]
  show "aloof prov (report E r)" unfolding report_def by (rule aloof_in_world) (rule hosts(5))
  have "current_git_snapshot E w = (res, w') \<Longrightarrow> prov w' = prov w" for w res w'
    using aloof_git(5) [OF assms, of w] by simp
  then show "aloof prov (ensure_search_state_recorded E)"
    by (auto simp: aloof_def ensure_search_state_recorded_def split: option.splits sum.splits prod.splits)
  show "aloof prov (ensure_session_id_recorded E)"
    by (auto simp: aloof_def ensure_session_id_recorded_def generate_session_id_def dest: hosts(2) split: option.splits prod.splits)
qed (auto simp: aloof_def count_action_def find_rust_files_def log_info_def maint_prompt_def next_search_branch_name_def
    record_best_reward_commit_def navigate_step_def hosts_run(3,4) [OF assms] Let_def split: option.splits sum.splits prod.splits if_splits)

lemma aloof_after_files:
  assumes "hosts_provider F E prov"
  shows "aloof prov (act_on_nothing E loc)" "aloof prov (act_on_files E loc acc)"
proof -
  note steps = aloof_steps [OF assms] aloof_git [OF assms]
  have same: "aloof prov (\<lambda>p. in_world (commit_all (me_utf8_error E) git_repo_here (me_run_process E)
      (commit_message E (mt_action_index p) mi) True) p)" for mi
    using steps(13) unfolding aloof_def by blast
  have commit: "aloof prov (commit_iteration_snapshot E mi)" for mi
    unfolding commit_iteration_snapshot_def
    by (intro aloof_and_then steps same)
  have navigate: "aloof prov (navigate_reward_landscape E mi r loc s)" for mi r loc s
    unfolding navigate_reward_landscape_def Let_def case_prod_unfold checkout_selected_commit_def
    by (intro aloof_and_then steps)
  show "aloof prov (act_on_nothing E loc)" "aloof prov (act_on_files E loc acc)"
    unfolding act_on_nothing_def act_on_files_def Let_def case_prod_unfold
    by (intro aloof_and_then steps commit navigate)+
qed

section \<open>Measuring with the provider\<close>

text \<open>The counters after captures, given by name and text.\<close>

definition count_named :: "string \<times> string \<Rightarrow> halstead_counts \<Rightarrow> halstead_counts" where
  "count_named nt h = count_capture \<lparr>cp_name = fst nt, cp_span = undefined, cp_text = snd nt\<rparr> h"

lemma count_capture_named: "count_capture = (\<lambda>c. count_named (cp_name c, cp_text c))"
  by (intro ext) (simp add: count_named_def count_capture_def)

lemma halstead_counts_captures:
  "halstead_counts_of ms = fold count_named (captures_of ms)
     \<lparr>hc_operators = 0, hc_operands = 0, hc_distinct_operators = {}, hc_distinct_operands = {}\<rparr>"
proof -
  have "fold (fold count_capture \<circ> qm_captures) ms h = fold count_named (captures_of ms) h" for h
    by (induction ms arbitrary: h) (simp_all add: captures_of_def fold_map comp_def count_capture_named)
  then show ?thesis by (simp add: halstead_counts_of_def)
qed

lemma count_operators:
  "hc_operators h + length ts \<le> u64_max \<Longrightarrow> fold count_named (map (Pair ''operator'') ts) h =
     h\<lparr>hc_operators := hc_operators h + length ts, hc_distinct_operators := hc_distinct_operators h \<union> set ts\<rparr>"
  by (induction ts arbitrary: h) (auto simp: count_named_def count_capture_def sat_add_exact)

lemma count_operands:
  "hc_operands h + length ts \<le> u64_max \<Longrightarrow> fold count_named (map (Pair ''operand'') ts) h =
     h\<lparr>hc_operands := hc_operands h + length ts, hc_distinct_operands := hc_distinct_operands h \<union> set ts\<rparr>"
  by (induction ts arbitrary: h) (auto simp: count_named_def count_capture_def sat_add_exact)

text \<open>What a text measures.\<close>

definition text_counts :: "find_iter \<Rightarrow> string \<Rightarrow> halstead_counts" where
  "text_counts F source =
     (let operators = found_texts F operator_regex source; operands = found_texts F operand_regex source
      in \<lparr>hc_operators = length operators, hc_operands = length operands,
          hc_distinct_operators = set operators, hc_distinct_operands = set operands\<rparr>)"

definition text_metrics :: "libm \<Rightarrow> (f64 \<Rightarrow> f64) \<Rightarrow> find_iter \<Rightarrow> string \<Rightarrow> file_metrics" where
  "text_metrics L log2 F source =
     (let loc = f_of_nat (text_line_count source);
          cyclomatic = f_add (Fin 1) (f_of_nat (length (F decision_regex source)));
          volume = halstead_volume_of log2 (text_counts F source)
      in \<lparr>fm_mi = compute_maintainability_index L volume cyclomatic loc, fm_cyclomatic = cyclomatic,
          fm_halstead_volume = volume, fm_loc = loc\<rparr>)"

lemma query_counts:
  assumes "finds F" and "length (F operator_regex source) + length (F operand_regex source) < 2 ^ 32"
  shows "halstead_counts_of (run_query F Halstead (2 ^ 32 - 1) source) = text_counts F source"
proof -
  let ?ops = "found_texts F operator_regex source" and ?opds = "found_texts F operand_regex source"
  have l: "length ?ops + length ?opds < 2 ^ 32" using assms(2) by (simp add: found_texts_def)
  then have "captures_of (run_query F Halstead (2 ^ 32 - 1) source) = map (Pair ''operator'') ?ops @ map (Pair ''operand'') ?opds"
    unfolding captures_of_query [OF assms(1)] mode_captures_def query_mode.case by (intro take_all) simp
  then show ?thesis using l by (simp add: halstead_counts_captures count_operators count_operands text_counts_def u64_max_def Let_def)
qed

lemma map_prod_call: "map_prod id f y = (a, b) \<Longrightarrow> \<exists>c. y = (a, c) \<and> f c = b"
  by (cases y) auto

lemma hosts_calls:
  assumes "hosts_provider F E prov"
  shows "tree_parse lang s (prov w) = (r, v) \<Longrightarrow> \<exists>w'. me_parse E lang s w = (r, w') \<and> prov w' = v"
    and "query_compile lang q (prov w) = (r', v) \<Longrightarrow> \<exists>w'. me_compile E lang q w = (r', w') \<and> prov w' = v"
    and "\<exists>w'. me_query_exec E i t s l w = (query_exec F i t s l (prov w), w') \<and> prov w' = prov w"
    and "prov (me_drop_tree E t w) = drop_tree t (prov w)"
  using assms by (auto simp: hosts_provider_def intro!: map_prod_call)

text \<open>Measuring a file with the provider of this repository never fails: the queries know the tree, which is
  dropped in the end, and the metrics are those of the text: the decisions, the operators and operands
  with their distinct texts, and the lines.\<close>

theorem files_are_measured:
  assumes "hosts_provider F E prov" and "finds F" and "ready prov ids p w" and "fs_read_text (me_fs E w) path = Inr source"
    and "length (F decision_regex source) < 2 ^ 32"
    and "length (F operator_regex source) + length (F operand_regex source) < 2 ^ 32"
  shows "\<exists>w'. analyze_file E ids path p w = (Ok (text_metrics (me_libm E) (me_log2 E) F source), p, w') \<and> ready prov ids p w'"
proof -
  let ?v = "prov w"
  obtain tree v1 where t: "tree_parse ''rust'' source ?v = (Ok tree, v1)" "pv_trees v1 = [(tree, \<lparr>pt_language = ''rust''\<rparr>)]"
    "pv_queries v1 = pv_queries ?v" using assms(3) by (auto simp: tree_parse_def ready_def Let_def)
  have k: "known_queries ids v1" using assms(3) t(3) by (simp add: ready_def known_queries_def)
  obtain w1 where w1: "me_parse E RUST_LANGUAGE source w = (Ok tree, w1)" "prov w1 = v1"
    using hosts_calls(1) [OF assms(1) t(1)] by (auto simp: RUST_LANGUAGE_def)
  have q: "query_exec F i tree source None v1 = Ok (run_query F mode (2 ^ 32 - 1) source)"
    if "hm_get (pv_queries v1) i = Some \<lparr>cq_language = ''rust'', cq_mode = mode\<rparr>" for i mode
    using that t(2) by (simp add: query_exec_def unsigned_minus_1_eq_mask mask_eq_exp_minus_1)
  have exec: "\<exists>w'. me_query_exec E i tree source None u = (Ok (run_query F mode (2 ^ 32 - 1) source), w') \<and> prov w' = v1"
    if "hm_get (pv_queries v1) i = Some \<lparr>cq_language = ''rust'', cq_mode = mode\<rparr>" "prov u = v1" for i mode u
    using hosts_calls(3) [OF assms(1), of i tree source None u] q [OF that(1)] that(2) by simp
  obtain w2 where w2: "me_query_exec E (fst ids) tree source None w1 = (Ok (run_query F Decision (2 ^ 32 - 1) source), w2)" "prov w2 = v1"
    using exec [of "fst ids" Decision w1] k w1(2) by (auto simp: known_queries_def)
  obtain w3 where w3: "me_query_exec E (snd ids) tree source None w2 = (Ok (run_query F Halstead (2 ^ 32 - 1) source), w3)" "prov w3 = v1"
    using exec [of "snd ids" Halstead w2] k w2(2) by (auto simp: known_queries_def)
  have "length (run_query F Decision (2 ^ 32 - 1) source) = length (F decision_regex source)"
    using assms(5) by (simp add: run_query_take)
  then have "analyze_file E ids path p w = (Ok (text_metrics (me_libm E) (me_log2 E) F source), p, me_drop_tree E tree w3)"
    using assms(4) w1 w2 w3 query_counts [OF assms(2,6)] by (simp add: analyze_file_def text_metrics_def Let_def)
  moreover have "prov (me_drop_tree E tree w3) = drop_tree tree v1" using hosts_calls(4) [OF assms(1)] w3(2) by simp
  ultimately show ?thesis using assms(3) t k by (simp add: ready_def drop_tree_def known_queries_def)
qed

section \<open>Turns with the provider\<close>

lemma steady_analyze_file:
  assumes "hosts_provider F E prov" and "finds F"
  shows "steady prov ids (analyze_file E ids path)"
  unfolding steady_def
proof (intro allI impI)
  fix p w res p' w'
  assume r: "ready prov ids p w" and e: "analyze_file E ids path p w = (res, p', w')"
  show "ready prov ids p' w'"
  proof (cases "fs_read_text (me_fs E w) path")
    case (Inl e')
    with e r show ?thesis by (simp add: analyze_file_def)
  next
    case (Inr source)
    obtain tree v1 where t: "tree_parse ''rust'' source (prov w) = (Ok tree, v1)" "pv_trees v1 = [(tree, \<lparr>pt_language = ''rust''\<rparr>)]"
      "pv_queries v1 = pv_queries (prov w)" using r by (auto simp: tree_parse_def ready_def Let_def)
    obtain w1 where w1: "me_parse E RUST_LANGUAGE source w = (Ok tree, w1)" "prov w1 = v1"
      using hosts_calls(1) [OF assms(1) t(1)] by (auto simp: RUST_LANGUAGE_def)
    have exec: "\<exists>ms w'. me_query_exec E i tree source None u = (Ok ms, w') \<and> prov w' = v1"
      if "i \<in> {fst ids, snd ids}" "prov u = v1" for i u
      using hosts_calls(3) [OF assms(1), of i tree source None u] that t(2,3) r by (auto simp: query_exec_def ready_def known_queries_def)
    obtain ms2 w2 where w2: "me_query_exec E (fst ids) tree source None w1 = (Ok ms2, w2)" "prov w2 = v1" using exec w1(2) by blast
    obtain ms3 w3 where w3: "me_query_exec E (snd ids) tree source None w2 = (Ok ms3, w3)" "prov w3 = v1" using exec w2(2) by blast
    have "p' = p" "w' = me_drop_tree E tree w3" using e Inr w1 w2 w3 by (auto simp: analyze_file_def Let_def)
    then show ?thesis using r t w3(2) hosts_calls(4) [OF assms(1)] by (simp add: ready_def drop_tree_def known_queries_def)
  qed
qed

lemma steady_analyze_files:
  assumes "hosts_provider F E prov" and "finds F"
  shows "steady prov ids (analyze_files E ids fs acc)"
proof (induction fs arbitrary: acc)
  case (Cons f fs)
  have "analyze_files E ids (f # fs) acc = and_then (analyze_file E ids (pm_path f)) (\<lambda>m. analyze_files E ids fs (add_metrics m acc))"
    by (intro ext) (simp add: and_then_def)
  then show ?case by (simp add: steady_and_then steady_analyze_file [OF assms] Cons.IH)
qed (simp add: steady_def)

text \<open>Either nothing was compiled yet, or a turn can work; in both cases there is no tree.\<close>

definition provider_clean :: "('w \<Rightarrow> provider) \<Rightarrow> maintainability \<Rightarrow> 'w \<Rightarrow> bool" where
  "provider_clean prov p w \<longleftrightarrow>
     pv_trees (prov w) = [] \<and> mt_cyclomatic_query_id p = None \<and> mt_halstead_query_id p = None \<or> (\<exists>ids. ready prov ids p w)"

lemma ensure_queries_ready:
  assumes "hosts_provider F E prov" and "provider_clean prov p w"
  shows "\<exists>ids p' w'. ensure_queries E p w = (Ok ids, p', w') \<and> ready prov ids p' w'"
proof (cases "mt_cyclomatic_query_id p")
  case (Some c)
  then obtain ids where "ready prov ids p w" using assms(2) by (auto simp: provider_clean_def)
  then show ?thesis by (auto simp: ensure_queries_def ensure_cyclomatic_def ensure_halstead_def and_then_def ready_def)
next
  case None
  with assms(2) have n: "pv_trees (prov w) = []" "mt_halstead_query_id p = None" by (auto simp: provider_clean_def ready_def)
  let ?v = "prov w" and ?c = "pv_next_query_id (prov w)"
  let ?v1 = "?v\<lparr>pv_next_query_id := ?c + 1, pv_queries := hm_insert ?c \<lparr>cq_language = ''rust'', cq_mode = Decision\<rparr> (pv_queries ?v)\<rparr>"
  let ?v2 = "?v1\<lparr>pv_next_query_id := ?c + 1 + 1,
    pv_queries := hm_insert (?c + 1) \<lparr>cq_language = ''rust'', cq_mode = Halstead\<rparr> (pv_queries ?v1)\<rparr>"
  have "query_compile RUST_LANGUAGE CYCLOMATIC_QUERY ?v = (Ok ?c, ?v1)"
    by (simp add: query_compile_def query_modes Let_def RUST_LANGUAGE_def)
  then obtain w1 where w1: "me_compile E RUST_LANGUAGE CYCLOMATIC_QUERY w = (Ok ?c, w1)" "prov w1 = ?v1"
    using hosts_calls(2) [OF assms(1)] by blast
  have "query_compile RUST_LANGUAGE HALSTEAD_QUERY (prov w1) = (Ok (?c + 1), ?v2)"
    unfolding w1(2) by (simp add: query_compile_def query_modes Let_def RUST_LANGUAGE_def)
  then obtain w2 where w2: "me_compile E RUST_LANGUAGE HALSTEAD_QUERY w1 = (Ok (?c + 1), w2)" "prov w2 = ?v2"
    using hosts_calls(2) [OF assms(1)] by blast
  have "?c + 1 \<noteq> ?c" by simp
  then show ?thesis using None n w1(1) w2
    by (simp add: ensure_queries_def ensure_cyclomatic_def ensure_halstead_def and_then_def ready_def known_queries_def hm_get_insert)
qed

lemma act_keeps_clean:
  assumes "hosts_provider F E prov" and "finds F" and "provider_clean prov p w" and "maintainability_act E p w = (res, p', w')"
  shows "\<exists>ids. ready prov ids p' w'"
proof -
  note steps = aloof_steps [OF assms(1), THEN aloof_steady] aloof_after_files [OF assms(1), THEN aloof_steady] steady_analyze_files [OF assms(1,2)]
  obtain p0 where p0: "count_action p w = (Ok (), p0, w)" "provider_clean prov p0 w"
    using assms(3) by (simp add: count_action_def provider_clean_def ready_def)
  obtain ids p1 w1 where q: "ensure_queries E p0 w = (Ok ids, p1, w1)" "ready prov ids p1 w1"
    using ensure_queries_ready [OF assms(1) p0(2)] by blast
  let ?rest = "and_then (ensure_session_id_recorded E) (\<lambda>_. and_then (ensure_search_state_recorded E) (\<lambda>_.
     and_then (find_rust_files E) (\<lambda>(files, project_loc).
       if files = [] then act_on_nothing E project_loc
       else and_then (analyze_files E ids files
                \<lparr>ms_files = 0, ms_mi = Fin 0, ms_cyclomatic = Fin 0, ms_halstead_volume = Fin 0, ms_loc = Fin 0\<rparr>)
              (act_on_files E project_loc))))"
  have "?rest p1 w1 = (res, p', w')" using p0(1) q(1) assms(4) by (simp add: maintainability_act_def and_then_def)
  moreover have "steady prov ids ?rest"
    unfolding case_prod_unfold by (intro steady_and_then steps) (auto intro!: steady_and_then steps)
  ultimately show ?thesis using q(2) unfolding steady_def by blast
qed


text \<open>A world that is the provider itself, with one file whose text is one letter.\<close>

definition provided_demo :: "(provider, nat list, nat) maint_env" where
  "provided_demo =
     \<lparr>me_policy = \<lparr>pe_random_u64 = (\<lambda>w. (5, w)), pe_random_bytes = (\<lambda>n w. (replicate n 7, w)),
                   pe_report_reward = (\<lambda>r w. (Ok (), w)), pe_log = (\<lambda>l m w. w)\<rparr>,
      me_fs = (\<lambda>w. \<lparr>fe_preopens = [(FsDirectory NoIgnoreFile None [(''a'', FsFile (Ok [0x61]))], ''/'')],
                   fe_open = (\<lambda>n. Ok (FsFile (Ok [0x61]))), fe_read = (\<lambda>n. Ok [0x61]),
                   fe_glob = \<lparr>gl_new = (\<lambda>s. Ok []), gl_as_str = (\<lambda>g. []), gl_matches = (\<lambda>g s. True)\<rparr>, fe_escape = id,
                   fe_regex = (\<lambda>c s. Ok 0), fe_is_match = (\<lambda>x s. False), fe_utf8_error = (\<lambda>b. [])\<rparr>),
      me_disk = (\<lambda>w. Map.empty), me_write_disk = (\<lambda>d w. w), me_disk_env = demo_disk (to_persisted demo_tree),
      me_libm = demo_libm, me_log2 = id, me_show = (\<lambda>n x. ''0''),
      me_run_process = (\<lambda>name args w. (Ok [0x63], w)), me_utf8_error = (\<lambda>b. []),
      me_compile = query_compile, me_parse = tree_parse,
      me_query_exec = (\<lambda>q t s l w. (query_exec whole_text q t s l w, w)), me_drop_tree = drop_tree\<rparr>"

lemma provided_demo_hosts: "hosts_provider whole_text provided_demo id"
  by (simp add: hosts_provider_def provided_demo_def prod.map_id)

definition compiled_demo :: provider where
  "compiled_demo = \<lparr>pv_next_tree_id = 1, pv_next_query_id = 3, pv_trees = [],
     pv_queries = [(1, \<lparr>cq_language = ''rust'', cq_mode = Decision\<rparr>), (2, \<lparr>cq_language = ''rust'', cq_mode = Halstead\<rparr>)]\<rparr>"

definition compiled_policy :: maintainability where
  "compiled_policy = maintainability_default\<lparr>mt_cyclomatic_query_id := Some 1, mt_halstead_query_id := Some 2\<rparr>"

theorem files_are_measured_witness:
  "\<exists>w'. analyze_file provided_demo (1, 2) ''a'' compiled_policy compiled_demo =
     (Ok (text_metrics demo_libm id whole_text ''a''), compiled_policy, w') \<and> pv_trees w' = []"
proof -
  have r: "ready id (1, 2) compiled_policy compiled_demo"
    by (simp add: ready_def known_queries_def compiled_policy_def compiled_demo_def)
  have f: "fs_read_text (me_fs provided_demo compiled_demo) ''a'' = Inr ''a''" by code_simp
  from files_are_measured [OF provided_demo_hosts whole_text_finds, of "(1, 2)" compiled_policy compiled_demo "''a''" "''a''"] r f
  show ?thesis by (auto simp: whole_text_def provided_demo_def ready_def)
qed


end
