(* ===== verification/Spec2Isabelle.thy ===== *)
theory Spec2Isabelle
  imports Server_System Server_Main Agent_Room Pake_Bridge Mcts_Select Sdk_Fs Sdk_Git Sdk_Terminal Build_Support Cli_Args Box_View Eye_Props
    Av_Playback Av_Shader Number_Game Always_Wait Maintainability_Provider
begin

text \<open>
  Verification development for the repository \<^verbatim>\<open>Man-in-the-Box\<close>, a runtime that lets a WebAssembly policy
  watch and drive a program in a pseudo terminal, report rewards to remote viewers, and search.

  \<^bold>\<open>The program and its parts.\<close> The command line (\<^verbatim>\<open>src/src/main.rs\<close>) starts the host (\<^verbatim>\<open>mitb-host\<close>): a
  pseudo terminal with the child, whose output is kept in a transcript, and a loop that polls the
  policy and writes the inputs it asks for. The policy is a component built with the SDK (\<^verbatim>\<open>mitb-sdk\<close>),
  which may start processes, read files, make HTTP requests, log, and search with a tree that is kept
  on disk. The window (\<^verbatim>\<open>mitb-box\<close>) shows the child's output with its own terminal emulator. With an
  address and a secret code, the host also runs an agent, which meets its viewers (zookeepers) in a
  room of the signalling server (\<^verbatim>\<open>mitb-server\<close>): both sides prove knowledge of the code by a password
  authenticated key exchange (\<^verbatim>\<open>mitb-pake\<close>), the server relays their signals, and rewards go over direct
  data channels.

  \<^bold>\<open>Conventions\<close> (theory \<open>Prelude\<close>). A \<^verbatim>\<open>Result\<close> is a sum with \<open>Err\<close> on the left, a \<^verbatim>\<open>HashMap\<close> an association list with
  distinct keys, a \<^verbatim>\<open>String\<close> the list of its UTF-8 bytes, an instant or duration a number of
  nanoseconds. Machine integers are words, or natural numbers with the saturation or wrap-around
  written out. A panic is the value \<open>None\<close> of an option, so that its absence is a theorem. Concurrent
  code is cut at the points where it awaits, and any sequence of the pieces is a run.

  \<^bold>\<open>The theories, and what they model.\<close>

  Signalling server, \<^verbatim>\<open>mitb-server/src\<close>:
  \<^item> \<open>Server_State\<close>: the state behind the lock and its operations, \<^verbatim>\<open>app_state.rs\<close>: \<^verbatim>\<open>register\<close>, \<^verbatim>\<open>unregister\<close>,
    \<^verbatim>\<open>store_room\<close>, \<^verbatim>\<open>forward_signal\<close>, the rate limiter, expiry. \<open>Server_Inv\<close>: the invariant \<open>state_ok\<close>, one
    preservation lemma per operation (collection \<open>inv_intros\<close>), and that choosing an identifier ends.
  \<^item> \<open>Rate_Limit\<close>: the limiter refines a sliding window (locale \<open>sliding_window\<close>, interpreted for
    authentication attempts and for signals). \<open>Server_Rooms\<close>: what each operation does to rooms.
  \<^item> \<open>Server_Auth\<close>: the handshake of a socket, \<^verbatim>\<open>ws_auth.rs\<close>, as a machine stepped by frames, with the
    operations of other clients in between. \<open>Server_Runtime\<close>, \<open>Server_System\<close>: the life of a connection,
    \<^verbatim>\<open>ws_runtime.rs\<close>, and all connections together. \<open>Server_Main\<close>: the start of the server, \<^verbatim>\<open>main.rs\<close>: its address and
    threads, and the order of its calls of the platform.

  Key exchange, \<^verbatim>\<open>mitb-pake/src/lib.rs\<close>:
  \<^item> \<open>Pake\<close>: the client and server sessions. \<open>Pake_Bridge\<close>: the JSON bridge of the WebAssembly client.

  Host, \<^verbatim>\<open>mitb-host/src\<close>:
  \<^item> \<open>Agent_Auth\<close>: the agent's handshake, \<^verbatim>\<open>agent/auth.rs\<close>, and its composition with the server's.
    \<open>Agent_Runtime\<close>: reports, peers, the session and the reconnecting loop, \<^verbatim>\<open>agent.rs\<close> and
    \<^verbatim>\<open>agent/signaling*.rs\<close>. \<open>Agent_Room\<close>: the agent's peers against the server's rooms.
  \<^item> \<open>Vte\<close>: the events of the \<^verbatim>\<open>vte\<close> parser, which is a parameter, and the loops over rows and cells.
    \<open>Pty_Terminal\<close>: the cursor tracker, \<^verbatim>\<open>terminal_state.rs\<close>. \<open>Transcript\<close>: \<^verbatim>\<open>transcript.rs\<close> and \<^verbatim>\<open>pty_io.rs\<close>.
  \<^item> \<open>Stream_Bridge\<close>: the pipes between component streams and child processes, \<^verbatim>\<open>stream_bridge.rs\<close> (locale
    \<open>byte_channel\<close>, interpreted as a bounded queue). \<open>Child_Process\<close>: spawning, waiting and killing, \<^verbatim>\<open>lib.rs\<close>.
    \<open>Policy_Log\<close>: \<^verbatim>\<open>policy_log.rs\<close>. \<open>Host_Runtime\<close>: the main loop, \<^verbatim>\<open>runtime.rs\<close>. \<open>Cli\<close>, \<open>Cli_Args\<close>: \<^verbatim>\<open>src/src/main.rs\<close>,
    the checks of the options and the table given to the argument parser.

  SDK, \<^verbatim>\<open>mitb-sdk/src\<close>:
  \<^item> \<open>Rounding\<close>: rounding to binary floating point. \<open>F64\<close>: IEEE 754 double arithmetic over the rationals, as executable as its use needs. \<open>Mcts\<close>, \<open>Mcts_Inv\<close>,
    \<open>Mcts_Select\<close>: the search tree, \<^verbatim>\<open>search/mcts.rs\<close>, its invariant, its statistics.
  \<^item> \<open>Utf8\<close>: decoding as the standard library does it. \<open>Sdk_Util\<close>, \<open>Sdk_Http\<close>: \<^verbatim>\<open>lib.rs\<close>. \<open>Sdk_Fs\<close>: \<^verbatim>\<open>fs.rs\<close>. \<open>Sdk_Git\<close>:
    \<^verbatim>\<open>git.rs\<close>. \<open>Sdk_Terminal\<close>: what the prelude of \<^verbatim>\<open>lib.rs\<close> offers for the terminal and the standard streams, over the host's
    imports. \<open>Build_Support\<close>: \<^verbatim>\<open>build_support.rs\<close>,
    \<^verbatim>\<open>mitb-wit\<close> and the build scripts.

  Viewer, \<^verbatim>\<open>mitb-box/src\<close>:
  \<^item> \<open>Box_Terminal\<close>: the emulator, \<^verbatim>\<open>terminal.rs\<close>. \<open>Box_Terminal_Inv\<close>: rows of full length in which
    double-width cells are paired, and that every event keeps them. \<open>Box_Terminal_Props\<close>: the rest
    (locales \<open>screen\<close> and \<open>performer\<close>). \<open>Box_App\<close>: the window's state, messages and stream,
    \<^verbatim>\<open>lib.rs\<close> and \<^verbatim>\<open>av.rs\<close>; \<open>Box_View\<close>: its view as a tree of widgets.
  \<^item> \<open>F32\<close>: IEEE 754 single arithmetic. \<open>Eye\<close>, \<open>Eye_Draw\<close>: the animated eye, \<^verbatim>\<open>animated_eye.rs\<close>, its state and
    what it draws. \<open>Eye_Props\<close>: that it closes and fades as it should, and is never drawn from a stale cache.

  Media player, \<^verbatim>\<open>mitb-av/src\<close>:
  \<^item> \<open>Av_Frames\<close>: pictures, from the decoder's planes to the shader's texture, \<^verbatim>\<open>yuv.rs\<close>, \<^verbatim>\<open>program.rs\<close>,
    \<^verbatim>\<open>program/pipeline.rs\<close>, \<^verbatim>\<open>lib.rs\<close>. \<open>Av_Shader\<close>: the uniforms, vertices and draw calls of the pipeline in single precision. \<open>Av_Player\<close>: tracks, samples and the clock, \<open>Av_Playback\<close>: playing a file, \<^verbatim>\<open>lib.rs\<close>.

  Example policies, \<^verbatim>\<open>mitb-examples\<close>:
  \<^item> \<open>Always_Wait\<close>: the policy that only looks on, \<^verbatim>\<open>always-wait\<close>.
  \<^item> \<open>Policy_Env\<close>: prompts, rewards and log lines of the SDK's prelude, over a world. \<open>Number_Game\<close>: the game,
    \<^verbatim>\<open>number-game\<close>. \<open>Maintainability\<close>, \<open>Maintainability_Props\<close>: the policy that searches the commits of a
    repository, \<^verbatim>\<open>maintainability\<close>, as a client of the SDK's files, git and search; what commands a turn runs is
    proved with a small calculus of turns (\<open>turn\<close>, \<open>silent\<close>). \<open>Treesitter\<close>, \<open>Treesitter_Props\<close>: the component
    that offers parsing and queries, \<^verbatim>\<open>treesitter-provider\<close>; \<open>Maintainability_Provider\<close>: the policy as its
    client.

  \<^bold>\<open>What the groups of lemmas show.\<close> Each component has a well-formedness predicate (\<open>state_ok\<close>, \<open>sys_ok\<close>,
  \<open>tree_ok\<close>, \<open>stats_ok\<close>, \<open>term_ok\<close>, \<open>child_ok\<close>, \<open>stack_ok\<close>) that its initial state has and every operation
  keeps; properties of runs follow by induction on the run. The optimised or incremental code is
  compared with what it stands for: the rate limiter with windows of all events, the transcript with
  the end of the whole output, the pipe with a queue, the two terminals with each other, scrolling
  with shifting lists, the search for files with the rules of each directory. Where components meet,
  the composition is a theorem: an agent's handshake with the server's, the agent's peers with the
  server's room, the SDK's log lines with the host's log, and, through the transcript, the poll of a
  policy and the writing of inputs, the child's screen with the child's input; and the window's view with the transcript,
  so that the policy and the viewer see the same output.

  \<^bold>\<open>Parameters and hypotheses.\<close> What is not under \<^verbatim>\<open>src\<close> is an argument: the OPAQUE protocol, hashing, base64
  and JSON codecs, randomness, the parser, the width of characters, the logarithm, regular expressions
  and glob patterns, WebRTC, channels, the device, the operating system's processes and files, the
  component runtime. What is assumed of one is named (\<open>opaque_correct\<close>, \<open>opaque_codec_laws\<close>, \<open>width_law\<close>, \<open>ln_law\<close>,
  \<open>device_works\<close>, \<open>ended\<close>, \<open>byte_channel\<close>, \<open>keeps_rewards\<close>, \<open>records_commands\<close>, \<open>stays_open\<close>, \<open>opus_fills\<close>, \<open>incremental\<close>, \<open>finds\<close>, \<open>hosts_provider\<close>, \<open>caches\<close>, \<open>host_syntax\<close>, \<open>accepts\<close>), is documented behaviour, and is met by a concrete function in the
  witness of each property that uses it.

  \<^bold>\<open>Bounds and termination.\<close> Loops over data are structural or have a measure; no definition has fuel. The
  search for an unused client identifier is a partial function, and that it returns is part of
  \<open>Server_Inv\<close>: the counter passes more names than there are clients before it repeats. The loops that
  wait (connections, ticks, waits for a child) run over the events that happened, so a run is as
  long as its list of events; that waiting ends is a statement about such runs.
\<close>

text \<open>
  \<^bold>\<open>Not modelled.\<close> The layout of the window's widgets and the creation of graphics objects (\<^verbatim>\<open>Pipeline::new\<close> of
  \<^verbatim>\<open>mitb-av/src/program/pipeline.rs\<close>) are calls of the graphics library, and the shader is in another language. Setting up logging,
  the engine and linker of the component runtime (\<^verbatim>\<open>runtime.rs\<close>, \<^verbatim>\<open>create_engine\<close>, \<^verbatim>\<open>create_linker\<close>), the peer connection library's
  objects, and the generated bindings only call libraries. \<^verbatim>\<open>mitb-server/src/ws_public.rs\<close> is not part of the build.
  The browser client is not Rust code.
\<close>

end
